(* ===== verification/Prelude.thy ===== *)
theory Prelude
  imports Main "HOL-Library.Word"
begin

text \<open>
  Shared vocabulary of the development: the machine types of the C sources
  (\<^verbatim>\<open>__u8\<close> to \<^verbatim>\<open>__u64\<close> of \<^verbatim>\<open>bpf/vmlinux.h\<close>), the little-endian representation
  of integers as byte lists on the x86 target of \<^verbatim>\<open>bpf/Makefile\<close>, overwriting a
  window of a byte buffer (the effect of \<^verbatim>\<open>memcpy\<close> and of the read helpers on a C array),
  and NUL-terminated strings in fixed-size buffers. The two collections \<open>layout\<close>
  and \<open>hook_simps\<close> gather the size facts of the C types and the equations that the proofs
  about the hooks rewrite with.
\<close>

unbundle bit_operations_syntax

section \<open>Types and collections\<close>

type_synonym u8 = "8 word"
type_synonym u16 = "16 word"
type_synonym u32 = "32 word"
type_synonym u64 = "64 word"
type_synonym byte = "8 word"
type_synonym addr = "64 word"

named_theorems layout \<open>sizes and alignments of the C types\<close>
named_theorems hook_simps \<open>equations unfolded in proofs about the hooks\<close>

section \<open>Little-endian integers\<close>

primrec le_nat :: "byte list \<Rightarrow> nat" where
  "le_nat [] = 0"
| "le_nat (b # bs) = unat b + 256 * le_nat bs"

primrec le_bytes :: "nat \<Rightarrow> nat \<Rightarrow> byte list" where
  "le_bytes 0 k = []"
| "le_bytes (Suc n) k = of_nat (k mod 256) # le_bytes n (k div 256)"

definition le_word :: "byte list \<Rightarrow> 'a::len word" where
  "le_word bs = of_nat (le_nat bs)"

definition word_bytes :: "nat \<Rightarrow> 'a::len word \<Rightarrow> byte list" where
  "word_bytes n w = le_bytes n (unat w)"

lemma le_word_Nil [simp]: "le_word [] = 0"
  by (simp add: le_word_def)

lemma le_nat_replicate_0 [simp]: "le_nat (replicate n 0) = 0"
  by (induction n) auto

lemma le_word_replicate_0 [simp]: "le_word (replicate n 0) = 0"
  by (simp add: le_word_def)

lemma length_le_bytes [simp]: "length (le_bytes n k) = n"
  by (induction n arbitrary: k) auto

lemma length_word_bytes [simp]: "length (word_bytes n w) = n"
  by (simp add: word_bytes_def)

lemma unat_byte_mod: "unat (of_nat (k mod 256) :: byte) = k mod 256"
  by (simp add: unat_of_nat)

lemma le_nat_le_bytes: "le_nat (le_bytes n k) = k mod 256 ^ n"
proof (induction n arbitrary: k)
  case 0
  then show ?case by simp
next
  case (Suc n)
  have "k mod 256 ^ Suc n = k mod 256 + 256 * (k div 256 mod 256 ^ n)"
    by (simp add: mod_mult2_eq)
  with Suc show ?case by (simp add: unat_byte_mod)
qed

lemma le_nat_bound: "le_nat bs < 256 ^ length bs"
proof (induction bs)
  case Nil
  then show ?case by simp
next
  case (Cons b bs)
  have "unat b < 256" using unsigned_less [of b] by simp
  with Cons show ?case by simp
qed

lemma le_bytes_le_nat: "length bs = n \<Longrightarrow> le_bytes n (le_nat bs) = bs"
proof (induction bs arbitrary: n)
  case Nil
  then show ?case by simp
next
  case (Cons b bs)
  have "unat b < 256" using unsigned_less [of b] by simp
  with Cons show ?case by (cases n) auto
qed

lemma le_nat_inj: "length xs = length ys \<Longrightarrow> le_nat xs = le_nat ys \<Longrightarrow> xs = ys"
  by (metis le_bytes_le_nat)

text \<open>A word of \<open>8 * n\<close> bits survives being stored as \<open>n\<close> bytes and loaded again.\<close>

lemma le_word_word_bytes:
  fixes w :: "'a::len word"
  assumes "LENGTH('a) = 8 * n"
  shows "le_word (word_bytes n w) = w"
proof -
  have "(2::nat) ^ LENGTH('a) = 256 ^ n"
    using assms by (simp add: power_mult)
  then have "unat w < 256 ^ n"
    by (metis unsigned_less)
  then show ?thesis
    by (simp add: le_word_def word_bytes_def le_nat_le_bytes)
qed

lemma word_bytes_le_word:
  assumes "LENGTH('a) = 8 * n" and "length bs = n"
  shows "word_bytes n (le_word bs :: 'a::len word) = bs"
proof -
  have "(2::nat) ^ LENGTH('a) = 256 ^ n"
    using assms(1) by (simp add: power_mult)
  then have "unat (le_word bs :: 'a word) = le_nat bs"
    using le_nat_bound [of bs] assms(2) by (simp add: le_word_def unat_of_nat)
  then show ?thesis
    using assms(2) by (simp add: word_bytes_def le_bytes_le_nat)
qed

section \<open>Writing into a buffer\<close>

text \<open>\<open>put off xs buf\<close> is the buffer after the bytes \<open>xs\<close> were stored at offset \<open>off\<close>.
  Positions outside the buffer are not created: a write past the end is cut off, and the
  bounds lemmas of the components show that it never happens.\<close>

definition put :: "nat \<Rightarrow> 'a list \<Rightarrow> 'a list \<Rightarrow> 'a list" where
  "put off xs buf = take (length buf) (take off buf @ xs @ drop (off + length xs) buf)"

definition window :: "nat \<Rightarrow> nat \<Rightarrow> 'a list \<Rightarrow> 'a list" where
  "window off n buf = take n (drop off buf)"

lemma length_put [simp]: "length (put off xs buf) = length buf"
  by (auto simp: put_def)

lemma length_window: "off + n \<le> length buf \<Longrightarrow> length (window off n buf) = n"
  by (simp add: window_def)

lemma put_in_bounds:
  "off + length xs \<le> length buf \<Longrightarrow>
   put off xs buf = take off buf @ xs @ drop (off + length xs) buf"
  by (simp add: put_def)

lemma nth_put:
  assumes "off + length xs \<le> length buf" and "i < length buf"
  shows "put off xs buf ! i =
    (if off \<le> i \<and> i < off + length xs then xs ! (i - off) else buf ! i)"
  using assms by (auto simp: put_in_bounds nth_append min_def)

lemma window_put_same: "off + length xs \<le> length buf \<Longrightarrow> window off (length xs) (put off xs buf) = xs"
  by (simp add: put_in_bounds window_def)

lemma window_put_other:
  assumes "off + length xs \<le> length buf"
    and "o' + n \<le> off \<or> off + length xs \<le> o'"
  shows "window o' n (put off xs buf) = window o' n buf"
proof (rule nth_equalityI)
  show "length (window o' n (put off xs buf)) = length (window o' n buf)"
    by (simp add: window_def)
next
  fix i assume "i < length (window o' n (put off xs buf))"
  then have "i < n" "o' + i < length buf"
    by (auto simp: window_def)
  with assms show "window o' n (put off xs buf) ! i = window o' n buf ! i"
    by (auto simp: window_def nth_put)
qed

section \<open>NUL-terminated strings in buffers\<close>

text \<open>\<open>c_str buf\<close> is the string a C reader sees: the bytes before the first NUL.
  \<open>nul_pad n s\<close> is the string \<open>s\<close> in a zeroed buffer of \<open>n\<close> bytes.\<close>

definition c_str :: "byte list \<Rightarrow> byte list" where
  "c_str buf = takeWhile (\<lambda>b. b \<noteq> 0) buf"

definition nul_pad :: "nat \<Rightarrow> byte list \<Rightarrow> byte list" where
  "nul_pad n s = s @ replicate (n - length s) 0"

definition nul_free :: "byte list \<Rightarrow> bool" where
  "nul_free s \<longleftrightarrow> 0 \<notin> set s"

lemma nul_free_Nil [simp]: "nul_free []"
  by (simp add: nul_free_def)

lemma nul_free_Cons [simp]: "nul_free (b # bs) \<longleftrightarrow> b \<noteq> 0 \<and> nul_free bs"
  by (auto simp: nul_free_def)

lemma nul_free_append [simp]: "nul_free (xs @ ys) \<longleftrightarrow> nul_free xs \<and> nul_free ys"
  by (auto simp: nul_free_def)

lemma nul_free_take: "nul_free s \<Longrightarrow> nul_free (take n s)"
  by (auto simp: nul_free_def dest: in_set_takeD)

lemma nul_free_c_str [simp]: "nul_free (c_str buf)"
  by (auto simp: nul_free_def c_str_def dest: set_takeWhileD)

lemma c_str_append_nul: "nul_free s \<Longrightarrow> c_str (s @ 0 # rest) = s"
  by (induction s) (auto simp: c_str_def)

lemma c_str_nul_free: "nul_free s \<Longrightarrow> c_str s = s"
  by (induction s) (auto simp: c_str_def)

lemma length_nul_pad: "length s \<le> n \<Longrightarrow> length (nul_pad n s) = n"
  by (simp add: nul_pad_def)

lemma c_str_replicate_0 [simp]: "c_str (replicate n 0) = []"
  by (cases n) (auto simp: c_str_def)

lemma c_str_nul_pad: "nul_free s \<Longrightarrow> c_str (nul_pad n s) = s"
  by (cases "n - length s") (auto simp: nul_pad_def c_str_append_nul c_str_nul_free)

lemma nul_pad_inj:
  "nul_free s \<Longrightarrow> nul_free t \<Longrightarrow> nul_pad n s = nul_pad n t \<longleftrightarrow> s = t"
  by (metis c_str_nul_pad)

end
