(* ===== verification/Rust_Str.thy ===== *)
theory Rust_Str
  imports Prelude
begin

text \<open>
  The part of Rust's string library that the daemon and its crates use. A \<^verbatim>\<open>str\<close> is the list of
  its UTF-8 bytes: validity of an encoding, trimming of white space, prefixes, splitting at a
  separator and decimal numbers.
\<close>

section \<open>Strings\<close>

text \<open>\<^verbatim>\<open>str::trim\<close>. \<open>ws_prefix\<close> is the length of the UTF-8 encoding of a white-space character at
  the front, 0 if there is none; \<open>ws_suffix\<close> is the same for the reversed end of a string.\<close>

definition ascii_ws :: "byte \<Rightarrow> bool" where
  "ascii_ws b \<longleftrightarrow> b \<in> {9, 10, 11, 12, 13, 32}"

definition wide_ws :: "byte \<Rightarrow> byte \<Rightarrow> byte \<Rightarrow> bool" where
  "wide_ws a b c \<longleftrightarrow>
     a = 0xE1 \<and> b = 0x9A \<and> c = 0x80 \<or>
     a = 0xE2 \<and> b = 0x80 \<and> (0x80 \<le> c \<and> c \<le> 0x8A \<or> c \<in> {0xA8, 0xA9, 0xAF}) \<or>
     a = 0xE2 \<and> b = 0x81 \<and> c = 0x9F \<or>
     a = 0xE3 \<and> b = 0x80 \<and> c = 0x80"

fun ws_prefix :: "byte list \<Rightarrow> nat" where
  "ws_prefix [] = 0"
| "ws_prefix [a] = (if ascii_ws a then 1 else 0)"
| "ws_prefix [a, b] = (if ascii_ws a then 1 else if a = 0xC2 \<and> b \<in> {0x85, 0xA0} then 2 else 0)"
| "ws_prefix (a # b # c # s) =
     (if ascii_ws a then 1 else if a = 0xC2 \<and> b \<in> {0x85, 0xA0} then 2
      else if wide_ws a b c then 3 else 0)"

fun ws_suffix :: "byte list \<Rightarrow> nat" where
  "ws_suffix [] = 0"
| "ws_suffix [a] = (if ascii_ws a then 1 else 0)"
| "ws_suffix [b, a] = (if ascii_ws b then 1 else if a = 0xC2 \<and> b \<in> {0x85, 0xA0} then 2 else 0)"
| "ws_suffix (c # b # a # s) =
     (if ascii_ws c then 1 else if b = 0xC2 \<and> c \<in> {0x85, 0xA0} then 2
      else if wide_ws a b c then 3 else 0)"

function trim_start :: "byte list \<Rightarrow> byte list" where
  "trim_start s = (if s = [] \<or> ws_prefix s = 0 then s else trim_start (drop (ws_prefix s) s))"
  by pat_completeness auto
termination
  by (relation "measure length") auto

function trim_back :: "byte list \<Rightarrow> byte list" where
  "trim_back s = (if s = [] \<or> ws_suffix s = 0 then s else trim_back (drop (ws_suffix s) s))"
  by pat_completeness auto
termination
  by (relation "measure length") auto

declare trim_start.simps [simp del] trim_back.simps [simp del]

definition trim_end :: "byte list \<Rightarrow> byte list" where
  "trim_end s = rev (trim_back (rev s))"

definition trim :: "byte list \<Rightarrow> byte list" where
  "trim s = trim_end (trim_start s)"

text \<open>The validity test of \<^verbatim>\<open>String::from_utf8\<close>: well-formed byte sequences, without surrogates
  and overlong forms.\<close>

definition cont :: "byte \<Rightarrow> bool" where "cont b \<longleftrightarrow> 0x80 \<le> b \<and> b \<le> 0xBF"

fun utf8_valid :: "byte list \<Rightarrow> bool" where
  "utf8_valid [] \<longleftrightarrow> True"
| "utf8_valid (a # s) \<longleftrightarrow>
     (if a < 0x80 then utf8_valid s
      else case s of
        [] \<Rightarrow> False
      | b # s' \<Rightarrow>
          if 0xC2 \<le> a \<and> a \<le> 0xDF then cont b \<and> utf8_valid s'
          else case s' of
            [] \<Rightarrow> False
          | c # s'' \<Rightarrow>
              if 0xE0 \<le> a \<and> a \<le> 0xEF
              then (if a = 0xE0 then 0xA0 \<le> b \<and> b \<le> 0xBF
                    else if a = 0xED then 0x80 \<le> b \<and> b \<le> 0x9F else cont b) \<and>
                   cont c \<and> utf8_valid s''
              else case s'' of
                [] \<Rightarrow> False
              | d # s''' \<Rightarrow>
                  0xF0 \<le> a \<and> a \<le> 0xF4 \<and>
                  (if a = 0xF0 then 0x90 \<le> b \<and> b \<le> 0xBF
                   else if a = 0xF4 then 0x80 \<le> b \<and> b \<le> 0x8F else cont b) \<and>
                  cont c \<and> cont d \<and> utf8_valid s''')"

definition byte_string :: "string \<Rightarrow> byte list" where
  "byte_string s = map (\<lambda>c. of_nat (of_char c)) s"

text \<open>\<^verbatim>\<open>str::split\<close> at a separator, and decimal digits.\<close>

fun split_on :: "byte \<Rightarrow> byte list \<Rightarrow> byte list list" where
  "split_on c [] = [[]]"
| "split_on c (b # s) =
     (if b = c then [] # split_on c s
      else case split_on c s of [] \<Rightarrow> [[b]] | p # ps \<Rightarrow> (b # p) # ps)"

definition digit :: "byte \<Rightarrow> bool" where "digit b \<longleftrightarrow> 0x30 \<le> b \<and> b \<le> 0x39"

definition decimal :: "byte list \<Rightarrow> nat" where
  "decimal s = foldl (\<lambda>n b. 10 * n + (unat b - 48)) 0 s"

text \<open>An unsigned number as a format string prints it.\<close>

fun decimal_string :: "nat \<Rightarrow> byte list" where
  "decimal_string n =
     (if n < 10 then [0x30 + of_nat n] else decimal_string (n div 10) @ [0x30 + of_nat (n mod 10)])"

declare decimal_string.simps [simp del]

text \<open>\<^verbatim>\<open>str::starts_with\<close>, \<^verbatim>\<open>str::strip_prefix\<close>, \<^verbatim>\<open>str::split_once\<close> and \<^verbatim>\<open>str::rsplit_once\<close> at a one-byte
  separator, \<^verbatim>\<open>str::trim_end_matches\<close> with one byte, and \<^verbatim>\<open>str::contains\<close>.\<close>

definition starts_with :: "byte list \<Rightarrow> byte list \<Rightarrow> bool" where
  "starts_with s pre \<longleftrightarrow> take (length pre) s = pre"

definition strip_prefix :: "byte list \<Rightarrow> byte list \<Rightarrow> byte list option" where
  "strip_prefix s pre = (if starts_with s pre then Some (drop (length pre) s) else None)"

fun split_once :: "byte \<Rightarrow> byte list \<Rightarrow> (byte list \<times> byte list) option" where
  "split_once c [] = None"
| "split_once c (b # s) =
     (if b = c then Some ([], s) else map_option (\<lambda>(l, r). (b # l, r)) (split_once c s))"

definition rsplit_once :: "byte \<Rightarrow> byte list \<Rightarrow> (byte list \<times> byte list) option" where
  "rsplit_once c s = map_option (\<lambda>(l, r). (rev r, rev l)) (split_once c (rev s))"

definition trim_end_matches :: "byte \<Rightarrow> byte list \<Rightarrow> byte list" where
  "trim_end_matches c s = rev (dropWhile (\<lambda>b. b = c) (rev s))"

fun str_contains :: "byte list \<Rightarrow> byte list \<Rightarrow> bool" where
  "str_contains [] t \<longleftrightarrow> t = []"
| "str_contains (b # s) t \<longleftrightarrow> starts_with (b # s) t \<or> str_contains s t"

text \<open>\<^verbatim>\<open>str::find\<close> of a string and \<^verbatim>\<open>str::to_ascii_lowercase\<close>.\<close>

fun str_find :: "byte list \<Rightarrow> byte list \<Rightarrow> nat option" where
  "str_find [] t = (if t = [] then Some 0 else None)"
| "str_find (b # s) t =
     (if starts_with (b # s) t then Some 0 else map_option Suc (str_find s t))"

definition to_ascii_lowercase :: "byte list \<Rightarrow> byte list" where
  "to_ascii_lowercase s = map (\<lambda>b. if 0x41 \<le> b \<and> b \<le> 0x5A then b + 32 else b) s"

section \<open>Trimming\<close>

lemma ws_prefix_take: "ws_prefix s = 0 \<Longrightarrow> ws_prefix (take n s) = 0"
proof (cases "n < 3")
  case True
  then have "n = 0 \<or> n = 1 \<or> n = 2" by auto
  moreover assume "ws_prefix s = 0"
  ultimately show ?thesis
    by (cases s rule: ws_prefix.cases) (auto split: if_splits)
next
  case False
  then obtain k where n: "n = Suc (Suc (Suc k))"
    by (metis One_nat_def Suc_lessI add_2_eq_Suc' not_less_eq numeral_3_eq_3 old.nat.exhaust zero_less_Suc)
  moreover assume "ws_prefix s = 0"
  ultimately show ?thesis
    by (cases s rule: ws_prefix.cases) (auto split: if_splits)
qed

lemma ws_prefix_trim_start: "ws_prefix (trim_start s) = 0"
proof (induction s rule: trim_start.induct)
  case (1 s)
  then show ?case by (cases "s = [] \<or> ws_prefix s = 0") (auto simp: trim_start.simps [of s])
qed

lemma ws_suffix_trim_back: "ws_suffix (trim_back s) = 0"
proof (induction s rule: trim_back.induct)
  case (1 s)
  then show ?case by (cases "s = [] \<or> ws_suffix s = 0") (auto simp: trim_back.simps [of s])
qed

lemma trim_back_drop: "\<exists>n. trim_back s = drop n s"
proof (induction s rule: trim_back.induct)
  case (1 s)
  show ?case
  proof (cases "s = [] \<or> ws_suffix s = 0")
    case True
    then show ?thesis by (auto simp: trim_back.simps [of s] intro: exI [of _ 0])
  next
    case False
    then have "\<exists>n. trim_back (drop (ws_suffix s) s) = drop n (drop (ws_suffix s) s)"
      using "1.IH" by simp
    with False show ?thesis by (auto simp: trim_back.simps [of s])
  qed
qed

lemma trim_end_take: "\<exists>n. trim_end s = take n s"
proof -
  obtain n where "trim_back (rev s) = drop n (rev s)" using trim_back_drop by blast
  then show ?thesis by (auto simp: trim_end_def rev_drop)
qed

lemma trim_idem [simp]: "trim (trim s) = trim s"
proof -
  obtain n where n: "trim s = take n (trim_start s)"
    using trim_end_take [of "trim_start s"] by (auto simp: trim_def)
  then have "ws_prefix (trim s) = 0" by (simp add: ws_prefix_take ws_prefix_trim_start)
  then have "trim_start (trim s) = trim s" by (simp add: trim_start.simps [of "trim s"])
  moreover have "ws_suffix (rev (trim s)) = 0"
    by (simp add: trim_def trim_end_def ws_suffix_trim_back)
  then have "trim_end (trim s) = trim s"
    by (simp add: trim_end_def trim_back.simps [of "rev (trim s)"])
  ultimately show ?thesis by (simp add: trim_def [of "trim s"])
qed

definition plain_byte :: "byte \<Rightarrow> bool" where
  "plain_byte b \<longleftrightarrow> b < 0x80 \<and> \<not> ascii_ws b"

lemma ws_prefix_plain: "plain_byte b \<Longrightarrow> ws_prefix (b # s) = 0"
  by (cases "b # s" rule: ws_prefix.cases) (auto simp: plain_byte_def wide_ws_def)

lemma ws_suffix_plain: "plain_byte b \<Longrightarrow> plain_byte a \<Longrightarrow> ws_suffix (b # a # s) = 0"
  by (cases s) (auto simp: plain_byte_def wide_ws_def)

lemma trim_plain: "list_all plain_byte s \<Longrightarrow> trim s = s"
proof -
  assume s: "list_all plain_byte s"
  then have "s = [] \<or> ws_prefix s = 0" by (cases s) (auto simp: ws_prefix_plain)
  then have "trim_start s = s" by (simp add: trim_start.simps [of s])
  moreover have r: "list_all plain_byte (rev s)" using s by (simp add: list_all_iff)
  have "rev s = [] \<or> ws_suffix (rev s) = 0"
  proof (cases "rev s")
    case (Cons a t)
    with r show ?thesis by (cases t) (auto simp: ws_suffix_plain plain_byte_def)
  qed simp
  then have "trim_back (rev s) = rev s" by (simp add: trim_back.simps [of "rev s"])
  ultimately show ?thesis by (simp add: trim_def trim_end_def)
qed

section \<open>Encodings and prefixes\<close>

lemma utf8_valid_ascii: "list_all (\<lambda>b. b < 0x80) s \<Longrightarrow> utf8_valid (s @ t) = utf8_valid t"
  by (induction s) auto

definition second3 :: "byte \<Rightarrow> byte \<Rightarrow> bool" where
  "second3 a b \<longleftrightarrow> (if a = 0xE0 then 0xA0 \<le> b \<and> b \<le> 0xBF
     else if a = 0xED then 0x80 \<le> b \<and> b \<le> 0x9F else cont b)"

definition second4 :: "byte \<Rightarrow> byte \<Rightarrow> bool" where
  "second4 a b \<longleftrightarrow> 0xF0 \<le> a \<and> a \<le> 0xF4 \<and> (if a = 0xF0 then 0x90 \<le> b \<and> b \<le> 0xBF
     else if a = 0xF4 then 0x80 \<le> b \<and> b \<le> 0x8F else cont b)"

lemma utf8_valid_Cons:
  "utf8_valid (a # s) \<longleftrightarrow>
     (if a < 0x80 then utf8_valid s
      else if 0xC2 \<le> a \<and> a \<le> 0xDF
      then (\<exists>b t. s = b # t \<and> cont b \<and> utf8_valid t)
      else if 0xE0 \<le> a \<and> a \<le> 0xEF
      then (\<exists>b c t. s = b # c # t \<and> second3 a b \<and> cont c \<and> utf8_valid t)
      else (\<exists>b c d t. s = b # c # d # t \<and> second4 a b \<and> cont c \<and> cont d \<and> utf8_valid t))"
  unfolding second3_def second4_def
  by (subst utf8_valid.simps(2), rule list.exhaust [of s]; rule list.exhaust [of "tl s"];
      rule list.exhaust [of "tl (tl s)"])
    (simp_all del: utf8_valid.simps(2))

lemma utf8_valid_append: "utf8_valid s \<Longrightarrow> utf8_valid (s @ t) = utf8_valid t"
proof (induction "length s" arbitrary: s rule: less_induct)
  case less
  show ?case
  proof (cases s)
    case (Cons a s')
    have IH: "length u < length s \<Longrightarrow> utf8_valid u \<Longrightarrow> utf8_valid (u @ t) = utf8_valid t" for u
      using less.hyps by blast
    from Cons less.prems show ?thesis
      by (auto simp: utf8_valid_Cons IH simp del: utf8_valid.simps(2) split: if_splits)
  qed simp
qed

lemma starts_with_append [simp]: "starts_with (s @ t) s"
  by (simp add: starts_with_def)

lemma starts_with_iff: "starts_with s pre \<longleftrightarrow> (\<exists>t. s = pre @ t)"
  by (metis append_take_drop_id starts_with_append starts_with_def)

lemma starts_with_Nil [simp]: "starts_with s []"
  by (simp add: starts_with_def)

lemma starts_with_Cons: "starts_with s (x # xs) \<longleftrightarrow> (\<exists>t. s = x # t \<and> starts_with t xs)"
  by (cases s) (auto simp: starts_with_def)

lemma starts_with_mono: "starts_with s (a @ b) \<Longrightarrow> starts_with s a"
  by (auto simp: starts_with_iff)

lemma starts_with_trans: "starts_with s a \<Longrightarrow> starts_with a b \<Longrightarrow> starts_with s b"
  by (auto simp: starts_with_iff)

lemma strip_prefix_append [simp]: "strip_prefix (s @ t) s = Some t"
  by (simp add: strip_prefix_def)

lemma strip_prefix_Some: "strip_prefix s pre = Some t \<longleftrightarrow> s = pre @ t"
  by (auto simp: strip_prefix_def starts_with_iff)

lemma split_once_Some: "split_once c s = Some (l, r) \<longleftrightarrow> s = l @ c # r \<and> c \<notin> set l"
proof (induction s arbitrary: l)
  case (Cons b s)
  show ?case by (cases l) (auto simp: Cons.IH)
qed simp

lemma split_once_None: "split_once c s = None \<longleftrightarrow> c \<notin> set s"
  by (induction s) auto

lemma str_contains_iff: "str_contains s t \<longleftrightarrow> (\<exists>a b. s = a @ t @ b)"
proof (induction s)
  case Nil
  then show ?case by simp
next
  case (Cons b s)
  have "(\<exists>a c. b # s = a @ t @ c) \<longleftrightarrow> (\<exists>c. b # s = t @ c) \<or> (\<exists>a c. s = a @ t @ c)"
  proof
    assume "\<exists>a c. b # s = a @ t @ c"
    then obtain a c where "b # s = a @ t @ c" by blast
    then show "(\<exists>c. b # s = t @ c) \<or> (\<exists>a c. s = a @ t @ c)" by (cases a) auto
  next
    assume "(\<exists>c. b # s = t @ c) \<or> (\<exists>a c. s = a @ t @ c)"
    then show "\<exists>a c. b # s = a @ t @ c" by (metis append_Cons append_Nil)
  qed
  with Cons show ?case by (simp add: starts_with_iff)
qed

end
