(* ===== verification/Ts_Wire.thy ===== *)
theory Ts_Wire
  imports Rust_Str
begin

text \<open>
  The wire protocol of the governance socket, crate \<^verbatim>\<open>ts_wire\<close> (\<^verbatim>\<open>ts_wire/src/lib.rs\<close>): a five-byte
  header with the length of the body and the version, then a JSON envelope whose payload is
  signed with HMAC-SHA256. The crates the decoder calls are the record \<open>wire_crates\<close>, an argument
  of the definitions; the documented behaviour the theorems rely on is stated by \<open>hex_crate\<close>,
  \<open>hmac_crate\<close> and \<open>json_crate\<close>.
\<close>

section \<open>Frames\<close>

definition PROTOCOL_VERSION :: u8 where "PROTOCOL_VERSION = 1"
definition MAX_PAYLOAD_LEN :: nat where "MAX_PAYLOAD_LEN = 4 * 1024 * 1024"
definition HEADER_LEN :: nat where "HEADER_LEN = 5"

lemmas wire_consts = PROTOCOL_VERSION_def MAX_PAYLOAD_LEN_def HEADER_LEN_def

record FrameHeader =
  frame_length :: nat
  frame_version :: u8

text \<open>\<^verbatim>\<open>u32::from_be_bytes\<close> and \<^verbatim>\<open>u32::to_be_bytes\<close>.\<close>

definition u32_from_be_bytes :: "byte list \<Rightarrow> u32" where
  "u32_from_be_bytes bs = le_word (rev bs)"

definition u32_to_be_bytes :: "u32 \<Rightarrow> byte list" where
  "u32_to_be_bytes w = rev (word_bytes 4 w)"

definition decode_frame_header :: "byte list \<Rightarrow> FrameHeader" where
  "decode_frame_header header =
     \<lparr>frame_length = unat (u32_from_be_bytes [header ! 0, header ! 1, header ! 2, header ! 3]),
      frame_version = header ! 4\<rparr>"

datatype FrameReject = BadVersion | PayloadTooLarge

definition classify_frame_header :: "FrameHeader \<Rightarrow> FrameReject + nat" where
  "classify_frame_header header =
     (if frame_version header \<noteq> PROTOCOL_VERSION then Inl BadVersion
      else if frame_length header > MAX_PAYLOAD_LEN then Inl PayloadTooLarge
      else Inr (frame_length header))"

section \<open>Envelopes\<close>

record SignedEnvelope =
  payload :: "byte list"
  signature :: "byte list"

text \<open>The functions of the crates \<^verbatim>\<open>serde_json\<close>, \<^verbatim>\<open>hex\<close>, \<^verbatim>\<open>hmac\<close>/\<^verbatim>\<open>sha2\<close> and \<^verbatim>\<open>constant_time_eq\<close>. A key the
  HMAC constructor refuses has no tag.\<close>

record wire_crates =
  envelope_from_str :: "byte list \<Rightarrow> SignedEnvelope option"
  str_to_json :: "byte list \<Rightarrow> byte list"
  hex_decode :: "byte list \<Rightarrow> byte list option"
  hex_encode :: "byte list \<Rightarrow> byte list"
  hmac_sha256 :: "byte list \<Rightarrow> byte list \<Rightarrow> byte list option"
  constant_time_eq :: "byte list \<Rightarrow> byte list \<Rightarrow> bool"

datatype BodyReject = Encoding | Malformed

definition parse_body :: "wire_crates \<Rightarrow> byte list \<Rightarrow> BodyReject + SignedEnvelope" where
  "parse_body cr body =
     (if \<not> utf8_valid body then Inl Encoding
      else case envelope_from_str cr body of
             None \<Rightarrow> Inl Malformed
           | Some e \<Rightarrow> Inr e)"

definition verify_envelope :: "wire_crates \<Rightarrow> SignedEnvelope \<Rightarrow> byte list \<Rightarrow> bool" where
  "verify_envelope cr envelope secret =
     (case hex_decode cr (trim (signature envelope)) of
        None \<Rightarrow> False
      | Some provided \<Rightarrow>
          (case hmac_sha256 cr secret (payload envelope) of
             None \<Rightarrow> False
           | Some expected \<Rightarrow> constant_time_eq cr expected provided))"

section \<open>Whole packets\<close>

datatype WireOutcome =
    Wire_ShortHeader
  | Wire_BadVersion
  | Wire_PayloadTooLarge
  | Wire_ShortBody
  | Wire_Encoding
  | Wire_Malformed
  | Wire_BadSignature
  | Wire_Verified SignedEnvelope

definition classify_packet :: "wire_crates \<Rightarrow> byte list \<Rightarrow> byte list \<Rightarrow> WireOutcome" where
  "classify_packet cr packet secret =
     (if length packet < HEADER_LEN then Wire_ShortHeader
      else case classify_frame_header (decode_frame_header (take HEADER_LEN packet)) of
             Inl BadVersion \<Rightarrow> Wire_BadVersion
           | Inl PayloadTooLarge \<Rightarrow> Wire_PayloadTooLarge
           | Inr body_len \<Rightarrow>
               (let body = drop HEADER_LEN packet
                in if length body < body_len then Wire_ShortBody
                   else case parse_body cr (take body_len body) of
                          Inr envelope \<Rightarrow>
                            (if verify_envelope cr envelope secret then Wire_Verified envelope
                             else Wire_BadSignature)
                        | Inl Encoding \<Rightarrow> Wire_Encoding
                        | Inl Malformed \<Rightarrow> Wire_Malformed))"

text \<open>The sender. An \<^verbatim>\<open>expect\<close> that fails is \<^const>\<open>None\<close>.\<close>

definition envelope_text :: "byte list \<Rightarrow> byte list \<Rightarrow> byte list" where
  "envelope_text json_payload sig =
     byte_string ''{\"payload\":'' @ json_payload @ byte_string '',\"signature\":\"'' @
     sig @ byte_string ''\"}''"

definition frame_signed_packet :: "wire_crates \<Rightarrow> byte list \<Rightarrow> byte list \<Rightarrow> byte list option" where
  "frame_signed_packet cr pl secret =
     (case hmac_sha256 cr secret pl of
        None \<Rightarrow> None
      | Some tag \<Rightarrow>
          (let body = envelope_text (str_to_json cr pl) (hex_encode cr tag)
           in Some (u32_to_be_bytes (of_nat (length body)) @ [PROTOCOL_VERSION] @ body)))"

section \<open>What the crates promise\<close>

definition hex_digit :: "byte \<Rightarrow> bool" where
  "hex_digit b \<longleftrightarrow> digit b \<or> 0x61 \<le> b \<and> b \<le> 0x66"

text \<open>\<^verbatim>\<open>hex::encode\<close> writes lower-case digits that \<^verbatim>\<open>hex::decode\<close> reads back.\<close>

definition hex_crate :: "wire_crates \<Rightarrow> bool" where
  "hex_crate cr \<longleftrightarrow>
     (\<forall>b. list_all hex_digit (hex_encode cr b) \<and> hex_decode cr (hex_encode cr b) = Some b)"

text \<open>\<^verbatim>\<open>constant_time_eq\<close> is equality of slices.\<close>

definition eq_crate :: "wire_crates \<Rightarrow> bool" where
  "eq_crate cr \<longleftrightarrow> (\<forall>a b. constant_time_eq cr a b = (a = b))"

text \<open>\<^verbatim>\<open>serde_json\<close> writes a string as valid UTF-8 and reads the object with the two members back.\<close>

definition json_crate :: "wire_crates \<Rightarrow> bool" where
  "json_crate cr \<longleftrightarrow>
     (\<forall>pl sig. utf8_valid pl \<longrightarrow> list_all hex_digit sig \<longrightarrow>
        utf8_valid (str_to_json cr pl) \<and>
        envelope_from_str cr (envelope_text (str_to_json cr pl) sig) =
          Some \<lparr>payload = pl, signature = sig\<rparr>)"

section \<open>Headers\<close>

lemma u32_be_roundtrip: "u32_from_be_bytes (u32_to_be_bytes w) = w"
  by (simp add: u32_from_be_bytes_def u32_to_be_bytes_def le_word_word_bytes)

lemma length_u32_to_be_bytes [simp]: "length (u32_to_be_bytes w) = 4"
  by (simp add: u32_to_be_bytes_def)

lemma nth_list4: "length xs = 4 \<Longrightarrow> [xs ! 0, xs ! 1, xs ! 2, xs ! 3] = xs"
  by (auto simp: list_eq_iff_nth_eq nth_Cons' less_Suc_eq numeral_eq_Suc)

lemma decode_frame_header_encoded:
  "decode_frame_header (u32_to_be_bytes w @ [v]) = \<lparr>frame_length = unat w, frame_version = v\<rparr>"
proof -
  obtain bs where bs: "bs = u32_to_be_bytes w" and l: "length bs = 4" by simp
  then have "[(bs @ [v]) ! 0, (bs @ [v]) ! 1, (bs @ [v]) ! 2, (bs @ [v]) ! 3] = bs"
    using nth_list4 [of bs] by (simp add: nth_append)
  moreover have "(bs @ [v]) ! 4 = v" using l by (simp add: nth_append)
  ultimately show ?thesis
    by (simp add: decode_frame_header_def bs u32_be_roundtrip)
qed

lemma classify_frame_header_Inr:
  "classify_frame_header h = Inr n \<longleftrightarrow>
     frame_version h = 1 \<and> frame_length h \<le> MAX_PAYLOAD_LEN \<and> n = frame_length h"
  by (auto simp: classify_frame_header_def PROTOCOL_VERSION_def)

section \<open>Packets\<close>

lemma parse_body_Inr:
  "parse_body cr body = Inr e \<longleftrightarrow> utf8_valid body \<and> envelope_from_str cr body = Some e"
  by (auto simp: parse_body_def split: option.splits)

lemma verify_envelope_iff:
  "eq_crate cr \<Longrightarrow>
   verify_envelope cr e secret \<longleftrightarrow>
     (\<exists>tag. hmac_sha256 cr secret (payload e) = Some tag \<and>
            hex_decode cr (trim (signature e)) = Some tag)"
  by (auto simp: verify_envelope_def eq_crate_def split: option.splits)

text \<open>The body a header announces.\<close>

abbreviation packet_header :: "byte list \<Rightarrow> FrameHeader" where
  "packet_header packet \<equiv> decode_frame_header (take HEADER_LEN packet)"

abbreviation packet_body :: "byte list \<Rightarrow> byte list" where
  "packet_body packet \<equiv> take (frame_length (packet_header packet)) (drop HEADER_LEN packet)"

lemma classify_packet_Verified:
  "classify_packet cr packet secret = Wire_Verified e \<longleftrightarrow>
     HEADER_LEN \<le> length packet \<and> frame_version (packet_header packet) = 1 \<and>
     frame_length (packet_header packet) \<le> MAX_PAYLOAD_LEN \<and>
     HEADER_LEN + frame_length (packet_header packet) \<le> length packet \<and>
     utf8_valid (packet_body packet) \<and> envelope_from_str cr (packet_body packet) = Some e \<and>
     verify_envelope cr e secret"
proof (cases "classify_frame_header (packet_header packet)")
  case (Inl r)
  then have "\<not> (frame_version (packet_header packet) = 1 \<and>
      frame_length (packet_header packet) \<le> MAX_PAYLOAD_LEN)"
    by (auto simp: classify_frame_header_def PROTOCOL_VERSION_def split: if_splits)
  with Inl show ?thesis
    by (auto simp: classify_packet_def split: FrameReject.splits if_splits)
next
  case (Inr n)
  then have n: "n = frame_length (packet_header packet)" "frame_version (packet_header packet) = 1"
      "frame_length (packet_header packet) \<le> MAX_PAYLOAD_LEN"
    by (simp_all add: classify_frame_header_Inr)
  show ?thesis
  proof (cases "parse_body cr (take n (drop HEADER_LEN packet))")
    case (Inl b)
    then have "\<not> (utf8_valid (packet_body packet) \<and> envelope_from_str cr (packet_body packet) = Some e)"
      using parse_body_Inr [of cr "packet_body packet" e] n by auto
    with Inl Inr show ?thesis
      by (auto simp: classify_packet_def Let_def split: BodyReject.splits if_splits)
  next
    case (Inr e')
    with \<open>classify_frame_header (packet_header packet) = Inr n\<close> n show ?thesis
      using parse_body_Inr [of cr "packet_body packet" e']
      by (auto simp: classify_packet_def Let_def split: if_splits)
  qed
qed

lemma frame_signed_packet_Some:
  "frame_signed_packet cr pl secret = Some p \<longleftrightarrow>
     (\<exists>tag. hmac_sha256 cr secret pl = Some tag \<and>
        p = u32_to_be_bytes (of_nat (length (envelope_text (str_to_json cr pl) (hex_encode cr tag)))) @
            [PROTOCOL_VERSION] @ envelope_text (str_to_json cr pl) (hex_encode cr tag))"
  by (auto simp: frame_signed_packet_def Let_def split: option.splits)

lemma utf8_valid_byte_string:
  "list_all (\<lambda>c. of_char c < (128::nat)) s \<Longrightarrow> utf8_valid (byte_string s @ t) = utf8_valid t"
  by (rule utf8_valid_ascii)
    (auto simp: byte_string_def list_all_iff word_less_nat_alt unat_of_nat)

lemma hex_digit_plain: "hex_digit b \<Longrightarrow> plain_byte b"
  by (auto simp: hex_digit_def digit_def plain_byte_def ascii_ws_def word_le_nat_alt word_less_nat_alt
      unat_arith_simps)

lemma hex_digits_plain: "list_all hex_digit s \<Longrightarrow> list_all plain_byte s"
  by (auto simp: list_all_iff hex_digit_plain)

lemma envelope_text_valid:
  assumes "utf8_valid json" and "list_all hex_digit sig"
  shows "utf8_valid (envelope_text json sig)"
proof -
  have "list_all (\<lambda>b. b < 0x80) sig"
    using hex_digits_plain [OF assms(2)] by (auto simp: list_all_iff plain_byte_def)
  with assms(1) show ?thesis
    by (simp add: envelope_text_def utf8_valid_byte_string utf8_valid_append utf8_valid_ascii)
      (simp add: byte_string_def)
qed

text \<open>A framed packet is a header that announces its body.\<close>

lemma framed_packet_parts:
  assumes "p = u32_to_be_bytes (of_nat (length body)) @ [PROTOCOL_VERSION] @ body"
    and "length body < 2 ^ 32"
  shows "packet_header (p @ rest) = \<lparr>frame_length = length body, frame_version = 1\<rparr>"
    and "packet_body (p @ rest) = body"
    and "length (p @ rest) = HEADER_LEN + length body + length rest"
proof -
  have "take HEADER_LEN (p @ rest) = u32_to_be_bytes (of_nat (length body)) @ [PROTOCOL_VERSION]"
    by (simp add: assms(1) HEADER_LEN_def)
  moreover have "unat (of_nat (length body) :: u32) = length body"
    using assms(2) by (simp add: unat_of_nat)
  ultimately show h: "packet_header (p @ rest) = \<lparr>frame_length = length body, frame_version = 1\<rparr>"
    by (simp add: decode_frame_header_encoded PROTOCOL_VERSION_def)
  have "drop HEADER_LEN (p @ rest) = body @ rest"
    by (simp add: assms(1) HEADER_LEN_def)
  with h show "packet_body (p @ rest) = body" by simp
  show "length (p @ rest) = HEADER_LEN + length body + length rest"
    by (simp add: assms(1) HEADER_LEN_def)
qed

lemma framed_packet_too_large:
  assumes "p = u32_to_be_bytes (of_nat (length body)) @ [PROTOCOL_VERSION] @ body"
    and "MAX_PAYLOAD_LEN < length body" and "length body < 2 ^ 32"
  shows "classify_packet cr (p @ rest) secret = Wire_PayloadTooLarge"
  using framed_packet_parts [OF assms(1,3), of rest] assms(2)
  by (simp add: classify_packet_def classify_frame_header_def PROTOCOL_VERSION_def)

lemma framed_packet_verified:
  assumes "hex_crate cr" "eq_crate cr" "json_crate cr" "utf8_valid pl"
    and tag: "hmac_sha256 cr secret pl = Some tag"
    and body: "body = envelope_text (str_to_json cr pl) (hex_encode cr tag)"
    and p: "p = u32_to_be_bytes (of_nat (length body)) @ [PROTOCOL_VERSION] @ body"
    and small: "length body \<le> MAX_PAYLOAD_LEN"
  shows "classify_packet cr (p @ rest) secret =
           Wire_Verified \<lparr>payload = pl, signature = hex_encode cr tag\<rparr>"
proof -
  have hex: "list_all hex_digit (hex_encode cr tag)" "hex_decode cr (hex_encode cr tag) = Some tag"
    using assms(1) by (auto simp: hex_crate_def)
  then have "utf8_valid (str_to_json cr pl)"
    and e: "envelope_from_str cr body = Some \<lparr>payload = pl, signature = hex_encode cr tag\<rparr>"
    using assms(3,4) body by (auto simp: json_crate_def)
  then have "utf8_valid body" using hex body by (simp add: envelope_text_valid)
  moreover have "trim (hex_encode cr tag) = hex_encode cr tag"
    using hex by (simp add: hex_digits_plain trim_plain)
  then have "verify_envelope cr \<lparr>payload = pl, signature = hex_encode cr tag\<rparr> secret"
    using assms(2) tag hex by (simp add: verify_envelope_iff)
  moreover have "length body < 2 ^ 32" using small by (simp add: MAX_PAYLOAD_LEN_def)
  ultimately show ?thesis
    using framed_packet_parts [OF p, of rest] e small by (simp add: classify_packet_Verified)
qed

section \<open>Properties\<close>

text \<open>A packet is accepted exactly when it has a complete header of version 1, the announced
  length is at most four megabytes and all of it is present, the announced bytes are UTF-8 and
  parse to the envelope, and the trimmed signature is the hexadecimal form of the tag of the
  payload under the secret. The equality test of the crate is the only law used.\<close>

theorem packet_accepted:
  assumes "eq_crate cr"
  shows "classify_packet cr packet secret = Wire_Verified e \<longleftrightarrow>
     5 \<le> length packet \<and> packet ! 4 = 1 \<and>
     (let n = unat (u32_from_be_bytes (take 4 packet)); body = take n (drop 5 packet)
      in n \<le> 4194304 \<and> 5 + n \<le> length packet \<and> utf8_valid body \<and>
         envelope_from_str cr body = Some e \<and>
         (\<exists>tag. hmac_sha256 cr secret (payload e) = Some tag \<and>
                hex_decode cr (trim (signature e)) = Some tag))"
proof (cases "5 \<le> length packet")
  case True
  then have "[packet ! 0, packet ! 1, packet ! 2, packet ! 3] = take 4 packet"
    using nth_list4 [of "take 4 packet"] by simp
  then have "packet_header packet =
      \<lparr>frame_length = unat (u32_from_be_bytes (take 4 packet)), frame_version = packet ! 4\<rparr>"
    by (simp add: decode_frame_header_def HEADER_LEN_def)
  with True assms show ?thesis
    by (auto simp: classify_packet_Verified verify_envelope_iff wire_consts Let_def)
next
  case False
  then show ?thesis by (simp add: classify_packet_Verified HEADER_LEN_def)
qed

text \<open>What \<^verbatim>\<open>frame_signed_packet\<close> produces for a UTF-8 payload is accepted under the same secret with
  the payload and its tag, whatever bytes follow, as long as the body fits the bound; a longer
  body is refused by its header.\<close>

theorem packet_roundtrip:
  assumes "hex_crate cr" "eq_crate cr" "json_crate cr" "utf8_valid pl"
    and "frame_signed_packet cr pl secret = Some p" and "length p < 2 ^ 32"
  shows "classify_packet cr (p @ rest) secret =
     (if length p \<le> 5 + 4194304
      then Wire_Verified \<lparr>payload = pl, signature = hex_encode cr (the (hmac_sha256 cr secret pl))\<rparr>
      else Wire_PayloadTooLarge)"
proof -
  obtain tag body where tag: "hmac_sha256 cr secret pl = Some tag"
    and body: "body = envelope_text (str_to_json cr pl) (hex_encode cr tag)"
    and p: "p = u32_to_be_bytes (of_nat (length body)) @ [PROTOCOL_VERSION] @ body"
    using assms(5) by (auto simp: frame_signed_packet_Some)
  have l: "length p = 5 + length body" by (simp add: p)
  show ?thesis
    using framed_packet_verified [OF assms(1-4) tag body p, of rest]
      framed_packet_too_large [OF p, of cr rest secret] tag l assms(6)
    by (simp add: MAX_PAYLOAD_LEN_def)
qed

section \<open>An instance of the crates\<close>

text \<open>Hexadecimal digits as \<^verbatim>\<open>hex\<close> writes them; the JSON functions quote the hexadecimal form of the
  payload, and the tag is the key followed by the message. The laws of the crates hold for it.\<close>

definition hex_char :: "nat \<Rightarrow> byte" where
  "hex_char n = of_nat (if n < 10 then 48 + n else 87 + n)"

definition hex_value :: "byte \<Rightarrow> nat option" where
  "hex_value c = (if digit c then Some (unat c - 48)
     else if 0x61 \<le> c \<and> c \<le> 0x66 then Some (unat c - 87) else None)"

definition sample_hex :: "byte list \<Rightarrow> byte list" where
  "sample_hex bs = concat (map (\<lambda>b. [hex_char (unat b div 16), hex_char (unat b mod 16)]) bs)"

fun sample_unhex :: "byte list \<Rightarrow> byte list option" where
  "sample_unhex [] = Some []"
| "sample_unhex [c] = None"
| "sample_unhex (c # d # s) =
     (case (hex_value c, hex_value d, sample_unhex s) of
        (Some h, Some l, Some bs) \<Rightarrow> Some (of_nat (16 * h + l) # bs)
      | _ \<Rightarrow> None)"

definition sample_json :: "byte list \<Rightarrow> byte list" where
  "sample_json pl = 0x22 # sample_hex pl @ [0x22]"

definition sample_envelope :: "byte list \<Rightarrow> SignedEnvelope option" where
  "sample_envelope t =
     Option.bind (strip_prefix t (byte_string ''{\"payload\":'' @ [0x22])) (\<lambda>r.
     Option.bind (split_once 0x22 r) (\<lambda>(p, r1).
     Option.bind (strip_prefix r1 (byte_string '',\"signature\":\"'')) (\<lambda>r2.
     Option.bind (split_once 0x22 r2) (\<lambda>(sig, r3).
     if r3 = byte_string ''}''
     then map_option (\<lambda>pl. \<lparr>payload = pl, signature = sig\<rparr>) (sample_unhex p) else None))))"

definition sample_crates :: wire_crates where
  "sample_crates =
     \<lparr>envelope_from_str = sample_envelope, str_to_json = sample_json, hex_decode = sample_unhex,
      hex_encode = sample_hex, hmac_sha256 = (\<lambda>k m. Some (k @ m)), constant_time_eq = (=)\<rparr>"

lemma hex_char_facts:
  assumes "n < 16"
  shows "hex_value (hex_char n) = Some n" and "hex_digit (hex_char n)"
proof -
  have u: "unat (hex_char n) = (if n < 10 then 48 + n else 87 + n)"
    using assms by (simp add: hex_char_def unat_of_nat)
  then show "hex_value (hex_char n) = Some n"
    using assms by (auto simp: hex_value_def digit_def word_le_nat_alt)
  from u show "hex_digit (hex_char n)"
    using assms by (auto simp: hex_digit_def digit_def word_le_nat_alt)
qed

lemma sample_hex_digits: "list_all hex_digit (sample_hex bs)"
proof (induction bs)
  case (Cons b bs)
  have "unat b < 256" using unsigned_less [of b] by simp
  then have "unat b div 16 < 16" by simp
  with Cons show ?case by (simp add: sample_hex_def hex_char_facts)
qed (simp add: sample_hex_def)

lemma sample_unhex_hex: "sample_unhex (sample_hex bs) = Some bs"
proof (induction bs)
  case (Cons b bs)
  have "unat b < 256" using unsigned_less [of b] by simp
  then have "unat b div 16 < 16" by simp
  with Cons show ?case by (simp add: sample_hex_def hex_char_facts)
qed (simp add: sample_hex_def)

lemma hex_digits_no_quote: "list_all hex_digit s \<Longrightarrow> 0x22 \<notin> set s"
  by (auto simp: list_all_iff hex_digit_def digit_def word_le_nat_alt)

lemma sample_envelope_text:
  assumes "list_all hex_digit sig"
  shows "sample_envelope (envelope_text (sample_json pl) sig) = Some \<lparr>payload = pl, signature = sig\<rparr>"
proof -
  let ?r2 = "sig @ byte_string ''\"}''"
  let ?r1 = "byte_string '',\"signature\":\"'' @ ?r2"
  have "split_once 0x22 ?r2 = Some (sig, byte_string ''}'')"
    using hex_digits_no_quote [OF assms] by (simp add: split_once_Some byte_string_def)
  moreover have "split_once 0x22 (sample_hex pl @ 0x22 # ?r1) = Some (sample_hex pl, ?r1)"
    using hex_digits_no_quote [OF sample_hex_digits] by (simp add: split_once_Some)
  moreover have "envelope_text (sample_json pl) sig =
      (byte_string ''{\"payload\":'' @ [0x22]) @ sample_hex pl @ 0x22 # ?r1"
    by (simp add: envelope_text_def sample_json_def)
  ultimately show ?thesis
    by (simp add: sample_envelope_def sample_unhex_hex del: append_assoc)
qed

lemma sample_crates_laws:
  "hex_crate sample_crates" "eq_crate sample_crates" "json_crate sample_crates"
proof -
  show "hex_crate sample_crates"
    by (simp add: hex_crate_def sample_crates_def sample_hex_digits sample_unhex_hex)
  show "eq_crate sample_crates" by (simp add: eq_crate_def sample_crates_def)
  have "utf8_valid (sample_json pl)" for pl
  proof -
    have "list_all (\<lambda>b. b < 0x80) (sample_hex pl)"
      using hex_digits_plain [OF sample_hex_digits, of pl] by (auto simp: list_all_iff plain_byte_def)
    then show ?thesis by (simp add: sample_json_def utf8_valid_ascii)
  qed
  then show "json_crate sample_crates"
    by (simp add: json_crate_def sample_crates_def sample_envelope_text)
qed

definition sample_packet :: "byte list" where
  "sample_packet = the (frame_signed_packet sample_crates [0x68, 0x69] [0x6B])"

lemma sample_packet_framed:
  "frame_signed_packet sample_crates [0x68, 0x69] [0x6B] = Some sample_packet"
  by (simp add: sample_packet_def frame_signed_packet_def sample_crates_def Let_def)

lemma length_sample_packet: "length sample_packet = 44"
  by (simp add: sample_packet_def frame_signed_packet_def sample_crates_def Let_def envelope_text_def
      byte_string_def sample_json_def sample_hex_def)

lemma sample_signature: "sample_hex [0x6B, 0x68, 0x69] = byte_string ''6b6869''"
  by code_simp

lemma sample_packet_verified:
  "classify_packet sample_crates (sample_packet @ rest) [0x6B] =
     Wire_Verified \<lparr>payload = [0x68, 0x69], signature = byte_string ''6b6869''\<rparr>"
proof -
  let ?tag = "[0x6B, 0x68, 0x69] :: byte list"
  let ?body = "envelope_text (sample_json [0x68, 0x69]) (sample_hex ?tag)"
  have p: "sample_packet = u32_to_be_bytes (of_nat (length ?body)) @ [PROTOCOL_VERSION] @ ?body"
    by (simp add: sample_packet_def frame_signed_packet_def sample_crates_def Let_def)
  have "length ?body = 39"
    by (simp add: envelope_text_def byte_string_def sample_json_def sample_hex_def)
  with p show ?thesis
    using framed_packet_verified [OF sample_crates_laws, of "[0x68, 0x69]" "[0x6B]" ?tag ?body
        sample_packet rest] sample_signature
    by (simp add: sample_crates_def MAX_PAYLOAD_LEN_def)
qed

theorem packet_accepted_witness:
  "classify_packet sample_crates (sample_packet @ [7]) [0x6B] =
     Wire_Verified \<lparr>payload = [0x68, 0x69], signature = byte_string ''6b6869''\<rparr> \<and>
   (sample_packet @ [7]) ! 4 = 1"
  using packet_accepted [OF sample_crates_laws(2), of "sample_packet @ [7]" "[0x6B]"
      "\<lparr>payload = [0x68, 0x69], signature = byte_string ''6b6869''\<rparr>"] sample_packet_verified
  by simp

theorem packet_roundtrip_witness:
  "classify_packet sample_crates (sample_packet @ [7]) [0x6B] =
     Wire_Verified \<lparr>payload = [0x68, 0x69], signature = byte_string ''6b6869''\<rparr>"
  using packet_roundtrip [OF sample_crates_laws _ sample_packet_framed, of "[7]"]
    length_sample_packet sample_signature
  by (simp add: sample_crates_def)

end
