(* ===== verification/Rust_F64.thy ===== *)
theory Rust_F64
  imports Rust_Str Complex_Main "HOL-Library.Log_Nat"
begin

text \<open>
  The floating-point numbers of Rust, IEEE 754 binary64: a number is not-a-number, an infinity or
  a finite value, a rational. The sign of zero is not kept: no comparison or conversion the
  program uses sees it. Sums and products are rounded to nearest, ties to even.
\<close>

section \<open>Values\<close>

datatype f64 = NaN | Inf (negative: bool) | Fin (fin: rat)

definition is_finite :: "f64 \<Rightarrow> bool" where
  "is_finite x = (case x of Fin q \<Rightarrow> True | _ \<Rightarrow> False)"

text \<open>The comparison operators: false when an operand is not-a-number.\<close>

fun f64_le :: "f64 \<Rightarrow> f64 \<Rightarrow> bool" where
  "f64_le NaN y = False"
| "f64_le x NaN = False"
| "f64_le (Inf n) (Inf m) = (n \<or> \<not> m)"
| "f64_le (Inf n) (Fin q) = n"
| "f64_le (Fin q) (Inf m) = (\<not> m)"
| "f64_le (Fin q) (Fin r) = (q \<le> r)"

fun f64_lt :: "f64 \<Rightarrow> f64 \<Rightarrow> bool" where
  "f64_lt NaN y = False"
| "f64_lt x NaN = False"
| "f64_lt (Inf n) (Inf m) = (n \<and> \<not> m)"
| "f64_lt (Inf n) (Fin q) = n"
| "f64_lt (Fin q) (Inf m) = (\<not> m)"
| "f64_lt (Fin q) (Fin r) = (q < r)"

text \<open>\<^verbatim>\<open>f64::max\<close> and \<^verbatim>\<open>f64::min\<close> ignore a not-a-number operand; \<^verbatim>\<open>f64::clamp\<close> keeps it.\<close>

definition f64_max :: "f64 \<Rightarrow> f64 \<Rightarrow> f64" where
  "f64_max x y = (if x = NaN then y else if y = NaN then x else if f64_le x y then y else x)"

definition f64_min :: "f64 \<Rightarrow> f64 \<Rightarrow> f64" where
  "f64_min x y = (if x = NaN then y else if y = NaN then x else if f64_le x y then x else y)"

definition f64_clamp :: "f64 \<Rightarrow> f64 \<Rightarrow> f64 \<Rightarrow> f64" where
  "f64_clamp lo hi x = (if f64_lt x lo then lo else if f64_lt hi x then hi else x)"

section \<open>Rounding\<close>

definition pow2 :: "int \<Rightarrow> rat" where
  "pow2 e = (if 0 \<le> e then 2 ^ nat e else 1 / 2 ^ nat (- e))"

definition floor_log2 :: "rat \<Rightarrow> int" where
  "floor_log2 x =
     (let (p, q) = quotient_of x; d = bitlen p - bitlen q in if pow2 d \<le> x then d else d - 1)"

definition round_half_even :: "rat \<Rightarrow> int" where
  "round_half_even x =
     (let n = \<lfloor>x\<rfloor>; f = x - of_int n
      in if f < 1 / 2 then n else if f > 1 / 2 then n + 1 else if even n then n else n + 1)"

definition round_f64 :: "rat \<Rightarrow> f64" where
  "round_f64 x =
     (if x = 0 then Fin 0
      else let e = max (floor_log2 \<bar>x\<bar> - 52) (- 1074);
               y = of_int (round_half_even (x / pow2 e)) * pow2 e
           in if pow2 1024 \<le> \<bar>y\<bar> then Inf (x < 0) else Fin y)"

fun f64_mul :: "f64 \<Rightarrow> f64 \<Rightarrow> f64" where
  "f64_mul NaN y = NaN"
| "f64_mul x NaN = NaN"
| "f64_mul (Inf n) (Inf m) = Inf (n \<noteq> m)"
| "f64_mul (Inf n) (Fin q) = (if q = 0 then NaN else Inf (n \<noteq> (q < 0)))"
| "f64_mul (Fin q) (Inf m) = (if q = 0 then NaN else Inf ((q < 0) \<noteq> m))"
| "f64_mul (Fin q) (Fin r) = round_f64 (q * r)"

fun f64_add :: "f64 \<Rightarrow> f64 \<Rightarrow> f64" where
  "f64_add NaN y = NaN"
| "f64_add x NaN = NaN"
| "f64_add (Inf n) (Inf m) = (if n = m then Inf n else NaN)"
| "f64_add (Inf n) (Fin q) = Inf n"
| "f64_add (Fin q) (Inf m) = Inf m"
| "f64_add (Fin q) (Fin r) = round_f64 (q + r)"

section \<open>Conversions to integers\<close>

definition f64_ceil :: "f64 \<Rightarrow> f64" where
  "f64_ceil x = (case x of Fin q \<Rightarrow> Fin (of_int \<lceil>q\<rceil>) | _ \<Rightarrow> x)"

definition f64_floor :: "f64 \<Rightarrow> f64" where
  "f64_floor x = (case x of Fin q \<Rightarrow> Fin (of_int \<lfloor>q\<rfloor>) | _ \<Rightarrow> x)"

text \<open>A cast \<^verbatim>\<open>as\<close> a signed integer with \<open>w\<close> bits: truncated towards zero, saturating, and 0 for
  not-a-number.\<close>

definition trunc :: "rat \<Rightarrow> int" where
  "trunc q = (if 0 \<le> q then \<lfloor>q\<rfloor> else \<lceil>q\<rceil>)"

definition f64_as_int :: "nat \<Rightarrow> f64 \<Rightarrow> int" where
  "f64_as_int w x =
     (let lo = - (2 ^ (w - 1)); hi = 2 ^ (w - 1) - 1
      in case x of
           NaN \<Rightarrow> 0
         | Inf n \<Rightarrow> if n then lo else hi
         | Fin q \<Rightarrow> max lo (min hi (trunc q)))"

section \<open>Reading a number\<close>

text \<open>\<^verbatim>\<open>str::parse::<f64>\<close>: an optional sign, then \<^verbatim>\<open>inf\<close>, \<^verbatim>\<open>infinity\<close> or \<^verbatim>\<open>nan\<close> in any case, or decimal digits
  with an optional point and exponent, at least one digit in the significand.\<close>

definition parse_exponent :: "byte list \<Rightarrow> int option" where
  "parse_exponent s =
     (let (neg, ds) = (case s of
        b # t \<Rightarrow> if b = 0x2D then (True, t) else if b = 0x2B then (False, t) else (False, s)
      | [] \<Rightarrow> (False, s))
      in if ds \<noteq> [] \<and> list_all digit ds
         then Some (if neg then - int (decimal ds) else int (decimal ds)) else None)"

definition parse_unsigned :: "byte list \<Rightarrow> rat option" where
  "parse_unsigned s =
     (let whole = takeWhile digit s; r = dropWhile digit s;
          (frac, r') = (case r of
             b # t \<Rightarrow> if b = 0x2E then (takeWhile digit t, dropWhile digit t) else ([], r)
           | [] \<Rightarrow> ([], r));
          mant = of_nat (decimal (whole @ frac)) / 10 ^ length frac :: rat
      in if whole = [] \<and> frac = [] then None
         else case r' of
                [] \<Rightarrow> Some mant
              | b # t \<Rightarrow>
                  if b = 0x65 \<or> b = 0x45
                  then map_option (\<lambda>e. if 0 \<le> e then mant * 10 ^ nat e else mant / 10 ^ nat (- e))
                         (parse_exponent t)
                  else None)"

definition f64_neg :: "f64 \<Rightarrow> f64" where
  "f64_neg x = (case x of NaN \<Rightarrow> NaN | Inf n \<Rightarrow> Inf (\<not> n) | Fin q \<Rightarrow> Fin (- q))"

definition parse_f64 :: "byte list \<Rightarrow> f64 option" where
  "parse_f64 s =
     (let (neg, body) = (case s of
        b # t \<Rightarrow> if b = 0x2D then (True, t) else if b = 0x2B then (False, t) else (False, s)
      | [] \<Rightarrow> (False, s));
          value = (if to_ascii_lowercase body \<in> {byte_string ''inf'', byte_string ''infinity''} then Some (Inf False)
                   else if to_ascii_lowercase body = byte_string ''nan'' then Some NaN
                   else map_option round_f64 (parse_unsigned body))
      in if neg then map_option f64_neg value else value)"

section \<open>Rounding errors\<close>

lemma pow2_pos [simp]: "0 < pow2 e"
  by (simp add: pow2_def)

lemma pow2_nonzero [simp]: "pow2 e \<noteq> 0" "0 \<le> pow2 e" "\<not> pow2 e < 0" "\<not> pow2 e \<le> 0"
  using pow2_pos [of e] by (auto simp del: pow2_pos)

lemma pow2_Suc: "pow2 (e + 1) = 2 * pow2 e"
proof (cases "0 \<le> e")
  case True
  then show ?thesis by (simp add: pow2_def nat_add_distrib)
next
  case False
  then have "nat (- e) = Suc (nat (- (e + 1)))" by simp
  then show ?thesis using False by (auto simp: pow2_def)
qed

lemma pow2_add_nat: "pow2 (e + int n) = pow2 e * 2 ^ n"
proof (induction n)
  case (Suc n)
  have "pow2 (e + int (Suc n)) = pow2 (e + int n + 1)" by (simp add: algebra_simps)
  with Suc show ?case by (simp only: pow2_Suc) simp
qed simp

lemma pow2_le: "e \<le> e' \<Longrightarrow> pow2 e \<le> pow2 e'"
proof -
  assume "e \<le> e'"
  then have "pow2 e' = pow2 e * 2 ^ nat (e' - e)" using pow2_add_nat [of e "nat (e' - e)"] by simp
  moreover have "(1::rat) \<le> 2 ^ nat (e' - e)" by simp
  ultimately show ?thesis by (simp add: mult_le_cancel_left1)
qed

lemma pow2_less_cancel: "pow2 e < pow2 e' \<Longrightarrow> e < e'"
  using pow2_le [of e' e] by (cases "e < e'") auto

lemma floor_log2_le:
  assumes "0 < x"
  shows "pow2 (floor_log2 x) \<le> x"
proof -
  obtain p q where pq: "quotient_of x = (p, q)" by fastforce
  then have q: "0 < q" and x: "x = of_int p / of_int q"
    by (simp_all add: quotient_of_denom_pos quotient_of_div)
  with assms have p: "0 < p" by (simp add: zero_less_divide_iff)
  let ?d = "bitlen p - bitlen q"
  have bp: "2 ^ nat (bitlen p - 1) \<le> p" using bitlen_bounds [OF p] by simp
  have bq: "q < 2 ^ nat (bitlen q)" using bitlen_bounds [OF q] by simp
  have "1 \<le> bitlen p" using p bitlen_eq_zero_iff [of p] bitlen_nonneg [of p] by linarith
  then have "pow2 (bitlen p - 1) = of_int (2 ^ nat (bitlen p - 1))" by (simp add: pow2_def)
  also have "\<dots> \<le> of_int p" using bp by (simp only: of_int_le_iff)
  finally have 1: "pow2 (bitlen p - 1) \<le> of_int p" .
  have "of_int q \<le> (of_int (2 ^ nat (bitlen q)) :: rat)" using bq by (simp only: of_int_le_iff)
  also have "\<dots> = pow2 (bitlen q)" using bitlen_nonneg [of q] by (simp add: pow2_def)
  finally have 2: "of_int q \<le> pow2 (bitlen q)" .
  have "pow2 (bitlen p - 1) = pow2 (?d - 1) * 2 ^ nat (bitlen q)"
    using pow2_add_nat [of "?d - 1" "nat (bitlen q)"] bitlen_nonneg [of q] by simp
  also have "\<dots> = pow2 (?d - 1) * pow2 (bitlen q)"
    using bitlen_nonneg [of q] by (simp add: pow2_def)
  finally have "pow2 (?d - 1) * pow2 (bitlen q) \<le> of_int p" using 1 by simp
  moreover have "pow2 (?d - 1) * of_int q \<le> pow2 (?d - 1) * pow2 (bitlen q)"
    using 2 by (simp add: mult_left_mono)
  ultimately have "pow2 (?d - 1) * of_int q \<le> of_int p" by linarith
  then have "pow2 (?d - 1) \<le> x" using q by (simp add: x pos_le_divide_eq)
  then show ?thesis by (simp add: floor_log2_def pq Let_def)
qed

lemma round_half_even_error: "\<bar>of_int (round_half_even x) - x\<bar> \<le> 1 / 2"
proof -
  obtain n f where nf: "n = \<lfloor>x\<rfloor>" "f = x - of_int n" by simp
  then have "0 \<le> f" "f < 1" by linarith+
  moreover have "x = of_int n + f" using nf by simp
  moreover have "round_half_even x =
      (if f < 1 / 2 then n else if f > 1 / 2 then n + 1 else if even n then n else n + 1)"
    using nf by (simp add: round_half_even_def Let_def)
  ultimately show ?thesis by auto
qed

lemma round_half_even_int [simp]: "round_half_even (of_int n) = n"
  by (simp add: round_half_even_def)

text \<open>Below \<open>2 ^ k\<close> the error of a rounded number is at most half the last place of \<open>2 ^ k\<close>.\<close>

lemma round_f64_error:
  assumes "\<bar>x\<bar> < pow2 k" and "- 1000 \<le> k" and "k \<le> 1000"
  shows "\<exists>y. round_f64 x = Fin y \<and> \<bar>y - x\<bar> \<le> pow2 (k - 54)"
proof (cases "x = 0")
  case True
  then show ?thesis by (simp add: round_f64_def less_imp_le)
next
  case False
  define e where "e = max (floor_log2 \<bar>x\<bar> - 52) (- 1074)"
  define y where "y = of_int (round_half_even (x / pow2 e)) * pow2 e"
  have "pow2 (floor_log2 \<bar>x\<bar>) < pow2 k"
    using floor_log2_le [of "\<bar>x\<bar>"] assms(1) False by simp
  then have "e \<le> k - 53" using assms(2) by (auto simp: e_def dest: pow2_less_cancel)
  then have e: "pow2 e \<le> 2 * pow2 (k - 54)"
    using pow2_le [of e "k - 53"] pow2_Suc [of "k - 54"] by simp
  have "y - x = (of_int (round_half_even (x / pow2 e)) - x / pow2 e) * pow2 e"
    by (simp add: y_def left_diff_distrib)
  then have "\<bar>y - x\<bar> = \<bar>of_int (round_half_even (x / pow2 e)) - x / pow2 e\<bar> * pow2 e"
    by (simp add: abs_mult less_imp_le)
  also have "\<dots> \<le> 1 / 2 * pow2 e"
    using round_half_even_error by (simp add: mult_right_mono less_imp_le)
  finally have err: "\<bar>y - x\<bar> \<le> pow2 (k - 54)" using e by simp
  have "pow2 (k - 54) \<le> pow2 k" by (rule pow2_le) simp
  moreover have "pow2 (k + 1) \<le> pow2 1024" by (rule pow2_le) (use assms(3) in simp)
  moreover have "pow2 (k + 1) = 2 * pow2 k" by (rule pow2_Suc)
  ultimately have "\<not> pow2 1024 \<le> \<bar>y\<bar>" using err assms(1) by linarith
  then have "round_f64 x = Fin y" using False by (simp add: round_f64_def e_def y_def Let_def)
  with err show ?thesis by blast
qed

text \<open>A finite result determines the magnitude of the number that was rounded.\<close>

lemma round_f64_magnitude:
  assumes "round_f64 x = Fin y"
  shows "\<bar>x\<bar> \<le> 2 * (\<bar>y\<bar> + 1)"
proof (cases "x = 0")
  case True
  then show ?thesis by simp
next
  case False
  define e where "e = max (floor_log2 \<bar>x\<bar> - 52) (- 1074)"
  have y: "y = of_int (round_half_even (x / pow2 e)) * pow2 e"
    using assms False by (simp add: round_f64_def e_def Let_def split: if_splits)
  have "y - x = (of_int (round_half_even (x / pow2 e)) - x / pow2 e) * pow2 e"
    by (simp add: y left_diff_distrib)
  then have "\<bar>y - x\<bar> = \<bar>of_int (round_half_even (x / pow2 e)) - x / pow2 e\<bar> * pow2 e"
    by (simp add: abs_mult)
  also have "\<dots> \<le> 1 / 2 * pow2 e"
    using round_half_even_error by (simp add: mult_right_mono)
  finally have err: "\<bar>y - x\<bar> \<le> pow2 e / 2" by simp
  have "pow2 (floor_log2 \<bar>x\<bar> - 52) \<le> pow2 (floor_log2 \<bar>x\<bar>)" by (rule pow2_le) simp
  then have 1: "pow2 (floor_log2 \<bar>x\<bar> - 52) \<le> \<bar>x\<bar>"
    using floor_log2_le [of "\<bar>x\<bar>"] False by simp
  have "pow2 (- 1074) \<le> pow2 0" by (rule pow2_le) simp
  then have "pow2 (- 1074) \<le> 1" by (simp add: pow2_def)
  with 1 have "pow2 e \<le> \<bar>x\<bar> + 1" by (auto simp: e_def max_def)
  moreover have "a - b \<le> d \<Longrightarrow> d \<le> p / 2 \<Longrightarrow> p \<le> a + 1 \<Longrightarrow> 0 \<le> b \<Longrightarrow> a \<le> 2 * (b + 1)"
    for a b d p :: rat
    by simp
  ultimately show ?thesis
    using err abs_triangle_ineq2 [of x y] by (metis abs_ge_zero abs_minus_commute)
qed

lemma trunc_error: "\<bar>of_int (trunc q) - q\<bar> < 1"
  by (simp add: trunc_def) linarith

text \<open>Integers of up to 53 bits are floating-point numbers.\<close>

lemma round_f64_of_int:
  assumes "\<bar>n\<bar> < 2 ^ 53"
  shows "round_f64 (of_int n) = Fin (of_int n)"
proof (cases "n = 0")
  case True
  then show ?thesis by (simp add: round_f64_def)
next
  case False
  define x where "x = (of_int n :: rat)"
  define e where "e = max (floor_log2 \<bar>x\<bar> - 52) (- 1074)"
  have "\<bar>x\<bar> = of_int \<bar>n\<bar>" by (simp add: x_def)
  also have "\<dots> < of_int (2 ^ 53)" using assms by (simp only: of_int_less_iff)
  finally have x: "\<bar>x\<bar> < pow2 53" by (simp add: pow2_def)
  then have "pow2 (floor_log2 \<bar>x\<bar>) < pow2 53"
    using floor_log2_le [of "\<bar>x\<bar>"] False by (simp add: x_def)
  then have "e \<le> 0" by (auto simp: e_def dest: pow2_less_cancel)
  then have "x / pow2 e = of_int (n * 2 ^ nat (- e))" by (simp add: pow2_def x_def)
  then have "of_int (round_half_even (x / pow2 e)) * pow2 e = x / pow2 e * pow2 e"
    by (simp only: round_half_even_int)
  also have "\<dots> = x" by simp
  finally have y: "of_int (round_half_even (x / pow2 e)) * pow2 e = x" .
  have "pow2 53 \<le> pow2 1024" by (rule pow2_le) simp
  with x have "\<not> pow2 1024 \<le> \<bar>x\<bar>" by linarith
  with y False show ?thesis
    by (simp add: round_f64_def Let_def flip: x_def e_def)
qed

lemma round_f64_numeral: "numeral n < (2::int) ^ 53 \<Longrightarrow> round_f64 (numeral n) = Fin (numeral n)"
  using round_f64_of_int [of "numeral n"] by simp

section \<open>Rounding is monotone\<close>

lemma floor_log2_less:
  assumes "0 < x"
  shows "x < pow2 (floor_log2 x + 1)"
proof -
  obtain p q where pq: "quotient_of x = (p, q)" by fastforce
  then have q: "0 < q" and x: "x = of_int p / of_int q"
    by (simp_all add: quotient_of_denom_pos quotient_of_div)
  with assms have p: "0 < p" by (simp add: zero_less_divide_iff)
  let ?d = "bitlen p - bitlen q"
  have bp: "p < 2 ^ nat (bitlen p)" using bitlen_bounds [OF p] by simp
  have bq: "2 ^ nat (bitlen q - 1) \<le> q" using bitlen_bounds [OF q] by simp
  have q1: "1 \<le> bitlen q" using q bitlen_eq_zero_iff [of q] bitlen_nonneg [of q] by linarith
  have "of_int p < (of_int (2 ^ nat (bitlen p)) :: rat)" using bp by (simp only: of_int_less_iff)
  also have "\<dots> = pow2 (bitlen p)" using bitlen_nonneg [of p] by (simp add: pow2_def)
  also have "\<dots> = pow2 (?d + 1) * pow2 (bitlen q - 1)"
    using pow2_add_nat [of "?d + 1" "nat (bitlen q - 1)"] q1 by (simp add: pow2_def)
  also have "pow2 (bitlen q - 1) = of_int (2 ^ nat (bitlen q - 1))" using q1 by (simp add: pow2_def)
  also have "pow2 (?d + 1) * of_int (2 ^ nat (bitlen q - 1)) \<le> pow2 (?d + 1) * of_int q"
    using bq by (intro mult_left_mono) (simp_all only: of_int_le_iff pow2_nonzero)
  finally have "x < pow2 (?d + 1)" using q by (simp add: x divide_less_eq)
  then show ?thesis by (simp add: floor_log2_def pq Let_def)
qed

lemma floor_log2_mono: "0 < x \<Longrightarrow> x \<le> y \<Longrightarrow> floor_log2 x \<le> floor_log2 y"
proof -
  assume "0 < x" "x \<le> y"
  then have "pow2 (floor_log2 x) < pow2 (floor_log2 y + 1)"
    using floor_log2_le [of x] floor_log2_less [of y] by linarith
  then show ?thesis by (auto dest: pow2_less_cancel)
qed

lemma round_half_even_bounds: "\<lfloor>x\<rfloor> \<le> round_half_even x" "round_half_even x \<le> \<lfloor>x\<rfloor> + 1"
  by (simp_all add: round_half_even_def Let_def)

lemma round_half_even_mono:
  assumes "x \<le> y"
  shows "round_half_even x \<le> round_half_even y"
proof (cases "\<lfloor>x\<rfloor> = \<lfloor>y\<rfloor>")
  case True
  then have "x - of_int \<lfloor>x\<rfloor> \<le> y - of_int \<lfloor>x\<rfloor>" using assms by simp
  then show ?thesis unfolding round_half_even_def Let_def True [symmetric] by simp
next
  case False
  with assms have "\<lfloor>x\<rfloor> + 1 \<le> \<lfloor>y\<rfloor>" using floor_mono [OF assms] by linarith
  then show ?thesis using round_half_even_bounds [of x] round_half_even_bounds [of y] by linarith
qed

lemma round_half_even_neg: "round_half_even (- x) = - round_half_even x"
proof (cases "x = of_int \<lfloor>x\<rfloor>")
  case True
  then show ?thesis using round_half_even_int [of "\<lfloor>x\<rfloor>"] round_half_even_int [of "- \<lfloor>x\<rfloor>"] by simp
next
  case False
  then have n: "\<lfloor>- x\<rfloor> = - \<lfloor>x\<rfloor> - 1" by (simp add: floor_minus ceiling_altdef)
  then have "- x - of_int \<lfloor>- x\<rfloor> = 1 - (x - of_int \<lfloor>x\<rfloor>)" by simp
  then show ?thesis unfolding round_half_even_def Let_def by (simp only: n) auto
qed

text \<open>The last place of a number and its rounding with an unbounded exponent.\<close>

definition last_place :: "rat \<Rightarrow> int" where
  "last_place x = max (floor_log2 \<bar>x\<bar> - 52) (- 1074)"

definition round_place :: "rat \<Rightarrow> rat" where
  "round_place x = of_int (round_half_even (x / pow2 (last_place x))) * pow2 (last_place x)"

lemma round_f64_place:
  "round_f64 x = (if pow2 1024 \<le> \<bar>round_place x\<bar> then Inf (x < 0) else Fin (round_place x))"
proof (cases "x = 0")
  case True
  have "round_half_even 0 = 0" by (simp add: round_half_even_def)
  with True show ?thesis by (simp add: round_f64_def round_place_def)
next
  case False
  then show ?thesis by (simp add: round_f64_def round_place_def last_place_def Let_def)
qed

lemma round_place_neg: "round_place (- x) = - round_place x"
  by (simp add: round_place_def last_place_def round_half_even_neg)

lemma round_place_mono_pos:
  assumes "0 < x" and "x \<le> y"
  shows "round_place x \<le> round_place y"
proof -
  let ?e = last_place
  have fl: "floor_log2 x \<le> floor_log2 y" using assms by (rule floor_log2_mono)
  then have "?e x \<le> ?e y" using assms by (auto simp: last_place_def)
  then consider "?e x = ?e y" | "?e x < ?e y" by linarith
  then show ?thesis
  proof cases
    case 1
    have "x / pow2 (?e y) \<le> y / pow2 (?e y)" using assms by (simp add: divide_right_mono)
    with 1 show ?thesis
      by (simp add: round_place_def round_half_even_mono mult_right_mono)
  next
    case 2
    have p: "pow2 (e + 53) = pow2 e * 2 ^ 53" "pow2 (e + 52) = pow2 e * 2 ^ 52" for e
      using pow2_add_nat [of e 53] pow2_add_nat [of e 52] by simp_all
    from 2 assms have ey: "floor_log2 y = ?e y + 52" by (auto simp: last_place_def)
    then have "pow2 (?e y) * 2 ^ 52 \<le> y" using floor_log2_le [of y] assms p(2) [of "?e y"] by simp
    then have "of_int (2 ^ 52) \<le> y / pow2 (?e y)" by (simp add: pos_le_divide_eq mult.commute)
    then have "2 ^ 52 \<le> round_half_even (y / pow2 (?e y))"
      using round_half_even_mono round_half_even_int by metis
    then have "(2::rat) ^ 52 \<le> of_int (round_half_even (y / pow2 (?e y)))"
      by (metis of_int_le_iff of_int_numeral of_int_power)
    then have y: "2 ^ 52 * pow2 (?e y) \<le> round_place y" by (simp add: round_place_def mult_right_mono)
    have "floor_log2 x + 1 \<le> ?e x + 53" using assms by (auto simp: last_place_def)
    then have "x \<le> pow2 (?e x + 53)"
      using floor_log2_less [OF assms(1)] pow2_le [of "floor_log2 x + 1" "?e x + 53"] by linarith
    then have "x / pow2 (?e x) \<le> of_int (2 ^ 53)" by (simp add: p(1) divide_le_eq mult.commute)
    then have "round_half_even (x / pow2 (?e x)) \<le> 2 ^ 53"
      using round_half_even_mono round_half_even_int by metis
    then have "of_int (round_half_even (x / pow2 (?e x))) \<le> (2::rat) ^ 53"
      by (metis of_int_le_iff of_int_numeral of_int_power)
    then have "round_place x \<le> 2 ^ 53 * pow2 (?e x)" by (simp add: round_place_def mult_right_mono)
    also have "\<dots> = pow2 (?e x + 53)" using p(1) by simp
    also have "\<dots> \<le> pow2 (?e y + 52)" using 2 by (intro pow2_le) simp
    also have "\<dots> = 2 ^ 52 * pow2 (?e y)" using p(2) by simp
    also note y
    finally show ?thesis .
  qed
qed

lemma round_place_nonneg: "0 \<le> x \<Longrightarrow> 0 \<le> round_place x"
  using round_half_even_mono [of 0 "x / pow2 (last_place x)"]
  by (simp add: round_place_def round_half_even_def)

lemma round_place_mono:
  assumes "x \<le> y"
  shows "round_place x \<le> round_place y"
proof -
  consider "0 < x" | "x \<le> 0" "0 \<le> y" | "y < 0" by linarith
  then show ?thesis
  proof cases
    case 1
    then show ?thesis using round_place_mono_pos assms by blast
  next
    case 2
    then show ?thesis
      using round_place_nonneg [of y] round_place_nonneg [of "- x"] round_place_neg [of x] by simp
  next
    case 3
    then show ?thesis
      using round_place_mono_pos [of "- y" "- x"] round_place_neg assms by simp
  qed
qed

lemma round_f64_mono:
  assumes "x \<le> y"
  shows "f64_le (round_f64 x) (round_f64 y)"
proof -
  have m: "round_place x \<le> round_place y" using assms by (rule round_place_mono)
  have s: "x < 0 \<Longrightarrow> round_place x \<le> 0" "y < 0 \<Longrightarrow> round_place y \<le> 0"
    using round_place_nonneg [of "- x"] round_place_nonneg [of "- y"] round_place_neg by auto
  have "0 \<le> x \<Longrightarrow> 0 \<le> round_place x" "0 \<le> y \<Longrightarrow> 0 \<le> round_place y" by (auto intro: round_place_nonneg)
  with m s assms pow2_pos [of 1024] show ?thesis
    by (simp add: round_f64_place) linarith
qed

section \<open>The order\<close>

lemma f64_le_refl: "x \<noteq> NaN \<Longrightarrow> f64_le x x"
  by (cases x) auto

lemma f64_le_trans: "f64_le x y \<Longrightarrow> f64_le y z \<Longrightarrow> f64_le x z"
  by (cases x; cases y; cases z) auto

lemma f64_lt_le_trans: "f64_lt x y \<Longrightarrow> f64_le y z \<Longrightarrow> f64_lt x z"
  by (cases x; cases y; cases z) auto

lemma f64_le_lt_trans: "f64_le x y \<Longrightarrow> f64_lt y z \<Longrightarrow> f64_lt x z"
  by (cases x; cases y; cases z) auto

lemma f64_not_lt: "x \<noteq> NaN \<Longrightarrow> y \<noteq> NaN \<Longrightarrow> \<not> f64_lt x y \<longleftrightarrow> f64_le y x"
  by (cases x; cases y) auto

end
