(* ===== verification/Policy_Types.thy ===== *)
theory Policy_Types
  imports Rust_F64
begin

text \<open>
  The data of the user-space pipeline: the policy structures of \<^verbatim>\<open>ts_cli/src/main.rs\<close> and the proposal,
  observation, assessment and lineage structures of \<^verbatim>\<open>ts_cli/src/governance.rs\<close>. A hash map that the
  program iterates over is a list of pairs in the order of the iteration, with \<^const>\<open>map_of\<close> for
  look-ups.
\<close>

section \<open>Policies\<close>

record AgentNodePolicy =
  node_id :: "byte list"
  privilege_tier :: u32
  max_sequence_quota :: u64
  node_peer_uids :: "u32 list"
  allowed_intents :: "byte list list"
  allowed_executables :: "byte list list"
  denied_write_paths :: "byte list list"
  denied_unlink_paths :: "byte list list"
  denied_dns_domains :: "byte list list"
  node_invariants :: "byte list list"

record NetworkPolicy =
  default_deny :: bool
  allowed_ips :: "byte list list"
  denied_ips :: "byte list list"
  allowed_unix_sockets :: "byte list list"
  unix_default_deny :: bool

record RuntimePolicy =
  deny_root_peers :: bool
  runtime_peer_uids :: "u32 list"
  require_brokered_execution :: bool
  require_sandbox_namespace :: bool

record PolicyConfig =
  upper_safety_boundary :: f64
  minimum_trust_score :: f64
  agent_nodes :: "(byte list \<times> AgentNodePolicy) list"
  deny_anonymous_agents :: bool
  allow_anonymous_override :: bool
  network_policy :: NetworkPolicy
  runtime_policy :: RuntimePolicy
  fleet_policy_min_version :: u64
  accept_cross_machine_lineage :: bool
  canary_resources :: "byte list list"

definition node_values :: "PolicyConfig \<Rightarrow> AgentNodePolicy list" where
  "node_values policy = map snd (agent_nodes policy)"

section \<open>Proposals and observations\<close>

datatype ProposedAction =
    ShellCommand "byte list"
  | FileWrite "byte list" "byte list"
  | NetworkRequest "byte list" "byte list"

record ClientProposal =
  session_privilege_bit :: "f64 option"
  action_risk_score :: "f64 option"
  sequence_counter :: u64
  intent_name :: "byte list option"
  prompt :: "byte list option"
  plan :: "byte list option"
  source_code :: "byte list option"
  requested_capabilities :: "byte list list"
  proposed_action :: "ProposedAction option"
  context_vars :: "byte list \<rightharpoonup> f64"

record ObservationRecord =
  obs_pid :: u32
  obs_start_time :: u64
  obs_uid :: u32
  obs_gid :: u32
  obs_executable_path :: "byte list option"
  obs_command_line :: "byte list list"
  namespace_observed :: bool
  namespace_pid_inode :: "u64 option"
  namespace_net_inode :: "u64 option"
  socket_peer_verified :: bool
  observed_at_unix_secs :: u64

record RiskAssessment =
  observed_risk :: f64
  semantic_risk :: f64
  topology_risk :: f64
  declared_risk :: "f64 option"
  fused_risk :: f64
  trust_score :: f64
  risk_reasons :: "byte list list"

section \<open>Lineage\<close>

record AgentLineage =
  lin_pid :: u32
  lin_start_time :: u64
  lin_uid :: u32
  lin_gid :: u32
  lin_executable_path :: "byte list option"
  first_seen_unix_secs :: u64
  last_seen_unix_secs :: u64
  first_sequence :: u64
  last_sequence :: u64
  max_assessed_risk :: f64
  decisions_seen :: u64

datatype sequence_error = Sequence_counter_zero | Sequence_replay

definition new_lineage :: "ObservationRecord \<Rightarrow> u64 \<Rightarrow> RiskAssessment \<Rightarrow> AgentLineage" where
  "new_lineage observation sequence assessment =
     \<lparr>lin_pid = obs_pid observation, lin_start_time = obs_start_time observation,
      lin_uid = obs_uid observation, lin_gid = obs_gid observation,
      lin_executable_path = obs_executable_path observation,
      first_seen_unix_secs = observed_at_unix_secs observation,
      last_seen_unix_secs = observed_at_unix_secs observation,
      first_sequence = sequence, last_sequence = 0,
      max_assessed_risk = fused_risk assessment, decisions_seen = 0\<rparr>"

definition lineage_validate_sequence :: "AgentLineage \<Rightarrow> u64 \<Rightarrow> sequence_error + unit" where
  "lineage_validate_sequence lineage sequence =
     (if sequence = 0 then Inl Sequence_counter_zero
      else if last_sequence lineage \<noteq> 0 \<and> sequence \<le> last_sequence lineage then Inl Sequence_replay
      else Inr ())"

end
