(* ===== verification/Admission.thy ===== *)
theory Admission
  imports Ts_Wire Policy_Types
begin

text \<open>
  Admission to the governance socket, from \<^verbatim>\<open>ts_cli/src/main.rs\<close>: the shared keys with a rotation
  grace period, the optional per-agent keys and the bounded replay cache. Reading the clock and
  the files is outside; what was read is an argument.
\<close>

section \<open>Keys\<close>

datatype AdmissionKeyMatch = Match_Current | Match_Previous

datatype EnvelopeKeyMatch = Match_Admission AdmissionKeyMatch | Match_AgentSpecific

record PreviousAdmissionKey =
  previous_secret :: "byte list"
  valid_until_epoch_secs :: u64

record AdmissionKeyset =
  current_key :: "byte list"
  previous_key :: "PreviousAdmissionKey option"

datatype key_error = Current_empty | Previous_empty | Previous_not_different | Rotation_incomplete

definition new_keyset ::
    "byte list \<Rightarrow> PreviousAdmissionKey option \<Rightarrow> key_error + AdmissionKeyset" where
  "new_keyset current previous =
     (if current = [] then Inl Current_empty
      else case previous of
             None \<Rightarrow> Inr \<lparr>current_key = current, previous_key = previous\<rparr>
           | Some p \<Rightarrow>
               (if previous_secret p = [] then Inl Previous_empty
                else if previous_secret p = current then Inl Previous_not_different
                else Inr \<lparr>current_key = current, previous_key = previous\<rparr>))"

definition keyset_verify_at ::
    "wire_crates \<Rightarrow> AdmissionKeyset \<Rightarrow> SignedEnvelope \<Rightarrow> u64 \<Rightarrow> AdmissionKeyMatch option" where
  "keyset_verify_at cr keys envelope now_epoch_secs =
     (if verify_envelope cr envelope (current_key keys) then Some Match_Current
      else case previous_key keys of
             None \<Rightarrow> None
           | Some p \<Rightarrow>
               (if now_epoch_secs \<le> valid_until_epoch_secs p \<and> verify_envelope cr envelope (previous_secret p)
                then Some Match_Previous else None))"

type_synonym AgentSecretStore = "byte list \<rightharpoonup> byte list"

definition secret_for :: "AgentSecretStore \<Rightarrow> byte list option \<Rightarrow> byte list option" where
  "secret_for secrets agent_id = (case agent_id of None \<Rightarrow> None | Some a \<Rightarrow> secrets a)"

definition store_verify ::
    "wire_crates \<Rightarrow> AgentSecretStore \<Rightarrow> byte list option \<Rightarrow> SignedEnvelope \<Rightarrow> AdmissionKeyset \<Rightarrow> u64 \<Rightarrow>
     EnvelopeKeyMatch option" where
  "store_verify cr secrets agent_id envelope keys now =
     (case secret_for secrets agent_id of
        Some agent_secret \<Rightarrow>
          (if verify_envelope cr envelope agent_secret then Some Match_AgentSpecific else None)
      | None \<Rightarrow> map_option Match_Admission (keyset_verify_at cr keys envelope now))"

text \<open>\<^verbatim>\<open>char::is_control\<close> on UTF-8: the C0 and C1 controls and DEL.\<close>

fun has_control :: "byte list \<Rightarrow> bool" where
  "has_control [] = False"
| "has_control [b] = (b < 0x20 \<or> b = 0x7F)"
| "has_control (b # c # s) =
     (b < 0x20 \<or> b = 0x7F \<or> b = 0xC2 \<and> 0x80 \<le> c \<and> c \<le> 0x9F \<or> has_control (c # s))"

definition valid_agent_secret_id :: "byte list \<Rightarrow> bool" where
  "valid_agent_secret_id agent_id \<longleftrightarrow>
     agent_id \<noteq> [] \<and> agent_id = trim agent_id \<and> agent_id \<noteq> byte_string ''.'' \<and> agent_id \<noteq> byte_string ''..'' \<and>
     0x2F \<notin> set agent_id \<and> 0 \<notin> set agent_id \<and> \<not> has_control agent_id"

definition trim_secret_bytes :: "byte list \<Rightarrow> byte list" where
  "trim_secret_bytes bytes =
     (case dropWhile (\<lambda>b. b = 10 \<or> b = 13 \<or> b = 32) (rev bytes) of
        [] \<Rightarrow> bytes
      | r \<Rightarrow> rev r)"

definition validate_previous_secret_config ::
    "byte list option \<Rightarrow> u64 option \<Rightarrow> key_error + unit" where
  "validate_previous_secret_config previous_path previous_valid_until =
     (case (previous_path, previous_valid_until) of
        (None, None) \<Rightarrow> Inr ()
      | (Some _, Some _) \<Rightarrow> Inr ()
      | _ \<Rightarrow> Inl Rotation_incomplete)"

section \<open>The replay cache\<close>

type_synonym nonce = "byte list \<times> u64"

record ReplayGuard =
  seen :: "nonce set"
  order :: "nonce list"
  cap :: nat

definition MAX_REPLAY_ENTRIES :: nat where "MAX_REPLAY_ENTRIES = 2 ^ 20"

definition with_capacity :: "nat \<Rightarrow> ReplayGuard" where
  "with_capacity c = \<lparr>seen = {}, order = [], cap = max c 1\<rparr>"

definition evict :: "ReplayGuard \<Rightarrow> ReplayGuard" where
  "evict g =
     (if length (order g) \<ge> cap g
      then case order g of
             [] \<Rightarrow> g
           | evicted # rest \<Rightarrow> g\<lparr>seen := seen g - {evicted}, order := rest\<rparr>
      else g)"

definition observe :: "ReplayGuard \<Rightarrow> nonce \<Rightarrow> bool \<times> ReplayGuard" where
  "observe g key =
     (if key \<in> seen g then (False, g)
      else let g' = evict g
           in (True, g'\<lparr>seen := insert key (seen g'), order := order g' @ [key]\<rparr>))"

section \<open>Loading the keys\<close>

text \<open>\<open>read_file\<close> is the content of a file or \<^const>\<open>None\<close> when it cannot be read, \<open>env_secret\<close> the value of the
  environment variable. An entry of the directory of agent keys is its name, whether it is a
  regular file, and its content.\<close>

datatype load_error =
    Secret_missing
  | Secret_unreadable
  | Bad_keys key_error
  | Bad_agent_name
  | Agent_secret_empty

definition load_required_secret ::
    "(byte list \<Rightarrow> byte list option) \<Rightarrow> byte list option \<Rightarrow> byte list option \<Rightarrow> load_error + byte list" where
  "load_required_secret read_file env_secret path =
     (case Option.bind path read_file of
        Some bytes \<Rightarrow> Inr (trim_secret_bytes bytes)
      | None \<Rightarrow> (case env_secret of Some s \<Rightarrow> Inr s | None \<Rightarrow> Inl Secret_missing))"

definition load_admission_keyset ::
    "(byte list \<Rightarrow> byte list option) \<Rightarrow> byte list option \<Rightarrow> byte list option \<Rightarrow> byte list option \<Rightarrow>
     u64 option \<Rightarrow> load_error + AdmissionKeyset" where
  "load_admission_keyset read_file env_secret current_path previous_path previous_valid_until =
     (case validate_previous_secret_config previous_path previous_valid_until of
        Inl err \<Rightarrow> Inl (Bad_keys err)
      | Inr () \<Rightarrow>
          (case load_required_secret read_file env_secret current_path of
             Inl err \<Rightarrow> Inl err
           | Inr current \<Rightarrow>
               (case (previous_path, previous_valid_until) of
                  (Some path, Some valid_until) \<Rightarrow>
                    (case read_file path of
                       None \<Rightarrow> Inl Secret_unreadable
                     | Some bytes \<Rightarrow>
                         map_sum Bad_keys id (new_keyset current
                           (Some \<lparr>previous_secret = trim_secret_bytes bytes,
                                  valid_until_epoch_secs = valid_until\<rparr>)))
                | _ \<Rightarrow> map_sum Bad_keys id (new_keyset current None))))"

fun load_agent_secrets ::
    "(byte list \<times> bool \<times> byte list option) list \<Rightarrow> AgentSecretStore \<Rightarrow> load_error + AgentSecretStore" where
  "load_agent_secrets [] secrets = Inr secrets"
| "load_agent_secrets ((name, is_file, content) # entries) secrets =
     (if \<not> is_file then load_agent_secrets entries secrets
      else if \<not> utf8_valid name \<or> \<not> valid_agent_secret_id name then Inl Bad_agent_name
      else case content of
             None \<Rightarrow> Inl Secret_unreadable
           | Some bytes \<Rightarrow>
               (let secret = trim_secret_bytes bytes
                in if secret = [] then Inl Agent_secret_empty
                   else load_agent_secrets entries (secrets(name \<mapsto> secret))))"

section \<open>Keys in use\<close>

lemma new_keyset_Inr:
  "new_keyset c p = Inr keys \<longleftrightarrow>
     c \<noteq> [] \<and> (\<forall>k. p = Some k \<longrightarrow> previous_secret k \<noteq> [] \<and> previous_secret k \<noteq> c) \<and>
     keys = \<lparr>current_key = c, previous_key = p\<rparr>"
  by (auto simp: new_keyset_def split: option.splits)

lemma load_admission_keyset_Inr:
  assumes "load_admission_keyset rd env cp pp pv = Inr keys"
  shows "current_key keys \<noteq> []"
    and "previous_key keys = Some k \<Longrightarrow> previous_secret k \<noteq> [] \<and> previous_secret k \<noteq> current_key keys"
  using assms
  by (auto simp: load_admission_keyset_def new_keyset_Inr map_sum_def split: sum.splits option.splits
      unit.splits)

definition good_store :: "AgentSecretStore \<Rightarrow> bool" where
  "good_store secrets \<longleftrightarrow> (\<forall>a s. secrets a = Some s \<longrightarrow> valid_agent_secret_id a \<and> s \<noteq> [])"

lemma load_agent_secrets_good:
  "load_agent_secrets entries secrets = Inr secrets' \<Longrightarrow> good_store secrets \<Longrightarrow> good_store secrets'"
proof (induction entries secrets rule: load_agent_secrets.induct)
  case (2 name is_file content entries secrets)
  show ?case
  proof (cases "is_file")
    case False
    with 2 show ?thesis by simp
  next
    case True
    with "2.prems"(1) obtain bytes where c: "content = Some bytes" "utf8_valid name"
        "valid_agent_secret_id name" "trim_secret_bytes bytes \<noteq> []"
        "load_agent_secrets entries (secrets(name \<mapsto> trim_secret_bytes bytes)) = Inr secrets'"
      by (auto simp: Let_def split: option.splits if_splits)
    then have "good_store (secrets(name \<mapsto> trim_secret_bytes bytes))"
      using "2.prems"(2) by (auto simp: good_store_def)
    with True c show ?thesis using "2.IH"(2) [of bytes "trim_secret_bytes bytes"] by (simp add: fun_upd_def)
  qed
qed simp

text \<open>A file of white space is taken as it is: its content is not empty and becomes the key.\<close>

lemma blank_secret_accepted:
  "load_agent_secrets [(byte_string ''agent'', True, Some [10])] Map.empty =
     Inr [byte_string ''agent'' \<mapsto> [10]]"
proof -
  have "valid_agent_secret_id (byte_string ''agent'')" "utf8_valid (byte_string ''agent'')" by code_simp+
  moreover have "trim_secret_bytes [10] = [10]" by (simp add: trim_secret_bytes_def)
  ultimately show ?thesis by simp
qed

section \<open>The window of the replay cache\<close>

definition guard_inv :: "ReplayGuard \<Rightarrow> bool" where
  "guard_inv g \<longleftrightarrow> seen g = set (order g) \<and> distinct (order g) \<and> length (order g) \<le> cap g \<and> 1 \<le> cap g"

lemma with_capacity_inv: "guard_inv (with_capacity c)"
  by (simp add: guard_inv_def with_capacity_def)

text \<open>The specification: the history of accepted keys, of which the last \<open>n\<close> are remembered.\<close>

definition recent :: "nat \<Rightarrow> 'a list \<Rightarrow> 'a list" where
  "recent n h = drop (length h - n) h"

lemma recent_snoc: "1 \<le> n \<Longrightarrow> recent n (h @ [k]) = recent n (recent n h @ [k])"
  by (cases "length h < n") (auto simp: recent_def Suc_diff_le)

lemma recent_recent_snoc:
  "1 \<le> n \<Longrightarrow> length h \<le> n \<Longrightarrow> recent n (h @ [k]) = (if length h = n then tl h else h) @ [k]"
  by (auto simp: recent_def drop_Suc drop_eq_Nil Suc_diff_le)

lemma observe_spec:
  assumes "guard_inv g"
  shows "fst (observe g k) \<longleftrightarrow> k \<notin> set (order g)"
    and "guard_inv (snd (observe g k))"
    and "cap (snd (observe g k)) = cap g"
    and "order (snd (observe g k)) =
           (if k \<in> set (order g) then order g else recent (cap g) (order g @ [k]))"
proof -
  have inv: "seen g = set (order g)" "distinct (order g)" "length (order g) \<le> cap g" "1 \<le> cap g"
    using assms by (simp_all add: guard_inv_def)
  show "fst (observe g k) \<longleftrightarrow> k \<notin> set (order g)"
    using inv by (simp add: observe_def Let_def)
  have ev: "order (evict g) = (if length (order g) = cap g then tl (order g) else order g)"
      "seen (evict g) = set (order (evict g))" "cap (evict g) = cap g"
    using inv by (auto simp: evict_def split: list.splits)
  then have "length (order (evict g)) < cap g" "distinct (order (evict g))"
      "set (order (evict g)) \<subseteq> set (order g)"
    using inv by (auto simp: distinct_tl dest: list.set_sel(2) [rotated])
  with ev inv show "guard_inv (snd (observe g k))"
    by (auto simp: observe_def Let_def guard_inv_def)
  show "cap (snd (observe g k)) = cap g" using ev by (simp add: observe_def Let_def)
  show "order (snd (observe g k)) =
      (if k \<in> set (order g) then order g else recent (cap g) (order g @ [k]))"
    using inv ev recent_recent_snoc [of "cap g" "order g" k] by (simp add: observe_def Let_def)
qed

text \<open>A run of the cache and the keys it has accepted.\<close>

fun observe_all :: "ReplayGuard \<Rightarrow> nonce list \<Rightarrow> nonce list \<times> ReplayGuard" where
  "observe_all g [] = ([], g)"
| "observe_all g (k # ks) =
     (let (new, g1) = observe g k; (acc, g2) = observe_all g1 ks
      in ((if new then k # acc else acc), g2))"

lemma observe_all_order:
  assumes "guard_inv g" and "order g = recent (cap g) h"
  shows "guard_inv (snd (observe_all g ks)) \<and> cap (snd (observe_all g ks)) = cap g \<and>
     order (snd (observe_all g ks)) = recent (cap g) (h @ fst (observe_all g ks))"
  using assms
proof (induction ks arbitrary: g h)
  case (Cons k ks)
  obtain new g1 where o: "observe g k = (new, g1)" by fastforce
  obtain acc g2 where a: "observe_all g1 ks = (acc, g2)" by fastforce
  have s: "new \<longleftrightarrow> k \<notin> set (order g)" "guard_inv g1" "cap g1 = cap g"
      "order g1 = (if k \<in> set (order g) then order g else recent (cap g) (order g @ [k]))"
    using observe_spec [OF Cons.prems(1), of k] o by simp_all
  have "1 \<le> cap g" using Cons.prems(1) by (simp add: guard_inv_def)
  then have "order g1 = recent (cap g1) (if new then h @ [k] else h)"
    using s Cons.prems(2) recent_snoc [of "cap g" h k] by simp
  from Cons.IH [OF s(2) this] s(1,3) o a show ?case by (auto split: if_splits)
qed simp

section \<open>Properties\<close>

text \<open>C32: after any sequence of observations the cache refuses a key exactly when it is among
  the last accepted ones, as many as the capacity; it never holds more than its capacity.\<close>

theorem replay_window:
  "case observe_all (with_capacity c) ks of (acc, g) \<Rightarrow>
     (fst (observe g k) \<longleftrightarrow> k \<notin> set (recent (max c 1) acc)) \<and>
     length (order g) \<le> max c 1 \<and> seen g = set (order g)"
proof -
  obtain acc g where a: "observe_all (with_capacity c) ks = (acc, g)" by fastforce
  have "order (with_capacity c) = recent (cap (with_capacity c)) []"
    by (simp add: with_capacity_def recent_def)
  from observe_all_order [OF with_capacity_inv this, of ks] a
  have g: "guard_inv g" "order g = recent (max c 1) acc" "cap g = max c 1"
    by (simp_all add: with_capacity_def)
  then show ?thesis using a observe_spec(1) [OF g(1), of k] by (simp add: guard_inv_def)
qed

end
