(* ===== verification/Governed_Scope.thy ===== *)
theory Governed_Scope
  imports Rust_Str
begin

text \<open>
  The path predicates of \<^verbatim>\<open>ts_cli/src/main.rs\<close> and \<^verbatim>\<open>ts_cli/src/system_immunity.rs\<close>: which paths user space
  enforces on, which prefixes an operator may put under enforcement, which resources are
  protected, and which executables are immune. The prefixes installed from the policy, a global
  of the program, are the argument \<open>prefixes\<close>.
\<close>

abbreviation slash :: byte where "slash \<equiv> 0x2F"

section \<open>Enforcement scope\<close>

definition home_jinnguard_test_path :: "byte list \<Rightarrow> bool" where
  "home_jinnguard_test_path path =
     (case strip_prefix path (byte_string ''/home/'') of
        None \<Rightarrow> False
      | Some rest \<Rightarrow>
          (case split_once slash rest of
             None \<Rightarrow> False
           | Some (user, suffix) \<Rightarrow> starts_with suffix (byte_string ''jinnguard-test/'')))"

definition is_path_in_test_scope :: "byte list \<Rightarrow> bool" where
  "is_path_in_test_scope path =
     (let path = trim path
      in if path = [] then False
         else if starts_with path (byte_string ''/usr/'') \<or> starts_with path (byte_string ''/bin/'') \<or>
                 starts_with path (byte_string ''/lib/'') \<or> starts_with path (byte_string ''/etc/'')
         then False
         else starts_with path (byte_string ''/tmp/jinnguard-test/'') \<or>
              starts_with path (byte_string ''/var/tmp/jinnguard-test/'') \<or>
              home_jinnguard_test_path path)"

definition is_protected_system_path :: "byte list \<Rightarrow> bool" where
  "is_protected_system_path path =
     (let path = trim path
      in starts_with path (byte_string ''/etc/'') \<or> starts_with path (byte_string ''/sys/'') \<or>
         starts_with path (byte_string ''/proc/'') \<or> starts_with path (byte_string ''/root/'') \<or>
         starts_with path (byte_string ''/boot/''))"

definition base_dirs :: "byte list list" where
  "base_dirs = map byte_string
     [''/usr'', ''/bin'', ''/sbin'', ''/lib'', ''/lib64'', ''/etc'', ''/boot'', ''/sys'', ''/proc'', ''/dev'', ''/run'']"

definition under :: "byte list \<Rightarrow> byte list \<Rightarrow> bool" where
  "under dir path \<longleftrightarrow> path = dir \<or> starts_with path (dir @ [slash])"

definition is_base_system_path :: "byte list \<Rightarrow> bool" where
  "is_base_system_path path = (let p = trim path in list_ex (\<lambda>d. under d p) base_dirs)"

definition is_forbidden_scope_prefix :: "byte list \<Rightarrow> bool" where
  "is_forbidden_scope_prefix prefix =
     (let trimmed = trim prefix; normalized = trim_end_matches slash trimmed
      in normalized = [] \<or> \<not> starts_with trimmed [slash] \<or> is_base_system_path normalized)"

fun set_governed_scope_prefixes :: "byte list list \<Rightarrow> byte list list" where
  "set_governed_scope_prefixes [] = []"
| "set_governed_scope_prefixes (prefix # raw) =
     (if is_forbidden_scope_prefix prefix then set_governed_scope_prefixes raw
      else trim_end_matches slash (trim prefix) # set_governed_scope_prefixes raw)"

definition path_matches_governed_prefix :: "byte list list \<Rightarrow> byte list \<Rightarrow> bool" where
  "path_matches_governed_prefix prefixes path =
     (let path = trim path
      in path \<noteq> [] \<and> list_ex (\<lambda>prefix. under prefix path) prefixes)"

definition path_is_governed :: "byte list list \<Rightarrow> byte list \<Rightarrow> bool" where
  "path_is_governed prefixes path =
     (if is_path_in_test_scope path then True
      else if is_base_system_path path \<or> is_protected_system_path path then False
      else path_matches_governed_prefix prefixes path)"

section \<open>Protected resources and dangerous intents\<close>

definition protected_resource_reference :: "byte list \<Rightarrow> bool" where
  "protected_resource_reference value =
     (let value = trim value
      in if value = [] then False
         else if list_ex (\<lambda>prefix. value = prefix \<or>
                   (case strip_prefix value prefix of
                      None \<Rightarrow> False
                    | Some suffix \<Rightarrow> starts_with suffix [slash]))
                (map byte_string [''/etc'', ''/usr'', ''/bin'', ''/lib''])
         then True
         else list_ex (starts_with value) (map byte_string [''etc/'', ''usr/'', ''bin/'', ''lib/'']) \<or>
              list_ex (str_contains value) (map byte_string [''/etc/'', ''/usr/'', ''/bin/'', ''/lib/'']))"

definition intent_is_dangerous :: "byte list \<Rightarrow> bool" where
  "intent_is_dangerous intent =
     (let intent = to_ascii_lowercase intent
      in list_ex (str_contains intent) (map byte_string
           [''write'', ''delete'', ''unlink'', ''remove'', ''exec'', ''shell'', ''command'', ''spawn'', ''run'',
            ''network'', ''connect'']))"

section \<open>System-process immunity\<close>

text \<open>\<^verbatim>\<open>Path::file_name\<close> of a UTF-8 path: trailing slashes and \<^verbatim>\<open>.\<close> components are dropped, and a path that
  ends in \<^verbatim>\<open>..\<close> has none.\<close>

definition path_components :: "byte list \<Rightarrow> byte list list" where
  "path_components p =
     (let cs = filter (\<lambda>c. c \<noteq> []) (split_on slash p)
      in case cs of
           [] \<Rightarrow> []
         | c # rest \<Rightarrow>
             (if c = byte_string ''.'' \<and> \<not> starts_with p [slash] then [c] else filter (\<lambda>c. c \<noteq> byte_string ''.'') [c]) @
             filter (\<lambda>c. c \<noteq> byte_string ''.'') rest)"

definition file_name :: "byte list \<Rightarrow> byte list option" where
  "file_name p =
     (case rev (path_components p) of
        [] \<Rightarrow> None
      | c # rest \<Rightarrow> if c = byte_string ''..'' \<or> c = byte_string ''.'' then None else Some c)"

text \<open>\<^verbatim>\<open>Path::join\<close>: an absolute name replaces the directory.\<close>

definition path_join :: "byte list \<Rightarrow> byte list \<Rightarrow> byte list" where
  "path_join dir name =
     (if starts_with name [slash] then name
      else if dir = [] \<or> last dir = slash then dir @ name else dir @ slash # name)"

definition basename :: "byte list \<Rightarrow> byte list" where
  "basename path = (case file_name path of None \<Rightarrow> path | Some name \<Rightarrow> name)"

definition IMMUNE_PROCESS_NAMES :: "byte list list" where
  "IMMUNE_PROCESS_NAMES = map byte_string
     [''systemd'', ''lightdm'', ''Xorg'', ''getty'', ''sh'', ''dash'', ''bash'', ''cargo'']"

definition IMMUNE_EXACT_PATHS :: "byte list list" where
  "IMMUNE_EXACT_PATHS = map byte_string
     [''/usr/bin/sudo'', ''/usr/bin/systemctl'', ''/usr/bin/journalctl'', ''/bin/sh'', ''/usr/bin/sh'',
      ''/bin/dash'', ''/usr/bin/dash'', ''/bin/bash'', ''/usr/bin/bash'', ''/usr/bin/env'', ''/usr/bin/clear'',
      ''/usr/bin/sleep'', ''/usr/bin/exo-open'', ''/usr/bin/xfce4-terminal'', ''/usr/bin/dbus-launch'',
      ''/usr/bin/dbus-daemon'', ''/usr/bin/cargo'', ''/usr/local/bin/cargo'', ''/usr/local/cargo/bin/cargo'',
      ''/lib/systemd/systemd'', ''/usr/lib/systemd/systemd'', ''/sbin/init'', ''/usr/sbin/lightdm'',
      ''/usr/bin/lightdm'', ''/usr/lib/xorg/Xorg'', ''/usr/bin/Xorg'', ''/usr/sbin/getty'', ''/usr/bin/getty'',
      ''/sbin/getty'']"

definition IMMUNE_PATH_PREFIXES :: "byte list list" where
  "IMMUNE_PATH_PREFIXES = map byte_string [''/lib/systemd/'', ''/usr/lib/systemd/'']"

definition IMMUNE_EXEC_DIRS :: "byte list list" where
  "IMMUNE_EXEC_DIRS = map byte_string
     [''/bin/'', ''/sbin/'', ''/usr/bin/'', ''/usr/sbin/'', ''/lib/'', ''/usr/lib/'', ''/usr/local/bin/'',
      ''/usr/local/sbin/'']"

definition process_name_is_immune :: "byte list \<Rightarrow> bool" where
  "process_name_is_immune name \<longleftrightarrow> name \<in> set IMMUNE_PROCESS_NAMES"

definition path_is_immune :: "byte list \<Rightarrow> bool" where
  "path_is_immune path =
     (let trimmed = trim path
      in if trimmed = [] then False
         else if trimmed \<in> set IMMUNE_EXACT_PATHS \<or>
                 list_ex (starts_with trimmed) IMMUNE_PATH_PREFIXES
         then True
         else list_ex (starts_with trimmed) IMMUNE_EXEC_DIRS \<and> process_name_is_immune (basename trimmed))"

section \<open>Prefixes of literal strings\<close>

lemmas literal_prefix = starts_with_Cons byte_string_def

lemma home_test_path_prefix:
  "home_jinnguard_test_path p \<Longrightarrow> starts_with p (byte_string ''/home/'')"
  by (auto simp: home_jinnguard_test_path_def strip_prefix_def split: option.splits if_splits)

lemma test_scope_prefix:
  assumes "is_path_in_test_scope p"
  shows "starts_with (trim p) (byte_string ''/tmp/'') \<or> starts_with (trim p) (byte_string ''/var/'') \<or>
     starts_with (trim p) (byte_string ''/home/'')"
proof -
  have "starts_with (trim p) (byte_string ''/tmp/'' @ byte_string ''jinnguard-test/'') \<or>
      starts_with (trim p) (byte_string ''/var/'' @ byte_string ''tmp/jinnguard-test/'') \<or>
      home_jinnguard_test_path (trim p)"
    using assms by (simp add: is_path_in_test_scope_def Let_def byte_string_def split: if_splits)
  then show ?thesis using starts_with_mono home_test_path_prefix by blast
qed

lemma base_system_path_iff:
  "is_base_system_path p \<longleftrightarrow>
     list_ex (\<lambda>d. trim p = byte_string d \<or> starts_with (trim p) (byte_string d @ [slash]))
       [''/usr'', ''/bin'', ''/sbin'', ''/lib'', ''/lib64'', ''/etc'', ''/boot'', ''/sys'', ''/proc'', ''/dev'', ''/run'']"
  by (simp add: is_base_system_path_def base_dirs_def under_def Let_def)

text \<open>The first four bytes of a path tell the directories apart.\<close>

lemma test_scope_head:
  "is_path_in_test_scope p \<Longrightarrow> take 4 (trim p) \<in> byte_string ` {''/tmp'', ''/var'', ''/hom''}"
  using test_scope_prefix [of p] by (auto simp: starts_with_iff byte_string_def)

lemma base_head:
  "is_base_system_path p \<Longrightarrow>
     take 4 (trim p) \<in> byte_string ` {''/usr'', ''/bin'', ''/sbi'', ''/lib'', ''/etc'', ''/boo'', ''/sys'',
       ''/pro'', ''/dev'', ''/run''}"
  by (auto simp: base_system_path_iff starts_with_iff byte_string_def)

lemma base_not_test_scope: "is_base_system_path p \<Longrightarrow> \<not> is_path_in_test_scope p"
  using test_scope_head [of p] base_head [of p] by (auto simp: byte_string_def)

lemma base_never_governed: "is_base_system_path p \<Longrightarrow> \<not> path_is_governed prefixes p"
  by (simp add: path_is_governed_def base_not_test_scope)

lemma protected_head:
  "is_protected_system_path p \<Longrightarrow>
     take 4 (trim p) \<in> byte_string ` {''/etc'', ''/sys'', ''/pro'', ''/roo'', ''/boo''}"
  by (auto simp: is_protected_system_path_def Let_def starts_with_iff byte_string_def)

lemma protected_not_test_scope: "is_protected_system_path p \<Longrightarrow> \<not> is_path_in_test_scope p"
  using test_scope_head [of p] protected_head [of p] by (auto simp: byte_string_def)

lemma protected_never_governed: "is_protected_system_path p \<Longrightarrow> \<not> path_is_governed prefixes p"
  by (simp add: path_is_governed_def protected_not_test_scope)

section \<open>Installed prefixes\<close>

lemma trim_end_matches_last: "trim_end_matches c s \<noteq> [] \<Longrightarrow> last (trim_end_matches c s) \<noteq> c"
  using hd_dropWhile [of "\<lambda>b. b = c" "rev s"] by (simp add: trim_end_matches_def last_rev)

lemma trim_end_matches_prefix: "\<exists>t. s = trim_end_matches c s @ t"
proof -
  have "rev s = takeWhile (\<lambda>b. b = c) (rev s) @ dropWhile (\<lambda>b. b = c) (rev s)" by simp
  then have "s = rev (dropWhile (\<lambda>b. b = c) (rev s)) @ rev (takeWhile (\<lambda>b. b = c) (rev s))"
    by (metis rev_append rev_rev_ident)
  then show ?thesis by (auto simp: trim_end_matches_def)
qed

definition proper_prefix_dir :: "byte list \<Rightarrow> bool" where
  "proper_prefix_dir p \<longleftrightarrow> starts_with p [slash] \<and> last p \<noteq> slash \<and> \<not> is_base_system_path p"

lemma installed_prefix:
  assumes "\<not> is_forbidden_scope_prefix prefix"
  shows "proper_prefix_dir (trim_end_matches slash (trim prefix))"
proof -
  obtain n where n: "n = trim_end_matches slash (trim prefix)" by simp
  then have "n \<noteq> []" "starts_with (trim prefix) [slash]" "\<not> is_base_system_path n"
    using assms by (auto simp: is_forbidden_scope_prefix_def Let_def)
  moreover obtain t where "trim prefix = n @ t" using trim_end_matches_prefix n by blast
  ultimately have "starts_with n [slash]" by (cases n) (auto simp: starts_with_Cons)
  with \<open>n \<noteq> []\<close> \<open>\<not> is_base_system_path n\<close> n show ?thesis
    by (simp add: proper_prefix_dir_def trim_end_matches_last)
qed

lemma installed_prefixes: "list_all proper_prefix_dir (set_governed_scope_prefixes raw)"
  by (induction raw) (auto simp: installed_prefix)

lemma immune_tables_base:
  "list_all (\<lambda>q. list_ex (\<lambda>d. starts_with q (d @ [slash])) base_dirs)
     (IMMUNE_EXACT_PATHS @ IMMUNE_PATH_PREFIXES @ IMMUNE_EXEC_DIRS)"
  by code_simp

lemma immune_is_base:
  assumes "path_is_immune p"
  shows "is_base_system_path p"
proof -
  obtain q where q: "q \<in> set (IMMUNE_EXACT_PATHS @ IMMUNE_PATH_PREFIXES @ IMMUNE_EXEC_DIRS)"
      "starts_with (trim p) q"
    using assms starts_with_append [of "trim p" "[]"]
    by (auto simp: path_is_immune_def Let_def list_ex_iff split: if_splits)
  then obtain d where "d \<in> set base_dirs" "starts_with q (d @ [slash])"
    using immune_tables_base unfolding list_all_iff list_ex_iff by blast
  moreover from this q have "starts_with (trim p) (d @ [slash])" using starts_with_trans by blast
  ultimately show ?thesis by (auto simp: is_base_system_path_def Let_def under_def list_ex_iff)
qed

section \<open>Properties\<close>

text \<open>C39: no policy puts the base system under enforcement. Whatever prefixes are configured, a path
  in a base-system directory or a protected one is not governed, every installed prefix is
  absolute, without a trailing slash and outside the base system, and an executable that is
  immune lies in a base-system directory, hence is not governed either.\<close>

theorem scope_anti_lockout:
  "\<not> (path_is_governed (set_governed_scope_prefixes raw) p \<and>
      (is_base_system_path p \<or> is_protected_system_path p \<or> path_is_immune p)) \<and>
   list_all proper_prefix_dir (set_governed_scope_prefixes raw)"
  using base_never_governed protected_never_governed immune_is_base installed_prefixes by blast

end
