(* ===== verification/Proposal_Gates.thy ===== *)
theory Proposal_Gates
  imports Admission Governed_Scope
begin

text \<open>
  The gates of the proposal handler, \<^verbatim>\<open>handle_client_connection\<close> of \<^verbatim>\<open>ts_cli/src/main.rs\<close>, from the bytes on
  the socket to the quota (steps 1 to 11): framing, authentication, protected resources,
  replay, agent identity, sequence numbers, canaries, intents, delegation, runtime policy and
  quota. The JSON functions of \<^verbatim>\<open>serde_json\<close> and what the daemon reads from the system are the
  record \<open>gate_env\<close>; log lines, metrics and the audit log are not part of the state.
\<close>

section \<open>JSON values\<close>

text \<open>\<^verbatim>\<open>serde_json::Value\<close>. Of a number only \<^verbatim>\<open>as_u64\<close> is used.\<close>

datatype json =
    JNull
  | JBool bool
  | JNumber "u64 option"
  | JString "byte list"
  | JArray "json list"
  | JObject "(byte list \<times> json) list"

definition json_get :: "json \<Rightarrow> byte list \<Rightarrow> json option" where
  "json_get v key = (case v of JObject m \<Rightarrow> map_of m key | _ \<Rightarrow> None)"

definition as_str :: "json \<Rightarrow> byte list option" where
  "as_str v = (case v of JString s \<Rightarrow> Some s | _ \<Rightarrow> None)"

definition as_bool :: "json \<Rightarrow> bool option" where
  "as_bool v = (case v of JBool b \<Rightarrow> Some b | _ \<Rightarrow> None)"

definition as_u64 :: "json \<Rightarrow> u64 option" where
  "as_u64 v = (case v of JNumber n \<Rightarrow> n | _ \<Rightarrow> None)"

fun json_references_protected_resource :: "json \<Rightarrow> bool" where
  "json_references_protected_resource (JString s) = protected_resource_reference s"
| "json_references_protected_resource (JArray values) = list_ex json_references_protected_resource values"
| "json_references_protected_resource (JObject m) = list_ex (\<lambda>(k, v). json_references_protected_resource v) m"
| "json_references_protected_resource _ = False"

section \<open>State\<close>

datatype Signal =
    DENY_BAD_VERSION
  | DENY_PAYLOAD_TOO_LARGE
  | DENY_ENCODING_ERROR
  | DENY_MALFORMED_PAYLOAD
  | DENY_TAMPERED_TOKEN
  | DENY_VIOLATION
  | DENY_REPLAY_ATTACK
  | DENY_ANONYMOUS_AGENT_NOT_PERMITTED
  | DENY_UNKNOWN_AGENT_ID
  | DENY_AGENT_IDENTITY_BINDING
  | DENY_CANARY_TRIPWIRE
  | DENY_INTENT_NOT_ALLOWED
  | DENY_DELEGATION_INVALID
  | DENY_DELEGATION_UNSUPPORTED
  | DENY_RUNTIME_POLICY
  | DENY_QUOTA_EXHAUSTED
  | DENY_RISK_CEILING_EXCEEDED
  | DENY_INTERPRETER_NOT_ALLOWED

record gate_env =
  crates :: wire_crates
  value_from_str :: "byte list \<Rightarrow> json option"
  proposal_from_value :: "json \<Rightarrow> ClientProposal option"
  admission_keys :: AdmissionKeyset
  agent_secrets :: AgentSecretStore
  epoch_secs :: u64
  self_pid_ns :: "u64 option"
  self_net_ns :: "u64 option"
  current_policy :: PolicyConfig

record gate_state =
  nonce_store :: ReplayGuard
  lineages :: "byte list \<rightharpoonup> AgentLineage"

section \<open>Framing\<close>

text \<open>The loop head: what is on the stream when the reads time out or hit the end of the stream is
  not answered (\<^const>\<open>None\<close>). The result is the envelope and the rest of the stream.\<close>

definition receive_envelope ::
    "wire_crates \<Rightarrow> byte list \<Rightarrow> Signal option + SignedEnvelope \<times> byte list" where
  "receive_envelope cr stream =
     (if length stream < 5 then Inl None
      else let header = take 5 stream; stream = drop 5 stream
           in case classify_frame_header (decode_frame_header header) of
                Inl BadVersion \<Rightarrow> Inl (Some DENY_BAD_VERSION)
              | Inl PayloadTooLarge \<Rightarrow> Inl (Some DENY_PAYLOAD_TOO_LARGE)
              | Inr n \<Rightarrow>
                  (if length stream < n then Inl None
                   else case parse_body cr (take n stream) of
                          Inl Encoding \<Rightarrow> Inl (Some DENY_ENCODING_ERROR)
                        | Inl Malformed \<Rightarrow> Inl (Some DENY_MALFORMED_PAYLOAD)
                        | Inr envelope \<Rightarrow> Inr (envelope, drop n stream)))"

section \<open>Authentication\<close>

definition agent_id_of :: "json \<Rightarrow> byte list option" where
  "agent_id_of raw =
     (case Option.bind (json_get raw (byte_string ''agent_id'')) as_str of
        None \<Rightarrow> None
      | Some a \<Rightarrow> (let s = trim a in if s = [] then None else Some s))"

definition proposed_action_references_protected_resource :: "ProposedAction \<Rightarrow> bool" where
  "proposed_action_references_protected_resource action =
     (case action of
        FileWrite path contents \<Rightarrow> protected_resource_reference path
      | ShellCommand command \<Rightarrow> protected_resource_reference command
      | NetworkRequest meth url \<Rightarrow> protected_resource_reference url)"

definition opt_test :: "('a \<Rightarrow> bool) \<Rightarrow> 'a option \<Rightarrow> bool" where
  "opt_test P x = (case x of None \<Rightarrow> False | Some a \<Rightarrow> P a)"

definition explicit_protected_resource_attack ::
    "byte list option \<Rightarrow> ProposedAction option \<Rightarrow> json option \<Rightarrow> byte list option \<Rightarrow> bool" where
  "explicit_protected_resource_attack intent action raw_payload resource_path =
     (if opt_test proposed_action_references_protected_resource action then True
      else opt_test intent_is_dangerous intent \<and>
           (opt_test protected_resource_reference resource_path \<or>
            opt_test json_references_protected_resource raw_payload))"

fun first_path_key :: "json \<Rightarrow> byte list list \<Rightarrow> byte list option" where
  "first_path_key raw [] = None"
| "first_path_key raw (key # keys) =
     (case Option.bind (json_get raw key) as_str of
        Some value \<Rightarrow> if trim value \<noteq> [] then Some value else first_path_key raw keys
      | None \<Rightarrow> first_path_key raw keys)"

definition proposal_enforcement_path ::
    "ClientProposal \<Rightarrow> json \<Rightarrow> ObservationRecord \<Rightarrow> byte list option" where
  "proposal_enforcement_path proposal raw observation =
     (let from_action =
        (case proposed_action proposal of
           Some (ShellCommand command) \<Rightarrow> if trim command \<noteq> [] then Some command else None
         | Some (FileWrite path contents) \<Rightarrow> if trim path \<noteq> [] then Some path else None
         | _ \<Rightarrow> None)
      in case from_action of
           Some p \<Rightarrow> Some p
         | None \<Rightarrow>
             (case first_path_key raw
                     (map byte_string [''path'', ''resource'', ''target'', ''file_path'', ''executable'']) of
                Some p \<Rightarrow> Some p
              | None \<Rightarrow> obs_executable_path observation))"

definition authenticate ::
    "gate_env \<Rightarrow> ObservationRecord \<Rightarrow> SignedEnvelope \<Rightarrow> Signal + json \<times> byte list option \<times> ClientProposal" where
  "authenticate env observation envelope =
     (case value_from_str env (payload envelope) of
        None \<Rightarrow> Inl DENY_MALFORMED_PAYLOAD
      | Some raw \<Rightarrow>
          (let agent_id = agent_id_of raw
           in case store_verify (crates env) (agent_secrets env) agent_id envelope
                     (admission_keys env) (epoch_secs env) of
                None \<Rightarrow> Inl DENY_TAMPERED_TOKEN
              | Some key_match \<Rightarrow>
                  (case proposal_from_value env raw of
                     None \<Rightarrow> Inl DENY_MALFORMED_PAYLOAD
                   | Some proposal \<Rightarrow>
                       (if explicit_protected_resource_attack (intent_name proposal)
                             (proposed_action proposal) (Some raw)
                             (proposal_enforcement_path proposal raw observation)
                        then Inl DENY_VIOLATION
                        else Inr (raw, agent_id, proposal)))))"

section \<open>Gates on the state\<close>

definition agent_key_of :: "byte list option \<Rightarrow> byte list" where
  "agent_key_of agent_id = (case agent_id of None \<Rightarrow> byte_string ''anonymous'' | Some a \<Rightarrow> a)"

definition agent_uid_binding_allows :: "AgentNodePolicy \<Rightarrow> u32 \<Rightarrow> bool" where
  "agent_uid_binding_allows agent peer_uid \<longleftrightarrow>
     node_peer_uids agent = [] \<or> peer_uid \<in> set (node_peer_uids agent)"

definition lineage_placeholder_assessment :: "byte list \<Rightarrow> RiskAssessment" where
  "lineage_placeholder_assessment reason =
     \<lparr>observed_risk = Fin 0, semantic_risk = Fin 0, topology_risk = Fin 0, declared_risk = None,
      fused_risk = Fin 0, trust_score = Fin 100, risk_reasons = [reason]\<rparr>"

definition lineage_or_new ::
    "(byte list \<rightharpoonup> AgentLineage) \<Rightarrow> byte list \<Rightarrow> AgentLineage \<Rightarrow> AgentLineage" where
  "lineage_or_new ls key new = (case ls key of Some l \<Rightarrow> l | None \<Rightarrow> new)"

definition reserve_lineage_sequence ::
    "(byte list \<rightharpoonup> AgentLineage) \<Rightarrow> byte list \<Rightarrow> ObservationRecord \<Rightarrow> u64 \<Rightarrow>
     (sequence_error + unit) \<times> (byte list \<rightharpoonup> AgentLineage)" where
  "reserve_lineage_sequence ls key observation sequence =
     (let placeholder = lineage_placeholder_assessment (byte_string ''sequence_placeholder_assessment'');
          l = lineage_or_new ls key (new_lineage observation sequence placeholder)
      in case lineage_validate_sequence l sequence of
           Inl err \<Rightarrow> (Inl err, ls(key \<mapsto> l))
         | Inr () \<Rightarrow>
             (Inr (), ls(key \<mapsto> l\<lparr>last_seen_unix_secs := observed_at_unix_secs observation,
                                last_sequence := sequence\<rparr>)))"

definition update_lineage_after_decision ::
    "(byte list \<rightharpoonup> AgentLineage) \<Rightarrow> byte list \<Rightarrow> ObservationRecord \<Rightarrow> u64 \<Rightarrow> RiskAssessment \<Rightarrow> bool \<Rightarrow>
     (byte list \<rightharpoonup> AgentLineage)" where
  "update_lineage_after_decision ls key observation sequence assessment quota_reserved =
     (let l = lineage_or_new ls key (new_lineage observation sequence assessment);
          l = l\<lparr>last_seen_unix_secs := observed_at_unix_secs observation,
                last_sequence := sequence,
                max_assessed_risk := f64_max (max_assessed_risk l) (fused_risk assessment)\<rparr>;
          l = (if \<not> quota_reserved then l\<lparr>decisions_seen := decisions_seen l + 1\<rparr> else l)
      in ls(key \<mapsto> l))"

text \<open>\<open>start_time\<close> is the start time of a live process, \<^const>\<open>None\<close> if there is none or it cannot be read.\<close>

definition prune_dead_processes ::
    "(u32 \<Rightarrow> u64 option) \<Rightarrow> (byte list \<rightharpoonup> AgentLineage) \<Rightarrow> (byte list \<rightharpoonup> AgentLineage)" where
  "prune_dead_processes start_time ls key =
     (case ls key of
        None \<Rightarrow> None
      | Some l \<Rightarrow> if start_time (lin_pid l) = Some (lin_start_time l) then Some l else None)"

definition proposal_resource_surface :: "ClientProposal \<Rightarrow> byte list list" where
  "proposal_resource_surface proposal =
     (case intent_name proposal of None \<Rightarrow> [] | Some intent \<Rightarrow> [intent]) @
     (case proposed_action proposal of
        Some (FileWrite path contents) \<Rightarrow> [path]
      | Some (NetworkRequest meth url) \<Rightarrow> [url]
      | Some (ShellCommand command) \<Rightarrow> [command]
      | None \<Rightarrow> [])"

definition proposal_trips_canary :: "ClientProposal \<Rightarrow> byte list list \<Rightarrow> byte list option" where
  "proposal_trips_canary proposal canaries =
     find (\<lambda>canary. list_ex (\<lambda>resource. str_contains resource canary) (proposal_resource_surface proposal))
       (filter (\<lambda>c. c \<noteq> []) (map trim canaries))"

definition intent_permitted :: "AgentNodePolicy \<Rightarrow> ClientProposal \<Rightarrow> bool" where
  "intent_permitted node proposal \<longleftrightarrow>
     allowed_intents node = [] \<or> opt_test (\<lambda>intent. intent \<in> set (allowed_intents node)) (intent_name proposal)"

definition MAX_DELEGATION_DEPTH :: u32 where "MAX_DELEGATION_DEPTH = 3"

definition delegation_signal :: "json \<Rightarrow> Signal" where
  "delegation_signal token =
     (let chain_depth = (case Option.bind (json_get token (byte_string ''chain_depth'')) as_u64 of
                           None \<Rightarrow> - 1 | Some d \<Rightarrow> d);
          all_zero = (case Option.bind (json_get token (byte_string ''signature'')) as_str of
                        None \<Rightarrow> False | Some sig \<Rightarrow> sig \<noteq> [] \<and> list_all (\<lambda>b. b = 0x30) sig)
      in if chain_depth > ucast MAX_DELEGATION_DEPTH \<or> all_zero then DENY_DELEGATION_INVALID
         else DENY_DELEGATION_UNSUPPORTED)"

datatype runtime_denial =
    Peer_uid_0_denied
  | Peer_uid_not_allowed u32
  | Brokered_execution_required
  | Peer_pid_namespace_unobserved
  | Peer_net_namespace_unobserved
  | Peer_not_pid_sandboxed
  | Peer_not_network_sandboxed

definition runtime_policy_denial ::
    "gate_env \<Rightarrow> ClientProposal \<Rightarrow> ObservationRecord \<Rightarrow> bool \<Rightarrow> runtime_denial option" where
  "runtime_policy_denial env proposal observation execute_requested =
     (let rp = runtime_policy (current_policy env)
      in if deny_root_peers rp \<and> obs_uid observation = 0 then Some Peer_uid_0_denied
         else if runtime_peer_uids rp \<noteq> [] \<and> obs_uid observation \<notin> set (runtime_peer_uids rp)
         then Some (Peer_uid_not_allowed (obs_uid observation))
         else if require_brokered_execution rp \<and> proposed_action proposal \<noteq> None \<and> \<not> execute_requested
         then Some Brokered_execution_required
         else if require_sandbox_namespace rp
         then (case namespace_pid_inode observation of
                 None \<Rightarrow> Some Peer_pid_namespace_unobserved
               | Some peer_pid_ns \<Rightarrow>
                   (case namespace_net_inode observation of
                      None \<Rightarrow> Some Peer_net_namespace_unobserved
                    | Some peer_net_ns \<Rightarrow>
                        (if self_pid_ns env = Some peer_pid_ns then Some Peer_not_pid_sandboxed
                         else if self_net_ns env = Some peer_net_ns then Some Peer_not_network_sandboxed
                         else None)))
         else None)"

definition reserve_quota ::
    "(byte list \<rightharpoonup> AgentLineage) \<Rightarrow> byte list \<Rightarrow> ObservationRecord \<Rightarrow> u64 \<Rightarrow> u64 \<Rightarrow>
     bool \<times> (byte list \<rightharpoonup> AgentLineage)" where
  "reserve_quota ls key observation sequence quota =
     (let placeholder = lineage_placeholder_assessment (byte_string ''quota_placeholder_assessment'');
          l = lineage_or_new ls key (new_lineage observation sequence placeholder)
      in if quota \<le> decisions_seen l then (False, ls(key \<mapsto> l))
         else (True, ls(key \<mapsto> l\<lparr>decisions_seen := decisions_seen l + 1\<rparr>)))"

text \<open>Steps 8.5 to 11, after the sequence number has been reserved.\<close>

definition late_gates ::
    "gate_env \<Rightarrow> ObservationRecord \<Rightarrow> json \<Rightarrow> byte list \<Rightarrow> AgentNodePolicy option \<Rightarrow> ClientProposal \<Rightarrow>
     gate_state \<Rightarrow> (Signal + bool) \<times> gate_state" where
  "late_gates env observation raw agent_key node proposal st =
     (if proposal_trips_canary proposal (canary_resources (current_policy env)) \<noteq> None
      then (Inl DENY_CANARY_TRIPWIRE, st)
      else if \<not> (case node of None \<Rightarrow> True | Some n \<Rightarrow> intent_permitted n proposal)
      then (Inl DENY_INTENT_NOT_ALLOWED, st)
      else case json_get raw (byte_string ''delegation_token'') of
             Some token \<Rightarrow> (Inl (delegation_signal token), st)
           | None \<Rightarrow>
               (let execute_requested =
                  (case Option.bind (json_get raw (byte_string ''execute'')) as_bool of
                     None \<Rightarrow> False | Some b \<Rightarrow> b)
                in if runtime_policy_denial env proposal observation execute_requested \<noteq> None
                   then (Inl DENY_RUNTIME_POLICY, st)
                   else case node of
                          None \<Rightarrow> (Inr False, st)
                        | Some n \<Rightarrow>
                            (if max_sequence_quota n > 0
                             then (let (reserved, ls) =
                                     reserve_quota (lineages st) agent_key observation
                                       (sequence_counter proposal) (max_sequence_quota n)
                                   in if reserved then (Inr True, st\<lparr>lineages := ls\<rparr>)
                                      else (Inl DENY_QUOTA_EXHAUSTED, st\<lparr>lineages := ls\<rparr>))
                             else (Inr False, st))))"

text \<open>Steps 6 to 11. The result of an admitted proposal is whether a quota slot was reserved.\<close>

definition admit ::
    "gate_env \<Rightarrow> ObservationRecord \<Rightarrow> json \<Rightarrow> byte list option \<Rightarrow> ClientProposal \<Rightarrow>
     gate_state \<Rightarrow> (Signal + bool) \<times> gate_state" where
  "admit env observation raw agent_id proposal st =
     (let agent_key = agent_key_of agent_id;
          (fresh, guard) = observe (nonce_store st) (agent_key, sequence_counter proposal);
          st = st\<lparr>nonce_store := guard\<rparr>;
          policy = current_policy env;
          node = Option.bind agent_id (map_of (agent_nodes policy))
      in if \<not> fresh then (Inl DENY_REPLAY_ATTACK, st)
         else if deny_anonymous_agents policy \<and> \<not> allow_anonymous_override policy \<and> agent_id = None
         then (Inl DENY_ANONYMOUS_AGENT_NOT_PERMITTED, st)
         else if agent_id \<noteq> None \<and> node = None then (Inl DENY_UNKNOWN_AGENT_ID, st)
         else if \<not> (case node of None \<Rightarrow> True | Some n \<Rightarrow> agent_uid_binding_allows n (obs_uid observation))
         then (Inl DENY_AGENT_IDENTITY_BINDING, st)
         else (let (reserved, ls) = reserve_lineage_sequence (lineages st) agent_key observation
                                      (sequence_counter proposal);
                   st = st\<lparr>lineages := ls\<rparr>
               in case reserved of
                    Inl err \<Rightarrow> (Inl DENY_REPLAY_ATTACK, st)
                  | Inr () \<Rightarrow> late_gates env observation raw agent_key node proposal st))"

text \<open>One packet: the answer, or the admitted proposal.\<close>

definition gate_packet ::
    "gate_env \<Rightarrow> ObservationRecord \<Rightarrow> byte list \<Rightarrow> gate_state \<Rightarrow>
     (Signal option + byte list option \<times> ClientProposal \<times> bool) \<times> gate_state" where
  "gate_packet env observation stream st =
     (case receive_envelope (crates env) stream of
        Inl answer \<Rightarrow> (Inl answer, st)
      | Inr (envelope, rest) \<Rightarrow>
          (case authenticate env observation envelope of
             Inl signal \<Rightarrow> (Inl (Some signal), st)
           | Inr (raw, agent_id, proposal) \<Rightarrow>
               (case admit env observation raw agent_id proposal st of
                  (Inl signal, st') \<Rightarrow> (Inl (Some signal), st')
                | (Inr quota_reserved, st') \<Rightarrow> (Inr (agent_id, proposal, quota_reserved), st'))))"

section \<open>Framing agrees with the packet classifier\<close>

definition wire_answer :: "WireOutcome \<Rightarrow> Signal option" where
  "wire_answer w =
     (case w of
        Wire_BadVersion \<Rightarrow> Some DENY_BAD_VERSION
      | Wire_PayloadTooLarge \<Rightarrow> Some DENY_PAYLOAD_TOO_LARGE
      | Wire_Encoding \<Rightarrow> Some DENY_ENCODING_ERROR
      | Wire_Malformed \<Rightarrow> Some DENY_MALFORMED_PAYLOAD
      | Wire_BadSignature \<Rightarrow> Some DENY_TAMPERED_TOKEN
      | _ \<Rightarrow> None)"

lemma receive_envelope_Inr:
  "receive_envelope cr s = Inr (e, r) \<longleftrightarrow>
     (\<exists>n. 5 \<le> length s \<and> classify_frame_header (decode_frame_header (take 5 s)) = Inr n \<and>
       5 + n \<le> length s \<and> parse_body cr (take n (drop 5 s)) = Inr e \<and> r = drop (5 + n) s)"
proof (cases "classify_frame_header (decode_frame_header (take 5 s))")
  case (Inl x)
  then show ?thesis by (cases x) (auto simp: receive_envelope_def Let_def)
next
  case (Inr n)
  show ?thesis
  proof (cases "parse_body cr (take n (drop 5 s))")
    case (Inl y)
    with Inr show ?thesis by (cases y) (auto simp: receive_envelope_def Let_def)
  next
    case (Inr e')
    with \<open>classify_frame_header (decode_frame_header (take 5 s)) = Inr n\<close> show ?thesis
      by (auto simp: receive_envelope_def Let_def add.commute)
  qed
qed

section \<open>Facts about the gates\<close>

lemma reserve_sequence_spec:
  "fst (reserve_lineage_sequence ls k obs s) = Inr () \<longleftrightarrow>
     s \<noteq> 0 \<and> (\<forall>l. ls k = Some l \<longrightarrow> last_sequence l < s)"
  by (auto simp: reserve_lineage_sequence_def Let_def lineage_validate_sequence_def lineage_or_new_def
      new_lineage_def word_neq_0_conv split: option.splits sum.splits if_splits unit.splits)

lemma late_gates_spec:
  "fst (late_gates env obs raw key node p st) = Inr b \<longleftrightarrow>
     proposal_trips_canary p (canary_resources (current_policy env)) = None \<and>
     (\<forall>n. node = Some n \<longrightarrow> intent_permitted n p) \<and>
     json_get raw (byte_string ''delegation_token'') = None \<and>
     runtime_policy_denial env p obs
       (case Option.bind (json_get raw (byte_string ''execute'')) as_bool of None \<Rightarrow> False | Some b \<Rightarrow> b) = None \<and>
     (case node of
        None \<Rightarrow> \<not> b
      | Some n \<Rightarrow>
          (if max_sequence_quota n > 0
           then b \<and> fst (reserve_quota (lineages st) key obs (sequence_counter p) (max_sequence_quota n))
           else \<not> b))"
  by (cases node; cases "json_get raw (byte_string ''delegation_token'')")
    (auto simp: late_gates_def Let_def split: if_splits prod.splits)

lemma reserve_quota_spec:
  "fst (reserve_quota ls k obs s q) \<longleftrightarrow> 0 < q \<and> (\<forall>l. ls k = Some l \<longrightarrow> decisions_seen l < q)"
  by (auto simp: reserve_quota_def Let_def lineage_or_new_def new_lineage_def word_neq_0_conv not_le
      intro: le_less_trans [OF word_zero_le] split: option.splits if_splits)

text \<open>What a proposal must satisfy to be admitted in a state.\<close>

definition admissible ::
    "gate_env \<Rightarrow> ObservationRecord \<Rightarrow> json \<Rightarrow> byte list option \<Rightarrow> ClientProposal \<Rightarrow> gate_state \<Rightarrow> bool" where
  "admissible env obs raw agent_id p st \<longleftrightarrow>
     (let policy = current_policy env; key = agent_key_of agent_id;
          node = Option.bind agent_id (map_of (agent_nodes policy));
          seen_lineage = lineages st key
      in (key, sequence_counter p) \<notin> seen (nonce_store st) \<and>
         (agent_id = None \<longrightarrow> deny_anonymous_agents policy \<longrightarrow> allow_anonymous_override policy) \<and>
         (agent_id \<noteq> None \<longrightarrow> node \<noteq> None) \<and>
         (\<forall>n. node = Some n \<longrightarrow>
            agent_uid_binding_allows n (obs_uid obs) \<and> intent_permitted n p \<and>
            (0 < max_sequence_quota n \<longrightarrow>
               (\<forall>l. seen_lineage = Some l \<longrightarrow> decisions_seen l < max_sequence_quota n))) \<and>
         sequence_counter p \<noteq> 0 \<and>
         (\<forall>l. seen_lineage = Some l \<longrightarrow> last_sequence l < sequence_counter p) \<and>
         proposal_trips_canary p (canary_resources policy) = None \<and>
         json_get raw (byte_string ''delegation_token'') = None \<and>
         runtime_policy_denial env p obs
           (case Option.bind (json_get raw (byte_string ''execute'')) as_bool of None \<Rightarrow> False | Some b \<Rightarrow> b)
           = None)"

lemma observe_fst: "fst (observe g k) \<longleftrightarrow> k \<notin> seen g"
  by (simp add: observe_def Let_def)

lemma reserve_sequence_decisions:
  "fst (reserve_lineage_sequence ls k obs s) = Inr () \<Longrightarrow>
     \<exists>l. snd (reserve_lineage_sequence ls k obs s) = ls(k \<mapsto> l) \<and> last_sequence l = s \<and>
         decisions_seen l = (case ls k of None \<Rightarrow> 0 | Some l0 \<Rightarrow> decisions_seen l0)"
  by (auto simp: reserve_lineage_sequence_def Let_def lineage_validate_sequence_def lineage_or_new_def
      new_lineage_def split: option.splits sum.splits if_splits unit.splits)

lemma reserve_sequence_snd:
  "\<exists>l. snd (reserve_lineage_sequence ls k obs s) = ls(k \<mapsto> l) \<and>
       decisions_seen l = (case ls k of None \<Rightarrow> 0 | Some l0 \<Rightarrow> decisions_seen l0) \<and>
       last_sequence l = (if fst (reserve_lineage_sequence ls k obs s) = Inr () then s
                          else case ls k of None \<Rightarrow> 0 | Some l0 \<Rightarrow> last_sequence l0)"
  by (auto simp: reserve_lineage_sequence_def Let_def lineage_validate_sequence_def lineage_or_new_def
      new_lineage_def split: option.splits sum.splits if_splits unit.splits)

lemma admit_spec:
  "(\<exists>b. fst (admit env obs raw a p st) = Inr b) \<longleftrightarrow> admissible env obs raw a p st"
proof -
  define key where "key = agent_key_of a"
  define node where "node = Option.bind a (map_of (agent_nodes (current_policy env)))"
  obtain fresh g where ob: "observe (nonce_store st) (key, sequence_counter p) = (fresh, g)" by fastforce
  then have fresh: "fresh \<longleftrightarrow> (key, sequence_counter p) \<notin> seen (nonce_store st)"
    using observe_fst [of "nonce_store st" "(key, sequence_counter p)"] by simp
  obtain res ls where r: "reserve_lineage_sequence (lineages st) key obs (sequence_counter p) = (res, ls)"
    by fastforce
  show ?thesis
  proof (cases res)
    case (Inl err)
    then have "\<not> (sequence_counter p \<noteq> 0 \<and> (\<forall>l. lineages st key = Some l \<longrightarrow> last_sequence l < sequence_counter p))"
      using reserve_sequence_spec [of "lineages st" key obs "sequence_counter p"] r by simp
    with Inl ob r show ?thesis
      unfolding key_def by (auto simp: admit_def admissible_def Let_def)
  next
    case (Inr u)
    then have res: "res = Inr ()" by simp
    then have s: "sequence_counter p \<noteq> 0 \<and> (\<forall>l. lineages st key = Some l \<longrightarrow> last_sequence l < sequence_counter p)"
      using reserve_sequence_spec [of "lineages st" key obs "sequence_counter p"] r by simp
    obtain l where l: "ls = (lineages st)(key \<mapsto> l)"
        "decisions_seen l = (case lineages st key of None \<Rightarrow> 0 | Some l0 \<Rightarrow> decisions_seen l0)"
      using reserve_sequence_decisions [of "lineages st" key obs "sequence_counter p"] r Inr by auto
    have q: "fst (reserve_quota ls key obs (sequence_counter p) q) \<longleftrightarrow>
        0 < q \<and> (\<forall>l. lineages st key = Some l \<longrightarrow> decisions_seen l < q)" for q
      unfolding reserve_quota_spec l(1) using l(2) by (auto split: option.splits)
    have r': "reserve_lineage_sequence (lineages (st\<lparr>nonce_store := g\<rparr>)) key obs (sequence_counter p) = (Inr (), ls)"
      using r res by simp
    have adm: "admit env obs raw a p st =
       (if \<not> fresh then (Inl DENY_REPLAY_ATTACK, st\<lparr>nonce_store := g\<rparr>)
        else if deny_anonymous_agents (current_policy env) \<and> \<not> allow_anonymous_override (current_policy env) \<and> a = None
        then (Inl DENY_ANONYMOUS_AGENT_NOT_PERMITTED, st\<lparr>nonce_store := g\<rparr>)
        else if a \<noteq> None \<and> node = None then (Inl DENY_UNKNOWN_AGENT_ID, st\<lparr>nonce_store := g\<rparr>)
        else if \<not> (case node of None \<Rightarrow> True | Some n \<Rightarrow> agent_uid_binding_allows n (obs_uid obs))
        then (Inl DENY_AGENT_IDENTITY_BINDING, st\<lparr>nonce_store := g\<rparr>)
        else late_gates env obs raw key node p (st\<lparr>nonce_store := g, lineages := ls\<rparr>))"
      unfolding admit_def Let_def key_def [symmetric] node_def [symmetric] ob prod.case r' sum.case
        old.unit.case by (rule refl)
    show ?thesis
      unfolding adm admissible_def Let_def key_def [symmetric] node_def [symmetric]
      using s fresh
      by (cases node; cases a) (auto simp: late_gates_spec q)
  qed
qed

section \<open>Interleavings\<close>

text \<open>Connections are served by concurrent tasks; each access to the shared state is one critical
  section under a lock. An execution of any number of tasks is a sequence of such accesses.\<close>

datatype access =
    Observe nonce
  | Reserve "byte list" ObservationRecord u64
  | Quota "byte list" ObservationRecord u64 u64
  | Update "byte list" ObservationRecord u64 RiskAssessment bool
  | Prune "u32 \<Rightarrow> u64 option"

fun perform :: "access \<Rightarrow> gate_state \<Rightarrow> bool \<times> gate_state" where
  "perform (Observe key) st =
     (let (fresh, g) = observe (nonce_store st) key in (fresh, st\<lparr>nonce_store := g\<rparr>))"
| "perform (Reserve key obs s) st =
     (let (r, ls) = reserve_lineage_sequence (lineages st) key obs s
      in (r = Inr (), st\<lparr>lineages := ls\<rparr>))"
| "perform (Quota key obs s q) st =
     (let (r, ls) = reserve_quota (lineages st) key obs s q in (r, st\<lparr>lineages := ls\<rparr>))"
| "perform (Update key obs s a reserved) st =
     (True, st\<lparr>lineages := update_lineage_after_decision (lineages st) key obs s a reserved\<rparr>)"
| "perform (Prune start_time) st = (True, st\<lparr>lineages := prune_dead_processes start_time (lineages st)\<rparr>)"

text \<open>The accesses that succeeded, in order, and the final state.\<close>

fun run_accesses :: "access list \<Rightarrow> gate_state \<Rightarrow> access list \<times> gate_state" where
  "run_accesses [] st = ([], st)"
| "run_accesses (a # as) st =
     (let (ok, st1) = perform a st; (done, st2) = run_accesses as st1
      in ((if ok then a # done else done), st2))"

fun observed_nonces :: "access list \<Rightarrow> nonce list" where
  "observed_nonces [] = []"
| "observed_nonces (Observe k # as) = k # observed_nonces as"
| "observed_nonces (_ # as) = observed_nonces as"

lemma run_accesses_observe:
  "observed_nonces (fst (run_accesses as st)) = fst (observe_all (nonce_store st) (observed_nonces as))"
proof (induction as arbitrary: st)
  case (Cons a as)
  show ?case by (cases a) (simp_all add: Let_def case_prod_beta Cons.IH)
qed simp

text \<open>The decisions an agent has been granted, and the last sequence number it has used.\<close>

definition granted :: "gate_state \<Rightarrow> byte list \<Rightarrow> nat" where
  "granted st key = (case lineages st key of None \<Rightarrow> 0 | Some l \<Rightarrow> unat (decisions_seen l))"

definition latest :: "gate_state \<Rightarrow> byte list \<Rightarrow> u64" where
  "latest st key = (case lineages st key of None \<Rightarrow> 0 | Some l \<Rightarrow> last_sequence l)"

text \<open>Accesses under one policy: the quota of the agent is fixed, its decisions are reserved, and
  its lineage is not pruned.\<close>

fun under_quota :: "byte list \<Rightarrow> u64 \<Rightarrow> access \<Rightarrow> bool" where
  "under_quota key q (Quota k obs s q') = (k = key \<longrightarrow> q' = q)"
| "under_quota key q (Update k obs s a reserved) = (k = key \<longrightarrow> reserved)"
| "under_quota key q (Prune start_time) = False"
| "under_quota key q _ = True"

fun quota_slots :: "byte list \<Rightarrow> access list \<Rightarrow> nat" where
  "quota_slots key [] = 0"
| "quota_slots key (Quota k obs s q # as) = (if k = key then 1 else 0) + quota_slots key as"
| "quota_slots key (_ # as) = quota_slots key as"

lemma perform_granted:
  assumes "under_quota key q a" and "perform a st = (ok, st')"
  shows "granted st' key = granted st key + (if ok then quota_slots key [a] else 0) \<and>
     (ok \<longrightarrow> quota_slots key [a] > 0 \<longrightarrow> granted st' key \<le> unat q)"
proof (cases a)
  case (Observe k)
  with assms show ?thesis by (auto simp: granted_def Let_def split: prod.splits)
next
  case (Reserve k obs s)
  obtain r ls where "reserve_lineage_sequence (lineages st) k obs s = (r, ls)" by fastforce
  moreover obtain l where "snd (reserve_lineage_sequence (lineages st) k obs s) = (lineages st)(k \<mapsto> l)"
      "decisions_seen l = (case lineages st k of None \<Rightarrow> 0 | Some l0 \<Rightarrow> decisions_seen l0)"
    using reserve_sequence_snd by blast
  ultimately show ?thesis
    using Reserve assms by (cases "key = k") (auto simp: granted_def Let_def split: option.splits)
next
  case (Quota k obs s q')
  show ?thesis
  proof (cases "k = key")
    case True
    define l where "l = lineage_or_new (lineages st) key
      (new_lineage obs s (lineage_placeholder_assessment (byte_string ''quota_placeholder_assessment'')))"
    have l: "granted st key = unat (decisions_seen l)"
      by (simp add: granted_def l_def lineage_or_new_def new_lineage_def split: option.splits)
    have q: "q' = q" using assms(1) Quota True by simp
    show ?thesis
    proof (cases "q \<le> decisions_seen l")
      case full: True
      then have "ok = False" "lineages st' key = Some l"
        using assms(2) Quota True q by (auto simp: Let_def reserve_quota_def simp flip: l_def)
      then show ?thesis using l by (simp add: granted_def)
    next
      case False
      then have "ok" "lineages st' key = Some (l\<lparr>decisions_seen := decisions_seen l + 1\<rparr>)"
        using assms(2) Quota True q by (auto simp: Let_def reserve_quota_def simp flip: l_def)
      moreover have "unat q < 2 ^ LENGTH(64)" by (rule unsigned_less)
      then have "unat (decisions_seen l + 1) = unat (decisions_seen l) + 1"
        using False by (simp add: not_le word_less_nat_alt unat_word_ariths)
      ultimately show ?thesis
        using l Quota True False by (simp add: granted_def not_le word_less_nat_alt Suc_le_eq)
    qed
  next
    case False
    with Quota assms show ?thesis
      by (auto simp: granted_def Let_def reserve_quota_def split: if_splits)
  qed
next
  case (Update k obs s ra r)
  with assms show ?thesis
    by (cases "key = k") (auto simp: granted_def Let_def update_lineage_after_decision_def lineage_or_new_def new_lineage_def
        split: option.splits)
next
  case (Prune f)
  with assms show ?thesis by simp
qed

lemma quota_slots_Cons: "quota_slots key (a # as) = quota_slots key [a] + quota_slots key as"
  by (cases a) auto

lemma run_accesses_granted:
  assumes "list_all (under_quota key q) as"
  shows "granted (snd (run_accesses as st)) key = granted st key + quota_slots key (fst (run_accesses as st)) \<and>
     (quota_slots key (fst (run_accesses as st)) > 0 \<longrightarrow> granted (snd (run_accesses as st)) key \<le> max (granted st key) (unat q))"
  using assms
proof (induction as arbitrary: st)
  case (Cons a as)
  obtain ok st1 where p: "perform a st = (ok, st1)" by fastforce
  obtain d st2 where r: "run_accesses as st1 = (d, st2)" by fastforce
  have 1: "granted st1 key = granted st key + (if ok then quota_slots key [a] else 0)"
    "ok \<Longrightarrow> quota_slots key [a] > 0 \<Longrightarrow> granted st1 key \<le> unat q"
    using perform_granted [OF _ p, of key q] Cons.prems by auto
  have 2: "granted st2 key = granted st1 key + quota_slots key d"
    "quota_slots key d > 0 \<Longrightarrow> granted st2 key \<le> max (granted st1 key) (unat q)"
    using Cons.IH [of st1] Cons.prems r by auto
  show ?case
    using 1 2 p r quota_slots_Cons [of key a d]
    by (cases ok; cases "quota_slots key d = 0"; cases "quota_slots key [a] = 0") (auto simp: Let_def)
qed simp

section \<open>Windows of accepted nonces\<close>

lemma observe_all_Cons:
  "observe_all g (k # ks) =
     ((if fst (observe g k) then k # fst (observe_all (snd (observe g k)) ks)
       else fst (observe_all (snd (observe g k)) ks)),
      snd (observe_all (snd (observe g k)) ks))"
  by (simp add: Let_def case_prod_beta)

lemma observe_all_accepted:
  assumes "guard_inv g" and "order g = recent (cap g) h"
    and "fst (observe_all g ks) = xs @ k # ys"
  shows "k \<notin> set (recent (cap g) (h @ xs))"
  using assms
proof (induction ks arbitrary: g h xs)
  case (Cons j ks)
  note spec = observe_spec [OF Cons.prems(1), of j]
  have "1 \<le> cap g" using Cons.prems(1) by (simp add: guard_inv_def)
  then have ord: "order (snd (observe g j)) =
      recent (cap (snd (observe g j))) (if fst (observe g j) then h @ [j] else h)"
    using spec Cons.prems(2) recent_snoc [of "cap g" h j] by simp
  note IH = Cons.IH [OF spec(2) ord]
  show ?case
  proof (cases "fst (observe g j)")
    case True
    then have acc: "j # fst (observe_all (snd (observe g j)) ks) = xs @ k # ys"
      using Cons.prems(3) by (simp add: observe_all_Cons del: observe_all.simps)
    show ?thesis
    proof (cases xs)
      case Nil
      with acc have "k = j" by simp
      with True spec(1) Cons.prems(2) Nil show ?thesis by simp
    next
      case (Cons x xs')
      with acc IH [of xs'] True spec(3) show ?thesis by auto
    qed
  next
    case False
    with Cons.prems(3) IH [of xs] spec(3) show ?thesis
      by (simp add: observe_all_Cons del: observe_all.simps)
  qed
qed simp

lemma windows_distinct:
  assumes "\<And>xs k ys. acc = xs @ k # ys \<Longrightarrow> k \<notin> set (recent n xs)"
  shows "distinct (take n (drop i acc))"
proof (rule ccontr)
  assume "\<not> distinct (take n (drop i acc))"
  then obtain j l where jl: "j < l" "l < length (take n (drop i acc))"
      "take n (drop i acc) ! j = take n (drop i acc) ! l"
    by (metis distinct_conv_nth nat_neq_iff)
  then have l: "i + l < length acc" "l < n" and eq: "acc ! (i + j) = acc ! (i + l)" by auto
  have "acc = take (i + l) acc @ acc ! (i + l) # drop (Suc (i + l)) acc"
    using l(1) by (simp add: id_take_nth_drop)
  then have no: "acc ! (i + l) \<notin> set (recent n (take (i + l) acc))" by (rule assms)
  have "recent n (take (i + l) acc) ! (i + j - (i + l - n)) = acc ! (i + j)"
    using jl(1) l by (simp add: recent_def)
  moreover have "i + j - (i + l - n) < length (recent n (take (i + l) acc))"
    using jl(1) l by (simp add: recent_def)
  ultimately have "acc ! (i + j) \<in> set (recent n (take (i + l) acc))" by (metis nth_mem)
  with no eq show False by simp
qed

section \<open>One request after the other\<close>

text \<open>A task that is not interleaved with others: the gates and, for an admitted proposal, the
  update after the decision with the assessment it ended with.\<close>

type_synonym request = "ObservationRecord \<times> json \<times> byte list option \<times> ClientProposal \<times> RiskAssessment"

fun serve :: "gate_env \<Rightarrow> request \<Rightarrow> gate_state \<Rightarrow> nonce option \<times> gate_state" where
  "serve env (obs, raw, agent_id, p, assessment) st =
     (case admit env obs raw agent_id p st of
        (Inl signal, st') \<Rightarrow> (None, st')
      | (Inr reserved, st') \<Rightarrow>
          (let key = agent_key_of agent_id
           in (Some (key, sequence_counter p),
               st'\<lparr>lineages := update_lineage_after_decision (lineages st') key obs
                                 (sequence_counter p) assessment reserved\<rparr>)))"

fun serve_all :: "gate_env \<Rightarrow> request list \<Rightarrow> gate_state \<Rightarrow> nonce list" where
  "serve_all env [] st = []"
| "serve_all env (r # rs) st =
     (case serve env r st of
        (None, st') \<Rightarrow> serve_all env rs st'
      | (Some k, st') \<Rightarrow> k # serve_all env rs st')"

definition number_before :: "nonce \<Rightarrow> nonce \<Rightarrow> bool" where
  "number_before x y \<longleftrightarrow> fst x = fst y \<longrightarrow> snd x < snd y"

lemma late_gates_latest: "latest (snd (late_gates env obs raw key node p st)) k = latest st k"
  by (auto simp: late_gates_def Let_def latest_def reserve_quota_def lineage_or_new_def new_lineage_def
      split: option.splits prod.splits if_splits)

lemma reserve_sequence_latest:
  "latest (st\<lparr>lineages := snd (reserve_lineage_sequence (lineages st) key obs s)\<rparr>) k =
     (if k = key \<and> fst (reserve_lineage_sequence (lineages st) key obs s) = Inr () then s else latest st k)"
proof -
  obtain l where "snd (reserve_lineage_sequence (lineages st) key obs s) = (lineages st)(key \<mapsto> l)"
      "last_sequence l = (if fst (reserve_lineage_sequence (lineages st) key obs s) = Inr () then s
                          else case lineages st key of None \<Rightarrow> 0 | Some l0 \<Rightarrow> last_sequence l0)"
    using reserve_sequence_snd by blast
  then show ?thesis by (auto simp: latest_def split: option.splits)
qed

lemma update_latest:
  "latest (st\<lparr>lineages := update_lineage_after_decision (lineages st) key obs s a r\<rparr>) k =
     (if k = key then s else latest st k)"
  by (auto simp: latest_def update_lineage_after_decision_def Let_def)

lemma latest_nonce_store [simp]: "latest (st\<lparr>nonce_store := g\<rparr>) k = latest st k"
  by (simp add: latest_def)

lemma admit_latest:
  "latest st k \<le> latest (snd (admit env obs raw a p st)) k"
  "fst (admit env obs raw a p st) = Inr b \<Longrightarrow> latest st (agent_key_of a) < sequence_counter p"
proof -
  define key where "key = agent_key_of a"
  obtain fresh g where ob: "observe (nonce_store st) (key, sequence_counter p) = (fresh, g)" by fastforce
  obtain res ls where r: "reserve_lineage_sequence (lineages st) key obs (sequence_counter p) = (res, ls)"
    by fastforce
  have ok: "res = Inr () \<Longrightarrow> latest st key < sequence_counter p"
    using reserve_sequence_spec [of "lineages st" key obs "sequence_counter p"] r
    by (auto simp: latest_def word_neq_0_conv split: option.splits)
  have ls: "latest (st\<lparr>nonce_store := g, lineages := ls\<rparr>) k =
      (if k = key \<and> res = Inr () then sequence_counter p else latest st k)"
    using reserve_sequence_latest [of "st\<lparr>nonce_store := g\<rparr>" key obs "sequence_counter p" k] r by simp
  show "latest st k \<le> latest (snd (admit env obs raw a p st)) k"
    using ob r ls ok unfolding key_def
    by (auto simp: admit_def Let_def late_gates_latest less_imp_le split: sum.splits unit.splits)
  show "latest st (agent_key_of a) < sequence_counter p" if "fst (admit env obs raw a p st) = Inr b"
    using that ob r ok unfolding key_def
    by (auto simp: admit_def Let_def split: sum.splits if_splits)
qed

lemma perform_reserve:
  assumes "perform (Reserve key obs s) st = (ok, st')"
  shows "ok \<longleftrightarrow> s \<noteq> 0 \<and> latest st key < s" and "ok \<Longrightarrow> latest st' key = s"
proof -
  obtain r ls where r: "reserve_lineage_sequence (lineages st) key obs s = (r, ls)" by fastforce
  with assms have "ok = (r = Inr ())" "st' = st\<lparr>lineages := ls\<rparr>" by auto
  with r show "ok \<longleftrightarrow> s \<noteq> 0 \<and> latest st key < s" and "ok \<Longrightarrow> latest st' key = s"
    using reserve_sequence_spec [of "lineages st" key obs s] reserve_sequence_latest [of st key obs s key]
    by (auto simp: latest_def word_neq_0_conv split: option.splits)
qed

lemma run_accesses_append:
  "run_accesses (as @ bs) st =
     (fst (run_accesses as st) @ fst (run_accesses bs (snd (run_accesses as st))),
      snd (run_accesses bs (snd (run_accesses as st))))"
  by (induction as arbitrary: st) (simp_all add: Let_def case_prod_beta)

text \<open>Accesses that move no number of the agent: no reservation and no update under its key.\<close>

fun elsewhere :: "byte list \<Rightarrow> access \<Rightarrow> bool" where
  "elsewhere key (Reserve k obs s) = (k \<noteq> key)"
| "elsewhere key (Update k obs s a reserved) = (k \<noteq> key)"
| "elsewhere key _ = True"

lemma reserve_quota_latest:
  "latest (st\<lparr>lineages := snd (reserve_quota (lineages st) k obs s q)\<rparr>) key = latest st key"
  by (auto simp: latest_def reserve_quota_def lineage_or_new_def new_lineage_def Let_def
      split: option.splits)

lemma prune_latest:
  "latest (st\<lparr>lineages := prune_dead_processes start_time (lineages st)\<rparr>) key \<le> latest st key"
  by (auto simp: latest_def prune_dead_processes_def split: option.splits)

lemma perform_elsewhere: "elsewhere key a \<Longrightarrow> latest (snd (perform a st)) key \<le> latest st key"
  using reserve_sequence_latest [of st _ _ _ key] reserve_quota_latest [of st _ _ _ _ key]
    update_latest [of st _ _ _ _ _ key] prune_latest [of _ st key]
  by (cases a) (auto simp: case_prod_beta Let_def)

lemma elsewhere_latest: "list_all (elsewhere key) xs \<Longrightarrow> latest (snd (run_accesses xs st)) key \<le> latest st key"
proof (induction xs arbitrary: st)
  case (Cons a xs)
  with perform_elsewhere [of key a st] order_trans show ?case
    by (fastforce simp: Let_def case_prod_beta)
qed simp

lemma authenticate_Inr:
  "authenticate env obs e = Inr (raw, agent, p) \<longleftrightarrow>
     value_from_str env (payload e) = Some raw \<and> agent = agent_id_of raw \<and>
     store_verify (crates env) (agent_secrets env) agent e (admission_keys env) (epoch_secs env) \<noteq> None \<and>
     proposal_from_value env raw = Some p \<and>
     \<not> explicit_protected_resource_attack (intent_name p) (proposed_action p) (Some raw)
         (proposal_enforcement_path p raw obs)"
  by (auto simp: authenticate_def Let_def split: option.splits if_splits)

lemma serve_latest:
  assumes "serve env r st = (adm, st')"
  shows "latest st k \<le> latest st' k"
    and "adm = Some (key, s) \<Longrightarrow> latest st key < s \<and> latest st' key = s"
proof -
  obtain obs raw a p ra where r: "r = (obs, raw, a, p, ra)" by (metis prod_cases5)
  obtain res st1 where ad: "admit env obs raw a p st = (res, st1)" by fastforce
  note l = admit_latest(1) [of st k env obs raw a p] and l2 = admit_latest(2) [of env obs raw a p st]
  show "latest st k \<le> latest st' k"
  proof (cases res)
    case (Inl x)
    with assms r ad l show ?thesis by simp
  next
    case (Inr b)
    with l2 ad have "latest st (agent_key_of a) < sequence_counter p" by simp
    with Inr assms r ad l show ?thesis by (auto simp: Let_def update_latest less_imp_le)
  qed
  show "latest st key < s \<and> latest st' key = s" if "adm = Some (key, s)"
    using that assms r ad l2 by (cases res) (auto simp: Let_def update_latest)
qed

lemma serve_all_latest:
  "(k, s) \<in> set (serve_all env rs st) \<Longrightarrow> latest st k < s"
proof (induction rs arbitrary: st)
  case (Cons r rs)
  obtain adm st' where sv: "serve env r st = (adm, st')" by fastforce
  note l = serve_latest [OF sv]
  have "latest st k < s" if "(k, s) \<in> set (serve_all env rs st')"
    using Cons.IH [OF that] l(1) [of k] by simp
  with Cons.prems sv l(2) [of k s] show ?case by (cases adm) auto
qed simp

section \<open>Properties\<close>

text \<open>C14: a packet is admitted exactly when a complete frame is on the stream, its payload is JSON,
  the signature verifies under the key of the claimed agent (its own key if it has one, else a
  shared key in its validity), the payload is a proposal that does not attack a protected
  resource, and the proposal is admissible: fresh nonce, known and bound agent, increasing
  sequence number, no canary, permitted intent, no delegation, runtime policy and quota. A packet
  that fails before the replay cache leaves the state as it was.\<close>

theorem packet_admitted:
  "((\<exists>b. fst (gate_packet env obs stream st) = Inr (a, p, b)) \<longleftrightarrow>
    (\<exists>e rest raw. receive_envelope (crates env) stream = Inr (e, rest) \<and>
       value_from_str env (payload e) = Some raw \<and> a = agent_id_of raw \<and>
       store_verify (crates env) (agent_secrets env) a e (admission_keys env) (epoch_secs env) \<noteq> None \<and>
       proposal_from_value env raw = Some p \<and>
       \<not> explicit_protected_resource_attack (intent_name p) (proposed_action p) (Some raw)
           (proposal_enforcement_path p raw obs) \<and>
       admissible env obs raw a p st)) \<and>
   (snd (gate_packet env obs stream st) = st \<or>
    (\<exists>e rest raw agent p. receive_envelope (crates env) stream = Inr (e, rest) \<and>
       authenticate env obs e = Inr (raw, agent, p)))"
proof (cases "receive_envelope (crates env) stream")
  case (Inl x)
  then show ?thesis by (simp add: gate_packet_def)
next
  case (Inr er)
  obtain e rest where er: "er = (e, rest)" by (cases er)
  show ?thesis
  proof (cases "authenticate env obs e")
    case (Inl s)
    then have "\<not> (value_from_str env (payload e) = Some raw \<and> a = agent_id_of raw \<and>
        store_verify (crates env) (agent_secrets env) a e (admission_keys env) (epoch_secs env) \<noteq> None \<and>
        proposal_from_value env raw = Some p \<and>
        \<not> explicit_protected_resource_attack (intent_name p) (proposed_action p) (Some raw)
           (proposal_enforcement_path p raw obs))" for raw
      using authenticate_Inr [of env obs e raw a p] by auto
    with Inl Inr er show ?thesis by (simp add: gate_packet_def) blast
  next
    case auth: (Inr t)
    obtain raw agent q where t: "t = (raw, agent, q)" by (cases t)
    then have facts: "value_from_str env (payload e) = Some raw" "agent = agent_id_of raw"
        "store_verify (crates env) (agent_secrets env) agent e (admission_keys env) (epoch_secs env) \<noteq> None"
        "proposal_from_value env raw = Some q"
        "\<not> explicit_protected_resource_attack (intent_name q) (proposed_action q) (Some raw)
           (proposal_enforcement_path q raw obs)"
      using auth authenticate_Inr [of env obs e raw agent q] by auto
    obtain res st1 where ad: "admit env obs raw agent q st = (res, st1)" by fastforce
    then have "(\<exists>b. res = Inr b) \<longleftrightarrow> admissible env obs raw agent q st"
      using admit_spec [of env obs raw agent q st] by simp
    with ad Inr er auth t facts show ?thesis
      by (cases res) (auto simp: gate_packet_def)
  qed
qed

text \<open>The stages of the handler and the single function of the wire crate agree: an envelope
  is received exactly when the crate gets to the signature, and every refusal is the answer of
  the same class; a short frame is not answered.\<close>

theorem framing_agrees:
  "case receive_envelope cr stream of
     Inr (e, rest) \<Rightarrow>
       classify_packet cr stream secret =
         (if verify_envelope cr e secret then Wire_Verified e else Wire_BadSignature)
   | Inl answer \<Rightarrow>
       answer = wire_answer (classify_packet cr stream secret) \<and>
       (answer = None \<longleftrightarrow> classify_packet cr stream secret \<in> {Wire_ShortHeader, Wire_ShortBody})"
proof (cases "classify_frame_header (decode_frame_header (take 5 stream))")
  case (Inl x)
  then show ?thesis
    by (cases x) (auto simp: receive_envelope_def classify_packet_def HEADER_LEN_def wire_answer_def Let_def)
next
  case (Inr n)
  show ?thesis
  proof (cases "parse_body cr (take n (drop 5 stream))")
    case (Inl y)
    with Inr show ?thesis
      by (cases y) (auto simp: receive_envelope_def classify_packet_def HEADER_LEN_def wire_answer_def Let_def)
  next
    case (Inr e)
    with \<open>classify_frame_header (decode_frame_header (take 5 stream)) = Inr n\<close> show ?thesis
      by (auto simp: receive_envelope_def classify_packet_def HEADER_LEN_def wire_answer_def Let_def)
  qed
qed

text \<open>C31: however the tasks interleave, among any consecutive nonces that the replay cache has let
  through, as many as its capacity, no agent and sequence number occur twice.\<close>

theorem nonces_never_repeat:
  "distinct (take (max c 1) (drop i (observed_nonces
     (fst (run_accesses accesses \<lparr>nonce_store = with_capacity c, lineages = ls\<rparr>)))))"
proof -
  have c: "cap (with_capacity c) = max c 1" "order (with_capacity c) = recent (cap (with_capacity c)) []"
    by (simp_all add: with_capacity_def recent_def)
  show ?thesis
    unfolding run_accesses_observe gate_state.select_convs
    by (rule windows_distinct, drule observe_all_accepted [OF with_capacity_inv c(2)])
      (simp add: c(1))
qed

text \<open>However the tasks interleave, an agent with quota \<open>q\<close> is granted at most \<open>q\<close> decisions on one
  lineage, the counter never wraps around, and it is the number of grants.\<close>

theorem quota_respected:
  assumes "list_all (under_quota key q) accesses" and "lineages st key = None"
  shows "quota_slots key (fst (run_accesses accesses st)) \<le> unat q \<and>
     granted (snd (run_accesses accesses st)) key = quota_slots key (fst (run_accesses accesses st))"
  using run_accesses_granted [OF assms(1), of st] assms(2) by (auto simp: granted_def)

text \<open>Served one after the other, the sequence numbers admitted for an agent increase strictly.\<close>

theorem sequences_increase:
  "sorted_wrt number_before (serve_all env requests st)"
proof (induction requests arbitrary: st)
  case (Cons r rs)
  obtain adm st' where sv: "serve env r st = (adm, st')" by fastforce
  show ?case
  proof (cases adm)
    case None
    with sv Cons.IH show ?thesis by simp
  next
    case (Some ks)
    obtain k s where ks: "ks = (k, s)" by (cases ks)
    have "latest st' k = s" using serve_latest(2) [OF sv, of k s] Some ks by simp
    then have "\<forall>x \<in> set (serve_all env rs st'). number_before (k, s) x"
      using serve_all_latest by (fastforce simp: number_before_def)
    with sv Some ks Cons.IH show ?thesis by simp
  qed
qed simp

text \<open>C33: the lineage can go back. A request of an agent reserves the number \<open>s\<close>, a later one the number
  \<open>t\<close>, with any accesses between that do not move this agent's number, and both are accepted. Then the
  first request's decision is written back, after any further accesses at all: the lineage's last number is
  \<open>s\<close> again, and it accepts every number above \<open>s\<close>, those up to \<open>t\<close> and \<open>t\<close> itself included.\<close>

theorem sequence_race:
  assumes "latest st key < s" and "s < t" and "list_all (elsewhere key) xs"
  shows "(\<exists>done. fst (run_accesses (Reserve key obs s # xs @ [Reserve key obs' t]) st) =
       Reserve key obs s # done @ [Reserve key obs' t]) \<and>
     (let st' = snd (run_accesses (Reserve key obs s # xs @ Reserve key obs' t # ys @
         [Update key obs s assessment reserved]) st)
      in latest st' key = s \<and> (\<forall>u > s. fst (perform (Reserve key obs'' u) st')))"
proof -
  obtain ok1 st1 where 1: "perform (Reserve key obs s) st = (ok1, st1)" by fastforce
  obtain as st2 where 2: "run_accesses xs st1 = (as, st2)" by fastforce
  obtain ok3 st3 where 3: "perform (Reserve key obs' t) st2 = (ok3, st3)" by fastforce
  have "0 < s" using assms(1) le_less_trans [of 0 "latest st key" s] by simp
  with perform_reserve [OF 1] assms(1) have ok1: "ok1" "latest st1 key = s" by auto
  have "latest st2 key < t"
    using elsewhere_latest [OF assms(3), of st1] 2 ok1(2) assms(2) by (simp add: le_less_trans)
  moreover have "0 < t" using \<open>0 < s\<close> assms(2) by (rule less_trans)
  ultimately have ok3: "ok3" using perform_reserve(1) [OF 3] by auto
  let ?st' = "snd (run_accesses (Reserve key obs s # xs @ Reserve key obs' t # ys @
      [Update key obs s assessment reserved]) st)"
  have last: "latest ?st' key = s"
    by (simp add: run_accesses_append update_latest Let_def case_prod_beta del: perform.simps(2))
  have "fst (perform (Reserve key obs'' u) ?st')" if "s < u" for u
    using perform_reserve(1) [OF prod.collapse [symmetric], of key obs'' u ?st'] last that \<open>0 < s\<close>
    by auto
  with 1 2 3 ok1(1) ok3 last show ?thesis
    by (simp add: run_accesses_append Let_def del: perform.simps)
qed

text \<open>A proposal in the name of another agent that the identity binding refuses has already
  used up the nonce: the bound agent's own proposal with that number is refused as a replay.\<close>

theorem refused_proposal_burns_nonce:
  assumes "map_of (agent_nodes (current_policy env)) agent = Some node"
    and "\<not> agent_uid_binding_allows node (obs_uid obs)"
    and "sequence_counter own = sequence_counter forged"
  shows "fst (admit env obs raw (Some agent) forged st) \<in>
           {Inl DENY_AGENT_IDENTITY_BINDING, Inl DENY_REPLAY_ATTACK} \<and>
         fst (admit env obs' raw' (Some agent) own (snd (admit env obs raw (Some agent) forged st))) =
           Inl DENY_REPLAY_ATTACK"
proof -
  obtain fresh g where ob: "observe (nonce_store st) (agent, sequence_counter forged) = (fresh, g)"
    by fastforce
  then have burnt: "(agent, sequence_counter forged) \<in> seen g"
    by (auto simp: observe_def Let_def split: if_splits)
  have "admit env obs raw (Some agent) forged st =
      (Inl (if fresh then DENY_AGENT_IDENTITY_BINDING else DENY_REPLAY_ATTACK), st\<lparr>nonce_store := g\<rparr>)"
    using assms ob by (simp add: admit_def Let_def agent_key_of_def)
  moreover have "\<not> fst (observe g (agent, sequence_counter own))"
    using burnt assms(3) by (simp add: observe_fst)
  ultimately show ?thesis
    by (simp add: admit_def [of env obs'] Let_def agent_key_of_def case_prod_beta)
qed

section \<open>Instances\<close>

definition sample_obs :: "u32 \<Rightarrow> ObservationRecord" where
  "sample_obs uid =
     \<lparr>obs_pid = 10, obs_start_time = 1, obs_uid = uid, obs_gid = uid, obs_executable_path = None,
      obs_command_line = [], namespace_observed = True, namespace_pid_inode = None,
      namespace_net_inode = None, socket_peer_verified = True, observed_at_unix_secs = 2\<rparr>"

definition sample_proposal :: ClientProposal where
  "sample_proposal =
     \<lparr>session_privilege_bit = None, action_risk_score = None, sequence_counter = 1, intent_name = None,
      prompt = None, plan = None, source_code = None, requested_capabilities = [],
      proposed_action = None, context_vars = Map.empty\<rparr>"

definition sample_node :: AgentNodePolicy where
  "sample_node =
     \<lparr>node_id = byte_string ''a'', privilege_tier = 0, max_sequence_quota = 1, node_peer_uids = [1000],
      allowed_intents = [], allowed_executables = [], denied_write_paths = [], denied_unlink_paths = [],
      denied_dns_domains = [], node_invariants = []\<rparr>"

definition sample_policy :: PolicyConfig where
  "sample_policy =
     \<lparr>upper_safety_boundary = Fin 95, minimum_trust_score = Fin 5,
      agent_nodes = [(byte_string ''a'', sample_node)], deny_anonymous_agents = True,
      allow_anonymous_override = False,
      network_policy = \<lparr>default_deny = False, allowed_ips = [], denied_ips = [],
        allowed_unix_sockets = [], unix_default_deny = False\<rparr>,
      runtime_policy = \<lparr>deny_root_peers = False, runtime_peer_uids = [],
        require_brokered_execution = False, require_sandbox_namespace = False\<rparr>,
      fleet_policy_min_version = 0, accept_cross_machine_lineage = False, canary_resources = []\<rparr>"

definition sample_gate :: gate_env where
  "sample_gate =
     \<lparr>crates = sample_crates, value_from_str = (\<lambda>s. None), proposal_from_value = (\<lambda>v. None),
      admission_keys = \<lparr>current_key = [1], previous_key = None\<rparr>, agent_secrets = Map.empty,
      epoch_secs = 0, self_pid_ns = None, self_net_ns = None, current_policy = sample_policy\<rparr>"

definition fresh_state :: gate_state where
  "fresh_state = \<lparr>nonce_store = with_capacity MAX_REPLAY_ENTRIES, lineages = Map.empty\<rparr>"

theorem quota_respected_witness:
  "quota_slots [97] (fst (run_accesses
     [Quota [97] (sample_obs 1000) 1 1, Quota [97] (sample_obs 1000) 2 1] fresh_state)) \<le> 1"
  using quota_respected [of "[97]" 1 "[Quota [97] (sample_obs 1000) 1 1, Quota [97] (sample_obs 1000) 2 1]"
      fresh_state]
  by (simp add: fresh_state_def)

definition calm_assessment :: RiskAssessment where
  "calm_assessment =
     \<lparr>observed_risk = Fin 0, semantic_risk = Fin 0, topology_risk = Fin 0, declared_risk = None,
      fused_risk = Fin 0, trust_score = Fin 100, risk_reasons = []\<rparr>"

theorem sequence_race_witness:
  "let st' = snd (run_accesses [Reserve [97] (sample_obs 1000) 5, Quota [97] (sample_obs 1000) 5 9,
       Reserve [97] (sample_obs 1000) 7, Update [97] (sample_obs 1000) 7 calm_assessment True,
       Update [97] (sample_obs 1000) 5 calm_assessment True] fresh_state)
   in latest st' [97] = 5 \<and> fst (perform (Reserve [97] (sample_obs 1000) 6) st')"
proof -
  have "latest fresh_state [97] < 5" by (simp add: latest_def fresh_state_def)
  from sequence_race [OF this, of 7 "[Quota [97] (sample_obs 1000) 5 9]" "sample_obs 1000" "sample_obs 1000"
      "[Update [97] (sample_obs 1000) 7 calm_assessment True]" calm_assessment True "sample_obs 1000"]
  show ?thesis by (simp add: Let_def del: run_accesses.simps perform.simps)
qed

theorem refused_proposal_burns_nonce_witness:
  "fst (admit sample_gate (sample_obs 1000) JNull (Some (byte_string ''a'')) sample_proposal
     (snd (admit sample_gate (sample_obs 0) JNull (Some (byte_string ''a'')) sample_proposal fresh_state))) =
   Inl DENY_REPLAY_ATTACK"
proof -
  have "map_of (agent_nodes (current_policy sample_gate)) (byte_string ''a'') = Some sample_node"
    by (simp add: sample_gate_def sample_policy_def)
  moreover have "\<not> agent_uid_binding_allows sample_node (obs_uid (sample_obs 0))"
    by (simp add: agent_uid_binding_allows_def sample_node_def sample_obs_def)
  ultimately show ?thesis
    using refused_proposal_burns_nonce [of sample_gate "byte_string ''a''" sample_node "sample_obs 0"
        sample_proposal sample_proposal JNull fresh_state "sample_obs 1000" JNull]
    by simp
qed

end
