(* ===== verification/Shell_Commands.thy ===== *)
theory Shell_Commands
  imports Governed_Scope Policy_Types
begin

text \<open>
  The interpreter gate of \<^verbatim>\<open>ts_cli/src/main.rs\<close>: the split of a shell command into segments, the
  resolution of the command a segment runs, and the denial of interpreters that are not on the
  executable allow-list of the agent. Commands are read byte by byte: the characters the code
  looks for are ASCII, and no byte of a longer UTF-8 sequence is.
\<close>

section \<open>Tokens\<close>

definition KNOWN_INTERPRETERS :: "byte list list" where
  "KNOWN_INTERPRETERS = map byte_string
     [''sh'', ''bash'', ''dash'', ''zsh'', ''ksh'', ''fish'', ''csh'', ''tcsh'', ''python'', ''python2'', ''python3'',
      ''perl'', ''ruby'', ''node'', ''nodejs'', ''php'', ''lua'', ''tclsh'', ''awk'', ''gawk'', ''Rscript'', ''pwsh'']"

definition binary_basename :: "byte list \<Rightarrow> byte list" where
  "binary_basename token = (case file_name (trim token) of Some n \<Rightarrow> n | None \<Rightarrow> trim token)"

definition interpreter_name :: "byte list \<Rightarrow> byte list option" where
  "interpreter_name token = find (\<lambda>i. i = binary_basename token) KNOWN_INTERPRETERS"

definition quote_char :: "byte \<Rightarrow> bool" where
  "quote_char b \<longleftrightarrow> b = 0x22 \<or> b = 0x27"

definition unquote :: "byte list \<Rightarrow> byte list" where
  "unquote token =
     (let t = trim token;
          t = (case t of b # r \<Rightarrow> if quote_char b then r else t | [] \<Rightarrow> t)
      in case rev t of b # r \<Rightarrow> if quote_char b then rev r else t | [] \<Rightarrow> t)"

definition ascii_alpha :: "byte \<Rightarrow> bool" where
  "ascii_alpha b \<longleftrightarrow> 0x41 \<le> b \<and> b \<le> 0x5A \<or> 0x61 \<le> b \<and> b \<le> 0x7A"

definition is_env_assignment :: "byte list \<Rightarrow> bool" where
  "is_env_assignment token =
     (case split_once 0x3D token of
        None \<Rightarrow> False
      | Some (name, value) \<Rightarrow>
          (case name of
             [] \<Rightarrow> False
           | c # cs \<Rightarrow> (ascii_alpha c \<or> c = 0x5F) \<and>
                       list_all (\<lambda>c. ascii_alpha c \<or> digit c \<or> c = 0x5F) name))"

definition is_numeric_arg :: "byte list \<Rightarrow> bool" where
  "is_numeric_arg token =
     (let stripped = rev (dropWhile (\<lambda>b. b \<in> {0x73, 0x6D, 0x68, 0x64}) (rev token))
      in stripped \<noteq> [] \<and> list_all digit stripped)"

definition COMMAND_WRAPPERS :: "byte list list" where
  "COMMAND_WRAPPERS = map byte_string
     [''env'', ''timeout'', ''nohup'', ''nice'', ''ionice'', ''stdbuf'', ''setsid'', ''time'', ''xargs'', ''sudo'',
      ''doas'', ''command'', ''exec'', ''chroot'', ''unshare'', ''flock'', ''watch'', ''eatmydata'', ''proxychains'',
      ''strace'', ''ltrace'']"

definition wrapper_arg :: "byte list \<Rightarrow> bool" where
  "wrapper_arg token =
     (let a = unquote token in starts_with a [0x2D] \<or> is_env_assignment a \<or> is_numeric_arg a)"

text \<open>\<^verbatim>\<open>str::split_whitespace\<close>.\<close>

fun take_word :: "byte list \<Rightarrow> byte list \<times> byte list" where
  "take_word [] = ([], [])"
| "take_word (b # s) =
     (if ws_prefix (b # s) > 0 then ([], b # s) else (b # fst (take_word s), snd (take_word s)))"

lemma take_word_length: "length (fst (take_word s)) + length (snd (take_word s)) = length s"
  by (induction s) auto

lemma trim_start_length: "length (trim_start s) \<le> length s"
  by (induction s rule: trim_start.induct) (subst trim_start.simps, auto)

function split_whitespace :: "byte list \<Rightarrow> byte list list" where
  "split_whitespace s =
     (if trim_start s = [] then []
      else fst (take_word (trim_start s)) # split_whitespace (snd (take_word (trim_start s))))"
  by pat_completeness auto
termination
proof (relation "measure length")
  fix s :: "byte list"
  assume s: "trim_start s \<noteq> []"
  then obtain b t where t: "trim_start s = b # t" by (cases "trim_start s") auto
  with ws_prefix_trim_start [of s] have "fst (take_word (trim_start s)) \<noteq> []" by simp
  then show "(snd (take_word (trim_start s)), s) \<in> measure length"
    using take_word_length [of "trim_start s"] trim_start_length [of s] by (cases "fst (take_word (trim_start s))") auto
qed simp

declare split_whitespace.simps [simp del]

section \<open>The command of a segment\<close>

text \<open>The inner loops of \<open>effective_command_head\<close>: the first index from \<open>i\<close> on whose token does not
  pass the test.\<close>

function skip_while :: "(byte list \<Rightarrow> bool) \<Rightarrow> byte list list \<Rightarrow> nat \<Rightarrow> nat" where
  "skip_while test tokens i =
     (if i < length tokens \<and> test (tokens ! i) then skip_while test tokens (i + 1) else i)"
  by pat_completeness auto
termination
  by (relation "measure (\<lambda>(test, tokens, i). length tokens - i)") auto

declare skip_while.simps [simp del]

text \<open>The outer loop returns from inside; it is a partial function until it is shown to end.\<close>

partial_function (option) command_head_loop :: "byte list list \<Rightarrow> nat \<Rightarrow> byte list option option" where
  "command_head_loop tokens i =
     (let i = skip_while (\<lambda>t. is_env_assignment (unquote t)) tokens i
      in if length tokens \<le> i then Some None
         else let base = binary_basename (unquote (tokens ! i))
              in if base \<in> set COMMAND_WRAPPERS
                 then command_head_loop tokens (skip_while wrapper_arg tokens (i + 1))
                 else Some (Some base))"

text \<open>The same resolution by recursion over the tokens.\<close>

function command_head :: "byte list list \<Rightarrow> byte list option" where
  "command_head tokens =
     (case dropWhile (\<lambda>t. is_env_assignment (unquote t)) tokens of
        [] \<Rightarrow> None
      | t # rest \<Rightarrow>
          (if binary_basename (unquote t) \<in> set COMMAND_WRAPPERS then command_head (dropWhile wrapper_arg rest)
           else Some (binary_basename (unquote t))))"
  by pat_completeness auto
termination
proof (relation "measure length")
  fix tokens t rest
  assume "dropWhile (\<lambda>t. is_env_assignment (unquote t)) tokens = t # rest"
  then have "length (t # rest) \<le> length tokens" by (metis length_dropWhile_le)
  then show "(dropWhile wrapper_arg rest, tokens) \<in> measure length"
    using length_dropWhile_le [of wrapper_arg rest] by simp
qed simp

declare command_head.simps [simp del]

definition effective_command_head :: "byte list list \<Rightarrow> byte list option" where
  "effective_command_head tokens = (case command_head_loop tokens 0 of Some r \<Rightarrow> r | None \<Rightarrow> None)"

section \<open>Segments\<close>

definition flush :: "byte list \<Rightarrow> byte list list \<Rightarrow> byte list list" where
  "flush cur out = (if trim cur \<noteq> [] then out @ [cur] else out)"

text \<open>The body of \<^verbatim>\<open>$(\<close>: up to the parenthesis that closes it, or the end. The depth is 32 bits wide in
  the code; the 4 MiB limit on a payload keeps it from wrapping.\<close>

fun paren_body :: "nat \<Rightarrow> byte list \<Rightarrow> byte list \<times> byte list" where
  "paren_body depth [] = ([], [])"
| "paren_body depth (n # s) =
     (if n = 0x28 then (n # fst (paren_body (depth + 1) s), snd (paren_body (depth + 1) s))
      else if n = 0x29
      then if depth = 1 then ([], s)
           else (n # fst (paren_body (depth - 1) s), snd (paren_body (depth - 1) s))
      else (n # fst (paren_body depth s), snd (paren_body depth s)))"

definition backtick_body :: "byte list \<Rightarrow> byte list \<times> byte list" where
  "backtick_body s = (takeWhile (\<lambda>b. b \<noteq> 0x60) s, drop 1 (dropWhile (\<lambda>b. b \<noteq> 0x60) s))"

lemma paren_body_length:
  "length (fst (paren_body d s)) \<le> length s" "length (snd (paren_body d s)) \<le> length s"
  by (induction d s rule: paren_body.induct) auto

lemma paren_body_tl_length:
  "length (fst (paren_body d (tl s))) \<le> length s" "length (snd (paren_body d (tl s))) \<le> length s"
  using paren_body_length [of d "tl s"] by (cases s; simp)+

lemma backtick_body_length:
  "length (fst (backtick_body s)) \<le> length s" "length (snd (backtick_body s)) \<le> length s"
  using length_dropWhile_le [of "\<lambda>b. b \<noteq> 0x60" s] length_takeWhile_le [of "\<lambda>b. b \<noteq> 0x60" s]
  by (auto simp: backtick_body_def)

definition separator :: "byte \<Rightarrow> bool" where
  "separator c \<longleftrightarrow> c \<in> {0x3B, 0x0A, 0x7C, 0x26}"

text \<open>The loop over the characters: the rest of the command, the two quote flags, the segment being
  read and the segments found so far.\<close>

function segments_from :: "byte list \<Rightarrow> bool \<Rightarrow> bool \<Rightarrow> byte list \<Rightarrow> byte list list \<Rightarrow> byte list list" where
  "segments_from [] in_single in_double cur out = flush cur out"
| "segments_from (c # s) in_single in_double cur out =
     (if in_single then segments_from s (c \<noteq> 0x27) in_double (cur @ [c]) out
      else if c = 0x27 then segments_from s True in_double (cur @ [c]) out
      else if c = 0x22 then segments_from s False (\<not> in_double) (cur @ [c]) out
      else if c = 0x60
      then segments_from (snd (backtick_body s)) False in_double cur
             (out @ segments_from (fst (backtick_body s)) False False [] [])
      else if c = 0x24 \<and> s \<noteq> [] \<and> hd s = 0x28
      then segments_from (snd (paren_body 1 (tl s))) False in_double cur
             (out @ segments_from (fst (paren_body 1 (tl s))) False False [] [])
      else if separator c \<and> \<not> in_double then segments_from s False in_double [] (flush cur out)
      else segments_from s False in_double (cur @ [c]) out)"
  by pat_completeness auto
termination
  by (relation "measure (\<lambda>(s, _). length s)")
    (auto simp: less_Suc_eq_le backtick_body_length paren_body_tl_length)

definition shell_command_segments :: "byte list \<Rightarrow> byte list list" where
  "shell_command_segments command = segments_from command False False [] []"

section \<open>The gate\<close>

definition segment_interpreter :: "byte list \<Rightarrow> byte list option" where
  "segment_interpreter segment =
     Option.bind (effective_command_head (split_whitespace segment)) interpreter_name"

definition interpreters_in_command :: "byte list \<Rightarrow> byte list list" where
  "interpreters_in_command command =
     foldl (\<lambda>found segment. case segment_interpreter segment of
              Some name \<Rightarrow> if name \<in> set found then found else found @ [name]
            | None \<Rightarrow> found)
       [] (shell_command_segments command)"

definition interpreter_allowed :: "AgentNodePolicy \<Rightarrow> byte list \<Rightarrow> bool" where
  "interpreter_allowed node interpreter =
     list_ex (\<lambda>allowed. allowed = interpreter \<or> binary_basename allowed = interpreter) (allowed_executables node)"

definition interpreter_bypass_denied ::
    "AgentNodePolicy option \<Rightarrow> ProposedAction option \<Rightarrow> byte list option" where
  "interpreter_bypass_denied node action =
     (case node of
        None \<Rightarrow> None
      | Some n \<Rightarrow>
          (if allowed_executables n = [] then None
           else case action of
                  Some (ShellCommand command) \<Rightarrow>
                    map_option (\<lambda>i. byte_string ''interpreter_not_allowed:'' @ i)
                      (find (\<lambda>i. \<not> interpreter_allowed n i) (interpreters_in_command command))
                | _ \<Rightarrow> None))"

section \<open>The loop over the tokens\<close>

lemma skip_while_drop:
  "drop (skip_while test tokens i) tokens = dropWhile test (drop i tokens) \<and> i \<le> skip_while test tokens i"
proof (induction test tokens i rule: skip_while.induct)
  case (1 test tokens i)
  show ?case
  proof (cases "i < length tokens")
    case True
    then have "drop i tokens = tokens ! i # drop (i + 1) tokens" by (simp add: Cons_nth_drop_Suc)
    with 1 True show ?thesis by (subst (1 2) skip_while.simps) auto
  next
    case False
    then show ?thesis by (subst (1 2) skip_while.simps) simp
  qed
qed

lemma command_head_loop_drop:
  "command_head_loop tokens i = Some (command_head (drop i tokens))"
proof (induction "length tokens - i" arbitrary: i rule: less_induct)
  case less
  define j where "j = skip_while (\<lambda>t. is_env_assignment (unquote t)) tokens i"
  have j: "drop j tokens = dropWhile (\<lambda>t. is_env_assignment (unquote t)) (drop i tokens)" "i \<le> j"
    unfolding j_def using skip_while_drop by blast+
  show ?case
  proof (cases "j < length tokens")
    case True
    define k where "k = skip_while wrapper_arg tokens (Suc j)"
    have k: "drop k tokens = dropWhile wrapper_arg (drop (Suc j) tokens)" "Suc j \<le> k"
      unfolding k_def using skip_while_drop by blast+
    have "drop j tokens = tokens ! j # drop (j + 1) tokens" using True by (simp add: Cons_nth_drop_Suc)
    moreover have "command_head_loop tokens k = Some (command_head (drop k tokens))"
      using True j k by (intro less) linarith
    ultimately show ?thesis
      using True j(1) k(1)
      by (subst command_head_loop.simps, subst command_head.simps) (simp add: Let_def flip: j_def k_def)
  next
    case False
    then show ?thesis using j(1)
      by (subst command_head_loop.simps, subst command_head.simps) (simp add: Let_def flip: j_def)
  qed
qed

lemma effective_head: "effective_command_head tokens = command_head tokens"
  by (simp add: effective_command_head_def command_head_loop_drop)

section \<open>Segments of composed commands\<close>

definition plain_char :: "byte \<Rightarrow> bool" where
  "plain_char b \<longleftrightarrow> b \<notin> {0x27, 0x22, 0x60, 0x24}"

lemma flush_append: "flush cur (a @ out) = a @ flush cur out"
  by (simp add: flush_def)

lemma segments_append: "segments_from s q d cur (a @ out) = a @ segments_from s q d cur out"
  by (induction s q d cur out rule: segments_from.induct) (simp_all add: flush_append)

lemmas segments_out = segments_append [where out = "[]", simplified]

lemma segments_separated:
  assumes "list_all plain_char a" and "separator c"
  shows "segments_from (a @ c # b) False False cur [] =
     segments_from a False False cur [] @ segments_from b False False [] []"
  using assms(1)
proof (induction a arbitrary: cur)
  case Nil
  have "c \<notin> {0x27, 0x22, 0x60, 0x24}" using assms(2) by (auto simp: separator_def)
  then show ?case using assms(2) segments_out [of b False False "[]" "flush cur []"] by simp
next
  case (Cons x a)
  then have x: "x \<noteq> 0x27" "x \<noteq> 0x22" "x \<noteq> 0x60" "x \<noteq> 0x24" by (auto simp: plain_char_def)
  have "segments_from (a @ c # b) False False [] (flush cur []) =
      segments_from a False False [] (flush cur []) @ segments_from b False False [] []"
    using Cons segments_out [of "a @ c # b" False False "[]" "flush cur []"]
      segments_out [of a False False "[]" "flush cur []"] by simp
  with x Cons show ?case by simp
qed

text \<open>A text whose parentheses are balanced as the scan counts them, quoted ones included: as many are
  closed as are opened, and at no place more.\<close>

definition open_parens :: "byte list \<Rightarrow> int" where
  "open_parens s = int (count_list s 0x28) - int (count_list s 0x29)"

definition balanced_parens :: "byte list \<Rightarrow> bool" where
  "balanced_parens s \<longleftrightarrow>
     open_parens s = 0 \<and> list_all (\<lambda>k. 0 \<le> open_parens (take k s)) [0..<length s]"

lemma open_parens_simps [simp]:
  "open_parens [] = 0"
  "open_parens (x # s) = (if x = 0x28 then 1 else if x = 0x29 then - 1 else 0) + open_parens s"
  by (simp_all add: open_parens_def)

lemma paren_body_append:
  assumes "\<forall>k \<le> length b. - int d < open_parens (take k b)"
  shows "paren_body d (b @ c) =
    (b @ fst (paren_body (nat (int d + open_parens b)) c), snd (paren_body (nat (int d + open_parens b)) c))"
  using assms
proof (induction b arbitrary: d)
  case (Cons x b)
  have prefixes: "- int d < (if x = 0x28 then 1 else if x = 0x29 then - 1 else 0) + open_parens (take k b)"
    if "k \<le> length b" for k
    using Cons.prems [rule_format, of "Suc k"] that by simp
  consider "x = 0x28" | "x = 0x29" | "x \<noteq> 0x28" "x \<noteq> 0x29" by blast
  then show ?case
  proof cases
    case 1
    have "paren_body (d + 1) (b @ c) = (b @ fst (paren_body (nat (int (d + 1) + open_parens b)) c),
        snd (paren_body (nat (int (d + 1) + open_parens b)) c))"
      by (intro Cons.IH allI impI, drule prefixes, simp add: 1)
    then show ?thesis by (simp add: 1 algebra_simps)
  next
    case 2
    have "1 < d" using prefixes [of 0] by (simp add: 2)
    have "paren_body (d - 1) (b @ c) = (b @ fst (paren_body (nat (int (d - 1) + open_parens b)) c),
        snd (paren_body (nat (int (d - 1) + open_parens b)) c))"
      by (intro Cons.IH allI impI, drule prefixes, insert \<open>1 < d\<close>, simp add: 2 of_nat_diff)
    moreover have "int (d - 1) + open_parens b = int d + (- 1 + open_parens b)"
      using \<open>1 < d\<close> by (simp add: of_nat_diff)
    ultimately show ?thesis using \<open>1 < d\<close> by (simp add: 2 algebra_simps)
  next
    case 3
    have "paren_body d (b @ c) = (b @ fst (paren_body (nat (int d + open_parens b)) c),
        snd (paren_body (nat (int d + open_parens b)) c))"
      by (intro Cons.IH allI impI, drule prefixes, simp add: 3)
    then show ?thesis by (simp add: 3)
  qed
qed simp

lemma paren_body_closed:
  assumes "balanced_parens b"
  shows "paren_body 1 (b @ 0x29 # c) = (b, c)"
proof -
  have "0 \<le> open_parens (take k b)" if "k \<le> length b" for k
    using that assms by (cases "k = length b") (auto simp: balanced_parens_def list_all_iff)
  then have "\<forall>k \<le> length b. - int 1 < open_parens (take k b)" by force
  from paren_body_append [OF this, of "0x29 # c"] assms show ?thesis
    by (simp add: balanced_parens_def)
qed

lemma segments_substituted:
  assumes "list_all plain_char a" and "balanced_parens b"
  shows "set (shell_command_segments b) \<subseteq> set (segments_from (a @ 0x24 # 0x28 # b @ 0x29 # c) False False cur out)"
  using assms(1)
proof (induction a arbitrary: cur out)
  case Nil
  then show ?case
    using paren_body_closed [OF assms(2), of c]
      segments_out [of c False False cur "out @ segments_from b False False [] []"]
    by (auto simp: shell_command_segments_def)
next
  case (Cons x a)
  then show ?case by (auto simp: plain_char_def)
qed

section \<open>Interpreters found\<close>

lemma set_interpreters:
  "set (interpreters_in_command c) = {i. \<exists>s \<in> set (shell_command_segments c). segment_interpreter s = Some i}"
proof -
  have "set (foldl (\<lambda>found segment. case segment_interpreter segment of
              Some name \<Rightarrow> if name \<in> set found then found else found @ [name]
            | None \<Rightarrow> found) found segs) =
      set found \<union> {i. \<exists>s \<in> set segs. segment_interpreter s = Some i}" for found segs
    by (induction segs arbitrary: found) (auto split: option.splits)
  then show ?thesis by (simp add: interpreters_in_command_def)
qed

lemma bypass_denied_iff:
  assumes "allowed_executables n \<noteq> []"
  shows "interpreter_bypass_denied (Some n) (Some (ShellCommand c)) = None \<longleftrightarrow>
     (\<forall>s \<in> set (shell_command_segments c). \<forall>i. segment_interpreter s = Some i \<longrightarrow> interpreter_allowed n i)"
  using assms set_interpreters [of c]
  by (auto simp: interpreter_bypass_denied_def find_None_iff)

lemma bypass_denied_mono:
  assumes "interpreter_bypass_denied (Some n) (Some (ShellCommand b)) \<noteq> None"
    and "set (shell_command_segments b) \<subseteq> set (shell_command_segments c)"
  shows "interpreter_bypass_denied (Some n) (Some (ShellCommand c)) \<noteq> None"
proof -
  have "allowed_executables n \<noteq> []" using assms(1) by (auto simp: interpreter_bypass_denied_def)
  with assms show ?thesis by (auto simp: bypass_denied_iff)
qed

lemma bypass_denied_heads:
  "interpreter_bypass_denied (Some n) (Some (ShellCommand c)) = None \<longleftrightarrow>
   allowed_executables n = [] \<or>
   list_all (\<lambda>s. case Option.bind (command_head (split_whitespace s)) interpreter_name of
       None \<Rightarrow> True | Some i \<Rightarrow> interpreter_allowed n i) (shell_command_segments c)"
proof (cases "allowed_executables n = []")
  case True
  then show ?thesis by (simp add: interpreter_bypass_denied_def)
next
  case False
  then show ?thesis
    by (auto simp: bypass_denied_iff list_all_iff segment_interpreter_def effective_head split: option.splits)
qed

section \<open>Nesting\<close>

text \<open>How deep the recursive calls of \<^verbatim>\<open>shell_command_segments\<close> nest below a call on a command.\<close>

function nest_depth :: "byte list \<Rightarrow> bool \<Rightarrow> nat" where
  "nest_depth [] in_single = 0"
| "nest_depth (c # s) in_single =
     (if in_single then nest_depth s (c \<noteq> 0x27)
      else if c = 0x27 then nest_depth s True
      else if c = 0x60
      then max (Suc (nest_depth (fst (backtick_body s)) False)) (nest_depth (snd (backtick_body s)) False)
      else if c = 0x24 \<and> s \<noteq> [] \<and> hd s = 0x28
      then max (Suc (nest_depth (fst (paren_body 1 (tl s))) False)) (nest_depth (snd (paren_body 1 (tl s))) False)
      else nest_depth s False)"
  by pat_completeness auto
termination
  by (relation "measure (\<lambda>(s, _). length s)")
    (auto simp: less_Suc_eq_le backtick_body_length paren_body_tl_length)

lemma nest_depth_le: "nest_depth s q \<le> length s"
proof (induction s q rule: nest_depth.induct)
  case (2 c s q)
  then show ?case
    using backtick_body_length [of s] paren_body_tl_length [of 1 s] by (auto intro: le_SucI order_trans)
qed simp

lemma paren_body_open: "0x29 \<notin> set s \<Longrightarrow> 0 < d \<Longrightarrow> paren_body d s = (s, [])"
  by (induction d s rule: paren_body.induct) auto

lemma nest_depth_open: "nest_depth (concat (replicate n [0x24, 0x28])) False = n"
proof (induction n)
  case (Suc n)
  have "paren_body 1 (concat (replicate n [0x24, 0x28])) = (concat (replicate n [0x24, 0x28]), [])"
    by (rule paren_body_open) (auto simp: set_replicate_conv_if split: if_splits)
  with Suc show ?case by simp
qed simp

section \<open>Properties\<close>

text \<open>C37: the loop that resolves the command of a segment ends on every token list, with the result of
  the structural recursion: assignments are skipped, then wrappers with their arguments, until a
  token is neither.\<close>

theorem command_head_terminates: "command_head_loop tokens 0 = Some (command_head tokens)"
  using command_head_loop_drop [of tokens 0] by simp

text \<open>A command of an agent with an executable allow-list passes the interpreter gate exactly when
  every segment whose command is a known interpreter names an allowed one.\<close>

theorem interpreter_gate:
  "interpreter_bypass_denied (Some n) (Some (ShellCommand c)) = None \<longleftrightarrow>
   allowed_executables n = [] \<or>
   list_all (\<lambda>s. case Option.bind (command_head (split_whitespace s)) interpreter_name of
       None \<Rightarrow> True | Some i \<Rightarrow> interpreter_allowed n i) (shell_command_segments c)"
  by (rule bypass_denied_heads)

text \<open>C38: a denied command whose parentheses are balanced, those in quotes included, stays denied behind
  any text without quotes, back quotes and dollar signs and a separator, and inside a command
  substitution behind such a text.\<close>

theorem interpreter_cannot_hide:
  assumes "interpreter_bypass_denied (Some n) (Some (ShellCommand b)) \<noteq> None"
    and "list_all plain_char a" and "separator c"
    and "balanced_parens b"
  shows "interpreter_bypass_denied (Some n) (Some (ShellCommand (a @ c # b))) \<noteq> None \<and>
         interpreter_bypass_denied (Some n) (Some (ShellCommand (a @ 0x24 # 0x28 # b @ 0x29 # d))) \<noteq> None"
proof
  have "set (shell_command_segments b) \<subseteq> set (shell_command_segments (a @ c # b))"
    unfolding shell_command_segments_def segments_separated [OF assms(2,3)] by simp
  then show "interpreter_bypass_denied (Some n) (Some (ShellCommand (a @ c # b))) \<noteq> None"
    using assms(1) bypass_denied_mono by blast
  have "set (shell_command_segments b) \<subseteq> set (shell_command_segments (a @ 0x24 # 0x28 # b @ 0x29 # d))"
    using segments_substituted [OF assms(2,4)] unfolding shell_command_segments_def by blast
  then show "interpreter_bypass_denied (Some n) (Some (ShellCommand (a @ 0x24 # 0x28 # b @ 0x29 # d))) \<noteq> None"
    using assms(1) bypass_denied_mono by blast
qed

text \<open>The recursion into command substitutions nests as deep as the command has openings, bounded
  only by its length.\<close>

theorem substitution_depth:
  "nest_depth (concat (replicate k [0x24, 0x28])) False = k \<and> nest_depth s q \<le> length s"
  by (simp add: nest_depth_open nest_depth_le)

section \<open>Instances\<close>

definition shell_node :: AgentNodePolicy where
  "shell_node =
     \<lparr>node_id = byte_string ''a'', privilege_tier = 1, max_sequence_quota = 0, node_peer_uids = [],
      allowed_intents = [], allowed_executables = [byte_string ''/usr/bin/git''], denied_write_paths = [],
      denied_unlink_paths = [], denied_dns_domains = [], node_invariants = []\<rparr>"

lemma sample_segments:
  "shell_command_segments (byte_string ''sudo -n bash'') = [byte_string ''sudo -n bash'']"
  "shell_command_segments (byte_string ''sudo bash'') = [byte_string ''sudo bash'']"
  "shell_command_segments (byte_string ''sudo -u root bash'') = [byte_string ''sudo -u root bash'']"
  by code_simp+

lemma sample_tokens:
  "split_whitespace (byte_string ''sudo -n bash'') = map byte_string [''sudo'', ''-n'', ''bash'']"
  "split_whitespace (byte_string ''sudo bash'') = map byte_string [''sudo'', ''bash'']"
  "split_whitespace (byte_string ''sudo -u root bash'') = map byte_string [''sudo'', ''-u'', ''root'', ''bash'']"
  by code_simp+

lemma sample_heads:
  "command_head (map byte_string [''sudo'', ''-n'', ''bash'']) = Some (byte_string ''bash'')"
  "command_head (map byte_string [''sudo'', ''bash'']) = Some (byte_string ''bash'')"
  "command_head (map byte_string [''sudo'', ''-u'', ''root'', ''bash'']) = Some (byte_string ''root'')"
  by code_simp+

lemma sample_names:
  "interpreter_name (byte_string ''bash'') = Some (byte_string ''bash'')"
  "interpreter_name (byte_string ''root'') = None"
  "\<not> interpreter_allowed shell_node (byte_string ''bash'')"
  "allowed_executables shell_node \<noteq> []"
  by code_simp+

lemma bash_denied:
  "interpreter_bypass_denied (Some shell_node) (Some (ShellCommand (byte_string ''sudo -n bash''))) \<noteq> None"
  unfolding bypass_denied_heads sample_segments by (simp add: sample_tokens sample_heads sample_names del: list.map)

theorem interpreter_cannot_hide_witness:
  "interpreter_bypass_denied (Some shell_node)
     (Some (ShellCommand (byte_string ''git log'' @ 0x3B # byte_string ''sudo -n bash''))) \<noteq> None \<and>
   interpreter_bypass_denied (Some shell_node)
     (Some (ShellCommand (byte_string ''git log'' @ 0x24 # 0x28 # byte_string ''sudo -n bash'' @ 0x29 # []))) \<noteq> None"
  by (rule interpreter_cannot_hide [OF bash_denied]) code_simp+

text \<open>The argument of a wrapper's option is taken for the command: the interpreter in
  \<^verbatim>\<open>sudo -u root bash\<close> passes the gate of an agent that may only run \<^verbatim>\<open>git\<close>, though without the
  option it is denied.\<close>

theorem wrapper_option_hides_interpreter:
  "interpreter_bypass_denied (Some shell_node) (Some (ShellCommand (byte_string ''sudo -u root bash''))) = None \<and>
   interpreter_bypass_denied (Some shell_node) (Some (ShellCommand (byte_string ''sudo bash''))) \<noteq> None"
  unfolding bypass_denied_heads sample_segments by (simp add: sample_tokens sample_heads sample_names del: list.map)

text \<open>Without the balance it may not: the scan for the end of a substitution takes a quoted parenthesis for
  that end, and what follows it is read as if it were quoted. The command is denied on its own and
  passes inside the substitution.\<close>

definition quoted_paren_command :: "byte list" where
  "quoted_paren_command = byte_string ''echo '' @ [0x22, 0x29, 0x22] @ byte_string '' ; bash -c x''"

lemma quoted_segments:
  "shell_command_segments quoted_paren_command =
     [byte_string ''echo '' @ [0x22, 0x29, 0x22, 0x20], byte_string '' bash -c x'']"
  "shell_command_segments (byte_string ''git log '' @ [0x24, 0x28] @ quoted_paren_command @ [0x29]) =
     [byte_string ''echo '' @ [0x22], byte_string ''git log '' @ [0x22] @ byte_string '' ; bash -c x)'']"
  by code_simp+

lemma quoted_heads:
  "command_head (split_whitespace (byte_string '' bash -c x'')) = Some (byte_string ''bash'')"
  "command_head (split_whitespace (byte_string ''echo '' @ [0x22])) = Some (byte_string ''echo'')"
  "command_head (split_whitespace (byte_string ''git log '' @ [0x22] @ byte_string '' ; bash -c x)'')) =
     Some (byte_string ''git'')"
  "interpreter_name (byte_string ''echo'') = None" "interpreter_name (byte_string ''git'') = None"
  by code_simp+

theorem quoted_paren_hides_interpreter:
  "interpreter_bypass_denied (Some shell_node) (Some (ShellCommand quoted_paren_command)) \<noteq> None \<and>
   interpreter_bypass_denied (Some shell_node)
     (Some (ShellCommand (byte_string ''git log '' @ [0x24, 0x28] @ quoted_paren_command @ [0x29]))) = None"
  unfolding bypass_denied_heads quoted_segments
  by (simp add: quoted_heads sample_names del: append.simps)

end
