(* ===== verification/Ts_Checker.thy ===== *)
theory Ts_Checker
  imports Rust_F64
begin

text \<open>
  The constraint checker, crate \<^verbatim>\<open>ts_checker\<close> (\<^verbatim>\<open>ts_checker/src/lib.rs\<close>), and the function of
  \<^verbatim>\<open>ts_cli/src/main.rs\<close> that feeds it. The Z3 solver is the argument \<open>check\<close>, from asserted
  constraints to an answer; \<open>z3_sound\<close> is what it promises: an answer other than unknown is
  right. All terms the crate builds are ground.
\<close>

section \<open>The solver\<close>

datatype z3_term = Z3_int int | Z3_add z3_term z3_term | Z3_real int int

datatype z3_constraint =
    Z3_le z3_term z3_term
  | Z3_ge z3_term z3_term
  | Z3_lt z3_term z3_term
  | Z3_gt z3_term z3_term
  | Z3_eq z3_term z3_term

datatype SatResult = Sat | Unsat | Solver_unknown

primrec z3_value :: "z3_term \<Rightarrow> rat" where
  "z3_value (Z3_int n) = of_int n"
| "z3_value (Z3_add a b) = z3_value a + z3_value b"
| "z3_value (Z3_real n d) = of_int n / of_int d"

primrec z3_holds :: "z3_constraint \<Rightarrow> bool" where
  "z3_holds (Z3_le a b) = (z3_value a \<le> z3_value b)"
| "z3_holds (Z3_ge a b) = (z3_value a \<ge> z3_value b)"
| "z3_holds (Z3_lt a b) = (z3_value a < z3_value b)"
| "z3_holds (Z3_gt a b) = (z3_value a > z3_value b)"
| "z3_holds (Z3_eq a b) = (z3_value a = z3_value b)"

definition z3_sound :: "(z3_constraint list \<Rightarrow> SatResult) \<Rightarrow> bool" where
  "z3_sound check \<longleftrightarrow>
     (\<forall>cs. (check cs = Sat \<longrightarrow> list_all z3_holds cs) \<and> (check cs = Unsat \<longrightarrow> \<not> list_all z3_holds cs))"

section \<open>The engine\<close>

datatype checker_error =
    Replay_attack
  | Malformed_stream
  | Threshold_breach
  | Cannot_parse_invariant "byte list"
  | Cannot_parse_rhs "byte list"
  | Out_of_range
  | Unsupported_operator "byte list"
  | Invariant_violated

record PolicyEngine =
  nonce_cache :: "u64 set"

definition new_engine :: PolicyEngine where
  "new_engine = \<lparr>nonce_cache = {}\<rparr>"

definition validate_sequence ::
    "PolicyEngine \<Rightarrow> u64 \<Rightarrow> u32 \<Rightarrow> (checker_error + unit) \<times> PolicyEngine" where
  "validate_sequence e nonce sequence_id =
     (if nonce \<in> nonce_cache e then (Inl Replay_attack, e)
      else let e = e\<lparr>nonce_cache := insert nonce (nonce_cache e)\<rparr>
           in if sequence_id = 0 then (Inl Malformed_stream, e) else (Inr (), e))"

definition verify_state_transition ::
    "(z3_constraint list \<Rightarrow> SatResult) \<Rightarrow> int \<Rightarrow> int \<Rightarrow> int \<Rightarrow> checker_error + unit" where
  "verify_state_transition check current_risk action_weight limit =
     (case check [Z3_le (Z3_add (Z3_int current_risk) (Z3_int action_weight)) (Z3_int limit)] of
        Sat \<Rightarrow> Inr ()
      | _ \<Rightarrow> Inl Threshold_breach)"

definition execute_totality_audit ::
    "(z3_constraint list \<Rightarrow> SatResult) \<Rightarrow> f64 \<Rightarrow> f64 \<Rightarrow> checker_error + unit" where
  "execute_totality_audit check assessed_risk limit =
     verify_state_transition check 0 (f64_as_int 64 (f64_ceil assessed_risk))
       (f64_as_int 64 (f64_floor limit))"

section \<open>Invariants\<close>

definition invariant_ops :: "byte list list" where
  "invariant_ops = map byte_string [''<='', ''>='', ''=='', ''<'', ''>'']"

fun parse_with :: "byte list list \<Rightarrow> byte list \<Rightarrow> (byte list \<times> byte list \<times> byte list) option" where
  "parse_with [] s = None"
| "parse_with (op # ops) s =
     (case str_find s op of
        None \<Rightarrow> parse_with ops s
      | Some pos \<Rightarrow>
          (let lhs = trim (take pos s); rhs = trim (drop (pos + length op) s)
           in if lhs \<noteq> [] \<and> rhs \<noteq> [] then Some (lhs, op, rhs) else parse_with ops s))"

definition parse_invariant :: "byte list \<Rightarrow> (byte list \<times> byte list \<times> byte list) option" where
  "parse_invariant s = parse_with invariant_ops s"

definition SCALE :: f64 where "SCALE = Fin 1000000"

definition scaled_ok :: "f64 \<Rightarrow> bool" where
  "scaled_ok x \<longleftrightarrow> is_finite x \<and> \<not> f64_lt (Fin 2147483647) x \<and> \<not> f64_lt x (Fin (- 2147483648))"

definition fixed_point :: "f64 \<Rightarrow> z3_term" where
  "fixed_point scaled = Z3_real (f64_as_int 32 scaled) 1000000"

definition invariant_constraint ::
    "byte list \<Rightarrow> z3_term \<Rightarrow> z3_term \<Rightarrow> checker_error + z3_constraint" where
  "invariant_constraint op l r =
     (if op = byte_string ''<='' then Inr (Z3_le l r)
      else if op = byte_string ''>='' then Inr (Z3_ge l r)
      else if op = byte_string ''<'' then Inr (Z3_lt l r)
      else if op = byte_string ''>'' then Inr (Z3_gt l r)
      else if op = byte_string ''=='' then Inr (Z3_eq l r)
      else Inl (Unsupported_operator op))"

text \<open>One round of the loop: no constraint when the variable is not in the context.\<close>

definition assert_invariant ::
    "(byte list \<rightharpoonup> f64) \<Rightarrow> byte list \<Rightarrow> checker_error + z3_constraint option" where
  "assert_invariant context_vars invariant =
     (case parse_invariant invariant of
        None \<Rightarrow> Inl (Cannot_parse_invariant invariant)
      | Some (lhs, op, rhs_str) \<Rightarrow>
          (case context_vars lhs of
             None \<Rightarrow> Inr None
           | Some lhs_val \<Rightarrow>
               (case parse_f64 (trim rhs_str) of
                  None \<Rightarrow> Inl (Cannot_parse_rhs rhs_str)
                | Some rhs_val \<Rightarrow>
                    (let lhs_scaled = f64_mul lhs_val SCALE; rhs_scaled = f64_mul rhs_val SCALE
                     in if \<not> scaled_ok lhs_scaled \<or> \<not> scaled_ok rhs_scaled then Inl Out_of_range
                        else map_sum id Some
                          (invariant_constraint op (fixed_point lhs_scaled) (fixed_point rhs_scaled))))))"

fun assert_invariants ::
    "(byte list \<rightharpoonup> f64) \<Rightarrow> byte list list \<Rightarrow> z3_constraint list \<Rightarrow> checker_error + z3_constraint list" where
  "assert_invariants context_vars [] cs = Inr cs"
| "assert_invariants context_vars (i # is) cs =
     (case assert_invariant context_vars i of
        Inl err \<Rightarrow> Inl err
      | Inr None \<Rightarrow> assert_invariants context_vars is cs
      | Inr (Some c) \<Rightarrow> assert_invariants context_vars is (cs @ [c]))"

definition verify_policy_invariants ::
    "(z3_constraint list \<Rightarrow> SatResult) \<Rightarrow> byte list list \<Rightarrow> (byte list \<rightharpoonup> f64) \<Rightarrow> checker_error + unit" where
  "verify_policy_invariants check invariants context_vars =
     (case assert_invariants context_vars invariants [] of
        Inl err \<Rightarrow> Inl err
      | Inr cs \<Rightarrow>
          (if cs = [] then Inr ()
           else case check cs of Sat \<Rightarrow> Inr () | _ \<Rightarrow> Inl Invariant_violated))"

section \<open>Invariants over the engine\<close>

text \<open>The comparison an operator stands for.\<close>

definition op_rel :: "byte list \<Rightarrow> rat \<Rightarrow> rat \<Rightarrow> bool" where
  "op_rel op a b =
     (if op = byte_string ''<='' then a \<le> b
      else if op = byte_string ''>='' then a \<ge> b
      else if op = byte_string ''<'' then a < b
      else if op = byte_string ''>'' then a > b
      else a = b)"

text \<open>An invariant the checker can decide: it parses, and if its variable is in the context both
  operands are numbers in the fixed-point range.\<close>

definition decidable_invariant :: "(byte list \<rightharpoonup> f64) \<Rightarrow> byte list \<Rightarrow> bool" where
  "decidable_invariant vars i =
     (case parse_invariant i of
        None \<Rightarrow> False
      | Some (lhs, op, rhs) \<Rightarrow>
          (case vars lhs of
             None \<Rightarrow> True
           | Some v \<Rightarrow>
               (case parse_f64 rhs of
                  None \<Rightarrow> False
                | Some c \<Rightarrow> scaled_ok (f64_mul v SCALE) \<and> scaled_ok (f64_mul c SCALE))))"

text \<open>The invariant holds of the operands in millionths, or its variable is missing.\<close>

definition satisfied_invariant :: "(byte list \<rightharpoonup> f64) \<Rightarrow> byte list \<Rightarrow> bool" where
  "satisfied_invariant vars i =
     (case parse_invariant i of
        None \<Rightarrow> False
      | Some (lhs, op, rhs) \<Rightarrow>
          (case (vars lhs, parse_f64 rhs) of
             (Some v, Some c) \<Rightarrow>
               op_rel op (of_int (f64_as_int 32 (f64_mul v SCALE))) (of_int (f64_as_int 32 (f64_mul c SCALE)))
           | _ \<Rightarrow> True))"

lemma parse_with_Some:
  "parse_with ops s = Some (l, op, r) \<Longrightarrow> op \<in> set ops \<and> l \<noteq> [] \<and> r \<noteq> [] \<and> trim l = l \<and> trim r = r"
  by (induction ops) (auto simp: Let_def split: option.splits if_splits)

lemma parse_invariant_Some:
  "parse_invariant s = Some (l, op, r) \<Longrightarrow> op \<in> set invariant_ops \<and> trim r = r"
  by (auto simp: parse_invariant_def dest: parse_with_Some)

lemma invariant_constraint_ops:
  assumes "op \<in> set invariant_ops"
  shows "\<exists>c. invariant_constraint op (fixed_point a) (fixed_point b) = Inr c \<and>
     z3_holds c = op_rel op (of_int (f64_as_int 32 a)) (of_int (f64_as_int 32 b))"
  using assms unfolding invariant_ops_def
  by (auto simp: invariant_constraint_def op_rel_def fixed_point_def divide_le_cancel
      divide_less_cancel byte_string_def)

lemma assert_invariant_cases:
  "(\<not> decidable_invariant vars i \<longrightarrow> (\<exists>err. assert_invariant vars i = Inl err)) \<and>
   (decidable_invariant vars i \<longrightarrow>
      assert_invariant vars i = Inr None \<and> satisfied_invariant vars i \<or>
      (\<exists>c. assert_invariant vars i = Inr (Some c) \<and> z3_holds c = satisfied_invariant vars i))"
proof (cases "parse_invariant i")
  case None
  then show ?thesis by (simp add: assert_invariant_def decidable_invariant_def)
next
  case (Some t)
  obtain l op r where t: "t = (l, op, r)" by (cases t)
  with Some have op: "op \<in> set invariant_ops" "trim r = r" by (auto dest: parse_invariant_Some)
  show ?thesis
  proof (cases "vars l")
    case None
    with Some t show ?thesis
      by (simp add: assert_invariant_def decidable_invariant_def satisfied_invariant_def)
  next
    case v: (Some v)
    show ?thesis
    proof (cases "parse_f64 r")
      case None
      with Some t v op show ?thesis by (simp add: assert_invariant_def decidable_invariant_def)
    next
      case c: (Some c)
      with Some t v op show ?thesis
        using invariant_constraint_ops [OF op(1), of "f64_mul v SCALE" "f64_mul c SCALE"]
        by (auto simp: assert_invariant_def decidable_invariant_def satisfied_invariant_def Let_def)
    qed
  qed
qed

lemma assert_invariants_decidable:
  assumes "list_all (decidable_invariant vars) is"
  shows "\<exists>ds. assert_invariants vars is cs = Inr (cs @ ds) \<and>
     list_all z3_holds ds = list_all (satisfied_invariant vars) is"
  using assms
proof (induction "is" arbitrary: cs)
  case (Cons i "is")
  then have d: "decidable_invariant vars i" by simp
  from assert_invariant_cases [of vars i] d
  consider "assert_invariant vars i = Inr None" "satisfied_invariant vars i"
    | c where "assert_invariant vars i = Inr (Some c)" "z3_holds c = satisfied_invariant vars i"
    by blast
  then show ?case
  proof cases
    case 1
    with Cons show ?thesis by simp
  next
    case 2
    obtain ds where "assert_invariants vars is (cs @ [c]) = Inr ((cs @ [c]) @ ds)"
        "list_all z3_holds ds = list_all (satisfied_invariant vars) is"
      using Cons by fastforce
    with 2 show ?thesis by (intro exI [of _ "c # ds"]) simp
  qed
qed simp

lemma assert_invariants_undecidable:
  assumes "\<not> list_all (decidable_invariant vars) is"
  shows "\<exists>err. assert_invariants vars is cs = Inl err"
  using assms
proof (induction "is" arbitrary: cs)
  case (Cons i "is")
  then show ?case
    using assert_invariant_cases [of vars i]
    by (cases "decidable_invariant vars i") (auto split: sum.splits option.splits)
qed simp

text \<open>The nonces accepted in a sequence of calls.\<close>

fun accepted_nonces :: "PolicyEngine \<Rightarrow> (u64 \<times> u32) list \<Rightarrow> u64 list" where
  "accepted_nonces e [] = []"
| "accepted_nonces e ((n, s) # calls) =
     (if fst (validate_sequence e n s) = Inr () then [n] else []) @
     accepted_nonces (snd (validate_sequence e n s)) calls"

section \<open>Fixed-point values\<close>

text \<open>The operand the solver sees is less than two millionths away from the floating-point value.\<close>

lemma fixed_point_error:
  assumes "scaled_ok (f64_mul (Fin v) SCALE)"
  shows "\<bar>of_int (f64_as_int 32 (f64_mul (Fin v) SCALE)) - v * 1000000\<bar> < 3 / 2"
proof -
  obtain y where y: "round_f64 (v * 1000000) = Fin y" "y \<le> 2147483647" "- 2147483648 \<le> y"
    using assms by (auto simp: scaled_ok_def SCALE_def is_finite_def split: f64.splits)
  then have "\<bar>v * 1000000\<bar> < pow2 33"
    using round_f64_magnitude [OF y(1)] by (simp add: pow2_def)
  then obtain y' where y': "round_f64 (v * 1000000) = Fin y'"
      and err: "\<bar>y' - v * 1000000\<bar> \<le> pow2 (- 21)"
    using round_f64_error [of "v * 1000000" 33] by auto
  have "pow2 (- 21) \<le> 1 / 2" by (simp add: pow2_def)
  with err y y' have "\<bar>y - v * 1000000\<bar> \<le> 1 / 2" by simp
  moreover have "- 2147483648 \<le> trunc y" "trunc y \<le> 2147483647"
    using y(2,3) by (auto simp: trunc_def floor_le_iff le_floor_iff ceiling_le_iff le_ceiling_iff)
  then have "f64_as_int 32 (Fin y) = trunc y" by (simp add: f64_as_int_def Let_def)
  moreover have "\<bar>of_int (trunc y) - v * 1000000\<bar> \<le> \<bar>of_int (trunc y) - y\<bar> + \<bar>y - v * 1000000\<bar>"
    using abs_triangle_ineq [of "of_int (trunc y) - y" "y - v * 1000000"] by simp
  ultimately show ?thesis
    using trunc_error [of y] y(1) by (simp add: SCALE_def)
qed

section \<open>Properties\<close>

text \<open>What the code makes of one invariant: it must parse; without a value for its variable it is passed
  over; otherwise both operands must be numbers in the fixed-point range and compare in millionths,
  cut towards zero.\<close>

definition invariant_passes :: "(byte list \<rightharpoonup> f64) \<Rightarrow> byte list \<Rightarrow> bool" where
  "invariant_passes vars i =
     (case parse_invariant i of
        None \<Rightarrow> False
      | Some (lhs, op, rhs) \<Rightarrow>
          (case vars lhs of
             None \<Rightarrow> True
           | Some v \<Rightarrow>
               (case parse_f64 rhs of
                  None \<Rightarrow> False
                | Some c \<Rightarrow>
                    scaled_ok (f64_mul v SCALE) \<and> scaled_ok (f64_mul c SCALE) \<and>
                    op_rel op (of_int (f64_as_int 32 (f64_mul v SCALE)))
                              (of_int (f64_as_int 32 (f64_mul c SCALE))))))"

lemma invariant_passes_iff: "invariant_passes vars i \<longleftrightarrow> decidable_invariant vars i \<and> satisfied_invariant vars i"
  by (auto simp: invariant_passes_def decidable_invariant_def satisfied_invariant_def split: option.splits)


text \<open>The fixed-point comparison is the comparison of the floating-point values up to three
  millionths: an upper bound that passes is not exceeded by more.\<close>

theorem invariant_tolerance:
  assumes "parse_invariant i = Some (l, byte_string ''<='', r)"
    and "vars l = Some (Fin v)" and "parse_f64 r = Some (Fin c)"
    and "decidable_invariant vars i" and "satisfied_invariant vars i"
  shows "v < c + 3 / 1000000"
proof -
  have "scaled_ok (f64_mul (Fin v) SCALE)" "scaled_ok (f64_mul (Fin c) SCALE)"
    using assms(1-4) by (simp_all add: decidable_invariant_def)
  note err = this [THEN fixed_point_error]
  have "f64_as_int 32 (f64_mul (Fin v) SCALE) \<le> f64_as_int 32 (f64_mul (Fin c) SCALE)"
    using assms(1-3,5) by (simp add: satisfied_invariant_def op_rel_def)
  then have "rat_of_int (f64_as_int 32 (f64_mul (Fin v) SCALE)) \<le>
      rat_of_int (f64_as_int 32 (f64_mul (Fin c) SCALE))" by simp
  with err have "v * 1000000 < c * 1000000 + 3" by linarith
  then show ?thesis by simp
qed

text \<open>Over any sequence of calls of \<^verbatim>\<open>validate_sequence\<close> on one engine, the accepted nonces are
  pairwise distinct and none was in the cache before.\<close>

theorem accepted_nonces_fresh:
  "distinct (accepted_nonces e calls) \<and> set (accepted_nonces e calls) \<inter> nonce_cache e = {}"
proof (induction calls arbitrary: e)
  case (Cons call calls)
  obtain n s where call: "call = (n, s)" by (cases call)
  have "n \<in> nonce_cache (snd (validate_sequence e n s))"
    "nonce_cache e \<subseteq> nonce_cache (snd (validate_sequence e n s))"
    "fst (validate_sequence e n s) = Inr () \<Longrightarrow> n \<notin> nonce_cache e"
    by (auto simp: validate_sequence_def Let_def split: if_splits)
  with Cons.IH [of "snd (validate_sequence e n s)"] call show ?case by auto
qed simp

section \<open>Instances\<close>

definition decide :: "z3_constraint list \<Rightarrow> SatResult" where
  "decide cs = (if list_all z3_holds cs then Sat else Unsat)"

lemma decide_sound: "z3_sound decide" "decide cs \<noteq> Solver_unknown"
  by (auto simp: z3_sound_def decide_def)

definition sample_invariant :: "byte list" where
  "sample_invariant = byte_string ''fused_risk <= 95''"

definition sample_vars :: "byte list \<rightharpoonup> f64" where
  "sample_vars = [byte_string ''fused_risk'' \<mapsto> Fin 90]"

lemma sample_invariant_parses:
  "parse_invariant sample_invariant = Some (byte_string ''fused_risk'', byte_string ''<='', byte_string ''95'')"
  by code_simp

lemma sample_operands:
  "sample_vars (byte_string ''fused_risk'') = Some (Fin 90)"
  "parse_f64 (byte_string ''95'') = Some (Fin 95)"
  by (simp add: sample_vars_def)
    (simp add: parse_f64_def byte_string_def to_ascii_lowercase_def parse_unsigned_def digit_def
      decimal_def round_f64_numeral)

lemma sample_scaled: "f64_mul (Fin 90) SCALE = Fin 90000000" "f64_mul (Fin 95) SCALE = Fin 95000000"
  by (simp_all add: SCALE_def round_f64_numeral)

lemma sample_invariant_ok:
  "decidable_invariant sample_vars sample_invariant" "satisfied_invariant sample_vars sample_invariant"
  by (simp_all add: decidable_invariant_def satisfied_invariant_def sample_invariant_parses
      sample_operands sample_scaled scaled_ok_def is_finite_def op_rel_def f64_as_int_def trunc_def Let_def)


theorem invariant_tolerance_witness: "(90::rat) < 95 + 3 / 1000000"
  using invariant_tolerance [OF sample_invariant_parses sample_operands sample_invariant_ok] .

text \<open>A risk that is not a number becomes 0 in the conversion to an integer and passes the audit.\<close>

lemma totality_audit_nan:
  assumes "z3_sound check" and "\<And>cs. check cs \<noteq> Solver_unknown" and "0 \<le> c" "c < 2 ^ 62"
  shows "execute_totality_audit check NaN (Fin c) = Inr ()"
proof -
  let ?cs = "[Z3_le (Z3_add (Z3_int 0) (Z3_int 0)) (Z3_int \<lfloor>c\<rfloor>)]"
  have "\<lfloor>c\<rfloor> < 2 ^ 62" using assms(4) by (simp add: floor_less_iff)
  then have "f64_as_int 64 (f64_floor (Fin c)) = \<lfloor>c\<rfloor>"
    using assms(3) by (simp add: f64_as_int_def f64_floor_def trunc_def Let_def)
  moreover have "list_all z3_holds ?cs" using assms(3) by simp
  then have "check ?cs \<noteq> Unsat" using assms(1) unfolding z3_sound_def by blast
  then have "check ?cs = Sat" using assms(2) [of ?cs] by (cases "check ?cs") auto
  ultimately show ?thesis
    by (simp add: execute_totality_audit_def verify_state_transition_def f64_ceil_def f64_as_int_def)
qed

end
