(* ===== verification/Risk_Assessment.thy ===== *)
theory Risk_Assessment
  imports Policy_Types Ts_Checker
begin

text \<open>
  Step 12 and 13 of the request handler: the semantic classification and the risk assessment of
  \<^verbatim>\<open>ts_cli/src/governance.rs\<close>, and the penalties, the invariant check and the policy decision of
  \<^verbatim>\<open>ts_cli/src/main.rs\<close>. The remote classifier is an argument, the reply it gives, if any.
\<close>

section \<open>Numbers\<close>

definition f64_sub :: "f64 \<Rightarrow> f64 \<Rightarrow> f64" where
  "f64_sub x y = f64_add x (f64_neg y)"

definition clamp_score :: "f64 \<Rightarrow> f64" where
  "clamp_score value = (if \<not> is_finite value then Fin 100 else f64_clamp (Fin 0) (Fin 100) value)"

section \<open>Semantic classification\<close>

datatype IntentClass =
    Boot
  | ReadOnly
  | FileWriteIntent
  | NetworkAccess
  | ProcessExecution
  | PrivilegeChange
  | SourceModification
  | UnknownIntent

record SemanticIntent =
  intent_class :: IntentClass
  confidence :: f64
  intent_risk :: f64
  signals :: "byte list list"

definition contains_any :: "byte list \<Rightarrow> string list \<Rightarrow> bool" where
  "contains_any text needles = list_ex (\<lambda>needle. str_contains text (byte_string needle)) needles"

definition append_field :: "byte list \<Rightarrow> byte list option \<Rightarrow> byte list" where
  "append_field target value = (case value of None \<Rightarrow> target | Some v \<Rightarrow> target @ [0x20] @ v)"

definition classification_text :: "ClientProposal \<Rightarrow> byte list" where
  "classification_text proposal =
     (let text = append_field [] (intent_name proposal);
          text = append_field text (prompt proposal);
          text = append_field text (plan proposal);
          text = append_field text (source_code proposal);
          text = foldl (\<lambda>t capability. append_field t (Some capability)) text (requested_capabilities proposal)
      in to_ascii_lowercase text)"

definition keyword_class :: "byte list \<Rightarrow> IntentClass \<times> f64 \<times> byte list list" where
  "keyword_class text =
     (if contains_any text [''sudo'', ''setuid'', ''chmod +s'', ''capset'', ''privilege'']
      then (PrivilegeChange, Fin 90, [byte_string ''privilege_transition''])
      else if contains_any text [''exec'', ''spawn'', ''shell'', ''bash'', ''subprocess'', ''command'']
      then (ProcessExecution, Fin 80, [byte_string ''process_execution''])
      else if contains_any text [''delete'', ''overwrite'', ''write file'', ''rm -'', ''unlink'']
      then (FileWriteIntent, Fin 70, [byte_string ''filesystem_mutation''])
      else if contains_any text [''connect'', ''socket'', ''http'', ''https'', ''network'', ''exfil'']
      then (NetworkAccess, Fin 65, [byte_string ''network_access''])
      else if contains_any text [''patch'', ''source'', ''compile'', ''cargo'', ''python'']
      then (SourceModification, Fin 55, [byte_string ''source_or_build_action''])
      else if contains_any text [''read'', ''inspect'', ''summarize'', ''list'']
      then (ReadOnly, Fin 20, [byte_string ''read_only''])
      else (UnknownIntent, Fin 35, []))"

definition heuristic_classify :: "ClientProposal \<Rightarrow> SemanticIntent" where
  "heuristic_classify proposal =
     (let text = classification_text proposal;
          (cls, score, sigs) = keyword_class text;
          has_source = (case source_code proposal of None \<Rightarrow> False | Some s \<Rightarrow> trim s \<noteq> []);
          score = (if has_source then f64_max score (Fin 55) else score);
          sigs = (if has_source \<and> byte_string ''source_present'' \<notin> set sigs
                  then sigs @ [byte_string ''source_present''] else sigs)
      in \<lparr>intent_class = cls,
          confidence = (if trim text = [] then round_f64 (1 / 10) else round_f64 (65 / 100)),
          intent_risk = clamp_score score, signals = sigs\<rparr>)"

text \<open>A reply of the remote classifier: its class name, confidence and risk score.\<close>

record RootAiResponse =
  reply_class :: "byte list"
  reply_confidence :: f64
  reply_risk :: f64

definition to_intent_class :: "byte list \<Rightarrow> IntentClass" where
  "to_intent_class name =
     (if name \<in> {byte_string ''benign'', byte_string ''read_only''} then ReadOnly
      else if name \<in> {byte_string ''semantic_manipulation'', byte_string ''source_modification''} then SourceModification
      else if name \<in> {byte_string ''privilege_escalation'', byte_string ''privilege_change''} then PrivilegeChange
      else if name \<in> {byte_string ''data_exfiltration'', byte_string ''network_access''} then NetworkAccess
      else if name \<in> {byte_string ''system_compromise'', byte_string ''process_execution''} then ProcessExecution
      else if name = byte_string ''file_write'' then FileWriteIntent
      else UnknownIntent)"

definition trust_rootai_response :: "RootAiResponse \<Rightarrow> byte list \<Rightarrow> SemanticIntent option" where
  "trust_rootai_response resp signal =
     (if f64_lt (reply_confidence resp) (round_f64 (7 / 10)) then None
      else Some \<lparr>intent_class = to_intent_class (reply_class resp), confidence = reply_confidence resp,
                 intent_risk = f64_clamp (Fin 0) (Fin 100) (reply_risk resp), signals = [signal]\<rparr>)"

text \<open>The combined service: the local socket, then the remote endpoint, then the heuristic. An
  argument is \<^const>\<open>None\<close> when the service is not configured or the request failed.\<close>

definition combined_classify ::
    "RootAiResponse option \<Rightarrow> RootAiResponse option \<Rightarrow> ClientProposal \<Rightarrow> SemanticIntent" where
  "combined_classify socket_reply remote_reply proposal =
     (case Option.bind socket_reply (\<lambda>r. trust_rootai_response r (byte_string ''rootai_classified'')) of
        Some intent \<Rightarrow> intent
      | None \<Rightarrow>
          (case Option.bind remote_reply (\<lambda>r. trust_rootai_response r (byte_string ''rootai_remote_classified'')) of
             Some intent \<Rightarrow> intent
           | None \<Rightarrow> heuristic_classify proposal))"

section \<open>Risk assessment\<close>

record CapabilityProfile =
  cap_uid :: u32
  cap_gid :: u32
  is_root :: bool
  has_process_identity :: bool
  cap_namespace_observed :: bool
  cap_namespace_pid_inode :: "u64 option"
  cap_namespace_net_inode :: "u64 option"
  cap_requested :: "byte list list"

definition profile_from_observation :: "ObservationRecord \<Rightarrow> byte list list \<Rightarrow> CapabilityProfile" where
  "profile_from_observation observation requested =
     \<lparr>cap_uid = obs_uid observation, cap_gid = obs_gid observation,
      is_root = (obs_uid observation = 0),
      has_process_identity = (obs_executable_path observation \<noteq> None),
      cap_namespace_observed = namespace_observed observation,
      cap_namespace_pid_inode = namespace_pid_inode observation,
      cap_namespace_net_inode = namespace_net_inode observation,
      cap_requested = requested\<rparr>"

text \<open>A conditional \<^verbatim>\<open>risk += weight; reasons.push(reason)\<close>.\<close>

definition add_risk :: "bool \<Rightarrow> rat \<Rightarrow> string \<Rightarrow> f64 \<times> byte list list \<Rightarrow> f64 \<times> byte list list" where
  "add_risk cond weight reason acc =
     (if cond then (f64_add (fst acc) (Fin weight), snd acc @ [byte_string reason]) else acc)"

definition observed_signals ::
    "ObservationRecord \<Rightarrow> CapabilityProfile \<Rightarrow> f64 \<times> byte list list" where
  "observed_signals observation profile =
     add_risk (\<not> cap_namespace_observed profile) 10 ''missing_namespace_observation''
       (add_risk (\<not> has_process_identity profile) 20 ''missing_executable_identity''
         (add_risk (is_root profile) 25 ''root_uid''
           (add_risk (\<not> socket_peer_verified observation) 40 ''socket_peer_unverified'' (Fin 0, []))))"

definition capability_signals :: "byte list \<Rightarrow> f64 \<times> byte list list \<Rightarrow> f64 \<times> byte list list" where
  "capability_signals capability acc =
     (let capability = to_ascii_lowercase capability
      in add_risk (contains_any capability [''exec'', ''process'', ''shell'']) 18 ''requested_process_capability''
           (add_risk (contains_any capability [''write'', ''filesystem'', ''file'']) 12 ''requested_filesystem_capability''
             (add_risk (contains_any capability [''network'', ''connect'', ''socket'']) 15 ''requested_network_capability'' acc)))"

definition assess ::
    "ObservationRecord \<Rightarrow> SemanticIntent \<Rightarrow> CapabilityProfile \<Rightarrow> f64 option \<Rightarrow> RiskAssessment" where
  "assess observation intent profile declared =
     (let (observed, reasons) = observed_signals observation profile;
          (topology, reasons) = fold capability_signals (cap_requested profile) (Fin 0, reasons);
          observed = clamp_score observed;
          topology = clamp_score topology;
          semantic = clamp_score (intent_risk intent);
          declared = map_option clamp_score declared;
          weighted = f64_add (f64_add (f64_mul semantic (round_f64 (55 / 100)))
                                      (f64_mul observed (round_f64 (30 / 100))))
                             (f64_mul topology (round_f64 (15 / 100)));
          fused = f64_max (f64_max weighted semantic) observed;
          (fused, reasons) =
            (case declared of
               Some d \<Rightarrow>
                 (if f64_lt fused d then (d, reasons @ [byte_string ''client_declared_risk_raised_score''])
                  else (fused, reasons @ [byte_string ''client_declared_risk_not_authoritative'']))
             | None \<Rightarrow> (fused, reasons @ [byte_string ''client_declared_risk_absent'']));
          fused = clamp_score fused
      in \<lparr>observed_risk = observed, semantic_risk = semantic, topology_risk = topology,
          declared_risk = declared, fused_risk = fused,
          trust_score = clamp_score (f64_sub (Fin 100) fused), risk_reasons = reasons\<rparr>)"

section \<open>Penalties\<close>

text \<open>The kernel telemetry of the peer: whether each event was denied.\<close>

definition observed_risk_penalty :: "bool list \<Rightarrow> f64" where
  "observed_risk_penalty events =
     foldl (\<lambda>acc denied. if denied then f64_add acc (Fin 10) else f64_add acc (Fin 1)) (Fin 0) events"

definition ADAPTIVE_PENALTY_PER_OFFENSE :: f64 where "ADAPTIVE_PENALTY_PER_OFFENSE = Fin 8"
definition ADAPTIVE_PENALTY_CAP :: f64 where "ADAPTIVE_PENALTY_CAP = Fin 40"

definition adaptive_risk_penalty :: "u32 \<Rightarrow> f64" where
  "adaptive_risk_penalty offenses =
     f64_min (f64_mul (Fin (of_nat (unat offenses))) ADAPTIVE_PENALTY_PER_OFFENSE) ADAPTIVE_PENALTY_CAP"

definition current_agent_offenses :: "(byte list \<rightharpoonup> u32) \<Rightarrow> byte list \<Rightarrow> u32" where
  "current_agent_offenses counts agent_key = (case counts agent_key of None \<Rightarrow> 0 | Some n \<Rightarrow> n)"

definition record_agent_offense :: "(byte list \<rightharpoonup> u32) \<Rightarrow> byte list \<Rightarrow> (byte list \<rightharpoonup> u32)" where
  "record_agent_offense counts agent_key =
     (let count = current_agent_offenses counts agent_key
      in counts(agent_key \<mapsto> (if count = - 1 then count else count + 1)))"

definition raise_risk :: "f64 \<Rightarrow> byte list \<Rightarrow> RiskAssessment \<Rightarrow> RiskAssessment" where
  "raise_risk penalty reason a =
     (let observed = f64_min (f64_add (observed_risk a) penalty) (Fin 99);
          fused = f64_min (f64_max (fused_risk a) observed) (Fin 99)
      in a\<lparr>observed_risk := observed, fused_risk := fused,
           trust_score := f64_clamp (Fin 0) (Fin 100) (f64_sub (Fin 100) fused),
           risk_reasons := risk_reasons a @ [reason]\<rparr>)"

definition apply_telemetry_penalty :: "bool list \<Rightarrow> RiskAssessment \<Rightarrow> RiskAssessment" where
  "apply_telemetry_penalty events a =
     (if events = [] then a
      else let penalty = observed_risk_penalty events
           in if f64_lt (Fin 0) penalty then raise_risk penalty (byte_string ''kernel_telemetry_penalty'') a else a)"

definition apply_adaptive_penalty :: "u32 \<Rightarrow> RiskAssessment \<Rightarrow> RiskAssessment" where
  "apply_adaptive_penalty offenses a =
     (let penalty = adaptive_risk_penalty offenses
      in if f64_le penalty (Fin 0) then a
         else raise_risk penalty 
                (byte_string ''adaptive_reputation_penalty:offenses='' @ decimal_string (unat offenses)) a)"

section \<open>Policy decision\<close>

datatype PolicyVerdict = Allow | Constrain | Deny

record ConstraintSet =
  redact_output :: bool
  rate_limit_rps :: "u32 option"
  allowed_network_destinations :: "byte list list"
  output_byte_limit :: "u64 option"

record PolicyDecision =
  verdict :: PolicyVerdict
  reason :: "byte list"
  risk_score :: f64
  decision_trust :: f64
  constraints :: "ConstraintSet option"

definition decision_allow :: "RiskAssessment \<Rightarrow> PolicyDecision" where
  "decision_allow a =
     \<lparr>verdict = Allow, reason = byte_string ''risk_within_policy'', risk_score = fused_risk a,
      decision_trust = trust_score a, constraints = None\<rparr>"

definition decision_deny :: "byte list \<Rightarrow> RiskAssessment \<Rightarrow> PolicyDecision" where
  "decision_deny why a =
     \<lparr>verdict = Deny, reason = why, risk_score = fused_risk a, decision_trust = trust_score a,
      constraints = None\<rparr>"

definition decision_constrain :: "byte list \<Rightarrow> RiskAssessment \<Rightarrow> ConstraintSet \<Rightarrow> PolicyDecision" where
  "decision_constrain why a c =
     \<lparr>verdict = Constrain, reason = why, risk_score = fused_risk a, decision_trust = trust_score a,
      constraints = Some c\<rparr>"

definition policy_decision :: "RiskAssessment \<Rightarrow> PolicyConfig \<Rightarrow> PolicyDecision" where
  "policy_decision a policy =
     (if \<not> is_finite (fused_risk a) \<or> \<not> is_finite (trust_score a)
      then decision_deny (byte_string ''non_finite_risk_signal'') a
      else if f64_lt (upper_safety_boundary policy) (fused_risk a)
      then decision_deny (byte_string ''risk_ceiling_exceeded'') a
      else if f64_lt (trust_score a) (minimum_trust_score policy)
      then decision_deny (byte_string ''trust_floor_breached'') a
      else let constrain_lower = f64_mul (upper_safety_boundary policy) (round_f64 (40 / 100));
               redact_threshold = f64_mul (f64_mul (upper_safety_boundary policy) (Fin (75 / 100))) (round_f64 (85 / 100))
           in if f64_le constrain_lower (fused_risk a)
              then decision_constrain (byte_string ''mid_band_risk_constrained'') a
                     \<lparr>redact_output = f64_le redact_threshold (fused_risk a), rate_limit_rps = Some 5,
                      allowed_network_destinations = [], output_byte_limit = Some 65536\<rparr>
              else decision_allow a)"

section \<open>Policy invariants\<close>

definition or_insert :: "string \<Rightarrow> f64 \<Rightarrow> (byte list \<rightharpoonup> f64) \<Rightarrow> (byte list \<rightharpoonup> f64)" where
  "or_insert name value vars =
     (case vars (byte_string name) of Some v \<Rightarrow> vars | None \<Rightarrow> vars(byte_string name \<mapsto> value))"

definition invariant_vars ::
    "AgentNodePolicy \<Rightarrow> ClientProposal \<Rightarrow> RiskAssessment \<Rightarrow> CapabilityProfile \<Rightarrow> (byte list \<rightharpoonup> f64)" where
  "invariant_vars node proposal a profile =
     (let vars = context_vars proposal;
          vars = or_insert ''observed_risk'' (observed_risk a) vars;
          vars = or_insert ''semantic_risk'' (semantic_risk a) vars;
          vars = or_insert ''topology_risk'' (topology_risk a) vars;
          vars = or_insert ''fused_risk'' (fused_risk a) vars;
          vars = or_insert ''trust_score'' (trust_score a) vars;
          vars = or_insert ''privilege_tier'' (Fin (of_nat (unat (privilege_tier node)))) vars;
          vars = or_insert ''is_root'' (if is_root profile then Fin 1 else Fin 0) vars;
          vars = (case declared_risk a of None \<Rightarrow> vars | Some d \<Rightarrow> or_insert ''declared_risk'' d vars)
      in case action_risk_score proposal of
           None \<Rightarrow> vars
         | Some r \<Rightarrow> or_insert ''action_risk_score'' r vars)"

definition verify_z3_policy_invariants ::
    "(z3_constraint list \<Rightarrow> SatResult) \<Rightarrow> AgentNodePolicy option \<Rightarrow> ClientProposal \<Rightarrow> RiskAssessment \<Rightarrow>
     CapabilityProfile \<Rightarrow> checker_error + unit" where
  "verify_z3_policy_invariants check node proposal a profile =
     (case node of
        None \<Rightarrow> Inr ()
      | Some n \<Rightarrow>
          (if node_invariants n = [] then Inr ()
           else verify_policy_invariants check (node_invariants n) (invariant_vars n proposal a profile)))"

section \<open>Scores\<close>

text \<open>A score is a number from 0 to 100.\<close>

definition scored :: "f64 \<Rightarrow> bool" where
  "scored x = (case x of Fin q \<Rightarrow> 0 \<le> q \<and> q \<le> 100 | _ \<Rightarrow> False)"

lemma scored_clamp_score [simp]: "scored (clamp_score x)"
  by (cases x) (auto simp: clamp_score_def scored_def f64_clamp_def is_finite_def)

lemma clamp_score_scored: "scored x \<Longrightarrow> clamp_score x = x"
  by (auto simp: clamp_score_def scored_def f64_clamp_def is_finite_def split: f64.splits)

lemma clamp_score_ge: "scored x \<Longrightarrow> f64_le x y \<Longrightarrow> f64_le x (clamp_score y)"
  by (cases x; cases y) (auto simp: clamp_score_def scored_def f64_clamp_def is_finite_def)

lemma scored_finite: "scored x \<Longrightarrow> is_finite x" "scored x \<Longrightarrow> x \<noteq> NaN"
  by (auto simp: scored_def is_finite_def split: f64.splits)

lemma f64_max_ge: "x \<noteq> NaN \<Longrightarrow> f64_le x (f64_max x y)" "y \<noteq> NaN \<Longrightarrow> f64_le y (f64_max x y)"
  by (cases x; cases y; auto simp: f64_max_def)+

lemma f64_le_max: "f64_le y x \<Longrightarrow> f64_le y (f64_max x z)"
  by (cases x; cases y; cases z) (auto simp: f64_max_def)

lemma f64_sub_antimono:
  assumes "f64_le x y" and "is_finite x" and "is_finite y"
  shows "f64_le (f64_sub (Fin c) y) (f64_sub (Fin c) x)"
  using assms round_f64_mono
  by (cases x; cases y) (auto simp: f64_sub_def f64_neg_def is_finite_def)

lemma round_f64_not_NaN [simp]: "round_f64 x \<noteq> NaN"
  by (simp add: round_f64_place)

lemma clamp_score_mono:
  assumes "f64_le x y" and "is_finite x" and "is_finite y"
  shows "f64_le (clamp_score x) (clamp_score y)"
  using assms by (cases x; cases y) (auto simp: clamp_score_def f64_clamp_def is_finite_def)

text \<open>Subtracting a score from 100 gives a score, without the clamp.\<close>

lemma f64_sub_scored:
  assumes "scored x"
  shows "scored (f64_sub (Fin 100) x)"
proof -
  obtain q where q: "x = Fin q" "0 \<le> q" "q \<le> 100" using assms by (auto simp: scored_def split: f64.splits)
  have "f64_le (round_f64 0) (round_f64 (100 - q))" "f64_le (round_f64 (100 - q)) (round_f64 100)"
    using q by (simp_all add: round_f64_mono)
  moreover have "round_f64 0 = Fin 0" "round_f64 100 = Fin 100"
    using round_f64_of_int [of 0] round_f64_of_int [of 100] by simp_all
  ultimately show ?thesis
    using q by (cases "round_f64 (100 - q)") (auto simp: scored_def f64_sub_def f64_neg_def)
qed

lemma clamp_scored: "scored x \<Longrightarrow> f64_clamp (Fin 0) (Fin 100) x = x"
  by (auto simp: scored_def f64_clamp_def split: f64.splits)

section \<open>The assessment\<close>

lemma assess_simps:
  "scored (observed_risk (assess obs i p d))"
  "scored (semantic_risk (assess obs i p d))"
  "scored (topology_risk (assess obs i p d))"
  "scored (fused_risk (assess obs i p d))"
  "declared_risk (assess obs i p d) = map_option clamp_score d"
  "trust_score (assess obs i p d) = f64_sub (Fin 100) (fused_risk (assess obs i p d))"
  by (simp_all add: assess_def Let_def case_prod_beta clamp_score_scored f64_sub_scored)

text \<open>The fused risk before the caller's declaration, not yet clamped.\<close>

definition base_risk :: "ObservationRecord \<Rightarrow> SemanticIntent \<Rightarrow> CapabilityProfile \<Rightarrow> f64" where
  "base_risk observation intent profile =
     (let a = assess observation intent profile None
      in f64_max (f64_max (f64_add (f64_add (f64_mul (semantic_risk a) (round_f64 (55 / 100)))
                                            (f64_mul (observed_risk a) (round_f64 (30 / 100))))
                                   (f64_mul (topology_risk a) (round_f64 (15 / 100))))
                          (semantic_risk a))
           (observed_risk a))"

lemma assess_parts:
  "observed_risk (assess obs i p d) = observed_risk (assess obs i p None)"
  "semantic_risk (assess obs i p d) = semantic_risk (assess obs i p None)"
  "topology_risk (assess obs i p d) = topology_risk (assess obs i p None)"
  by (simp_all add: assess_def Let_def case_prod_beta)

lemma assess_fused:
  "fused_risk (assess obs i p d) =
     clamp_score (case d of None \<Rightarrow> base_risk obs i p
                  | Some r \<Rightarrow> if f64_lt (base_risk obs i p) (clamp_score r) then clamp_score r
                             else base_risk obs i p)"
  by (cases d) (simp_all add: assess_def base_risk_def Let_def case_prod_beta)

lemma base_risk_ge:
  "f64_le (semantic_risk (assess obs i p d)) (base_risk obs i p)"
  "f64_le (observed_risk (assess obs i p d)) (base_risk obs i p)"
proof -
  let ?a = "assess obs i p None"
  have n: "semantic_risk ?a \<noteq> NaN" "observed_risk ?a \<noteq> NaN"
    by (simp_all add: assess_simps scored_finite)
  then show "f64_le (observed_risk (assess obs i p d)) (base_risk obs i p)"
    by (simp add: base_risk_def Let_def assess_parts [of obs i p d] f64_max_ge)
  show "f64_le (semantic_risk (assess obs i p d)) (base_risk obs i p)"
    using n by (simp add: base_risk_def Let_def assess_parts [of obs i p d] f64_le_max f64_max_ge)
qed

lemma assess_fused_ge:
  "f64_le (semantic_risk (assess obs i p d)) (fused_risk (assess obs i p d))"
  "f64_le (observed_risk (assess obs i p d)) (fused_risk (assess obs i p d))"
proof -
  have "f64_lt x y \<Longrightarrow> f64_le x y" for x y by (cases x; cases y) auto
  then have "f64_le x (base_risk obs i p) \<Longrightarrow> scored x \<Longrightarrow> f64_le x (fused_risk (assess obs i p d))" for x
    unfolding assess_fused by (intro clamp_score_ge) (auto intro: f64_le_trans split: option.splits)
  then show "f64_le (semantic_risk (assess obs i p d)) (fused_risk (assess obs i p d))"
      "f64_le (observed_risk (assess obs i p d)) (fused_risk (assess obs i p d))"
    using base_risk_ge [of obs i p d] by (simp_all add: assess_simps)
qed

lemma assess_fused_declared:
  "fused_risk (assess obs i p (Some d)) = f64_max (fused_risk (assess obs i p None)) (clamp_score d)"
proof -
  have "f64_le x (base_risk obs i p) \<Longrightarrow> scored x \<Longrightarrow> scored y \<Longrightarrow>
      clamp_score (if f64_lt (base_risk obs i p) y then y else base_risk obs i p) =
      f64_max (clamp_score (base_risk obs i p)) y" for x y
    by (cases x; cases y; cases "base_risk obs i p")
      (auto simp: scored_def clamp_score_def f64_clamp_def f64_max_def is_finite_def)
  then show ?thesis
    using base_risk_ge(1) [of obs i p None] by (simp add: assess_fused assess_simps)
qed

section \<open>Decisions\<close>

text \<open>How much a decision restricts: allowed, rate-limited, also redacted, denied.\<close>

definition severity :: "PolicyDecision \<Rightarrow> nat" where
  "severity d =
     (case verdict d of
        Allow \<Rightarrow> 0
      | Constrain \<Rightarrow> (case constraints d of Some c \<Rightarrow> if redact_output c then 2 else 1 | None \<Rightarrow> 1)
      | Deny \<Rightarrow> 3)"

definition riskier :: "RiskAssessment \<Rightarrow> RiskAssessment \<Rightarrow> bool" where
  "riskier a b \<longleftrightarrow> f64_le (fused_risk a) (fused_risk b) \<and> f64_le (trust_score b) (trust_score a)"

lemma severity_simps [simp]:
  "severity (decision_allow a) = 0"
  "severity (decision_deny w a) = 3"
  "severity (decision_constrain w a c) = (if redact_output c then 2 else 1)"
  by (simp_all add: severity_def decision_allow_def decision_deny_def decision_constrain_def)

lemma severity_le: "severity d \<le> 3"
  by (simp add: severity_def split: PolicyVerdict.splits option.splits)

lemma severity_policy_decision:
  "severity (policy_decision a policy) =
     (if \<not> is_finite (fused_risk a) \<or> \<not> is_finite (trust_score a) \<or>
         f64_lt (upper_safety_boundary policy) (fused_risk a) \<or>
         f64_lt (trust_score a) (minimum_trust_score policy) then 3
      else if f64_le (f64_mul (upper_safety_boundary policy) (round_f64 (40 / 100))) (fused_risk a)
      then if f64_le (f64_mul (f64_mul (upper_safety_boundary policy) (Fin (75 / 100))) (round_f64 (85 / 100)))
                (fused_risk a) then 2 else 1
      else 0)"
  by (simp add: policy_decision_def Let_def)

lemma decision_mono:
  assumes "riskier a b" and "is_finite (fused_risk a)" and "is_finite (trust_score a)"
  shows "severity (policy_decision a policy) \<le> severity (policy_decision b policy)"
proof (cases "severity (policy_decision b policy) = 3")
  case True
  then show ?thesis using severity_le by simp
next
  case False
  have r: "f64_le (fused_risk a) (fused_risk b)" "f64_le (trust_score b) (trust_score a)"
    using assms by (auto simp: riskier_def)
  from False have b: "\<not> f64_lt (upper_safety_boundary policy) (fused_risk b)"
      "\<not> f64_lt (trust_score b) (minimum_trust_score policy)" "is_finite (fused_risk b)"
      "is_finite (trust_score b)"
    by (auto simp: severity_policy_decision split: if_splits)
  have up: "f64_le t (fused_risk a) \<Longrightarrow> f64_le t (fused_risk b)" for t using r f64_le_trans by blast
  have "\<not> f64_lt (upper_safety_boundary policy) (fused_risk a)"
      "\<not> f64_lt (trust_score a) (minimum_trust_score policy)"
    using b r f64_lt_le_trans f64_le_lt_trans by blast+
  with b up assms(2,3) show ?thesis by (simp add: severity_policy_decision)
qed

section \<open>Penalties tighten up to 99\<close>

text \<open>The assessments the pipeline works with: scores, and the trust that complements the risk.\<close>

definition consistent :: "RiskAssessment \<Rightarrow> bool" where
  "consistent a \<longleftrightarrow> scored (observed_risk a) \<and> scored (fused_risk a) \<and>
     trust_score a = f64_sub (Fin 100) (fused_risk a)"

lemma assess_consistent: "consistent (assess obs i p d)"
  by (simp add: consistent_def assess_simps)

lemma consistent_riskier:
  assumes "consistent a" and "consistent b" and "f64_le (fused_risk a) (fused_risk b)"
  shows "riskier a b"
  using assms by (simp add: riskier_def consistent_def f64_sub_antimono scored_finite)

lemma consistent_decision_mono:
  assumes "consistent a" and "consistent b" and "f64_le (fused_risk a) (fused_risk b)"
  shows "severity (policy_decision a policy) \<le> severity (policy_decision b policy)"
  using assms consistent_riskier [OF assms]
  by (intro decision_mono) (simp_all add: consistent_def scored_finite f64_sub_scored)

lemma add_nonneg_scored:
  assumes "scored x" and "f64_le (Fin 0) p"
  shows "f64_le (Fin 0) (f64_add x p)"
proof -
  obtain q where q: "x = Fin q" "0 \<le> q" using assms by (auto simp: scored_def split: f64.splits)
  have "round_f64 0 = Fin 0" using round_f64_of_int [of 0] by simp
  then have "0 \<le> r \<Longrightarrow> f64_le (Fin 0) (round_f64 (q + r))" for r
    using round_f64_mono [of 0 "q + r"] q by simp
  with q assms(2) show ?thesis by (cases p) auto
qed

lemma raise_risk_consistent:
  assumes "consistent a" and "f64_le (Fin 0) penalty"
  shows "consistent (raise_risk penalty why a)"
    and "f64_le (fused_risk (raise_risk penalty why a)) (Fin 99)"
proof -
  have "f64_le (Fin 0) (f64_add (observed_risk a) penalty)"
    using assms by (simp add: consistent_def add_nonneg_scored)
  then have 1: "scored (f64_min (f64_add (observed_risk a) penalty) (Fin 99))"
    by (cases "f64_add (observed_risk a) penalty") (auto simp: f64_min_def scored_def)
  then have 2:
    "scored (f64_min (f64_max (fused_risk a) (f64_min (f64_add (observed_risk a) penalty) (Fin 99))) (Fin 99))"
    using assms by (auto simp: consistent_def f64_min_def f64_max_def scored_def split: f64.splits)
  from 1 2 show "consistent (raise_risk penalty why a)"
    by (simp add: raise_risk_def consistent_def Let_def f64_sub_scored clamp_scored)
  show "f64_le (fused_risk (raise_risk penalty why a)) (Fin 99)"
    using 2
    by (auto simp: raise_risk_def Let_def f64_min_def f64_max_def scored_def split: f64.splits)
qed

lemma raise_risk_tightens:
  assumes "consistent a" and "f64_le (Fin 0) penalty" and "f64_le (fused_risk a) (Fin 99)"
  shows "f64_le (fused_risk a) (fused_risk (raise_risk penalty why a))"
proof -
  let ?o = "f64_min (f64_add (observed_risk a) penalty) (Fin 99)"
  have "fused_risk (raise_risk penalty why a) = f64_min (f64_max (fused_risk a) ?o) (Fin 99)"
    by (simp add: raise_risk_def Let_def)
  moreover have "f64_le x (Fin 99) \<Longrightarrow> f64_le x y \<Longrightarrow> f64_le x (f64_min y (Fin 99))" for x y
    by (cases x; cases y) (auto simp: f64_min_def)
  moreover have "fused_risk a \<noteq> NaN" using assms by (simp add: consistent_def scored_finite)
  ultimately show ?thesis using assms(3) by (simp add: f64_max_ge)
qed

lemma adaptive_penalty_nonneg: "f64_le (Fin 0) (adaptive_risk_penalty n)"
proof -
  have "round_f64 0 = Fin 0" using round_f64_of_int [of 0] by simp
  moreover have "(0::rat) \<le> of_nat (unat n) * 8"
    by (simp only: of_nat_0_le_iff mult_nonneg_nonneg zero_le_numeral)
  ultimately have "f64_le (Fin 0) (round_f64 (of_nat (unat n) * 8))" using round_f64_mono by metis
  then show ?thesis
    by (auto simp: adaptive_risk_penalty_def ADAPTIVE_PENALTY_PER_OFFENSE_def ADAPTIVE_PENALTY_CAP_def f64_min_def)
qed

text \<open>Steps 12: the assessment of a proposal with both penalties.\<close>

definition final_assessment ::
    "ObservationRecord \<Rightarrow> SemanticIntent \<Rightarrow> CapabilityProfile \<Rightarrow> f64 option \<Rightarrow> bool list \<Rightarrow> u32 \<Rightarrow> RiskAssessment" where
  "final_assessment observation intent profile declared events offenses =
     apply_adaptive_penalty offenses
       (apply_telemetry_penalty events (assess observation intent profile declared))"

lemma telemetry_penalty_cases:
  "apply_telemetry_penalty events a = a \<or>
   (\<exists>penalty why. f64_le (Fin 0) penalty \<and> apply_telemetry_penalty events a = raise_risk penalty why a)"
proof -
  have "f64_lt (Fin 0) x \<Longrightarrow> f64_le (Fin 0) x" for x by (cases x) auto
  then show ?thesis by (auto simp: apply_telemetry_penalty_def Let_def)
qed

lemma adaptive_penalty_cases:
  "apply_adaptive_penalty n a = a \<or>
   (\<exists>penalty why. f64_le (Fin 0) penalty \<and> apply_adaptive_penalty n a = raise_risk penalty why a)"
  using adaptive_penalty_nonneg [of n] by (auto simp: apply_adaptive_penalty_def Let_def)

lemma final_assessment_consistent: "consistent (final_assessment obs i p d events n)"
  using adaptive_penalty_cases [of n "apply_telemetry_penalty events (assess obs i p d)"]
    telemetry_penalty_cases [of events "assess obs i p d"]
  by (auto simp: final_assessment_def assess_consistent raise_risk_consistent)

lemma final_assessment_tightens:
  assumes "f64_le (fused_risk (assess obs i p d)) (Fin 99)"
  shows "f64_le (fused_risk (assess obs i p d)) (fused_risk (final_assessment obs i p d events n))"
proof -
  let ?a = "assess obs i p d" and ?t = "apply_telemetry_penalty events (assess obs i p d)"
  have n: "fused_risk ?a \<noteq> NaN" by (simp add: assess_simps scored_finite)
  have t: "consistent ?t" "f64_le (fused_risk ?t) (Fin 99)" "f64_le (fused_risk ?a) (fused_risk ?t)"
    using telemetry_penalty_cases [of events ?a] assms n
    by (auto simp: assess_consistent raise_risk_consistent raise_risk_tightens f64_le_refl)
  have "fused_risk ?t \<noteq> NaN" using t(1) by (simp add: consistent_def scored_finite)
  then have "f64_le (fused_risk ?t) (fused_risk (apply_adaptive_penalty n ?t))"
    using adaptive_penalty_cases [of n ?t] t by (auto simp: raise_risk_tightens f64_le_refl)
  with t(3) show ?thesis unfolding final_assessment_def by (rule f64_le_trans)
qed

lemma adaptive_penalty_pos:
  assumes "0 < offenses"
  shows "\<not> f64_le (adaptive_risk_penalty offenses) (Fin 0)"
proof -
  obtain k where k: "k = unat offenses" by simp
  have "k < 2 ^ LENGTH(32)" unfolding k by (rule unsigned_less)
  then have "\<bar>int k * 8\<bar> < 2 ^ 53" by simp
  then have "round_f64 (of_nat k * 8) = Fin (of_nat k * 8)" using round_f64_of_int [of "int k * 8"] by simp
  moreover have "0 < k" using assms by (simp add: k unat_gt_0)
  ultimately have "\<not> f64_le (f64_min (round_f64 (of_nat k * 8)) (Fin 40)) (Fin 0)"
    by (simp add: f64_min_def)
  then show ?thesis
    by (simp add: adaptive_risk_penalty_def ADAPTIVE_PENALTY_PER_OFFENSE_def ADAPTIVE_PENALTY_CAP_def k)
qed

section \<open>Variables of the invariants\<close>

definition caller_defines :: "ClientProposal \<Rightarrow> byte list \<Rightarrow> bool" where
  "caller_defines proposal i =
     (case parse_invariant i of None \<Rightarrow> True | Some (lhs, op, rhs) \<Rightarrow> context_vars proposal lhs \<noteq> None)"

lemma or_insert_keeps: "vars k = Some v \<Longrightarrow> or_insert name x vars k = Some v"
  by (auto simp: or_insert_def split: option.splits)

lemma invariant_vars_caller:
  "context_vars proposal k = Some v \<Longrightarrow> invariant_vars node proposal a profile k = Some v"
  by (simp add: invariant_vars_def Let_def or_insert_keeps split: option.splits)

lemma assert_invariant_cong:
  assumes "case parse_invariant i of None \<Rightarrow> True | Some (lhs, op, rhs) \<Rightarrow> vars lhs = vars' lhs"
  shows "assert_invariant vars i = assert_invariant vars' i"
  using assms by (auto simp: assert_invariant_def split: option.splits)

lemma assert_invariants_cong:
  assumes "list_all (\<lambda>i. case parse_invariant i of None \<Rightarrow> True | Some (lhs, op, rhs) \<Rightarrow> vars lhs = vars' lhs) is"
  shows "assert_invariants vars is cs = assert_invariants vars' is cs"
  using assms
proof (induction "is" arbitrary: cs)
  case (Cons i "is")
  then have "assert_invariant vars i = assert_invariant vars' i" by (intro assert_invariant_cong) simp
  with Cons show ?case by (simp split: sum.splits option.splits)
qed simp

section \<open>Properties\<close>

text \<open>C35: every assessment is made of scores from 0 to 100, the declared risk among them if there is
  one; the fused risk is at least the observed and
  the semantic risk, and what the caller declares, a value that is not a number included, never
  makes the decision less restrictive than no declaration.\<close>

theorem declared_risk_never_relaxes:
  "list_all scored [observed_risk (assess obs i p d), semantic_risk (assess obs i p d),
     topology_risk (assess obs i p d), fused_risk (assess obs i p d), trust_score (assess obs i p d)] \<and>
   pred_option scored (declared_risk (assess obs i p d)) \<and>
   f64_le (observed_risk (assess obs i p d)) (fused_risk (assess obs i p d)) \<and>
   f64_le (semantic_risk (assess obs i p d)) (fused_risk (assess obs i p d)) \<and>
   severity (policy_decision (assess obs i p None) policy) \<le> severity (policy_decision (assess obs i p d) policy)"
proof -
  have "f64_le (fused_risk (assess obs i p None)) (fused_risk (assess obs i p d))"
    by (cases d) (simp_all add: assess_fused_declared assess_simps scored_finite f64_max_ge f64_le_refl)
  then show ?thesis
    by (simp add: assess_simps f64_sub_scored assess_fused_ge consistent_decision_mono assess_consistent
        option.pred_map option.pred_True o_def)
qed

text \<open>The decision is monotone: of two assessments, the one with the higher risk and the lower
  trust is restricted at least as much (allowed, constrained, redacted, denied).\<close>

theorem decision_monotone:
  assumes "riskier a b" and "is_finite (fused_risk a)" and "is_finite (trust_score a)"
  shows "severity (policy_decision a policy) \<le> severity (policy_decision b policy)"
  using assms by (rule decision_mono)

text \<open>Up to a risk of 99 the penalties for kernel denials and for earlier offences only tighten
  the decision.\<close>

theorem penalties_tighten:
  assumes "f64_le (fused_risk (assess obs i p d)) (Fin 99)"
  shows "severity (policy_decision (assess obs i p d) policy) \<le>
         severity (policy_decision (final_assessment obs i p d events n) policy)"
  using final_assessment_tightens [OF assms]
  by (intro consistent_decision_mono assess_consistent final_assessment_consistent)

text \<open>A risk of 100 is cut to 99 when a penalty is applied: with a ceiling from 99 up to 100 a
  denied proposal of an agent without offences is not denied after an offence.\<close>

theorem penalty_cap_relaxes:
  assumes "consistent a" and "fused_risk a = Fin 100" and "0 < offenses"
    and "upper_safety_boundary policy = Fin c" and "99 \<le> c" and "c < 100"
    and "minimum_trust_score policy = Fin t" and "t \<le> 1"
  shows "verdict (policy_decision (apply_adaptive_penalty 0 a) policy) = Deny \<and>
         verdict (policy_decision (apply_adaptive_penalty offenses a) policy) \<noteq> Deny"
proof -
  have r: "round_f64 (of_int k) = Fin (of_int k)" if "\<bar>k\<bar> < 2 ^ 53" for k using that by (rule round_f64_of_int)
  have 0: "apply_adaptive_penalty 0 a = a"
    using r [of 0]
    by (simp add: apply_adaptive_penalty_def adaptive_risk_penalty_def ADAPTIVE_PENALTY_PER_OFFENSE_def
        ADAPTIVE_PENALTY_CAP_def f64_min_def)
  obtain b where b: "apply_adaptive_penalty offenses a = b" "fused_risk b = Fin 99" "consistent b"
  proof -
    let ?b = "apply_adaptive_penalty offenses a"
    have "f64_le (Fin 0) (f64_add (observed_risk a) (adaptive_risk_penalty offenses))"
      using assms(1) adaptive_penalty_nonneg by (simp add: consistent_def add_nonneg_scored)
    then have "fused_risk ?b = Fin 99"
      using adaptive_penalty_pos [OF assms(3)] assms(2)
      by (cases "f64_add (observed_risk a) (adaptive_risk_penalty offenses)")
        (auto simp: apply_adaptive_penalty_def raise_risk_def Let_def f64_min_def f64_max_def)
    moreover have "consistent ?b"
      using adaptive_penalty_cases [of offenses a] assms(1) by (auto simp: raise_risk_consistent)
    ultimately show ?thesis using that by blast
  qed
  have "trust_score b = Fin 1"
    using b(2,3) r [of 1] by (simp add: consistent_def f64_sub_def f64_neg_def)
  with b assms(4-8) have "severity (policy_decision b policy) \<noteq> 3"
    by (simp add: severity_policy_decision is_finite_def)
  moreover have "severity (policy_decision a policy) = 3"
    using assms(2,4,6) by (simp add: severity_policy_decision)
  ultimately show ?thesis
    by (auto simp: 0 b(1) severity_def split: PolicyVerdict.splits option.splits if_splits)
qed

text \<open>C36: a variable in the caller's own map takes the place of the daemon's measurement: when the
  proposal defines every variable the invariants of the agent mention, the result of the check
  does not depend on the assessment or on the capability profile.\<close>

theorem caller_overrides_assessment:
  assumes "list_all (caller_defines proposal) (node_invariants n)"
  shows "verify_z3_policy_invariants check (Some n) proposal a profile =
         verify_z3_policy_invariants check (Some n) proposal a' profile'"
proof -
  have "list_all (\<lambda>i. case parse_invariant i of None \<Rightarrow> True
      | Some (lhs, op, rhs) \<Rightarrow> invariant_vars n proposal a profile lhs = invariant_vars n proposal a' profile' lhs)
      (node_invariants n)"
    using assms unfolding list_all_iff caller_defines_def
    by (fastforce simp: invariant_vars_caller split: option.splits)
  then show ?thesis
    by (simp add: verify_z3_policy_invariants_def verify_policy_invariants_def assert_invariants_cong)
qed

section \<open>Instances\<close>

definition calm_observation :: ObservationRecord where
  "calm_observation =
     \<lparr>obs_pid = 10, obs_start_time = 1, obs_uid = 1000, obs_gid = 1000,
      obs_executable_path = Some (byte_string ''/opt/agent''), obs_command_line = [],
      namespace_observed = True, namespace_pid_inode = None, namespace_net_inode = None,
      socket_peer_verified = True, observed_at_unix_secs = 0\<rparr>"

definition calm_intent :: SemanticIntent where
  "calm_intent = \<lparr>intent_class = ReadOnly, confidence = Fin 1, intent_risk = Fin 0, signals = []\<rparr>"

definition calm_profile :: CapabilityProfile where
  "calm_profile = profile_from_observation calm_observation []"

lemma calm_assessment: "fused_risk (assess calm_observation calm_intent calm_profile None) = Fin 0"
proof -
  have r0: "round_f64 0 = Fin 0" using round_f64_of_int [of 0] by simp
  let ?a = "assess calm_observation calm_intent calm_profile None"
  have parts: "semantic_risk ?a = Fin 0" "observed_risk ?a = Fin 0" "topology_risk ?a = Fin 0"
    by (simp_all add: assess_def Let_def calm_observation_def calm_intent_def calm_profile_def
        profile_from_observation_def observed_signals_def add_risk_def clamp_score_def is_finite_def f64_clamp_def)
  have m: "f64_mul (Fin 0) (round_f64 x) \<in> {Fin 0, NaN}" for x by (cases "round_f64 x") (auto simp: r0)
  have s: "f64_add u v \<in> {Fin 0, NaN}" if "u \<in> {Fin 0, NaN}" "v \<in> {Fin 0, NaN}" for u v
    using that by (cases u; cases v) (auto simp: r0)
  have "f64_max u (Fin 0) = Fin 0" if "u \<in> {Fin 0, NaN}" for u
    using that by (auto simp: f64_max_def)
  then have "base_risk calm_observation calm_intent calm_profile = Fin 0"
    unfolding base_risk_def Let_def parts using m s by simp
  then show ?thesis by (simp add: assess_fused clamp_score_def is_finite_def f64_clamp_def)
qed

definition plain_assessment :: "rat \<Rightarrow> RiskAssessment" where
  "plain_assessment r =
     \<lparr>observed_risk = Fin 0, semantic_risk = Fin 0, topology_risk = Fin 0, declared_risk = None,
      fused_risk = Fin r, trust_score = f64_sub (Fin 100) (Fin r), risk_reasons = []\<rparr>"

definition plain_policy :: "rat \<Rightarrow> rat \<Rightarrow> PolicyConfig" where
  "plain_policy c t =
     \<lparr>upper_safety_boundary = Fin c, minimum_trust_score = Fin t, agent_nodes = [],
      deny_anonymous_agents = True, allow_anonymous_override = False,
      network_policy = \<lparr>default_deny = True, allowed_ips = [], denied_ips = [], allowed_unix_sockets = [], unix_default_deny = True\<rparr>,
      runtime_policy = \<lparr>deny_root_peers = False, runtime_peer_uids = [], require_brokered_execution = False, require_sandbox_namespace = False\<rparr>,
      fleet_policy_min_version = 0, accept_cross_machine_lineage = False, canary_resources = []\<rparr>"

lemma plain_consistent: "0 \<le> r \<Longrightarrow> r \<le> 100 \<Longrightarrow> consistent (plain_assessment r)"
  by (simp add: consistent_def plain_assessment_def scored_def)

theorem decision_monotone_witness:
  "severity (policy_decision (plain_assessment 20) (plain_policy 75 25)) \<le>
   severity (policy_decision (plain_assessment 60) (plain_policy 75 25))"
proof (rule decision_monotone)
  show "riskier (plain_assessment 20) (plain_assessment 60)"
    by (intro consistent_riskier plain_consistent) (simp_all add: plain_assessment_def)
  show "is_finite (fused_risk (plain_assessment 20))" by (simp add: plain_assessment_def is_finite_def)
  have "scored (Fin 20)" by (simp add: scored_def)
  then show "is_finite (trust_score (plain_assessment 20))"
    by (simp add: plain_assessment_def scored_finite f64_sub_scored)
qed

theorem penalties_tighten_witness:
  "severity (policy_decision (assess calm_observation calm_intent calm_profile None) (plain_policy 75 25)) \<le>
   severity (policy_decision (final_assessment calm_observation calm_intent calm_profile None [True] 3) (plain_policy 75 25))"
  by (rule penalties_tighten) (simp add: calm_assessment)

theorem penalty_cap_relaxes_witness:
  "verdict (policy_decision (apply_adaptive_penalty 0 (plain_assessment 100)) (plain_policy (199 / 2) 0)) = Deny \<and>
   verdict (policy_decision (apply_adaptive_penalty 1 (plain_assessment 100)) (plain_policy (199 / 2) 0)) \<noteq> Deny"
  by (rule penalty_cap_relaxes [where c = "199 / 2" and t = 0])
    (simp_all add: consistent_def scored_def plain_assessment_def plain_policy_def)

definition override_node :: AgentNodePolicy where
  "override_node =
     \<lparr>node_id = byte_string ''a'', privilege_tier = 1, max_sequence_quota = 0, node_peer_uids = [],
      allowed_intents = [], allowed_executables = [], denied_write_paths = [], denied_unlink_paths = [],
      denied_dns_domains = [], node_invariants = [sample_invariant]\<rparr>"

definition override_proposal :: ClientProposal where
  "override_proposal =
     \<lparr>session_privilege_bit = None, action_risk_score = None, sequence_counter = 1, intent_name = None,
      prompt = None, plan = None, source_code = None, requested_capabilities = [], proposed_action = None,
      context_vars = [byte_string ''fused_risk'' \<mapsto> Fin 0]\<rparr>"

theorem caller_overrides_assessment_witness:
  "verify_z3_policy_invariants decide (Some override_node) override_proposal (plain_assessment 99) calm_profile =
   verify_z3_policy_invariants decide (Some override_node) override_proposal (plain_assessment 1) calm_profile"
  by (rule caller_overrides_assessment)
    (simp add: override_node_def override_proposal_def caller_defines_def sample_invariant_parses)

end
