(* ===== verification/Execution_Broker.thy ===== *)
theory Execution_Broker
  imports Risk_Assessment Governed_Scope
begin

text \<open>
  The execution broker of \<^verbatim>\<open>ts_cli/src/governance.rs\<close>: the hard rules on commands, URLs and paths, and
  the decision that combines them with the policy decision. The URL parser is the argument
  \<open>parse_url\<close>: the scheme and the host of a URL that parses.
\<close>

type_synonym url_parser = "byte list \<Rightarrow> (byte list \<times> byte list option) option"

section \<open>Hard rules\<close>

definition DENIED_COMMANDS :: "byte list list" where
  "DENIED_COMMANDS = map byte_string
     [''rm -rf'', ''dd if='', ''mkfs'', ''chmod 777'', ''chmod +s'', ''sudo su'', ''su -'', ''passwd'', ''chsh'', ''visudo'',
      ''curl | sh'', ''wget -O- |'', ''bash -i'', ''nc -e'', ''ncat -e'', ''iptables -F'', ''ufw disable'', ''systemctl stop'']"

definition DENIED_PATH_PREFIXES :: "byte list list" where
  "DENIED_PATH_PREFIXES = map byte_string
     [''/etc/'', ''/proc/'', ''/sys/'', ''/dev/'', ''/boot/'', ''/run/jinnguard/'', ''/var/log/jinnguard/'']"

definition broker_https_host :: "url_parser \<Rightarrow> byte list \<Rightarrow> byte list option" where
  "broker_https_host parse_url url =
     (case parse_url url of
        None \<Rightarrow> None
      | Some (scheme, host) \<Rightarrow>
          (if scheme \<noteq> byte_string ''https'' then None
           else map_option (\<lambda>h. to_ascii_lowercase (trim_end_matches 0x2E h)) host))"

definition broker_host_is_denied :: "byte list \<Rightarrow> bool" where
  "broker_host_is_denied host \<longleftrightarrow>
     host = byte_string ''localhost'' \<or> host = byte_string ''::1'' \<or> host = byte_string ''0.0.0.0'' \<or>
     starts_with host (byte_string ''127.'') \<or> starts_with host (byte_string ''169.254.'')"

definition ends_with :: "byte list \<Rightarrow> byte list \<Rightarrow> bool" where
  "ends_with s t = starts_with (rev s) (rev t)"

definition broker_host_matches_destination :: "byte list \<Rightarrow> byte list \<Rightarrow> bool" where
  "broker_host_matches_destination host destination =
     (let destination = to_ascii_lowercase (trim_end_matches 0x2E (trim destination))
      in if destination = [] then False
         else host = destination \<or> ends_with host (0x2E # destination))"

datatype broker_reason =
    Broker_command_denylist "byte list"
  | Broker_url_scheme "byte list"
  | Broker_url_pattern "byte list"
  | Broker_path_prefix "byte list"
  | Broker_path_traversal
  | Constraint_url_not_allowed "byte list"
  | Constraint_destination_not_allowed "byte list"
  | Constrained "byte list"
  | Policy_cleared
  | Policy_denied "byte list"

definition enforce :: "url_parser \<Rightarrow> ProposedAction \<Rightarrow> broker_reason option" where
  "enforce parse_url action =
     (case action of
        ShellCommand command \<Rightarrow>
          map_option Broker_command_denylist
            (find (\<lambda>denied. str_contains (to_ascii_lowercase command) denied) DENIED_COMMANDS)
      | NetworkRequest meth url \<Rightarrow>
          (case broker_https_host parse_url url of
             None \<Rightarrow> Some (Broker_url_scheme url)
           | Some host \<Rightarrow> if broker_host_is_denied host then Some (Broker_url_pattern host) else None)
      | FileWrite path contents \<Rightarrow>
          (case find (\<lambda>prefix. starts_with path prefix) DENIED_PATH_PREFIXES of
             Some prefix \<Rightarrow> Some (Broker_path_prefix prefix)
           | None \<Rightarrow>
               (if str_contains path (byte_string ''../'') \<or> str_contains path (byte_string ''/./'')
                then Some Broker_path_traversal else None)))"

section \<open>Decision\<close>

text \<open>The fields of a request that the broker reads.\<close>

record ExecutionRequest =
  req_action :: ProposedAction
  req_decision :: PolicyDecision

record ExecutionDecision =
  permitted :: bool
  constrained :: bool
  exec_reason :: broker_reason
  exec_action :: ProposedAction
  exec_policy_decision :: PolicyDecision
  active_constraints :: "ConstraintSet option"

definition default_constraints :: ConstraintSet where
  "default_constraints =
     \<lparr>redact_output = False, rate_limit_rps = None, allowed_network_destinations = [], output_byte_limit = None\<rparr>"

text \<open>The destination filter of a constrained network request.\<close>

definition destination_denial :: "url_parser \<Rightarrow> ConstraintSet \<Rightarrow> ProposedAction \<Rightarrow> broker_reason option" where
  "destination_denial parse_url cs action =
     (case action of
        NetworkRequest meth url \<Rightarrow>
          (if allowed_network_destinations cs = [] then None
           else case broker_https_host parse_url url of
                  None \<Rightarrow> Some (Constraint_url_not_allowed url)
                | Some host \<Rightarrow>
                    (if list_ex (broker_host_matches_destination host) (allowed_network_destinations cs)
                     then None else Some (Constraint_destination_not_allowed url)))
      | _ \<Rightarrow> None)"

definition broker_decide :: "url_parser \<Rightarrow> ExecutionRequest \<Rightarrow> ExecutionDecision" where
  "broker_decide parse_url request =
     (let result = (\<lambda>ok con why cs.
            \<lparr>permitted = ok, constrained = con, exec_reason = why, exec_action = req_action request,
             exec_policy_decision = req_decision request, active_constraints = cs\<rparr>)
      in case enforce parse_url (req_action request) of
           Some why \<Rightarrow> result False False why None
         | None \<Rightarrow>
             (if verdict (req_decision request) = Constrain
              then let cs = (case constraints (req_decision request) of Some c \<Rightarrow> c | None \<Rightarrow> default_constraints)
                   in case destination_denial parse_url cs (req_action request) of
                        Some why \<Rightarrow> result False True why (Some cs)
                      | None \<Rightarrow> result True True (Constrained (reason (req_decision request))) (Some cs)
              else if verdict (req_decision request) = Allow then result True False Policy_cleared None
              else result False False (Policy_denied (reason (req_decision request))) None))"

section \<open>Lower case\<close>

definition upper :: "byte \<Rightarrow> bool" where "upper b \<longleftrightarrow> 0x41 \<le> b \<and> b \<le> 0x5A"

lemma lowercase_not_upper:
  assumes "b \<in> set (to_ascii_lowercase s)"
  shows "\<not> upper b"
proof -
  obtain c where c: "b = (if 0x41 \<le> c \<and> c \<le> 0x5A then c + 32 else c)"
    using assms unfolding to_ascii_lowercase_def set_map by blast
  show ?thesis
  proof (cases "0x41 \<le> c \<and> c \<le> 0x5A")
    case True
    then have "unat (c + 32) = unat c + 32" by (simp add: unat_word_ariths word_le_nat_alt)
    with True c show ?thesis by (simp add: upper_def word_le_nat_alt)
  next
    case False
    with c show ?thesis by (simp add: upper_def)
  qed
qed

lemma lowercase_contains:
  assumes "str_contains (to_ascii_lowercase s) t"
  shows "\<not> list_ex upper t"
  using assms lowercase_not_upper [of _ s] by (auto simp: str_contains_iff list_ex_iff)

lemma enforce_command:
  "enforce pu (ShellCommand c) = Some (Broker_command_denylist d) \<Longrightarrow>
   d \<in> set DENIED_COMMANDS \<and> \<not> list_ex upper d \<and> str_contains (to_ascii_lowercase c) d"
  by (auto simp: enforce_def find_Some_iff dest: lowercase_contains)

section \<open>Properties\<close>

text \<open>The broker permits an action exactly when no hard rule forbids it and the policy decision is an
  allow, or a constrain whose destination filter the action passes; whatever the decision says, a
  forbidden action is not permitted.\<close>

theorem broker_permits:
  "permitted (broker_decide pu r) \<longleftrightarrow>
   enforce pu (req_action r) = None \<and>
   (verdict (req_decision r) = Allow \<or>
    verdict (req_decision r) = Constrain \<and>
    destination_denial pu
      (case constraints (req_decision r) of Some c \<Rightarrow> c | None \<Rightarrow> default_constraints) (req_action r) = None)"
  by (cases "verdict (req_decision r)") (auto simp: broker_decide_def Let_def split: option.splits)

text \<open>The two entries of the command deny-list that have a capital letter never match, since the
  command is put in lower case first: no command is refused for them, and flushing the firewall is
  permitted.\<close>

theorem denylist_entries_dead:
  "enforce pu (ShellCommand c) \<noteq> Some (Broker_command_denylist (byte_string ''iptables -F'')) \<and>
   enforce pu (ShellCommand c) \<noteq> Some (Broker_command_denylist (byte_string ''wget -O- |'')) \<and>
   byte_string ''iptables -F'' \<in> set DENIED_COMMANDS \<and> byte_string ''wget -O- |'' \<in> set DENIED_COMMANDS \<and>
   enforce pu (ShellCommand (byte_string ''iptables -F'')) = None"
proof -
  have "list_ex upper (byte_string ''iptables -F'')" "list_ex upper (byte_string ''wget -O- |'')"
      "byte_string ''iptables -F'' \<in> set DENIED_COMMANDS" "byte_string ''wget -O- |'' \<in> set DENIED_COMMANDS"
    by code_simp+
  moreover have "find (\<lambda>d. str_contains (to_ascii_lowercase (byte_string ''iptables -F'')) d) DENIED_COMMANDS = None"
    by code_simp
  ultimately show ?thesis using enforce_command by (fastforce simp: enforce_def)
qed

text \<open>A doubled slash takes a write past the path rules: \<^verbatim>\<open>//proc/sys/kernel/core_pattern\<close> is neither a
  protected resource nor under a denied prefix, while the same path with one slash is refused.\<close>

theorem doubled_slash_write:
  "enforce pu (FileWrite (byte_string ''//proc/sys/kernel/core_pattern'') contents) = None \<and>
   \<not> protected_resource_reference (byte_string ''//proc/sys/kernel/core_pattern'') \<and>
   enforce pu (FileWrite (byte_string ''/proc/sys/kernel/core_pattern'') contents) =
     Some (Broker_path_prefix (byte_string ''/proc/''))"
proof -
  have "find (\<lambda>p. starts_with (byte_string ''//proc/sys/kernel/core_pattern'') p) DENIED_PATH_PREFIXES = None"
      "\<not> str_contains (byte_string ''//proc/sys/kernel/core_pattern'') (byte_string ''../'')"
      "\<not> str_contains (byte_string ''//proc/sys/kernel/core_pattern'') (byte_string ''/./'')"
      "\<not> protected_resource_reference (byte_string ''//proc/sys/kernel/core_pattern'')"
      "find (\<lambda>p. starts_with (byte_string ''/proc/sys/kernel/core_pattern'') p) DENIED_PATH_PREFIXES =
         Some (byte_string ''/proc/'')"
    by code_simp+
  then show ?thesis by (simp add: enforce_def)
qed

end
