(* ===== verification/Decision_Pipeline.thy ===== *)
theory Decision_Pipeline
  imports Proposal_Gates Shell_Commands Execution_Broker
begin

text \<open>
  The rest of \<^verbatim>\<open>handle_client_connection\<close> in \<^verbatim>\<open>ts_cli/src/main.rs\<close>: the fast paths after the gates, the
  assessment, the invariants, the decision, the interpreter gate, the broker and the answer
  (steps 11.5 to 15), and the loop over the packets of a connection. What the daemon calls
  outside its own code is the record \<open>decision_env\<close>. The audit log, the metrics and the text of a
  brokered result are not part of the model; an executed action is.
\<close>

record decision_env =
  gates :: gate_env
  scope_prefixes :: "byte list list"
  urls :: url_parser
  solver :: "z3_constraint list \<Rightarrow> SatResult"
  socket_scorer :: "ClientProposal \<Rightarrow> RootAiResponse option"
  remote_scorer :: "ClientProposal \<Rightarrow> RootAiResponse option"

record daemon_state =
  gate_part :: gate_state
  offenses :: "byte list \<rightharpoonup> u32"

datatype Response =
    Denied Signal
  | Allowed "ProposedAction option"
  | Constrained_to "ConstraintSet option" "ProposedAction option"

section \<open>Fast paths\<close>

definition observation_is_immune :: "ObservationRecord \<Rightarrow> bool" where
  "observation_is_immune observation = opt_test path_is_immune (obs_executable_path observation)"

definition immunity_reason_for_observation :: "ObservationRecord \<Rightarrow> byte list option" where
  "immunity_reason_for_observation observation =
     (if observation_is_immune observation then Some (byte_string ''system_process_immunity'') else None)"

definition command_identifier_is_immune :: "byte list \<Rightarrow> bool" where
  "command_identifier_is_immune identifier =
     (let token = trim (case split_whitespace identifier of [] \<Rightarrow> identifier | t # _ \<Rightarrow> t)
      in token \<noteq> [] \<and> (path_is_immune token \<or> process_name_is_immune (basename token)))"

fun proposed_action_is_immune :: "ProposedAction option \<Rightarrow> bool" where
  "proposed_action_is_immune (Some (ShellCommand cmd)) = command_identifier_is_immune cmd"
| "proposed_action_is_immune _ = False"

definition mcp_caller_is_immune :: "byte list \<Rightarrow> json \<Rightarrow> bool" where
  "mcp_caller_is_immune mcp_method params = False"

definition fast_path_assessment :: "byte list \<Rightarrow> RiskAssessment" where
  "fast_path_assessment why =
     \<lparr>observed_risk = Fin 0, semantic_risk = Fin 0, topology_risk = Fin 0, declared_risk = Some (Fin 0),
      fused_risk = Fin 0, trust_score = Fin 100, risk_reasons = [why]\<rparr>"

definition system_immunity_assessment :: "byte list \<Rightarrow> RiskAssessment" where
  "system_immunity_assessment why = fast_path_assessment why"

definition outside_scope_assessment :: "byte list \<Rightarrow> RiskAssessment" where
  "outside_scope_assessment path =
     fast_path_assessment (byte_string ''outside_enforcement_scope:'' @ path)"

definition requires_intent_aware_enforcement :: "ClientProposal \<Rightarrow> json \<Rightarrow> f64 \<Rightarrow> bool" where
  "requires_intent_aware_enforcement proposal raw risk_floor \<longleftrightarrow>
     proposed_action proposal \<noteq> None \<or>
     opt_test intent_is_dangerous (intent_name proposal) \<or>
     opt_test (\<lambda>risk. f64_le risk_floor risk) (action_risk_score proposal) \<or>
     json_references_protected_resource raw"

definition force_policy :: "decision_env \<Rightarrow> ClientProposal \<Rightarrow> json \<Rightarrow> bool" where
  "force_policy env proposal raw =
     requires_intent_aware_enforcement proposal raw
       (f64_mul (upper_safety_boundary (current_policy (gates env))) (round_f64 (40 / 100)))"

text \<open>The assessment of a proposal that skips the evaluation.\<close>

definition fast_path :: "decision_env \<Rightarrow> ObservationRecord \<Rightarrow> json \<Rightarrow> ClientProposal \<Rightarrow> RiskAssessment option" where
  "fast_path env observation raw proposal =
     (case immunity_reason_for_observation observation of
        Some why \<Rightarrow> Some (system_immunity_assessment why)
      | None \<Rightarrow>
          (case proposal_enforcement_path proposal raw observation of
             Some path \<Rightarrow>
               (if \<not> path_is_governed (scope_prefixes env) path \<and> \<not> force_policy env proposal raw
                then Some (outside_scope_assessment path) else None)
           | None \<Rightarrow> None))"

section \<open>Evaluation\<close>

definition execute_requested :: "json \<Rightarrow> bool" where
  "execute_requested raw =
     (case Option.bind (json_get raw (byte_string ''execute'')) as_bool of None \<Rightarrow> False | Some b \<Rightarrow> b)"

definition proposal_assessment ::
    "decision_env \<Rightarrow> ObservationRecord \<Rightarrow> bool list \<Rightarrow> ClientProposal \<Rightarrow> u32 \<Rightarrow> RiskAssessment" where
  "proposal_assessment env observation events proposal n =
     final_assessment observation
       (combined_classify (socket_scorer env proposal) (remote_scorer env proposal) proposal)
       (profile_from_observation observation (requested_capabilities proposal))
       (action_risk_score proposal) events n"

definition broker_request :: "ClientProposal \<Rightarrow> PolicyDecision \<Rightarrow> ExecutionRequest" where
  "broker_request proposal d =
     \<lparr>req_action = (case proposed_action proposal of Some action \<Rightarrow> action | None \<Rightarrow> ShellCommand []),
      req_decision = d\<rparr>"

text \<open>Steps 12 to 14 of a proposal that no fast path answers: the answer, and whether an offence is
  recorded.\<close>

definition judge ::
    "decision_env \<Rightarrow> ObservationRecord \<Rightarrow> json \<Rightarrow> AgentNodePolicy option \<Rightarrow> ClientProposal \<Rightarrow> RiskAssessment \<Rightarrow>
     Response \<times> bool" where
  "judge env observation raw node proposal a =
     (let policy = current_policy (gates env);
          profile = profile_from_observation observation (requested_capabilities proposal);
          d = policy_decision a policy;
          execution = broker_decide (urls env) (broker_request proposal d);
          executed = (if require_brokered_execution (runtime_policy policy) \<and> execute_requested raw \<and>
                         proposed_action proposal \<noteq> None
                      then Some (exec_action execution) else None)
      in if verify_z3_policy_invariants (solver env) node proposal a profile \<noteq> Inr ()
         then (Denied DENY_VIOLATION, True)
         else if f64_lt (upper_safety_boundary policy) (fused_risk a)
         then (Denied DENY_RISK_CEILING_EXCEEDED, True)
         else if verdict d \<noteq> Allow \<and> verdict d \<noteq> Constrain then (Denied DENY_VIOLATION, False)
         else if interpreter_bypass_denied node (proposed_action proposal) \<noteq> None
         then (Denied DENY_INTERPRETER_NOT_ALLOWED, False)
         else if \<not> permitted execution then (Denied DENY_VIOLATION, False)
         else if constrained execution \<or> verdict d = Constrain
         then (Constrained_to (constraints d) executed, False)
         else (Allowed executed, False))"

definition matched_node :: "decision_env \<Rightarrow> byte list option \<Rightarrow> AgentNodePolicy option" where
  "matched_node env agent_id = Option.bind agent_id (map_of (agent_nodes (current_policy (gates env))))"

text \<open>Steps 11.5 to 15.\<close>

definition evaluate ::
    "decision_env \<Rightarrow> ObservationRecord \<Rightarrow> bool list \<Rightarrow> json \<Rightarrow> byte list option \<Rightarrow> ClientProposal \<Rightarrow> bool \<Rightarrow>
     daemon_state \<Rightarrow> Response \<times> daemon_state" where
  "evaluate env observation events raw agent_id proposal quota_reserved st =
     (let key = agent_key_of agent_id;
          record_decision = (\<lambda>a st. st\<lparr>gate_part := (gate_part st)\<lparr>lineages :=
            update_lineage_after_decision (lineages (gate_part st)) key observation
              (sequence_counter proposal) a quota_reserved\<rparr>\<rparr>)
      in case fast_path env observation raw proposal of
           Some a \<Rightarrow> (Allowed None, record_decision a st)
         | None \<Rightarrow>
             (let a = proposal_assessment env observation events proposal (current_agent_offenses (offenses st) key);
                  (answer, offended) = judge env observation raw (matched_node env agent_id) proposal a;
                  st = (if offended then st\<lparr>offenses := record_agent_offense (offenses st) key\<rparr> else st)
              in (answer, record_decision a st)))"

section \<open>Connections\<close>

text \<open>One packet: no answer when the stream ends or stalls, otherwise the answer and the state.\<close>

definition handle_packet ::
    "decision_env \<Rightarrow> ObservationRecord \<Rightarrow> bool list \<Rightarrow> byte list \<Rightarrow> daemon_state \<Rightarrow>
     Response option \<times> byte list \<times> daemon_state" where
  "handle_packet env observation events stream st =
     (case receive_envelope (crates (gates env)) stream of
        Inl answer \<Rightarrow> (map_option Denied answer, [], st)
      | Inr (envelope, rest) \<Rightarrow>
          (case authenticate (gates env) observation envelope of
             Inl signal \<Rightarrow> (Some (Denied signal), [], st)
           | Inr (raw, agent_id, proposal) \<Rightarrow>
               (case admit (gates env) observation raw agent_id proposal (gate_part st) of
                  (Inl signal, g) \<Rightarrow> (Some (Denied signal), [], st\<lparr>gate_part := g\<rparr>)
                | (Inr quota_reserved, g) \<Rightarrow>
                    (let (answer, st') = evaluate env observation events raw agent_id proposal quota_reserved
                                           (st\<lparr>gate_part := g\<rparr>)
                     in (Some answer, rest, st')))))"

primrec permits :: "Response \<Rightarrow> bool" where
  "permits (Denied s) = False"
| "permits (Allowed x) = True"
| "permits (Constrained_to c x) = True"

primrec executed :: "Response \<Rightarrow> ProposedAction option" where
  "executed (Denied s) = None"
| "executed (Allowed x) = x"
| "executed (Constrained_to c x) = x"

lemma handle_packet_rest:
  assumes "handle_packet env obs events stream st = (Some answer, rest, st')" and "permits answer"
  shows "length rest < length stream"
  using assms
  by (auto simp: handle_packet_def receive_envelope_Inr split: sum.splits prod.splits option.splits)

text \<open>The loop ends with the first denial, and when there is nothing more to read.\<close>

function handle_packets ::
    "decision_env \<Rightarrow> ObservationRecord \<Rightarrow> bool list \<Rightarrow> byte list \<Rightarrow> daemon_state \<Rightarrow> Response list \<times> daemon_state" where
  "handle_packets env observation events stream st =
     (case handle_packet env observation events stream st of
        (None, rest, st') \<Rightarrow> ([], st')
      | (Some answer, rest, st') \<Rightarrow>
          (if permits answer
           then (answer # fst (handle_packets env observation events rest st'),
                 snd (handle_packets env observation events rest st'))
           else ([answer], st')))"
  by pat_completeness auto
termination
  by (relation "measure (\<lambda>(env, obs, events, stream, st). length stream)")
    (auto dest: handle_packet_rest [OF sym])

declare handle_packets.simps [simp del]

section \<open>What an answer means\<close>

text \<open>The conditions under which the evaluation permits a proposal.\<close>

definition cleared ::
    "decision_env \<Rightarrow> ObservationRecord \<Rightarrow> AgentNodePolicy option \<Rightarrow> ClientProposal \<Rightarrow> RiskAssessment \<Rightarrow> bool" where
  "cleared env observation node proposal a \<longleftrightarrow>
     (let policy = current_policy (gates env)
      in verify_z3_policy_invariants (solver env) node proposal a
           (profile_from_observation observation (requested_capabilities proposal)) = Inr () \<and>
         is_finite (fused_risk a) \<and> is_finite (trust_score a) \<and>
         \<not> f64_lt (upper_safety_boundary policy) (fused_risk a) \<and>
         \<not> f64_lt (trust_score a) (minimum_trust_score policy) \<and>
         interpreter_bypass_denied node (proposed_action proposal) = None \<and>
         enforce (urls env) (case proposed_action proposal of Some action \<Rightarrow> action | None \<Rightarrow> ShellCommand []) = None)"

lemma verdict_deny_iff:
  "verdict (policy_decision a policy) = Deny \<longleftrightarrow>
     \<not> is_finite (fused_risk a) \<or> \<not> is_finite (trust_score a) \<or>
     f64_lt (upper_safety_boundary policy) (fused_risk a) \<or> f64_lt (trust_score a) (minimum_trust_score policy)"
  by (auto simp: policy_decision_def Let_def decision_deny_def decision_allow_def decision_constrain_def)

text \<open>The constraints of the policy set no destinations, so that the filter of the broker is off.\<close>

lemma policy_constraints_no_destinations:
  "constraints (policy_decision a policy) = Some c \<Longrightarrow> destination_denial pu c action = None"
  by (auto simp: policy_decision_def Let_def decision_deny_def decision_allow_def decision_constrain_def
      destination_denial_def split: if_splits ProposedAction.splits)

lemma default_no_destinations: "destination_denial pu default_constraints action = None"
  by (simp add: destination_denial_def default_constraints_def split: ProposedAction.splits)

lemma permitted_policy_decision:
  "permitted (broker_decide pu \<lparr>req_action = action, req_decision = policy_decision a policy\<rparr>) \<longleftrightarrow>
     enforce pu action = None \<and> verdict (policy_decision a policy) \<noteq> Deny"
  by (cases "verdict (policy_decision a policy)")
    (auto simp: broker_decide_def Let_def policy_constraints_no_destinations default_no_destinations
      split: option.splits)

lemma exec_action_decide [simp]: "exec_action (broker_decide pu r) = req_action r"
  by (auto simp: broker_decide_def Let_def split: option.splits)

lemma judge_permits: "permits (fst (judge env obs raw node p a)) \<longleftrightarrow> cleared env obs node p a"
proof -
  let ?policy = "current_policy (gates env)"
  have c: "cleared env obs node p a \<longleftrightarrow>
      verify_z3_policy_invariants (solver env) node p a
        (profile_from_observation obs (requested_capabilities p)) = Inr () \<and>
      verdict (policy_decision a ?policy) \<noteq> Deny \<and> interpreter_bypass_denied node (proposed_action p) = None \<and>
      enforce (urls env) (case proposed_action p of Some action \<Rightarrow> action | None \<Rightarrow> ShellCommand []) = None"
    by (auto simp: cleared_def Let_def verdict_deny_iff)
  have "f64_lt (upper_safety_boundary ?policy) (fused_risk a) \<Longrightarrow> verdict (policy_decision a ?policy) = Deny"
    by (simp add: verdict_deny_iff)
  then show ?thesis unfolding c
    by (cases "verdict (policy_decision a ?policy)")
      (auto simp: judge_def Let_def broker_request_def permitted_policy_decision)
qed

lemma judge_executed:
  assumes "executed (fst (judge env obs raw node p a)) = Some act"
  shows "proposed_action p = Some act \<and> execute_requested raw \<and>
     require_brokered_execution (runtime_policy (current_policy (gates env))) \<and> cleared env obs node p a"
proof -
  have "permits (fst (judge env obs raw node p a))"
    using assms by (cases "fst (judge env obs raw node p a)") auto
  then have "cleared env obs node p a" by (simp add: judge_permits)
  then show ?thesis
    using assms by (auto simp: judge_def Let_def broker_request_def split: if_splits)
qed

lemma evaluate_fst:
  "fst (evaluate env obs events raw agent p b st) =
     (case fast_path env obs raw p of
        Some a \<Rightarrow> Allowed None
      | None \<Rightarrow> fst (judge env obs raw (matched_node env agent) p
                  (proposal_assessment env obs events p (current_agent_offenses (offenses st) (agent_key_of agent)))))"
  by (simp add: evaluate_def Let_def case_prod_beta split: option.splits)

lemma evaluate_offenses:
  "offenses (snd (evaluate env obs events raw agent p b st)) \<in>
     {offenses st, record_agent_offense (offenses st) (agent_key_of agent)}"
  by (simp add: evaluate_def Let_def case_prod_beta split: option.splits)

lemma record_offense_mono:
  "current_agent_offenses c k \<le> current_agent_offenses (record_agent_offense c key) k"
proof (cases "current_agent_offenses c key = - 1")
  case True
  then show ?thesis by (simp add: record_agent_offense_def Let_def current_agent_offenses_def)
next
  case False
  then have "current_agent_offenses c key \<le> current_agent_offenses c key + 1"
    using unatSuc [of "current_agent_offenses c key"]
    by (simp add: add_eq_0_iff word_le_nat_alt add.commute)
  then show ?thesis
    by (cases "k = key") (auto simp: record_agent_offense_def Let_def current_agent_offenses_def)
qed

lemma handle_packet_offenses:
  assumes "handle_packet env obs events stream st = (answer, rest, st')"
  shows "current_agent_offenses (offenses st) k \<le> current_agent_offenses (offenses st') k"
proof -
  have "offenses st' = offenses st \<or> (\<exists>key. offenses st' = record_agent_offense (offenses st) key)"
    using assms evaluate_offenses [of env obs events _ _ _ _ "st\<lparr>gate_part := _\<rparr>"]
    by (auto simp: handle_packet_def Let_def case_prod_beta split: sum.splits prod.splits; fastforce)
  then show ?thesis using record_offense_mono by auto
qed

lemma handle_packet_evaluated:
  assumes "handle_packet env obs events stream st = (Some answer, rest, st')" and "permits answer"
  shows "\<exists>e raw p b g. receive_envelope (crates (gates env)) stream = Inr (e, rest) \<and>
     authenticate (gates env) obs e = Inr (raw, agent_id_of raw, p) \<and>
     admit (gates env) obs raw (agent_id_of raw) p (gate_part st) = (Inr b, g) \<and>
     answer = fst (evaluate env obs events raw (agent_id_of raw) p b (st\<lparr>gate_part := g\<rparr>))"
proof -
  obtain e raw agent p b g where *: "receive_envelope (crates (gates env)) stream = Inr (e, rest)"
      "authenticate (gates env) obs e = Inr (raw, agent, p)"
      "admit (gates env) obs raw agent p (gate_part st) = (Inr b, g)"
      "answer = fst (evaluate env obs events raw agent p b (st\<lparr>gate_part := g\<rparr>))"
    using assms by (auto simp: handle_packet_def Let_def split: sum.splits prod.splits)
  moreover have "agent = agent_id_of raw" using *(2) by (simp add: authenticate_Inr)
  ultimately show ?thesis by blast
qed

section \<open>Properties\<close>

text \<open>C13: an action is executed only for a packet whose signature verifies, whose proposal names it and
  passes every gate, and which the evaluation clears: the invariants hold, risk and trust are
  finite and within the bounds, no interpreter is run that the agent may not run, and no rule of
  the broker forbids it; brokering is switched on and execution was asked for.\<close>

theorem executed_actions_mediated:
  assumes "handle_packet env obs events stream st = (Some answer, rest, st')"
    and "executed answer = Some act"
  shows "\<exists>e raw p. receive_envelope (crates (gates env)) stream = Inr (e, rest) \<and>
     store_verify (crates (gates env)) (agent_secrets (gates env)) (agent_id_of raw) e
       (admission_keys (gates env)) (epoch_secs (gates env)) \<noteq> None \<and>
     proposal_from_value (gates env) raw = Some p \<and> proposed_action p = Some act \<and>
     admissible (gates env) obs raw (agent_id_of raw) p (gate_part st) \<and>
     execute_requested raw \<and> require_brokered_execution (runtime_policy (current_policy (gates env))) \<and>
     \<not> observation_is_immune obs \<and>
     cleared env obs (matched_node env (agent_id_of raw)) p
       (proposal_assessment env obs events p (current_agent_offenses (offenses st) (agent_key_of (agent_id_of raw))))"
proof -
  have "permits answer" using assms(2) by (cases answer) auto
  from handle_packet_evaluated [OF assms(1) this] obtain e raw p b g where
    *: "receive_envelope (crates (gates env)) stream = Inr (e, rest)"
      "authenticate (gates env) obs e = Inr (raw, agent_id_of raw, p)"
      "admit (gates env) obs raw (agent_id_of raw) p (gate_part st) = (Inr b, g)"
      "answer = fst (evaluate env obs events raw (agent_id_of raw) p b (st\<lparr>gate_part := g\<rparr>))"
    by blast
  then have adm: "admissible (gates env) obs raw (agent_id_of raw) p (gate_part st)"
    using admit_spec [of "gates env" obs raw "agent_id_of raw" p "gate_part st"] by auto
  have fast: "fast_path env obs raw p = None"
    using *(4) assms(2) by (auto simp: evaluate_fst split: option.splits)
  then have imm: "\<not> observation_is_immune obs"
    by (auto simp: fast_path_def immunity_reason_for_observation_def split: if_splits)
  have j: "executed (fst (judge env obs raw (matched_node env (agent_id_of raw)) p
      (proposal_assessment env obs events p (current_agent_offenses (offenses st) (agent_key_of (agent_id_of raw))))))
      = Some act"
    using *(4) assms(2) fast by (simp add: evaluate_fst)
  have auth: "store_verify (crates (gates env)) (agent_secrets (gates env)) (agent_id_of raw) e
       (admission_keys (gates env)) (epoch_secs (gates env)) \<noteq> None" "proposal_from_value (gates env) raw = Some p"
    using *(2) unfolding authenticate_Inr by blast+
  show ?thesis using *(1) auth adm imm judge_executed [OF j] by blast
qed

text \<open>After the gates a proposal is permitted exactly when the peer is a base-system process, or its
  path is outside the enforcement scope and nothing in it asks for enforcement, or it is cleared.\<close>

theorem evaluation_permits:
  "permits (fst (evaluate env obs events raw agent p b st)) \<longleftrightarrow>
   observation_is_immune obs \<or>
   (\<exists>path. proposal_enforcement_path p raw obs = Some path \<and> \<not> path_is_governed (scope_prefixes env) path \<and>
      \<not> force_policy env p raw) \<or>
   cleared env obs (matched_node env agent) p
     (proposal_assessment env obs events p (current_agent_offenses (offenses st) (agent_key_of agent)))"
  by (auto simp: evaluate_fst judge_permits fast_path_def immunity_reason_for_observation_def
      split: option.splits if_splits)

text \<open>The loop over the packets of a connection ends on every stream, and a connection is closed
  with the first denial: every answer but the last permits its proposal.\<close>

theorem connection_closes_on_denial:
  "list_all permits (butlast (fst (handle_packets env obs events stream st)))"
proof (induction env obs events stream st rule: handle_packets.induct)
  case (1 env obs events stream st)
  obtain answer rest st' where h: "handle_packet env obs events stream st = (answer, rest, st')"
    by (cases "handle_packet env obs events stream st")
  show ?case
  proof (cases answer)
    case None
    with h show ?thesis by (subst handle_packets.simps) simp
  next
    case (Some r)
    with h 1 show ?thesis by (subst handle_packets.simps) auto
  qed
qed

text \<open>Over a connection the offences counted against an agent never decrease.\<close>

theorem offenses_never_decrease:
  "current_agent_offenses (offenses st) k \<le>
   current_agent_offenses (offenses (snd (handle_packets env obs events stream st))) k"
proof (induction env obs events stream st rule: handle_packets.induct)
  case (1 env obs events stream st)
  obtain answer rest st' where h: "handle_packet env obs events stream st = (answer, rest, st')"
    by (cases "handle_packet env obs events stream st")
  note step = handle_packet_offenses [OF h, of k]
  show ?case
  proof (cases answer)
    case None
    with h step show ?thesis by (subst handle_packets.simps) simp
  next
    case (Some r)
    with h step 1 show ?thesis by (subst handle_packets.simps) (auto intro: order_trans)
  qed
qed

text \<open>A denial because the trust is below its floor is not counted as an offence.\<close>

theorem trust_floor_denial_not_counted:
  assumes "fast_path env obs raw p = None"
    and "verify_z3_policy_invariants (solver env) (matched_node env agent) p a
           (profile_from_observation obs (requested_capabilities p)) = Inr ()"
    and "a = proposal_assessment env obs events p (current_agent_offenses (offenses st) (agent_key_of agent))"
    and "\<not> f64_lt (upper_safety_boundary (current_policy (gates env))) (fused_risk a)"
    and "f64_lt (trust_score a) (minimum_trust_score (current_policy (gates env)))"
  shows "fst (evaluate env obs events raw agent p b st) = Denied DENY_VIOLATION \<and>
         offenses (snd (evaluate env obs events raw agent p b st)) = offenses st"
proof -
  have "verdict (policy_decision a (current_policy (gates env))) = Deny"
    using assms(5) by (simp add: verdict_deny_iff)
  then have "judge env obs raw (matched_node env agent) p a = (Denied DENY_VIOLATION, False)"
    using assms(2,4) by (simp add: judge_def Let_def)
  with assms(1,3) show ?thesis by (simp add: evaluate_def Let_def)
qed

section \<open>Instances\<close>

lemma judge_executes:
  assumes "cleared env obs node p a" and "execute_requested raw" and "proposed_action p = Some act"
    and "require_brokered_execution (runtime_policy (current_policy (gates env)))"
  shows "executed (fst (judge env obs raw node p a)) = Some act"
proof -
  have "permits (fst (judge env obs raw node p a))" using assms(1) by (simp add: judge_permits)
  with assms show ?thesis by (auto simp: judge_def Let_def broker_request_def split: if_splits)
qed

definition write_action :: ProposedAction where
  "write_action = FileWrite (byte_string ''/tmp/x'') []"

definition execute_payload :: json where
  "execute_payload = JObject [(byte_string ''execute'', JBool True)]"

definition broker_policy :: PolicyConfig where
  "broker_policy = (plain_policy 100 0)\<lparr>deny_anonymous_agents := False,
     runtime_policy := (runtime_policy (plain_policy 100 0))\<lparr>require_brokered_execution := True\<rparr>\<rparr>"

definition broker_env :: decision_env where
  "broker_env =
     \<lparr>gates = sample_gate\<lparr>value_from_str := (\<lambda>s. Some execute_payload),
        proposal_from_value := (\<lambda>v. Some (sample_proposal\<lparr>proposed_action := Some write_action\<rparr>)),
        admission_keys := \<lparr>current_key = [0x6B], previous_key = None\<rparr>,
        current_policy := broker_policy\<rparr>,
      scope_prefixes = [], urls = (\<lambda>u. None), solver = decide,
      socket_scorer = (\<lambda>p. None), remote_scorer = (\<lambda>p. None)\<rparr>"

definition fresh_daemon :: daemon_state where
  "fresh_daemon = \<lparr>gate_part = fresh_state, offenses = Map.empty\<rparr>"

definition write_proposal :: ClientProposal where
  "write_proposal = sample_proposal\<lparr>proposed_action := Some write_action\<rparr>"

definition hi_envelope :: SignedEnvelope where
  "hi_envelope = \<lparr>payload = [0x68, 0x69], signature = byte_string ''6b6869''\<rparr>"

lemma sample_packet_received: "\<exists>rest. receive_envelope sample_crates sample_packet = Inr (hi_envelope, rest)"
  using sample_packet_verified [of "[]"]
  by (simp add: classify_packet_Verified receive_envelope_Inr classify_frame_header_Inr parse_body_Inr
      HEADER_LEN_def hi_envelope_def PROTOCOL_VERSION_def)

lemma sample_packet_signed: "verify_envelope sample_crates hi_envelope [0x6B]"
  using sample_packet_verified [of "[]"] by (simp add: classify_packet_Verified hi_envelope_def)

lemma broker_env_simps [simp]:
  "crates (gates broker_env) = sample_crates"
  "agent_secrets (gates broker_env) = Map.empty"
  "value_from_str (gates broker_env) s = Some execute_payload"
  "proposal_from_value (gates broker_env) v = Some write_proposal"
  "current_policy (gates broker_env) = broker_policy"
  "admission_keys (gates broker_env) = \<lparr>current_key = [0x6B], previous_key = None\<rparr>"
  by (simp_all add: broker_env_def sample_gate_def write_proposal_def)

lemma write_proposal_simps [simp]:
  "proposed_action write_proposal = Some write_action" "intent_name write_proposal = None"
  "sequence_counter write_proposal = 1"
  by (simp_all add: write_proposal_def sample_proposal_def)

lemma payload_simps:
  "agent_id_of execute_payload = None" "execute_requested execute_payload"
  "json_get execute_payload (byte_string ''delegation_token'') = None"
  "Option.bind (json_get execute_payload (byte_string ''execute'')) as_bool = Some True"
  "\<not> proposed_action_references_protected_resource write_action"
  by (simp add: agent_id_of_def, code_simp) code_simp+

lemma write_action_brokered: "enforce pu write_action = None"
proof -
  have "find (\<lambda>p. starts_with (byte_string ''/tmp/x'') p) DENIED_PATH_PREFIXES = None"
      "\<not> str_contains (byte_string ''/tmp/x'') (byte_string ''../'')"
      "\<not> str_contains (byte_string ''/tmp/x'') (byte_string ''/./'')"
    by code_simp+
  then show ?thesis by (simp add: enforce_def write_action_def)
qed

lemma broker_authenticated:
  "authenticate (gates broker_env) (sample_obs 1000) hi_envelope = Inr (execute_payload, None, write_proposal)"
  by (simp add: authenticate_Inr payload_simps store_verify_def secret_for_def keyset_verify_at_def
      sample_packet_signed explicit_protected_resource_attack_def opt_test_def)

lemma broker_admissible:
  "admissible (gates broker_env) (sample_obs 1000) execute_payload None write_proposal fresh_state"
  by (simp add: admissible_def Let_def payload_simps broker_policy_def plain_policy_def fresh_state_def
      with_capacity_def proposal_trips_canary_def runtime_policy_denial_def)

lemma broker_cleared:
  "cleared broker_env (sample_obs 1000) None write_proposal
     (proposal_assessment broker_env (sample_obs 1000) events write_proposal n)"
proof -
  let ?a = "proposal_assessment broker_env (sample_obs 1000) events write_proposal n"
  have "consistent ?a" by (simp add: proposal_assessment_def final_assessment_consistent)
  then have "scored (fused_risk ?a)" "scored (trust_score ?a)" by (auto simp: consistent_def f64_sub_scored)
  then show ?thesis
    by (auto simp: cleared_def Let_def verify_z3_policy_invariants_def scored_finite broker_policy_def
        plain_policy_def interpreter_bypass_denied_def payload_simps write_action_brokered scored_def split: f64.splits)
qed

lemma broker_executes:
  "\<exists>answer rest st'. handle_packet broker_env (sample_obs 1000) [] sample_packet fresh_daemon =
     (Some answer, rest, st') \<and> executed answer = Some write_action"
proof -
  obtain rest where r: "receive_envelope sample_crates sample_packet = Inr (hi_envelope, rest)"
    using sample_packet_received by blast
  obtain b g where ad: "admit (gates broker_env) (sample_obs 1000) execute_payload None write_proposal fresh_state = (Inr b, g)"
    using admit_spec [of "gates broker_env" "sample_obs 1000" execute_payload None write_proposal fresh_state]
      broker_admissible by (metis prod.collapse)
  have "fast_path broker_env (sample_obs 1000) execute_payload write_proposal = None"
    by (simp add: fast_path_def immunity_reason_for_observation_def observation_is_immune_def sample_obs_def
        opt_test_def force_policy_def requires_intent_aware_enforcement_def split: option.splits)
  moreover have "executed (fst (judge broker_env (sample_obs 1000) execute_payload None write_proposal
      (proposal_assessment broker_env (sample_obs 1000) [] write_proposal 0))) = Some write_action"
    by (rule judge_executes [OF broker_cleared]) (simp_all add: payload_simps broker_policy_def)
  ultimately have "executed (fst (evaluate broker_env (sample_obs 1000) [] execute_payload None write_proposal b
      (fresh_daemon\<lparr>gate_part := g\<rparr>))) = Some write_action"
    by (simp add: evaluate_fst matched_node_def fresh_daemon_def current_agent_offenses_def)
  then show ?thesis
    using r ad by (simp add: handle_packet_def broker_authenticated fresh_daemon_def case_prod_beta)
qed

theorem executed_actions_mediated_witness:
  "\<exists>answer. executed answer = Some write_action \<and>
     (\<exists>raw p. proposed_action p = Some write_action \<and>
        admissible (gates broker_env) (sample_obs 1000) raw (agent_id_of raw) p fresh_state)"
proof -
  obtain answer rest st' where h: "handle_packet broker_env (sample_obs 1000) [] sample_packet fresh_daemon =
      (Some answer, rest, st')" "executed answer = Some write_action"
    using broker_executes by blast
  have "gate_part fresh_daemon = fresh_state" by (simp add: fresh_daemon_def)
  with executed_actions_mediated [OF h] h(2) show ?thesis by metis
qed

definition strict_env :: decision_env where
  "strict_env =
     \<lparr>gates = sample_gate\<lparr>current_policy := plain_policy 100 90\<rparr>,
      scope_prefixes = [], urls = (\<lambda>u. None), solver = decide,
      socket_scorer = (\<lambda>p. Some \<lparr>reply_class = byte_string ''benign'', reply_confidence = Fin 1, reply_risk = Fin 20\<rparr>),
      remote_scorer = (\<lambda>p. None)\<rparr>"

definition strict_assessment :: RiskAssessment where
  "strict_assessment = proposal_assessment strict_env (sample_obs 1000) [] sample_proposal 0"

lemma strict_assessment_bounds:
  "\<not> f64_lt (Fin 100) (fused_risk strict_assessment)" "f64_lt (trust_score strict_assessment) (Fin 90)"
proof -
  have r: "round_f64 (of_int k) = Fin (of_int k)" if "\<bar>k\<bar> < 2 ^ 53" for k using that by (rule round_f64_of_int)
  obtain i profile where a: "strict_assessment = assess (sample_obs 1000) i profile None" "intent_risk i = Fin 20"
  proof -
    have "\<not> f64_lt (Fin 1) (round_f64 (7 / 10))"
      using round_f64_mono [of "7 / 10" 1] r [of 1] by (cases "round_f64 (7 / 10)") auto
    then have "intent_risk (combined_classify (socket_scorer strict_env sample_proposal) None sample_proposal) = Fin 20"
      by (simp add: combined_classify_def trust_rootai_response_def strict_env_def f64_clamp_def)
    moreover have "apply_adaptive_penalty 0 x = x" for x
      using r [of 0] by (simp add: apply_adaptive_penalty_def adaptive_risk_penalty_def
          ADAPTIVE_PENALTY_PER_OFFENSE_def ADAPTIVE_PENALTY_CAP_def f64_min_def)
    ultimately show ?thesis
      using that by (simp add: strict_assessment_def proposal_assessment_def final_assessment_def
          apply_telemetry_penalty_def strict_env_def sample_proposal_def)
  qed
  moreover have "semantic_risk (assess (sample_obs 1000) i profile None) = clamp_score (intent_risk i)"
    by (simp add: assess_def Let_def case_prod_beta)
  ultimately have "semantic_risk strict_assessment = Fin 20"
    by (simp only: a) (simp add: clamp_score_def is_finite_def f64_clamp_def)
  then have ge: "f64_le (Fin 20) (fused_risk strict_assessment)"
    using assess_fused_ge(1) [of "sample_obs 1000" i profile None] a(1) by simp
  have c: "scored (fused_risk strict_assessment)"
      "trust_score strict_assessment = f64_sub (Fin 100) (fused_risk strict_assessment)"
    by (simp_all add: a(1) assess_simps)
  then show "\<not> f64_lt (Fin 100) (fused_risk strict_assessment)" by (auto simp: scored_def split: f64.splits)
  have "f64_le (trust_score strict_assessment) (f64_sub (Fin 100) (Fin 20))"
    using ge c by (simp add: f64_sub_antimono scored_finite is_finite_def [of "Fin 20"])
  moreover have "f64_sub (Fin 100) (Fin 20) = Fin 80" using r [of 80] by (simp add: f64_sub_def f64_neg_def)
  ultimately show "f64_lt (trust_score strict_assessment) (Fin 90)"
    using f64_le_lt_trans [of _ "Fin 80" "Fin 90"] by simp
qed

theorem trust_floor_denial_not_counted_witness:
  "fst (evaluate strict_env (sample_obs 1000) [] JNull None sample_proposal False fresh_daemon) = Denied DENY_VIOLATION \<and>
   offenses (snd (evaluate strict_env (sample_obs 1000) [] JNull None sample_proposal False fresh_daemon)) =
     offenses fresh_daemon"
proof (rule trust_floor_denial_not_counted [where a = strict_assessment])
  show "fast_path strict_env (sample_obs 1000) JNull sample_proposal = None"
    by (simp add: fast_path_def immunity_reason_for_observation_def observation_is_immune_def opt_test_def
        sample_obs_def proposal_enforcement_path_def sample_proposal_def json_get_def)
qed (use strict_assessment_bounds in \<open>simp_all add: verify_z3_policy_invariants_def matched_node_def
      strict_assessment_def fresh_daemon_def current_agent_offenses_def strict_env_def plain_policy_def\<close>)

end
