(* ===== verification/Audit_Log.thy ===== *)
theory Audit_Log
  imports Risk_Assessment Ts_Wire
begin

text \<open>
  The audit log of \<^verbatim>\<open>ts_cli/src/governance.rs\<close>: the hash chain in the JSONL file, its mirror in
  SQLite, and the personal data that is kept apart from it, sealed under one key per subject so that
  destroying the key erases the data. The crates for hashing, encoding and serialisation are the
  record \<open>audit_crates\<close>; what one operation takes from the operating system (the clock, random
  bytes, the outcome of the writes) is the record \<open>audit_env\<close>. A table is the list of its rows in the
  order of the insertions. The theorems say when the chain verifies, what a verified chain
  determines, which losses of records the verification notices, and what erasure removes.
\<close>

section \<open>Entries\<close>

record RedactedObservation =
  red_pid :: u32
  red_start_time :: u64
  red_namespace_observed :: bool
  red_namespace_pid_inode :: "u64 option"
  red_namespace_net_inode :: "u64 option"
  red_socket_peer_verified :: bool
  red_observed_at :: u64
  subject_pseudonym :: "byte list"
  pii_ref :: "byte list"
  pii_commitment :: "byte list"

record AuditEntry =
  entry_index :: u64
  entry_timestamp :: u64
  prev_hash :: "byte list"
  entry_observation :: RedactedObservation
  entry_intent :: SemanticIntent
  entry_assessment :: RiskAssessment
  entry_decision :: PolicyDecision
  entry_hash :: "byte list"

record PiiBundle =
  pii_uid :: u32
  pii_gid :: u32
  pii_executable_path :: "byte list option"
  pii_command_line :: "byte list list"

text \<open>The functions of the crates \<^verbatim>\<open>sha2\<close>, \<^verbatim>\<open>hmac\<close>, \<^verbatim>\<open>hex\<close> and \<^verbatim>\<open>serde_json\<close>. The constructor of the HMAC
  accepts a key of any length, so \<open>hmac_tag\<close> has no failure.\<close>

record audit_crates =
  sha256 :: "byte list \<Rightarrow> byte list"
  hmac_tag :: "byte list \<Rightarrow> byte list \<Rightarrow> byte list"
  to_hex :: "byte list \<Rightarrow> byte list"
  from_hex :: "byte list \<Rightarrow> byte list option"
  observation_json :: "RedactedObservation \<Rightarrow> byte list option"
  intent_json :: "SemanticIntent \<Rightarrow> byte list option"
  assessment_json :: "RiskAssessment \<Rightarrow> byte list option"
  decision_json :: "PolicyDecision \<Rightarrow> byte list option"
  entry_json :: "AuditEntry \<Rightarrow> byte list option"
  entry_from_json :: "byte list \<Rightarrow> AuditEntry option"
  pii_json :: "PiiBundle \<Rightarrow> byte list option"
  pii_from_json :: "byte list \<Rightarrow> PiiBundle option"

definition u64_to_be_bytes :: "u64 \<Rightarrow> byte list" where
  "u64_to_be_bytes w = rev (word_bytes 8 w)"

definition or_default :: "byte list option \<Rightarrow> byte list" where
  "or_default s = (case s of None \<Rightarrow> [] | Some s \<Rightarrow> s)"

text \<open>What \<^verbatim>\<open>calculate_hash\<close> feeds to the hasher, and the digest in hexadecimal.\<close>

definition entry_bodies ::
  "audit_crates \<Rightarrow> RedactedObservation \<Rightarrow> SemanticIntent \<Rightarrow> RiskAssessment \<Rightarrow> PolicyDecision \<Rightarrow> byte list"
where
  "entry_bodies cr observation intent assessment decision =
     or_default (observation_json cr observation) @ or_default (intent_json cr intent) @
     or_default (assessment_json cr assessment) @ or_default (decision_json cr decision)"

definition calculate_hash ::
  "audit_crates \<Rightarrow> u64 \<Rightarrow> u64 \<Rightarrow> byte list \<Rightarrow> RedactedObservation \<Rightarrow> SemanticIntent \<Rightarrow> RiskAssessment \<Rightarrow>
   PolicyDecision \<Rightarrow> byte list"
where
  "calculate_hash cr index timestamp prev observation intent assessment decision =
     to_hex cr (sha256 cr (u64_to_be_bytes index @ u64_to_be_bytes timestamp @ prev @
                           entry_bodies cr observation intent assessment decision))"

definition entry_preimage :: "audit_crates \<Rightarrow> AuditEntry \<Rightarrow> byte list" where
  "entry_preimage cr e =
     u64_to_be_bytes (entry_index e) @ u64_to_be_bytes (entry_timestamp e) @ prev_hash e @
     entry_bodies cr (entry_observation e) (entry_intent e) (entry_assessment e) (entry_decision e)"

definition recomputed_hash :: "audit_crates \<Rightarrow> AuditEntry \<Rightarrow> byte list" where
  "recomputed_hash cr e =
     calculate_hash cr (entry_index e) (entry_timestamp e) (prev_hash e) (entry_observation e)
       (entry_intent e) (entry_assessment e) (entry_decision e)"

text \<open>The predecessor of the first entry.\<close>

definition genesis_hash :: "byte list" where
  "genesis_hash = replicate 64 0x30"

section \<open>Sealing personal data\<close>

definition hmac_hex :: "audit_crates \<Rightarrow> byte list \<Rightarrow> byte list \<Rightarrow> byte list" where
  "hmac_hex cr key data = to_hex cr (hmac_tag cr key data)"

definition PII_ENC_SUBKEY :: byte where "PII_ENC_SUBKEY = 0x01"
definition PII_MAC_SUBKEY :: byte where "PII_MAC_SUBKEY = 0x02"

text \<open>The loop of \<^verbatim>\<open>ctr_xor\<close> takes a block of 32 bytes, the length of the array \<^verbatim>\<open>ks\<close>, or what is left.\<close>

function ctr_xor_from :: "audit_crates \<Rightarrow> byte list \<Rightarrow> u32 \<Rightarrow> byte list \<Rightarrow> byte list" where
  "ctr_xor_from cr enc_key counter buf =
     (if buf = [] then []
      else map2 (XOR) (take 32 buf) (hmac_tag cr enc_key (u32_to_be_bytes counter)) @
           ctr_xor_from cr enc_key (counter + 1) (drop 32 buf))"
  by pat_completeness auto
termination
  by (relation "measure (\<lambda>(cr, enc_key, counter, buf). length buf)") auto

declare ctr_xor_from.simps [simp del]

definition ctr_xor :: "audit_crates \<Rightarrow> byte list \<Rightarrow> byte list \<Rightarrow> byte list" where
  "ctr_xor cr enc_key buf = ctr_xor_from cr enc_key 0 buf"

definition mac_input :: "byte list \<Rightarrow> byte list \<Rightarrow> byte list" where
  "mac_input nonce ct = nonce @ u64_to_be_bytes (of_nat (length ct)) @ ct"

definition pii_seal ::
  "audit_crates \<Rightarrow> byte list \<Rightarrow> byte list \<Rightarrow> byte list \<Rightarrow> byte list \<times> byte list \<times> byte list"
where
  "pii_seal cr nonce master_key plaintext =
     (let enc_key = hmac_tag cr master_key (PII_ENC_SUBKEY # nonce);
          mac_key = hmac_tag cr master_key (PII_MAC_SUBKEY # nonce);
          ct = ctr_xor cr enc_key plaintext
      in (nonce, ct, hmac_tag cr mac_key (mac_input nonce ct)))"

datatype audit_error =
    Bad_hex
  | Tag_mismatch
  | Bad_json
  | Not_serializable
  | Append_error
  | Database_error

definition pii_open ::
  "audit_crates \<Rightarrow> byte list \<Rightarrow> byte list \<Rightarrow> byte list \<Rightarrow> byte list \<Rightarrow> audit_error + byte list"
where
  "pii_open cr master_key nonce ct tag =
     (let enc_key = hmac_tag cr master_key (PII_ENC_SUBKEY # nonce);
          mac_key = hmac_tag cr master_key (PII_MAC_SUBKEY # nonce)
      in if hmac_tag cr mac_key (mac_input nonce ct) \<noteq> tag then Inl Tag_mismatch
         else Inr (ctr_xor cr enc_key ct))"

section \<open>The logger\<close>

text \<open>The tables \<^verbatim>\<open>audit_log\<close>, \<^verbatim>\<open>audit_pii\<close>, \<^verbatim>\<open>audit_pii_key\<close>, \<^verbatim>\<open>audit_meta\<close> and \<^verbatim>\<open>audit_salt_epoch\<close>. SQLite
  keeps integers of 64 bits with a sign.\<close>

record audit_row =
  row_index :: int
  row_timestamp :: int
  row_prev_hash :: "byte list"
  row_pid :: int
  row_subject :: "byte list"
  row_intent_class :: "byte list"
  row_fused_risk :: f64
  row_trust_score :: f64
  row_verdict :: "byte list"
  row_reason :: "byte list"
  row_entry_hash :: "byte list"
  row_full_json :: "byte list"

record pii_row =
  pii_row_ref :: "byte list"
  pii_row_index :: int
  pii_row_subject :: "byte list"
  pii_row_salt :: "byte list"
  pii_row_nonce :: "byte list"
  pii_row_ciphertext :: "byte list"
  pii_row_tag :: "byte list"
  pii_row_created :: int

record salt_row =
  salt_row_epoch :: int
  salt_row_salt :: "byte list"
  salt_row_created :: int

record audit_db =
  audit_log :: "audit_row list"
  audit_pii :: "pii_row list"
  audit_pii_key :: "byte list \<rightharpoonup> byte list \<times> int"
  audit_meta :: "byte list \<rightharpoonup> byte list"
  audit_salt_epoch :: "salt_row list"

record SaltState =
  active_salt :: "byte list"
  active_epoch :: int
  salt_created_secs :: u64

text \<open>The file is \<^const>\<open>None\<close> as long as it does not exist.\<close>

record AuditLogger =
  chain_file :: "byte list option"
  db :: audit_db
  salt_state :: SaltState
  salt_max_age_secs :: "u64 option"
  minimize_argv :: bool

datatype append_outcome = Append_done | Open_failed | Write_failed nat

record audit_env =
  now_secs :: u64
  commitment_salt :: "byte list"
  ref_bytes :: "byte list"
  fresh_key :: "byte list"
  fresh_nonce :: "byte list"
  append_outcome :: append_outcome
  mirror_commits :: bool

subsection \<open>Pseudonyms and salt epochs\<close>

definition salt_due_for_rotation :: "u64 \<Rightarrow> u64 \<Rightarrow> u64 option \<Rightarrow> bool" where
  "salt_due_for_rotation created now max_age =
     (case max_age of None \<Rightarrow> False
      | Some m \<Rightarrow> 0 < m \<and> m \<le> (if now < created then 0 else now - created))"

definition load_active_salt :: "audit_crates \<Rightarrow> audit_db \<Rightarrow> SaltState option" where
  "load_active_salt cr d =
     (if audit_salt_epoch d = [] then None
      else let row = last (audit_salt_epoch d)
           in Some \<lparr>active_salt = or_default (from_hex cr (salt_row_salt row)),
                    active_epoch = salt_row_epoch row,
                    salt_created_secs = of_int (salt_row_created row)\<rparr>)"

definition next_epoch :: "audit_db \<Rightarrow> int" where
  "next_epoch d = (if audit_salt_epoch d = [] then 1 else salt_row_epoch (last (audit_salt_epoch d)) + 1)"

definition insert_salt_row :: "byte list \<Rightarrow> u64 \<Rightarrow> audit_db \<Rightarrow> audit_db" where
  "insert_salt_row salt_hex now d =
     d\<lparr>audit_salt_epoch := audit_salt_epoch d @
         [\<lparr>salt_row_epoch = next_epoch d, salt_row_salt = salt_hex, salt_row_created = sint now\<rparr>]\<rparr>"

definition insert_salt_epoch ::
  "audit_crates \<Rightarrow> bool \<Rightarrow> byte list \<Rightarrow> u64 \<Rightarrow> audit_db \<Rightarrow> audit_error + SaltState \<times> audit_db"
where
  "insert_salt_epoch cr writable random now d =
     (if \<not> writable then Inl Database_error
      else Inr (\<lparr>active_salt = random, active_epoch = next_epoch d, salt_created_secs = now\<rparr>,
                insert_salt_row (to_hex cr random) now d))"

definition uid_pseudonym :: "audit_crates \<Rightarrow> byte list \<Rightarrow> u32 \<Rightarrow> byte list" where
  "uid_pseudonym cr s uid = hmac_hex cr s (u32_to_be_bytes uid)"

definition pseudonym_for_uid :: "audit_crates \<Rightarrow> AuditLogger \<Rightarrow> u32 \<Rightarrow> byte list" where
  "pseudonym_for_uid cr l uid = uid_pseudonym cr (active_salt (salt_state l)) uid"

definition pseudonyms_for_uid_all_epochs :: "audit_crates \<Rightarrow> AuditLogger \<Rightarrow> u32 \<Rightarrow> byte list list" where
  "pseudonyms_for_uid_all_epochs cr l uid =
     foldl (\<lambda>out row. case from_hex cr (salt_row_salt row) of
              None \<Rightarrow> out
            | Some s \<Rightarrow> (let p = uid_pseudonym cr s uid in if p \<in> set out then out else out @ [p]))
       [] (audit_salt_epoch (db l))"

definition rotate_pseudonym_salt ::
  "audit_crates \<Rightarrow> bool \<Rightarrow> byte list \<Rightarrow> u64 \<Rightarrow> AuditLogger \<Rightarrow> (audit_error + int) \<times> AuditLogger"
where
  "rotate_pseudonym_salt cr writable random now l =
     (case insert_salt_epoch cr writable random now (db l) of
        Inl err \<Rightarrow> (Inl err, l)
      | Inr (rotated, d) \<Rightarrow> (Inr (active_epoch rotated), l\<lparr>db := d, salt_state := rotated\<rparr>))"

definition enforce_salt_rotation_policy ::
  "audit_crates \<Rightarrow> bool \<Rightarrow> byte list \<Rightarrow> u64 \<Rightarrow> AuditLogger \<Rightarrow> (audit_error + bool) \<times> AuditLogger"
where
  "enforce_salt_rotation_policy cr writable random now l =
     (if salt_due_for_rotation (salt_created_secs (salt_state l)) now (salt_max_age_secs l)
      then (case rotate_pseudonym_salt cr writable random now l of
              (Inl err, l) \<Rightarrow> (Inl err, l)
            | (Inr _, l) \<Rightarrow> (Inr True, l))
      else (Inr False, l))"

text \<open>\<^verbatim>\<open>AuditLogger::new\<close> on an open database: the first salt is adopted from \<^verbatim>\<open>audit_meta\<close> or drawn, and
  an overdue one is replaced. The two environment variables are arguments, the first as a number.
  \<^const>\<open>None\<close> is the panic of the missing salt.\<close>

definition first_salt :: "audit_crates \<Rightarrow> byte list \<Rightarrow> audit_db \<Rightarrow> byte list" where
  "first_salt cr random d =
     (case audit_meta d (byte_string ''pseudonym_salt'') of
        None \<Rightarrow> to_hex cr random
      | Some h \<Rightarrow> (case from_hex cr h of
                     None \<Rightarrow> to_hex cr random
                   | Some s \<Rightarrow> if s = [] then to_hex cr random else h))"

definition env_true :: "byte list option \<Rightarrow> bool" where
  "env_true v =
     (case v of None \<Rightarrow> False
      | Some v \<Rightarrow> v = byte_string ''1'' \<or> to_ascii_lowercase v = byte_string ''true'')"

definition new_logger ::
  "audit_crates \<Rightarrow> bool \<Rightarrow> byte list \<Rightarrow> byte list \<Rightarrow> u64 \<Rightarrow> u64 option \<Rightarrow> byte list option \<Rightarrow>
   byte list option \<Rightarrow> audit_db \<Rightarrow> AuditLogger option"
where
  "new_logger cr writable random1 random2 now max_age argv_flag file d0 =
     (let d = (if audit_salt_epoch d0 = [] \<and> writable
               then insert_salt_row (first_salt cr random1 d0) now d0 else d0);
          max_age = (case max_age of None \<Rightarrow> None | Some n \<Rightarrow> if 0 < n then Some n else None)
      in case load_active_salt cr d of
           None \<Rightarrow> None
         | Some active \<Rightarrow>
             (let (active, d) =
                    (if salt_due_for_rotation (salt_created_secs active) now max_age
                     then (case insert_salt_epoch cr writable random2 now d of
                             Inl _ \<Rightarrow> (active, d) | Inr (rotated, d) \<Rightarrow> (rotated, d))
                     else (active, d))
              in Some \<lparr>chain_file = file, db = d, salt_state = active, salt_max_age_secs = max_age,
                       minimize_argv = env_true argv_flag\<rparr>))"

subsection \<open>Reading the file\<close>

text \<open>\<^verbatim>\<open>str::lines\<close> without the empty lines. A carriage return counts as part of the line end only where
  a line feed follows.\<close>

definition strip_cr :: "byte list \<Rightarrow> byte list" where
  "strip_cr s = (if s \<noteq> [] \<and> last s = 0x0D then butlast s else s)"

definition str_lines :: "byte list \<Rightarrow> byte list list" where
  "str_lines s = (let pieces = split_on 0x0A s
                  in map strip_cr (butlast pieces) @ (if last pieces = [] then [] else [last pieces]))"

definition chain_lines :: "byte list \<Rightarrow> byte list list" where
  "chain_lines content = filter (\<lambda>line. line \<noteq> []) (str_lines content)"

definition read_to_string :: "byte list option \<Rightarrow> byte list option" where
  "read_to_string file =
     (case file of None \<Rightarrow> None | Some content \<Rightarrow> if utf8_valid content then Some content else None)"

text \<open>Where the next entry continues: behind the last line, else behind the last row of the mirror.\<close>

definition last_line_entry :: "audit_crates \<Rightarrow> byte list option \<Rightarrow> AuditEntry option" where
  "last_line_entry cr file =
     (case read_to_string file of None \<Rightarrow> None
      | Some content \<Rightarrow>
          (let lines = chain_lines content
           in if lines = [] then None else entry_from_json cr (last lines)))"

definition get_last_entry_info :: "audit_crates \<Rightarrow> AuditLogger \<Rightarrow> u64 \<times> byte list" where
  "get_last_entry_info cr l =
     (case last_line_entry cr (chain_file l) of
        Some e \<Rightarrow> (entry_index e + 1, entry_hash e)
      | None \<Rightarrow>
          (if audit_log (db l) = [] then (0, genesis_hash)
           else let row = last (audit_log (db l)) in (of_int (row_index row) + 1, row_entry_hash row)))"

subsection \<open>Verification of the chain\<close>

record ChainVerification =
  chain_entries :: nat
  intact :: bool
  first_broken_index :: "u64 option"

fun verify_lines ::
  "audit_crates \<Rightarrow> byte list \<Rightarrow> nat \<Rightarrow> byte list list \<Rightarrow> audit_error + nat \<times> u64 option"
where
  "verify_lines cr prev count [] = Inr (count, None)"
| "verify_lines cr prev count (line # lines) =
     (case entry_from_json cr line of
        None \<Rightarrow> Inl Bad_json
      | Some entry \<Rightarrow>
          if prev_hash entry \<noteq> prev \<or> entry_hash entry \<noteq> recomputed_hash cr entry
          then Inr (count, Some (entry_index entry))
          else verify_lines cr (entry_hash entry) (count + 1) lines)"

definition verify_chain :: "audit_crates \<Rightarrow> AuditLogger \<Rightarrow> audit_error + ChainVerification" where
  "verify_chain cr l =
     (case verify_lines cr genesis_hash 0 (chain_lines (or_default (read_to_string (chain_file l)))) of
        Inl err \<Rightarrow> Inl err
      | Inr (count, Some broken) \<Rightarrow>
          Inr \<lparr>chain_entries = count, intact = False, first_broken_index = Some broken\<rparr>
      | Inr (count, None) \<Rightarrow>
          if count < length (audit_log (db l))
          then Inr \<lparr>chain_entries = count, intact = False, first_broken_index = Some (of_nat count)\<rparr>
          else Inr \<lparr>chain_entries = count, intact = True, first_broken_index = None\<rparr>)"

subsection \<open>Appending an entry\<close>

definition pii_bundle :: "AuditLogger \<Rightarrow> ObservationRecord \<Rightarrow> PiiBundle" where
  "pii_bundle l observation =
     \<lparr>pii_uid = obs_uid observation, pii_gid = obs_gid observation,
      pii_executable_path = obs_executable_path observation,
      pii_command_line =
        (if minimize_argv l
         then [byte_string ''<argv redacted: '' @ decimal_string (length (obs_command_line observation)) @
               byte_string '' args>'']
         else obs_command_line observation)\<rparr>"

definition redact ::
  "audit_crates \<Rightarrow> audit_env \<Rightarrow> AuditLogger \<Rightarrow> ObservationRecord \<Rightarrow> byte list \<Rightarrow> RedactedObservation"
where
  "redact cr env l observation canonical =
     \<lparr>red_pid = obs_pid observation, red_start_time = obs_start_time observation,
      red_namespace_observed = namespace_observed observation,
      red_namespace_pid_inode = namespace_pid_inode observation,
      red_namespace_net_inode = namespace_net_inode observation,
      red_socket_peer_verified = socket_peer_verified observation,
      red_observed_at = observed_at_unix_secs observation,
      subject_pseudonym = pseudonym_for_uid cr l (obs_uid observation),
      pii_ref = to_hex cr (ref_bytes env),
      pii_commitment = hmac_hex cr (commitment_salt env) canonical\<rparr>"

definition next_entry ::
  "audit_crates \<Rightarrow> audit_env \<Rightarrow> AuditLogger \<Rightarrow> RedactedObservation \<Rightarrow> SemanticIntent \<Rightarrow>
   RiskAssessment \<Rightarrow> PolicyDecision \<Rightarrow> AuditEntry"
where
  "next_entry cr env l redacted intent assessment decision =
     (let (next_index, prev) = get_last_entry_info cr l
      in \<lparr>entry_index = next_index, entry_timestamp = now_secs env, prev_hash = prev,
          entry_observation = redacted, entry_intent = intent, entry_assessment = assessment,
          entry_decision = decision,
          entry_hash = calculate_hash cr next_index (now_secs env) prev redacted intent assessment decision\<rparr>)"

definition append_file :: "append_outcome \<Rightarrow> byte list \<Rightarrow> byte list option \<Rightarrow> bool \<times> byte list option" where
  "append_file outcome bytes file =
     (case outcome of
        Append_done \<Rightarrow> (True, Some (or_default file @ bytes))
      | Open_failed \<Rightarrow> (False, file)
      | Write_failed n \<Rightarrow> (False, Some (or_default file @ take n bytes)))"

definition debug_intent_class :: "IntentClass \<Rightarrow> byte list" where
  "debug_intent_class c = byte_string
     (case c of Boot \<Rightarrow> ''Boot'' | ReadOnly \<Rightarrow> ''ReadOnly'' | FileWriteIntent \<Rightarrow> ''FileWrite''
      | NetworkAccess \<Rightarrow> ''NetworkAccess'' | ProcessExecution \<Rightarrow> ''ProcessExecution''
      | PrivilegeChange \<Rightarrow> ''PrivilegeChange'' | SourceModification \<Rightarrow> ''SourceModification''
      | UnknownIntent \<Rightarrow> ''Unknown'')"

definition debug_policy_verdict :: "PolicyVerdict \<Rightarrow> byte list" where
  "debug_policy_verdict v = byte_string
     (case v of Allow \<Rightarrow> ''Allow'' | Constrain \<Rightarrow> ''Constrain'' | Deny \<Rightarrow> ''Deny'')"

definition log_row :: "AuditEntry \<Rightarrow> byte list \<Rightarrow> audit_row" where
  "log_row e full_json =
     \<lparr>row_index = sint (entry_index e), row_timestamp = sint (entry_timestamp e),
      row_prev_hash = prev_hash e, row_pid = uint (red_pid (entry_observation e)),
      row_subject = subject_pseudonym (entry_observation e),
      row_intent_class = debug_intent_class (intent_class (entry_intent e)),
      row_fused_risk = fused_risk (entry_assessment e), row_trust_score = trust_score (entry_assessment e),
      row_verdict = debug_policy_verdict (verdict (entry_decision e)), row_reason = reason (entry_decision e),
      row_entry_hash = entry_hash e, row_full_json = full_json\<rparr>"

text \<open>The key of a subject: the stored one if it is one of 32 bytes, else a fresh one that replaces it.\<close>

definition stored_key :: "audit_crates \<Rightarrow> audit_db \<Rightarrow> byte list \<Rightarrow> byte list option" where
  "stored_key cr d subject =
     (case audit_pii_key d subject of None \<Rightarrow> None
      | Some (h, created) \<Rightarrow>
          (case from_hex cr h of None \<Rightarrow> None | Some k \<Rightarrow> if length k = 32 then Some k else None))"

definition subject_key ::
  "audit_crates \<Rightarrow> audit_env \<Rightarrow> byte list \<Rightarrow> audit_db \<Rightarrow> byte list \<times> audit_db"
where
  "subject_key cr env subject d =
     (case stored_key cr d subject of
        Some k \<Rightarrow> (k, d)
      | None \<Rightarrow> (fresh_key env,
                 d\<lparr>audit_pii_key := (audit_pii_key d)
                     (subject \<mapsto> (to_hex cr (fresh_key env), sint (now_secs env)))\<rparr>))"

definition sealed_row ::
  "audit_crates \<Rightarrow> audit_env \<Rightarrow> byte list \<Rightarrow> AuditEntry \<Rightarrow> byte list \<Rightarrow> pii_row"
where
  "sealed_row cr env master_key e canonical =
     (let (nonce, ct, tag) = pii_seal cr (fresh_nonce env) master_key canonical
      in \<lparr>pii_row_ref = pii_ref (entry_observation e), pii_row_index = sint (entry_index e),
          pii_row_subject = subject_pseudonym (entry_observation e),
          pii_row_salt = to_hex cr (commitment_salt env), pii_row_nonce = to_hex cr nonce,
          pii_row_ciphertext = to_hex cr ct, pii_row_tag = to_hex cr tag,
          pii_row_created = sint (now_secs env)\<rparr>)"

text \<open>The transaction that mirrors an entry. It leaves the database as it was when it does not commit,
  and when the primary key of \<^verbatim>\<open>audit_pii\<close> is taken.\<close>

definition mirror_entry ::
  "audit_crates \<Rightarrow> audit_env \<Rightarrow> AuditEntry \<Rightarrow> byte list \<Rightarrow> byte list \<Rightarrow> audit_db \<Rightarrow> audit_db"
where
  "mirror_entry cr env e full_json canonical d =
     (if \<not> mirror_commits env \<or> pii_ref (entry_observation e) \<in> set (map pii_row_ref (audit_pii d)) then d
      else let (master_key, d) = subject_key cr env (subject_pseudonym (entry_observation e))
                                   (d\<lparr>audit_log := audit_log d @ [log_row e full_json]\<rparr>)
           in d\<lparr>audit_pii := audit_pii d @ [sealed_row cr env master_key e canonical]\<rparr>)"

definition log_entry ::
  "audit_crates \<Rightarrow> audit_env \<Rightarrow> ObservationRecord \<Rightarrow> SemanticIntent \<Rightarrow> RiskAssessment \<Rightarrow> PolicyDecision \<Rightarrow>
   AuditLogger \<Rightarrow> (audit_error + unit) \<times> AuditLogger"
where
  "log_entry cr env observation intent assessment decision l =
     (case pii_json cr (pii_bundle l observation) of
        None \<Rightarrow> (Inl Not_serializable, l)
      | Some canonical \<Rightarrow>
          (let entry = next_entry cr env l (redact cr env l observation canonical) intent assessment decision
           in case entry_json cr entry of
                None \<Rightarrow> (Inl Not_serializable, l)
              | Some serialized \<Rightarrow>
                  (case append_file (append_outcome env) (serialized @ [0x0A]) (chain_file l) of
                     (False, file) \<Rightarrow> (Inl Append_error, l\<lparr>chain_file := file\<rparr>)
                   | (True, file) \<Rightarrow>
                       (Inr (), l\<lparr>chain_file := file,
                                  db := mirror_entry cr env entry serialized canonical (db l)\<rparr>))))"

text \<open>The marker of a start. The observation of the daemon itself and the provenance of the image are
  read from the system.\<close>

record BootProvenance =
  ostree_booted :: bool
  ostree_commit :: "byte list option"
  kernel_release :: "byte list option"

definition ostree_commit_label :: "BootProvenance \<Rightarrow> byte list" where
  "ostree_commit_label p =
     (if \<not> ostree_booted p then byte_string ''non-ostree''
      else case ostree_commit p of None \<Rightarrow> byte_string ''null'' | Some c \<Rightarrow> c)"

definition kernel_release_label :: "BootProvenance \<Rightarrow> byte list" where
  "kernel_release_label p = (case kernel_release p of None \<Rightarrow> byte_string ''unknown'' | Some r \<Rightarrow> r)"

definition bool_string :: "bool \<Rightarrow> byte list" where
  "bool_string b = byte_string (if b then ''true'' else ''false'')"

definition boot_labels :: "BootProvenance \<Rightarrow> byte list list" where
  "boot_labels p =
     [byte_string ''ostree_booted='' @ bool_string (ostree_booted p),
      byte_string ''ostree_commit='' @ ostree_commit_label p,
      byte_string ''kernel_release='' @ kernel_release_label p]"

definition boot_signals :: "BootProvenance \<Rightarrow> byte list list" where
  "boot_signals p = byte_string ''jinnguard.boot_marker'' # boot_labels p"

definition boot_intent :: "BootProvenance \<Rightarrow> SemanticIntent" where
  "boot_intent p = \<lparr>intent_class = Boot, confidence = Fin 1, intent_risk = Fin 0, signals = boot_signals p\<rparr>"

definition boot_assessment :: "BootProvenance \<Rightarrow> RiskAssessment" where
  "boot_assessment p =
     \<lparr>observed_risk = Fin 0, semantic_risk = Fin 0, topology_risk = Fin 0, declared_risk = None,
      fused_risk = Fin 0, trust_score = Fin 100,
      risk_reasons = byte_string ''boot_marker'' # boot_labels p\<rparr>"

definition boot_decision :: "BootProvenance \<Rightarrow> PolicyDecision" where
  "boot_decision p =
     \<lparr>verdict = Allow,
      reason = byte_string ''boot_marker:ostree_booted='' @ bool_string (ostree_booted p) @
               byte_string '';ostree_commit='' @ ostree_commit_label p @
               byte_string '';kernel_release='' @ kernel_release_label p,
      risk_score = Fin 0, decision_trust = Fin 100, constraints = None\<rparr>"

definition boot_observation :: "ObservationRecord \<Rightarrow> ObservationRecord" where
  "boot_observation self =
     self\<lparr>obs_executable_path := Some (byte_string ''jinnguard.boot_marker''),
          obs_command_line := [byte_string ''jinnguard.boot_marker''],
          namespace_observed := True, socket_peer_verified := True\<rparr>"

definition log_boot_marker_with_provenance ::
  "audit_crates \<Rightarrow> audit_env \<Rightarrow> ObservationRecord \<Rightarrow> BootProvenance \<Rightarrow> AuditLogger \<Rightarrow>
   (audit_error + unit) \<times> AuditLogger"
where
  "log_boot_marker_with_provenance cr env self provenance l =
     log_entry cr env (boot_observation self) (boot_intent provenance) (boot_assessment provenance)
       (boot_decision provenance) l"

text \<open>A refusal that ends a request before its assessment is logged with a stand-in of maximal risk and
  an intent guessed from its name, from \<^verbatim>\<open>ts_cli/src/main.rs\<close>. The caller drops the result.\<close>

definition system_immunity_intent :: "ClientProposal \<Rightarrow> byte list \<Rightarrow> SemanticIntent" where
  "system_immunity_intent proposal why =
     (let intent = or_default (intent_name proposal)
      in \<lparr>intent_class =
            (if contains_any intent [''exec'', ''command''] then ProcessExecution
             else if contains_any intent [''write'', ''unlink''] then FileWriteIntent
             else if contains_any intent [''connect'', ''network''] then NetworkAccess
             else UnknownIntent),
          confidence = Fin 1, intent_risk = Fin 0, signals = [why]\<rparr>)"

definition denied_assessment :: "byte list \<Rightarrow> RiskAssessment" where
  "denied_assessment why =
     \<lparr>observed_risk = Fin 100, semantic_risk = Fin 100, topology_risk = Fin 0, declared_risk = None,
      fused_risk = Fin 100, trust_score = Fin 0, risk_reasons = [why]\<rparr>"

definition audit_denied ::
  "audit_crates \<Rightarrow> audit_env \<Rightarrow> ObservationRecord \<Rightarrow> ClientProposal \<Rightarrow> byte list \<Rightarrow> AuditLogger \<Rightarrow> AuditLogger"
where
  "audit_denied cr env observation proposal why l =
     (let assessment = denied_assessment why
      in snd (log_entry cr env observation (system_immunity_intent proposal why) assessment
               (decision_deny why assessment) l))"

subsection \<open>Erasure and access\<close>

definition erase_subject ::
  "(byte list \<Rightarrow> bool) \<Rightarrow> byte list \<Rightarrow> AuditLogger \<Rightarrow> (audit_error + nat) \<times> AuditLogger"
where
  "erase_subject commits subject l =
     (if \<not> commits subject then (Inl Database_error, l)
      else let d = db l; kept = filter (\<lambda>row. pii_row_subject row \<noteq> subject) (audit_pii d)
           in (Inr (length (audit_pii d) - length kept),
               l\<lparr>db := d\<lparr>audit_pii := kept, audit_pii_key := (audit_pii_key d)(subject := None)\<rparr>\<rparr>))"

fun erase_subjects ::
  "(byte list \<Rightarrow> bool) \<Rightarrow> nat \<Rightarrow> byte list list \<Rightarrow> AuditLogger \<Rightarrow> (audit_error + nat) \<times> AuditLogger"
where
  "erase_subjects commits removed [] l = (Inr removed, l)"
| "erase_subjects commits removed (subject # subjects) l =
     (case erase_subject commits subject l of
        (Inl err, l) \<Rightarrow> (Inl err, l)
      | (Inr n, l) \<Rightarrow> erase_subjects commits (removed + n) subjects l)"

definition erase_uid ::
  "audit_crates \<Rightarrow> (byte list \<Rightarrow> bool) \<Rightarrow> u32 \<Rightarrow> AuditLogger \<Rightarrow> (audit_error + nat) \<times> AuditLogger"
where
  "erase_uid cr commits uid l = erase_subjects commits 0 (pseudonyms_for_uid_all_epochs cr l uid) l"

definition open_row :: "audit_crates \<Rightarrow> byte list \<Rightarrow> pii_row \<Rightarrow> audit_error + PiiBundle" where
  "open_row cr master_key row =
     (case from_hex cr (pii_row_nonce row) of None \<Rightarrow> Inl Bad_hex
      | Some nonce \<Rightarrow>
      case from_hex cr (pii_row_ciphertext row) of None \<Rightarrow> Inl Bad_hex
      | Some ct \<Rightarrow>
      case from_hex cr (pii_row_tag row) of None \<Rightarrow> Inl Bad_hex
      | Some tag \<Rightarrow>
      case pii_open cr master_key nonce ct tag of Inl err \<Rightarrow> Inl err
      | Inr plaintext \<Rightarrow>
      case pii_from_json cr plaintext of None \<Rightarrow> Inl Bad_json
      | Some bundle \<Rightarrow> Inr bundle)"

fun open_rows :: "audit_crates \<Rightarrow> byte list \<Rightarrow> pii_row list \<Rightarrow> audit_error + PiiBundle list" where
  "open_rows cr master_key [] = Inr []"
| "open_rows cr master_key (row # rows) =
     (case open_row cr master_key row of Inl err \<Rightarrow> Inl err
      | Inr bundle \<Rightarrow>
          (case open_rows cr master_key rows of Inl err \<Rightarrow> Inl err | Inr bundles \<Rightarrow> Inr (bundle # bundles)))"

definition read_subject_pii :: "audit_crates \<Rightarrow> byte list \<Rightarrow> AuditLogger \<Rightarrow> audit_error + PiiBundle list" where
  "read_subject_pii cr subject l =
     (case stored_key cr (db l) subject of
        None \<Rightarrow> Inr []
      | Some master_key \<Rightarrow>
          open_rows cr master_key
            (sort_key pii_row_index (filter (\<lambda>row. pii_row_subject row = subject) (audit_pii (db l)))))"

text \<open>\<^verbatim>\<open>query_recent\<close>: the last rows of the mirror, oldest first, without those that do not parse.\<close>

definition query_recent :: "audit_crates \<Rightarrow> nat \<Rightarrow> AuditLogger \<Rightarrow> AuditEntry list" where
  "query_recent cr limit l =
     rev (List.map_filter (\<lambda>row. entry_from_json cr (row_full_json row)) (take limit (rev (audit_log (db l)))))"

section \<open>Runs\<close>

text \<open>What happens to a log over time. A restart keeps the file and the database; where the new process
  panics, the old state stays.\<close>

datatype audit_op =
    Log audit_env ObservationRecord SemanticIntent RiskAssessment PolicyDecision
  | Rotate bool "byte list" u64
  | Enforce_rotation bool "byte list" u64
  | Erase_subject "byte list \<Rightarrow> bool" "byte list"
  | Erase_uid "byte list \<Rightarrow> bool" u32
  | Restart bool "byte list" "byte list" u64 "u64 option" "byte list option"

definition audit_step :: "audit_crates \<Rightarrow> audit_op \<Rightarrow> AuditLogger \<Rightarrow> AuditLogger" where
  "audit_step cr operation l =
     (case operation of
        Log env observation intent assessment decision \<Rightarrow>
          snd (log_entry cr env observation intent assessment decision l)
      | Rotate writable random now \<Rightarrow> snd (rotate_pseudonym_salt cr writable random now l)
      | Enforce_rotation writable random now \<Rightarrow> snd (enforce_salt_rotation_policy cr writable random now l)
      | Erase_subject commits subject \<Rightarrow> snd (erase_subject commits subject l)
      | Erase_uid commits uid \<Rightarrow> snd (erase_uid cr commits uid l)
      | Restart writable random1 random2 now max_age argv_flag \<Rightarrow>
          (case new_logger cr writable random1 random2 now max_age argv_flag (chain_file l) (db l) of
             None \<Rightarrow> l | Some l' \<Rightarrow> l'))"

fun audit_run :: "audit_crates \<Rightarrow> audit_op list \<Rightarrow> AuditLogger \<Rightarrow> AuditLogger" where
  "audit_run cr [] l = l"
| "audit_run cr (operation # operations) l = audit_run cr operations (audit_step cr operation l)"

text \<open>The entries a run appends, with the user each is about.\<close>

definition appended :: "audit_crates \<Rightarrow> audit_op \<Rightarrow> AuditLogger \<Rightarrow> (u32 \<times> AuditEntry) list" where
  "appended cr operation l =
     (case operation of
        Log env observation intent assessment decision \<Rightarrow>
          (case pii_json cr (pii_bundle l observation) of
             None \<Rightarrow> []
           | Some canonical \<Rightarrow>
               (let entry = next_entry cr env l (redact cr env l observation canonical) intent assessment decision
                in if entry_json cr entry \<noteq> None \<and> append_outcome env = Append_done
                   then [(obs_uid observation, entry)] else []))
      | _ \<Rightarrow> [])"

fun audit_trace :: "audit_crates \<Rightarrow> audit_op list \<Rightarrow> AuditLogger \<Rightarrow> (u32 \<times> AuditEntry) list" where
  "audit_trace cr [] l = []"
| "audit_trace cr (operation # operations) l =
     appended cr operation l @ audit_trace cr operations (audit_step cr operation l)"

text \<open>A write that stops in the middle of a line is excluded where a theorem says so.\<close>

definition whole_append :: "audit_op \<Rightarrow> bool" where
  "whole_append operation =
     (case operation of
        Log env _ _ _ _ \<Rightarrow> append_outcome env \<in> {Append_done, Open_failed, Write_failed 0}
      | _ \<Rightarrow> True)"

text \<open>Refusals and the marker of a start are appends like any other.\<close>

lemma special_entries:
  "audit_denied cr env observation proposal why l =
   audit_step cr (Log env observation (system_immunity_intent proposal why) (denied_assessment why)
     (decision_deny why (denied_assessment why))) l"
  "snd (log_boot_marker_with_provenance cr env self provenance l) =
   audit_step cr (Log env (boot_observation self) (boot_intent provenance) (boot_assessment provenance)
     (boot_decision provenance)) l"
  by (simp_all add: audit_denied_def log_boot_marker_with_provenance_def audit_step_def Let_def)

section \<open>The text of a chain\<close>

definition plain_line :: "byte list \<Rightarrow> bool" where
  "plain_line line \<longleftrightarrow> utf8_valid line \<and> line \<noteq> [] \<and> 0x0A \<notin> set line \<and> last line \<noteq> 0x0D"

text \<open>What serialisation guarantees for an entry: one line of text, and if this parses, the index and the two
  digests are the same. The parser of \<^verbatim>\<open>serde_json\<close> may round a number, and it refuses the \<^verbatim>\<open>null\<close> that
  stands for a number that is not finite.\<close>

definition serde_line :: "audit_crates \<Rightarrow> AuditEntry \<Rightarrow> bool" where
  "serde_line cr e =
     (case entry_json cr e of None \<Rightarrow> True
      | Some line \<Rightarrow> plain_line line \<and>
          (case entry_from_json cr line of None \<Rightarrow> True
           | Some e' \<Rightarrow> entry_index e' = entry_index e \<and> prev_hash e' = prev_hash e \<and>
               entry_hash e' = entry_hash e))"

text \<open>The entry survives: its line parses, to an entry with the same digest.\<close>

definition reads_back :: "audit_crates \<Rightarrow> AuditEntry \<Rightarrow> bool" where
  "reads_back cr e =
     (case entry_json cr e of None \<Rightarrow> False
      | Some line \<Rightarrow> plain_line line \<and>
          (case entry_from_json cr line of None \<Rightarrow> False
           | Some e' \<Rightarrow> entry_index e' = entry_index e \<and> prev_hash e' = prev_hash e \<and>
               entry_hash e' = entry_hash e \<and> recomputed_hash cr e' = recomputed_hash cr e))"

definition chain_text :: "audit_crates \<Rightarrow> AuditEntry list \<Rightarrow> byte list" where
  "chain_text cr es = concat (map (\<lambda>e. the (entry_json cr e) @ [0x0A]) es)"

fun linked :: "audit_crates \<Rightarrow> byte list \<Rightarrow> AuditEntry list \<Rightarrow> bool" where
  "linked cr prev [] \<longleftrightarrow> True"
| "linked cr prev (e # es) \<longleftrightarrow>
     prev_hash e = prev \<and> entry_hash e = recomputed_hash cr e \<and> linked cr (entry_hash e) es"

definition last_hash :: "byte list \<Rightarrow> AuditEntry list \<Rightarrow> byte list" where
  "last_hash prev es = (if es = [] then prev else entry_hash (last es))"

lemma last_hash_simps [simp]:
  "last_hash prev [] = prev" "last_hash prev (e # es) = last_hash (entry_hash e) es"
  by (simp_all add: last_hash_def)

lemma linked_append [simp]:
  "linked cr prev (es @ es') \<longleftrightarrow> linked cr prev es \<and> linked cr (last_hash prev es) es'"
  by (induction es arbitrary: prev) auto

lemma linked_take: "linked cr prev es \<Longrightarrow> linked cr prev (take k es)"
  using linked_append [of cr prev "take k es" "drop k es"] by simp

lemma chain_text_simps [simp]:
  "chain_text cr [] = []"
  "chain_text cr (e # es) = the (entry_json cr e) @ 0x0A # chain_text cr es"
  "chain_text cr (es @ es') = chain_text cr es @ chain_text cr es'"
  by (simp_all add: chain_text_def)

lemma split_on_nonempty: "split_on c s \<noteq> []"
  by (induction s) (auto split: list.splits)

lemma split_on_line: "c \<notin> set s \<Longrightarrow> split_on c (s @ c # t) = s # split_on c t"
  by (induction s) auto

lemma chain_lines_Cons:
  assumes "plain_line line"
  shows "chain_lines (line @ 0x0A # t) = line # chain_lines t"
  using assms split_on_nonempty [of "0x0A" t]
  by (simp add: chain_lines_def str_lines_def Let_def plain_line_def split_on_line strip_cr_def)

lemma chain_lines_Nil [simp]: "chain_lines [] = []"
  by (simp add: chain_lines_def str_lines_def)

lemma reads_backD:
  assumes "reads_back cr e"
  obtains line e' where "entry_json cr e = Some line" "plain_line line" "entry_from_json cr line = Some e'"
    "entry_index e' = entry_index e" "prev_hash e' = prev_hash e" "entry_hash e' = entry_hash e"
    "recomputed_hash cr e' = recomputed_hash cr e"
  using assms by (auto simp: reads_back_def split: option.splits)

lemma chain_lines_text:
  assumes "list_all (reads_back cr) es"
  shows "chain_lines (chain_text cr es @ t) = map (\<lambda>e. the (entry_json cr e)) es @ chain_lines t"
  using assms
proof (induction es)
  case (Cons e es)
  then show ?case by (auto elim!: reads_backD simp: chain_lines_Cons)
qed simp

lemma utf8_valid_text:
  assumes "list_all (reads_back cr) es"
  shows "utf8_valid (chain_text cr es @ t) = utf8_valid t"
  using assms
proof (induction es)
  case (Cons e es)
  then obtain line where "entry_json cr e = Some line" "plain_line line"
    by (auto elim: reads_backD)
  with Cons show ?case by (simp add: plain_line_def utf8_valid_append)
qed simp

lemma verify_lines_linked:
  assumes "list_all (reads_back cr) es" and "linked cr prev es"
  shows "verify_lines cr prev n (map (\<lambda>e. the (entry_json cr e)) es @ lines) =
         verify_lines cr (last_hash prev es) (n + length es) lines"
  using assms
proof (induction es arbitrary: prev n)
  case (Cons e es)
  then obtain line e' where line: "entry_json cr e = Some line" "entry_from_json cr line = Some e'"
    "prev_hash e' = prev_hash e" "entry_hash e' = entry_hash e" "recomputed_hash cr e' = recomputed_hash cr e"
    by (auto elim: reads_backD)
  from Cons.prems(2) have e: "prev_hash e = prev" "recomputed_hash cr e = entry_hash e" by simp_all
  from Cons.prems(1) have es: "list_all (reads_back cr) es" by simp
  from Cons.prems(2) have rest: "linked cr (entry_hash e) es" by (metis linked.simps(2))
  show ?case using Cons.IH [OF es rest, of "Suc n"] by (simp add: line e)
qed simp

section \<open>How a run changes the chain\<close>

lemma or_default_simps [simp]: "or_default None = []" "or_default (Some s) = s"
  by (simp_all add: or_default_def)

lemma erase_subject_frame:
  "chain_file (snd (erase_subject commits subject l)) = chain_file l"
  "audit_log (db (snd (erase_subject commits subject l))) = audit_log (db l)"
  "audit_salt_epoch (db (snd (erase_subject commits subject l))) = audit_salt_epoch (db l)"
  "salt_state (snd (erase_subject commits subject l)) = salt_state l"
  by (simp_all add: erase_subject_def Let_def)

lemma erase_subjects_frame:
  "chain_file (snd (erase_subjects commits n subjects l)) = chain_file l \<and>
   audit_log (db (snd (erase_subjects commits n subjects l))) = audit_log (db l) \<and>
   audit_salt_epoch (db (snd (erase_subjects commits n subjects l))) = audit_salt_epoch (db l) \<and>
   salt_state (snd (erase_subjects commits n subjects l)) = salt_state l"
proof (induction commits n subjects l rule: erase_subjects.induct)
  case (2 commits n subject subjects l)
  then show ?case using erase_subject_frame [of commits subject l]
    by (auto split: prod.split sum.split)
qed simp

lemma insert_salt_epoch_frame:
  assumes "insert_salt_epoch cr writable random now d = Inr (s, d')"
  shows "audit_log d' = audit_log d" "audit_pii d' = audit_pii d"
  using assms by (auto simp: insert_salt_epoch_def insert_salt_row_def split: if_splits)

lemma rotate_frame:
  "chain_file (snd (rotate_pseudonym_salt cr writable random now l)) = chain_file l"
  "audit_log (db (snd (rotate_pseudonym_salt cr writable random now l))) = audit_log (db l)"
  by (auto simp: rotate_pseudonym_salt_def insert_salt_epoch_frame split: sum.split)

lemma enforce_rotation_frame:
  "chain_file (snd (enforce_salt_rotation_policy cr writable random now l)) = chain_file l"
  "audit_log (db (snd (enforce_salt_rotation_policy cr writable random now l))) = audit_log (db l)"
  using rotate_frame [of cr writable random now l]
  by (auto simp: enforce_salt_rotation_policy_def split: sum.split prod.split)

lemma new_logger_frame:
  assumes "new_logger cr writable random1 random2 now max_age argv_flag file d = Some l"
  shows "chain_file l = file" "audit_log (db l) = audit_log d"
  using assms
  by (auto simp: new_logger_def Let_def insert_salt_row_def insert_salt_epoch_def
      split: option.splits sum.splits if_splits)

lemma mirror_rows:
  "\<exists>rows. audit_log (mirror_entry cr env e json canonical d) = audit_log d @ rows \<and> length rows \<le> Suc 0"
  by (auto simp: mirror_entry_def subject_key_def Let_def split: option.splits)

text \<open>Only \<open>Log\<close> touches the chain and its mirror.\<close>

lemma step_frame:
  assumes "\<And>env observation intent assessment decision.
             operation \<noteq> Log env observation intent assessment decision"
  shows "chain_file (audit_step cr operation l) = chain_file l"
    and "audit_log (db (audit_step cr operation l)) = audit_log (db l)"
    and "appended cr operation l = []"
  using assms
  by (auto simp: audit_step_def appended_def rotate_frame enforce_rotation_frame erase_subject_frame
      erase_uid_def erase_subjects_frame new_logger_frame split: audit_op.split option.split)

lemma step_text:
  assumes "whole_append operation"
  shows "or_default (chain_file (audit_step cr operation l)) =
         or_default (chain_file l) @ chain_text cr (map snd (appended cr operation l))"
proof (cases operation)
  case (Log env observation intent assessment decision)
  with assms show ?thesis
    by (auto simp: audit_step_def appended_def log_entry_def whole_append_def append_file_def Let_def
        split: option.split append_outcome.splits)
qed (use step_frame [of operation cr l] in simp_all)

lemma step_rows:
  "\<exists>rows. audit_log (db (audit_step cr operation l)) = audit_log (db l) @ rows \<and>
          length rows \<le> length (appended cr operation l)"
proof (cases operation)
  case (Log env observation intent assessment decision)
  then show ?thesis
    by (auto simp: audit_step_def appended_def log_entry_def append_file_def Let_def mirror_rows
        split: option.split append_outcome.splits)
qed (use step_frame [of operation cr l] in simp_all)

lemma next_entry_simps:
  "(entry_index (next_entry cr env l o' i a d), prev_hash (next_entry cr env l o' i a d)) =
   get_last_entry_info cr l"
  "entry_hash (next_entry cr env l o' i a d) = recomputed_hash cr (next_entry cr env l o' i a d)"
  "entry_observation (next_entry cr env l o' i a d) = o'"
  by (simp_all add: next_entry_def recomputed_hash_def split: prod.split)

lemma appended_entry:
  assumes "(uid, e) \<in> set (appended cr operation l)"
  shows "(entry_index e, prev_hash e) = get_last_entry_info cr l"
    and "entry_hash e = recomputed_hash cr e"
    and "subject_pseudonym (entry_observation e) = pseudonym_for_uid cr l uid"
proof -
  obtain env observation intent assessment decision canonical
    where "e = next_entry cr env l (redact cr env l observation canonical) intent assessment decision"
      and "uid = obs_uid observation"
    using assms by (auto simp: appended_def Let_def split: audit_op.splits option.splits if_splits)
  then show "(entry_index e, prev_hash e) = get_last_entry_info cr l"
    "entry_hash e = recomputed_hash cr e"
    "subject_pseudonym (entry_observation e) = pseudonym_for_uid cr l uid"
    by (simp_all add: next_entry_simps redact_def)
qed

lemma appended_single: "length (appended cr operation l) \<le> 1"
  by (auto simp: appended_def Let_def split: audit_op.split option.split)

section \<open>The chain of a run\<close>

text \<open>\<open>chain_ok cr es l\<close>: the file holds the entries \<open>es\<close>, linked and numbered from 0.\<close>

definition chain_ok :: "audit_crates \<Rightarrow> AuditEntry list \<Rightarrow> AuditLogger \<Rightarrow> bool" where
  "chain_ok cr es l \<longleftrightarrow>
     or_default (chain_file l) = chain_text cr es \<and> list_all (reads_back cr) es \<and>
     linked cr genesis_hash es \<and> map entry_index es = map of_nat [0..<length es] \<and>
     (es = [] \<longrightarrow> audit_log (db l) = [])"

lemma chain_content:
  assumes "or_default file = chain_text cr es" and "list_all (reads_back cr) es"
  shows "chain_lines (or_default (read_to_string file)) = map (\<lambda>e. the (entry_json cr e)) es"
  using assms utf8_valid_text [OF assms(2), of "[]"] chain_lines_text [OF assms(2), of "[]"]
  by (cases "file") (auto simp: read_to_string_def)

lemma last_line_entry_chain:
  assumes "or_default file = chain_text cr es" and "list_all (reads_back cr) es"
  shows "es = [] \<Longrightarrow> last_line_entry cr file = None"
    and "es \<noteq> [] \<Longrightarrow> \<exists>e'. last_line_entry cr file = Some e' \<and>
      entry_index e' = entry_index (last es) \<and> entry_hash e' = entry_hash (last es)"
proof -
  show "es = [] \<Longrightarrow> last_line_entry cr file = None"
    using assms by (cases "file") (simp_all add: last_line_entry_def read_to_string_def)
  assume nonempty: "es \<noteq> []"
  with assms(1) obtain content where some: "file = Some content" by (cases es; cases "file") auto
  have "reads_back cr (last es)" using nonempty assms(2) by (simp add: list_all_iff)
  then obtain e' where "entry_from_json cr (the (entry_json cr (last es))) = Some e'"
    "entry_index e' = entry_index (last es)" "entry_hash e' = entry_hash (last es)"
    by (auto elim: reads_backD)
  with nonempty show "\<exists>e'. last_line_entry cr file = Some e' \<and>
      entry_index e' = entry_index (last es) \<and> entry_hash e' = entry_hash (last es)"
    using chain_content [OF assms] assms utf8_valid_text [OF assms(2), of "[]"]
    by (simp add: last_line_entry_def read_to_string_def some last_map)
qed

lemma last_index:
  assumes "map entry_index es = map of_nat [0..<length es]" and "es \<noteq> []"
  shows "entry_index (last es) + 1 = of_nat (length es)"
proof -
  have "entry_index (last es) = last (map entry_index es)" using assms(2) by (simp add: last_map)
  then have "entry_index (last es) = of_nat (length es - 1)"
    using assms by (simp add: last_map)
  moreover have "length es = Suc (length es - 1)" using assms(2) by simp
  ultimately show ?thesis by (metis of_nat_Suc add.commute)
qed

lemma last_entry_info_chain:
  assumes "chain_ok cr es l"
  shows "get_last_entry_info cr l = (of_nat (length es), last_hash genesis_hash es)"
  using assms last_line_entry_chain [of "chain_file l" cr es] last_index [of es]
  by (auto simp: chain_ok_def get_last_entry_info_def last_hash_def)

lemma chain_step:
  assumes ok: "chain_ok cr es l" and whole: "whole_append operation"
    and readable: "list_all (reads_back cr) (map snd (appended cr operation l))"
  shows "chain_ok cr (es @ map snd (appended cr operation l)) (audit_step cr operation l)"
proof (cases "appended cr operation l")
  case Nil
  then show ?thesis
    using ok step_text [OF whole, of cr l] step_rows [of cr operation l]
    by (auto simp: chain_ok_def)
next
  case (Cons x xs)
  then obtain uid e where e: "appended cr operation l = [(uid, e)]"
    using appended_single [of cr operation l] by (cases x) simp
  then have "(uid, e) \<in> set (appended cr operation l)" by simp
  note new = appended_entry [OF this]
  show ?thesis
    using ok readable new last_entry_info_chain [OF ok] step_text [OF whole, of cr l]
    by (simp add: chain_ok_def e)
qed

lemma chain_run:
  assumes "chain_ok cr es l" and "list_all whole_append operations"
    and "list_all (reads_back cr) (map snd (audit_trace cr operations l))"
  shows "chain_ok cr (es @ map snd (audit_trace cr operations l)) (audit_run cr operations l)"
  using assms
proof (induction operations arbitrary: es l)
  case (Cons operation operations)
  then show ?case
    using chain_step [of cr es l operation] Cons.IH [of "es @ map snd (appended cr operation l)"]
    by simp
qed simp

lemma run_rows:
  "\<exists>rows. audit_log (db (audit_run cr operations l)) = audit_log (db l) @ rows \<and>
          length rows \<le> length (audit_trace cr operations l)"
proof (induction operations arbitrary: l)
  case (Cons operation operations)
  obtain rows where "audit_log (db (audit_step cr operation l)) = audit_log (db l) @ rows"
    "length rows \<le> length (appended cr operation l)"
    using step_rows [of cr operation l] by blast
  moreover obtain rows' where "audit_log (db (audit_run cr operations (audit_step cr operation l))) =
      audit_log (db (audit_step cr operation l)) @ rows'"
    "length rows' \<le> length (audit_trace cr operations (audit_step cr operation l))"
    using Cons.IH by blast
  ultimately show ?case by (intro exI [of _ "rows @ rows'"]) simp
qed simp

lemma verify_chain_ok:
  assumes "chain_ok cr es l"
  shows "verify_chain cr l =
         Inr \<lparr>chain_entries = length es, intact = (length (audit_log (db l)) \<le> length es),
              first_broken_index =
                (if length (audit_log (db l)) \<le> length es then None else Some (of_nat (length es)))\<rparr>"
  using assms chain_content [of "chain_file l" cr es] verify_lines_linked [of cr es genesis_hash 0 "[]"]
  by (simp add: chain_ok_def verify_chain_def)

lemma run_text:
  assumes "list_all whole_append operations"
  shows "or_default (chain_file (audit_run cr operations l)) =
         or_default (chain_file l) @ chain_text cr (map snd (audit_trace cr operations l))"
  using assms by (induction operations arbitrary: l) (simp_all add: step_text)

lemma utf8_valid_lines:
  "list_all (\<lambda>e. utf8_valid (the (entry_json cr e))) es \<Longrightarrow> utf8_valid (chain_text cr es)"
  by (induction es) (simp_all add: utf8_valid_append)

text \<open>A run in which some entry does not survive: up to the first such entry the chain is as it should be.\<close>

lemma serialized: "(uid, e) \<in> set (audit_trace cr operations l) \<Longrightarrow> entry_json cr e \<noteq> None"
  by (induction operations arbitrary: l)
    (auto simp: appended_def Let_def split: audit_op.splits option.splits if_splits)

lemma serialized_text:
  assumes "list_all (serde_line cr) (map snd (audit_trace cr operations l))"
  shows "list_all (\<lambda>e. plain_line (the (entry_json cr e))) (map snd (audit_trace cr operations l))"
  using assms serialized [of _ _ cr operations l] by (fastforce simp: list_all_iff serde_line_def)

lemma first_lost_entry:
  assumes "chain_ok cr es l" and "list_all whole_append operations"
    and "\<not> list_all (reads_back cr) (map snd (audit_trace cr operations l))"
  shows "\<exists>as e bs. map snd (audit_trace cr operations l) = as @ e # bs \<and> \<not> reads_back cr e \<and>
    entry_hash e = recomputed_hash cr e \<and> list_all (reads_back cr) (es @ as) \<and> linked cr genesis_hash (es @ as)"
  using assms
proof (induction operations arbitrary: es l)
  case (Cons operation operations)
  let ?new = "map snd (appended cr operation l)"
  show ?case
  proof (cases "list_all (reads_back cr) ?new")
    case True
    from chain_step [OF Cons.prems(1) _ this] Cons.prems(2)
    have "chain_ok cr (es @ ?new) (audit_step cr operation l)" by simp
    from Cons.IH [OF this] Cons.prems(2,3) True obtain as e bs where
      "map snd (audit_trace cr operations (audit_step cr operation l)) = as @ e # bs" "\<not> reads_back cr e"
      "entry_hash e = recomputed_hash cr e" "list_all (reads_back cr) ((es @ ?new) @ as)"
      "linked cr genesis_hash ((es @ ?new) @ as)" by auto
    then show ?thesis by (intro exI [of _ "?new @ as"] exI [of _ e] exI [of _ bs]) simp
  next
    case False
    then obtain uid e where e: "appended cr operation l = [(uid, e)]" "\<not> reads_back cr e"
      using appended_single [of cr operation l] by (cases "appended cr operation l") auto
    then have "entry_hash e = recomputed_hash cr e" using appended_entry(2) [of uid e cr operation l] by simp
    with e Cons.prems(1) show ?thesis
      by (intro exI [of _ "[]"] exI [of _ e]
          exI [of _ "map snd (audit_trace cr operations (audit_step cr operation l))"]) (simp add: chain_ok_def)
  qed
qed simp

lemma lost_entry_not_intact:
  assumes "chain_ok cr es l" and whole: "list_all whole_append operations"
    and serde: "list_all (serde_line cr) (map snd (audit_trace cr operations l))"
    and "\<not> list_all (reads_back cr) (map snd (audit_trace cr operations l))"
  shows "verify_chain cr (audit_run cr operations l) = Inr v \<Longrightarrow> \<not> intact v"
proof -
  obtain as e bs where split: "map snd (audit_trace cr operations l) = as @ e # bs" "\<not> reads_back cr e"
      "entry_hash e = recomputed_hash cr e" and good: "list_all (reads_back cr) (es @ as)"
      "linked cr genesis_hash (es @ as)"
    using first_lost_entry [OF assms(1,2,4)] by blast
  let ?l = "audit_run cr operations l"
  from serialized_text [OF serde] split(1) have "plain_line (the (entry_json cr e))"
    and bs: "list_all (\<lambda>e. utf8_valid (the (entry_json cr e))) bs" by (auto simp: plain_line_def list_all_iff)
  moreover obtain uid where "(uid, e) \<in> set (audit_trace cr operations l)"
    using split(1) by (metis (no_types, lifting) in_set_conv_decomp imageE prod.collapse set_map)
  from serialized [OF this] obtain line where line: "entry_json cr e = Some line" by auto
  ultimately have plain: "plain_line line" by simp
  have serde_e: "serde_line cr e" using serde split(1) by (simp add: list_all_iff)
  have content: "or_default (chain_file ?l) = chain_text cr (es @ as) @ line @ 0x0A # chain_text cr bs"
    using assms(1) run_text [OF whole, of cr l] by (simp add: chain_ok_def split(1) line)
  moreover have "utf8_valid (or_default (chain_file ?l))"
    using plain utf8_valid_lines [OF bs]
    unfolding content utf8_valid_text [OF good(1)] by (simp add: utf8_valid_append plain_line_def)
  ultimately have read: "or_default (read_to_string (chain_file ?l)) =
      chain_text cr (es @ as) @ line @ 0x0A # chain_text cr bs"
    by (cases "chain_file ?l") (auto simp: read_to_string_def)
  have "verify_lines cr (last_hash genesis_hash (es @ as)) n (line # lines) \<in>
      {Inl Bad_json, Inr (n, Some (entry_index e))}" for n lines
    using serde_e split(2,3) plain
    by (auto simp: serde_line_def reads_back_def line split: option.splits)
  from this [of "0 + length (es @ as)" "chain_lines (chain_text cr bs)"]
  show "verify_chain cr ?l = Inr v \<Longrightarrow> \<not> intact v"
    unfolding verify_chain_def read chain_lines_text [OF good(1)] chain_lines_Cons [OF plain]
      verify_lines_linked [OF good]
    by auto
qed

text \<open>C20: after a run that starts with a new log and in which no write stops inside a line, the chain
  verifies exactly when every entry survives the way through its line: it parses, and its digest computed
  again is the one it carries. Then the verification counts all of them, and they stand in the file in their
  order, numbered from 0. Of the serialisation it is used that an entry is one line of text and that index
  and digests come back as they were, not that numbers do.\<close>

theorem logged_chain_verifies:
  assumes "or_default (chain_file l) = []" and "audit_log (db l) = []"
    and "list_all whole_append operations"
    and "list_all (serde_line cr) (map snd (audit_trace cr operations l))"
  shows "let es = map snd (audit_trace cr operations l); l' = audit_run cr operations l
         in ((\<exists>v. verify_chain cr l' = Inr v \<and> intact v) \<longleftrightarrow> list_all (reads_back cr) es) \<and>
            (list_all (reads_back cr) es \<longrightarrow>
               verify_chain cr l' =
                 Inr \<lparr>chain_entries = length es, intact = True, first_broken_index = None\<rparr> \<and>
               or_default (chain_file l') = chain_text cr es \<and>
               map entry_index es = map of_nat [0..<length es])"
proof -
  have new: "chain_ok cr [] l" using assms(1,2) by (simp add: chain_ok_def)
  let ?es = "map snd (audit_trace cr operations l)" and ?l = "audit_run cr operations l"
  have rows: "length (audit_log (db ?l)) \<le> length (audit_trace cr operations l)"
    using run_rows [of cr operations l] assms(2) by auto
  have good: "verify_chain cr ?l = Inr \<lparr>chain_entries = length ?es, intact = True, first_broken_index = None\<rparr> \<and>
      or_default (chain_file ?l) = chain_text cr ?es \<and> map entry_index ?es = map of_nat [0..<length ?es]"
    if "list_all (reads_back cr) ?es"
  proof -
    from chain_run [OF new assms(3) that] have "chain_ok cr ?es ?l" by simp
    with verify_chain_ok [OF this] rows show ?thesis by (simp add: chain_ok_def)
  qed
  moreover have "list_all (reads_back cr) ?es" if "verify_chain cr ?l = Inr v" "intact v" for v
    using lost_entry_not_intact [OF new assms(3,4) _ that(1)] that(2) by blast
  ultimately show ?thesis unfolding Let_def by fastforce
qed

text \<open>A log whose file continues from some digest, not necessarily from the beginning: after the whole file is
  gone the next entry is linked to the last row of the mirror.\<close>

definition continues :: "audit_crates \<Rightarrow> byte list \<Rightarrow> AuditEntry list \<Rightarrow> AuditLogger \<Rightarrow> bool" where
  "continues cr prev es l \<longleftrightarrow>
     or_default (chain_file l) = chain_text cr es \<and> list_all (reads_back cr) es \<and> linked cr prev es \<and>
     snd (get_last_entry_info cr l) = last_hash prev es"

lemma info_from_lines:
  assumes "or_default (chain_file l) = chain_text cr es" "list_all (reads_back cr) es" "es \<noteq> []"
  shows "snd (get_last_entry_info cr l) = entry_hash (last es)"
  using last_line_entry_chain(2) [OF assms] by (auto simp: get_last_entry_info_def)

lemma info_without_lines:
  assumes "or_default (chain_file l) = []"
  shows "snd (get_last_entry_info cr l) =
    (if audit_log (db l) = [] then genesis_hash else row_entry_hash (last (audit_log (db l))))"
  using last_line_entry_chain(1) [of "chain_file l" cr "[]"] assms
  by (simp add: get_last_entry_info_def Let_def)

lemma continues_step:
  assumes ok: "continues cr prev es l" and whole: "whole_append operation"
    and readable: "list_all (reads_back cr) (map snd (appended cr operation l))"
  shows "continues cr prev (es @ map snd (appended cr operation l)) (audit_step cr operation l)"
proof (cases "appended cr operation l")
  case Nil
  then have text_kept: "or_default (chain_file (audit_step cr operation l)) = or_default (chain_file l)"
    and rows: "audit_log (db (audit_step cr operation l)) = audit_log (db l)"
    using step_text [OF whole, of cr l] step_rows [of cr operation l] by auto
  have "snd (get_last_entry_info cr (audit_step cr operation l)) = snd (get_last_entry_info cr l)"
  proof (cases "es = []")
    case True
    with ok have "or_default (chain_file l) = []" by (simp add: continues_def)
    with text_kept rows show ?thesis by (simp add: info_without_lines)
  next
    case False
    with ok text_kept show ?thesis by (simp add: info_from_lines [of _ cr es] continues_def last_hash_def)
  qed
  with ok text_kept Nil show ?thesis by (simp add: continues_def)
next
  case (Cons x xs)
  then obtain uid e where e: "appended cr operation l = [(uid, e)]"
    using appended_single [of cr operation l] by (cases x) simp
  then have "(uid, e) \<in> set (appended cr operation l)" by simp
  note new = appended_entry [OF this]
  have "prev_hash e = last_hash prev es" using new(1) ok by (metis continues_def snd_conv)
  moreover have "or_default (chain_file (audit_step cr operation l)) = chain_text cr (es @ [e])"
    using ok step_text [OF whole, of cr l] by (simp add: continues_def e)
  moreover have "list_all (reads_back cr) (es @ [e])" using ok readable by (simp add: continues_def e)
  ultimately show ?thesis
    using ok new(2) info_from_lines [of "audit_step cr operation l" cr "es @ [e]"]
    by (simp add: continues_def e last_hash_def)
qed

lemma continues_run:
  assumes "continues cr prev es l" and "list_all whole_append operations"
    and "list_all (reads_back cr) (map snd (audit_trace cr operations l))"
  shows "continues cr prev (es @ map snd (audit_trace cr operations l)) (audit_run cr operations l)"
  using assms
proof (induction operations arbitrary: es l)
  case (Cons operation operations)
  then show ?case
    using continues_step [of cr prev es l operation] Cons.IH [of "es @ map snd (appended cr operation l)"]
    by simp
qed simp

lemma verify_continues:
  assumes "continues cr prev es l"
  shows "\<exists>v. verify_chain cr l = Inr v \<and>
    (intact v \<longleftrightarrow> (es = [] \<or> prev = genesis_hash) \<and> length (audit_log (db l)) \<le> length es)"
proof (cases "es = [] \<or> prev = genesis_hash")
  case True
  with assms show ?thesis
    using chain_content [of "chain_file l" cr es] verify_lines_linked [of cr es genesis_hash 0 "[]"]
    by (auto simp: continues_def verify_chain_def)
next
  case False
  then obtain e es' where es: "es = e # es'" by (cases es) auto
  with assms have "reads_back cr e" "prev_hash e \<noteq> genesis_hash"
    using False by (auto simp: continues_def)
  with assms False show ?thesis
    using chain_content [of "chain_file l" cr es]
    by (auto simp: continues_def verify_chain_def es elim!: reads_backD)
qed

text \<open>C23: of a chain in order, lines are lost at the end of the file, up to the whole file, and the log goes
  on; no later write stops inside a line, and the later entries survive the way through their lines. Then the
  chain verifies exactly when the mirror has no more rows than the file has lines, so that each entry ever
  logged without reaching the mirror hides one lost line; but when nothing was left of the file and the mirror
  was not empty, the verification fails for ever, unless the digest in the mirror's last row was that which stands
  before the first entry.\<close>

theorem lost_entries_hidden:
  assumes "chain_ok cr es l" and "k \<le> length es" and "or_default left = chain_text cr (take k es)"
    and "list_all whole_append operations"
    and "list_all (reads_back cr) (map snd (audit_trace cr operations (l\<lparr>chain_file := left\<rparr>)))"
  shows "let cut = l\<lparr>chain_file := left\<rparr>; l' = audit_run cr operations cut;
             logged = length (audit_trace cr operations cut); rows = audit_log (db l)
         in \<exists>v. verify_chain cr l' = Inr v \<and>
              (intact v \<longleftrightarrow>
                 length (audit_log (db l')) \<le> k + logged \<and>
                 (k = 0 \<and> rows \<noteq> [] \<longrightarrow> row_entry_hash (last rows) = genesis_hash))"
proof -
  let ?cut = "l\<lparr>chain_file := left\<rparr>" and ?rows = "audit_log (db l)"
  let ?new = "map snd (audit_trace cr operations ?cut)"
  define prev where "prev = (if k = 0 \<and> ?rows \<noteq> [] then row_entry_hash (last ?rows) else genesis_hash)"
  have taken: "list_all (reads_back cr) (take k es)" "linked cr genesis_hash (take k es)"
    using assms(1) by (auto simp: chain_ok_def list_all_iff linked_take dest: in_set_takeD)
  have "continues cr prev (take k es) ?cut"
  proof (cases "k = 0")
    case True
    with assms(3) show ?thesis by (simp add: continues_def info_without_lines prev_def)
  next
    case False
    show ?thesis
    proof (cases "es = []")
      case True
      with assms(1,3) have "?rows = []" by (simp add: chain_ok_def)
      with True assms(3) show ?thesis by (simp add: continues_def info_without_lines prev_def)
    next
      case nonempty: False
      with False have "take k es \<noteq> []" by simp
      with False taken assms(3) show ?thesis
        by (simp add: continues_def info_from_lines [of _ cr "take k es"] prev_def last_hash_def)
    qed
  qed
  from verify_continues [OF continues_run [OF this assms(4,5)]] obtain v where
    v: "verify_chain cr (audit_run cr operations ?cut) = Inr v"
    "intact v \<longleftrightarrow> (take k es @ ?new = [] \<or> prev = genesis_hash) \<and>
       length (audit_log (db (audit_run cr operations ?cut))) \<le> k + length ?new"
    using assms(2) by (auto simp: min_absorb2)
  have "?rows = []" if "take k es @ ?new = []" "length (audit_log (db (audit_run cr operations ?cut))) \<le> k + length ?new"
  proof -
    obtain rows' where "audit_log (db (audit_run cr operations ?cut)) = ?rows @ rows'"
      using run_rows [of cr operations ?cut] by auto
    with that assms(1,2) show ?thesis by (cases "k = 0") (auto simp: chain_ok_def)
  qed
  with v show ?thesis by (auto simp: Let_def prev_def split: if_splits)
qed

text \<open>C22: an entry whose line parses to something else, as a number does that the parser of \<^verbatim>\<open>serde_json\<close>
  rounds differently, ends the verification at its place for good: whatever is logged afterwards, the
  chain is reported as broken there, and nothing behind it is looked at.\<close>

theorem unstable_entry_breaks_chain:
  assumes ok: "chain_ok cr es l"
    and logged: "appended cr operation l = [(uid, e)]" "whole_append operation"
    and line: "entry_json cr e = Some line" "plain_line line"
    and parsed: "entry_from_json cr line = Some e'" "entry_hash e' \<noteq> recomputed_hash cr e'"
    and later: "list_all whole_append operations"
      "list_all (\<lambda>(uid, e). utf8_valid (the (entry_json cr e)))
         (audit_trace cr operations (audit_step cr operation l))"
  shows "verify_chain cr (audit_run cr (operation # operations) l) =
         Inr \<lparr>chain_entries = length es, intact = False, first_broken_index = Some (entry_index e')\<rparr>"
proof -
  let ?new = "map snd (audit_trace cr operations (audit_step cr operation l))"
  let ?l = "audit_run cr (operation # operations) l"
  from ok have es: "list_all (reads_back cr) es" "linked cr genesis_hash es"
    by (simp_all add: chain_ok_def)
  have content: "or_default (chain_file ?l) = chain_text cr es @ line @ 0x0A # chain_text cr ?new"
    using ok step_text [OF logged(2), of cr l] run_text [OF later(1)]
    by (simp add: chain_ok_def logged(1) line(1))
  have "utf8_valid (chain_text cr ?new)"
    using later(2) by (intro utf8_valid_lines) (auto simp: list_all_iff)
  with line(2) have "utf8_valid (or_default (chain_file ?l))"
    unfolding content by (simp add: utf8_valid_text [OF es(1)] utf8_valid_append plain_line_def)
  with content have read: "or_default (read_to_string (chain_file ?l)) =
      chain_text cr es @ line @ 0x0A # chain_text cr ?new"
    by (cases "chain_file ?l") (auto simp: read_to_string_def)
  show ?thesis
    unfolding verify_chain_def read chain_lines_text [OF es(1)] chain_lines_Cons [OF line(2)]
      verify_lines_linked [OF es]
    using parsed by simp
qed

section \<open>What a verified chain determines\<close>

text \<open>A chain of digests in general: \<open>claimed\<close> is the digest an entry carries, \<open>prev\<close> that of its
  predecessor, which the entry's preimage contains.\<close>

locale hash_chain =
  fixes digest :: "'b \<Rightarrow> 'h" and preimage :: "'e \<Rightarrow> 'b" and prev :: "'e \<Rightarrow> 'h" and claimed :: "'e \<Rightarrow> 'h"
    and well_formed :: "'h \<Rightarrow> bool"
  assumes prev_committed:
    "preimage e = preimage e' \<Longrightarrow> well_formed (prev e) \<Longrightarrow> well_formed (prev e') \<Longrightarrow> prev e = prev e'"
begin

definition valid_link :: "'e \<Rightarrow> bool" where
  "valid_link e \<longleftrightarrow> claimed e = digest (preimage e)"

fun chained :: "'h \<Rightarrow> 'e list \<Rightarrow> bool" where
  "chained h [] \<longleftrightarrow> True"
| "chained h (e # es) \<longleftrightarrow> prev e = h \<and> valid_link e \<and> chained (claimed e) es"

definition collision :: "'b set \<Rightarrow> bool" where
  "collision B \<longleftrightarrow> (\<exists>x\<in>B. \<exists>y\<in>B. x \<noteq> y \<and> digest x = digest y)"

lemma collision_mono: "collision A \<Longrightarrow> A \<subseteq> B \<Longrightarrow> collision B"
  unfolding collision_def by blast

lemma chained_snoc:
  "chained h (es @ [e]) \<longleftrightarrow>
   chained h es \<and> prev e = (if es = [] then h else claimed (last es)) \<and> valid_link e"
  by (induction es arbitrary: h) auto

lemma unique_or_collision:
  assumes "chained h es" and "chained h es'" and "length es = length es'" and "es \<noteq> []"
    and "claimed (last es) = claimed (last es')"
    and "\<forall>e \<in> set es \<union> set es'. well_formed (prev e)"
  shows "map preimage es = map preimage es' \<or> collision (preimage ` (set es \<union> set es'))"
  using assms
proof (induction es arbitrary: es' rule: rev_induct)
  case (snoc e es)
  then obtain fs f where es': "es' = fs @ [f]" and len: "length es = length fs"
    by (cases es' rule: rev_cases) auto
  from snoc.prems have links: "chained h es" "chained h fs"
      "prev e = (if es = [] then h else claimed (last es))"
      "prev f = (if fs = [] then h else claimed (last fs))" "valid_link e" "valid_link f"
    by (simp_all add: es' chained_snoc)
  with snoc.prems(5) have "digest (preimage e) = digest (preimage f)"
    by (simp add: es' valid_link_def)
  then consider "preimage e = preimage f" | "collision (preimage ` {e, f})"
    unfolding collision_def by blast
  then show ?case
  proof cases
    case 1
    show ?thesis
    proof (cases "es = []")
      case False
      with len have "fs \<noteq> []" by auto
      moreover have "prev e = prev f" using 1 snoc.prems(6) by (intro prev_committed) (simp_all add: es')
      ultimately have "claimed (last es) = claimed (last fs)" using links(3,4) False by simp
      moreover have "\<forall>e \<in> set es \<union> set fs. well_formed (prev e)" using snoc.prems(6) by (simp add: es')
      ultimately have "map preimage es = map preimage fs \<or> collision (preimage ` (set es \<union> set fs))"
        using snoc.IH [of fs] links(1,2) len False by blast
      with 1 show ?thesis
        using collision_mono [of "preimage ` (set es \<union> set fs)" "preimage ` (set (es @ [e]) \<union> set es')"]
        by (auto simp: es')
    qed (use 1 len es' in simp)
  next
    case 2
    then show ?thesis by (rule disjI2 [OF collision_mono]) (auto simp: es')
  qed
qed simp

end

subsection \<open>The entries of a file\<close>

definition chain_of :: "audit_crates \<Rightarrow> AuditLogger \<Rightarrow> AuditEntry list" where
  "chain_of cr l = List.map_filter (entry_from_json cr) (chain_lines (or_default (read_to_string (chain_file l))))"

text \<open>What the digest of an entry covers.\<close>

definition committed :: "audit_crates \<Rightarrow> AuditEntry \<Rightarrow> u64 \<times> u64 \<times> byte list \<times> byte list" where
  "committed cr e =
     (entry_index e, entry_timestamp e, prev_hash e,
      entry_bodies cr (entry_observation e) (entry_intent e) (entry_assessment e) (entry_decision e))"

lemma u64_to_be_bytes_inj: "u64_to_be_bytes w = u64_to_be_bytes w' \<longleftrightarrow> w = w'"
proof
  assume "u64_to_be_bytes w = u64_to_be_bytes w'"
  then have "word_bytes 8 w = word_bytes 8 w'" by (simp add: u64_to_be_bytes_def)
  then have "(le_word (word_bytes 8 w) :: u64) = le_word (word_bytes 8 w')" by simp
  then show "w = w'" by (simp add: le_word_word_bytes)
qed simp

lemma length_u64_to_be_bytes [simp]: "length (u64_to_be_bytes w) = 8"
  by (simp add: u64_to_be_bytes_def)

lemma preimage_committed:
  assumes "entry_preimage cr e = entry_preimage cr e'" and "length (prev_hash e) = length (prev_hash e')"
  shows "committed cr e = committed cr e'"
  using assms by (simp add: entry_preimage_def committed_def u64_to_be_bytes_inj)

interpretation audit_chain: hash_chain "\<lambda>b. to_hex cr (sha256 cr b)" "entry_preimage cr" prev_hash entry_hash
  "\<lambda>h. length h = 64" for cr
  by unfold_locales (auto simp: entry_preimage_def u64_to_be_bytes_inj)

lemma linked_chained: "linked cr h es = audit_chain.chained cr h es"
  by (induction es arbitrary: h)
    (simp_all add: audit_chain.valid_link_def recomputed_hash_def calculate_hash_def entry_preimage_def)

lemma verify_lines_intact:
  assumes "verify_lines cr h n lines = Inr (m, None)"
  shows "linked cr h (List.map_filter (entry_from_json cr) lines) \<and>
         m = n + length (List.map_filter (entry_from_json cr) lines)"
  using assms
proof (induction lines arbitrary: h n)
  case (Cons line lines)
  then obtain e where e: "entry_from_json cr line = Some e" "prev_hash e = h"
      "recomputed_hash cr e = entry_hash e" and rest: "verify_lines cr (entry_hash e) (Suc n) lines = Inr (m, None)"
    by (auto split: option.splits if_splits)
  show ?case using Cons.IH [OF rest] by (simp add: List.map_filter_simps e)
qed (simp add: List.map_filter_simps)

lemma verified_chain:
  assumes "verify_chain cr l = Inr v" and "intact v"
  shows "linked cr genesis_hash (chain_of cr l)" and "chain_entries v = length (chain_of cr l)"
  using assms verify_lines_intact [of cr genesis_hash 0]
  by (auto simp: verify_chain_def chain_of_def split: sum.splits option.splits if_splits)

definition hex_lengths :: "audit_crates \<Rightarrow> bool" where
  "hex_lengths cr \<longleftrightarrow>
     (\<forall>b. length (to_hex cr b) = 2 * length b \<and> from_hex cr (to_hex cr b) = Some b)"

lemma to_hex_inj: "hex_lengths cr \<Longrightarrow> to_hex cr x = to_hex cr y \<Longrightarrow> x = y"
  unfolding hex_lengths_def by (metis option.inject)

lemma linked_prev_length:
  assumes "linked cr h es" and "length h = 64"
    and "hex_lengths cr" and "\<forall>b. length (sha256 cr b) = 32"
  shows "\<forall>e \<in> set es. length (prev_hash e) = 64"
  using assms
proof (induction es arbitrary: h)
  case (Cons e es)
  have "length (entry_hash e) = 64"
    using Cons.prems by (simp add: recomputed_hash_def calculate_hash_def hex_lengths_def)
  with Cons show ?case by auto
qed simp

text \<open>C21: the last digest and the number of entries pin down a verified chain: two logs that verify and
  agree on both agree on everything their digests cover, or exhibit two inputs with the same SHA-256.\<close>

theorem anchored_chain_unique:
  assumes "verify_chain cr l = Inr v" "intact v" and "verify_chain cr l' = Inr v'" "intact v'"
    and "chain_entries v = chain_entries v'"
    and "last_hash genesis_hash (chain_of cr l) = last_hash genesis_hash (chain_of cr l')"
    and "hex_lengths cr" and "\<forall>b. length (sha256 cr b) = 32"
  shows "map (committed cr) (chain_of cr l) = map (committed cr) (chain_of cr l') \<or>
         (\<exists>x \<in> entry_preimage cr ` (set (chain_of cr l) \<union> set (chain_of cr l')).
          \<exists>y \<in> entry_preimage cr ` (set (chain_of cr l) \<union> set (chain_of cr l')).
            x \<noteq> y \<and> sha256 cr x = sha256 cr y)"
proof (cases "chain_of cr l = []")
  case False
  let ?es = "chain_of cr l" and ?es' = "chain_of cr l'"
  note v = verified_chain [OF assms(1,2)] and v' = verified_chain [OF assms(3,4)]
  have len: "length ?es = length ?es'" using v(2) v'(2) assms(5) by metis
  with False have ne: "?es' \<noteq> []" by (metis length_0_conv)
  have last: "entry_hash (last ?es) = entry_hash (last ?es')"
    using assms(6) unfolding last_hash_def if_not_P [OF False] if_not_P [OF ne] .
  have zeros: "length genesis_hash = 64" by (simp add: genesis_hash_def)
  have prevs: "\<forall>e \<in> set ?es \<union> set ?es'. length (prev_hash e) = 64"
    using linked_prev_length [OF v(1) zeros assms(7,8)] linked_prev_length [OF v'(1) zeros assms(7,8)]
    by blast
  have "map (entry_preimage cr) ?es = map (entry_preimage cr) ?es' \<or>
      audit_chain.collision cr (entry_preimage cr ` (set ?es \<union> set ?es'))"
    by (rule audit_chain.unique_or_collision
          [OF v(1) [unfolded linked_chained] v'(1) [unfolded linked_chained] len False last prevs])
  then show ?thesis
  proof
    assume same: "map (entry_preimage cr) ?es = map (entry_preimage cr) ?es'"
    have "map (committed cr) ?es = map (committed cr) ?es'"
    proof (rule nth_equalityI)
      fix i assume "i < length (map (committed cr) ?es)"
      then have i: "i < length ?es" "i < length ?es'" using len by simp_all
      then have pre: "entry_preimage cr (?es ! i) = entry_preimage cr (?es' ! i)"
        using arg_cong [OF same, of "\<lambda>xs. xs ! i"] by (simp only: nth_map)
      have "length (prev_hash (?es ! i)) = length (prev_hash (?es' ! i))"
        using bspec [OF prevs UnI1 [OF nth_mem [OF i(1)]]] bspec [OF prevs UnI2 [OF nth_mem [OF i(2)]]]
        by (rule trans [OF _ sym])
      from preimage_committed [OF pre this]
      show "map (committed cr) ?es ! i = map (committed cr) ?es' ! i"
        using i by (simp only: nth_map)
    qed (simp add: len)
    then show ?thesis by (rule disjI1)
  next
    assume "audit_chain.collision cr (entry_preimage cr ` (set ?es \<union> set ?es'))"
    then obtain x y where xy: "x \<in> entry_preimage cr ` (set ?es \<union> set ?es')"
      "y \<in> entry_preimage cr ` (set ?es \<union> set ?es')" "x \<noteq> y"
      and hex: "to_hex cr (sha256 cr x) = to_hex cr (sha256 cr y)"
      unfolding audit_chain.collision_def by (elim bexE conjE)
    have "sha256 cr x = sha256 cr y" by (rule to_hex_inj [OF assms(7) hex])
    with xy(3) show ?thesis by (intro disjI2 bexI [OF _ xy(1)] bexI [OF _ xy(2)] conjI)
  qed
next
  case True
  have "length (chain_of cr l') = length (chain_of cr l)"
    using verified_chain(2) [OF assms(1,2)] verified_chain(2) [OF assms(3,4)] assms(5) by metis
  with True have "chain_of cr l' = []" by simp
  with True show ?thesis by simp
qed

section \<open>Erasure\<close>

text \<open>The salts of the epochs, and that the active one is among them.\<close>

definition epoch_salts :: "audit_crates \<Rightarrow> audit_db \<Rightarrow> byte list option list" where
  "epoch_salts cr d = map (\<lambda>row. from_hex cr (salt_row_salt row)) (audit_salt_epoch d)"

definition salts_ok :: "audit_crates \<Rightarrow> AuditLogger \<Rightarrow> bool" where
  "salts_ok cr l \<longleftrightarrow>
     None \<notin> set (epoch_salts cr (db l)) \<and>
     Some (active_salt (salt_state l)) \<in> set (epoch_salts cr (db l))"

lemma pseudonyms_all_epochs:
  "set (pseudonyms_for_uid_all_epochs cr l uid) =
   {uid_pseudonym cr s uid | s. Some s \<in> set (epoch_salts cr (db l))}"
proof -
  have "set (foldl (\<lambda>out row. case from_hex cr (salt_row_salt row) of None \<Rightarrow> out
               | Some s \<Rightarrow> (let p = uid_pseudonym cr s uid in if p \<in> set out then out else out @ [p])) out rows)
        = set out \<union> {uid_pseudonym cr s uid | s. Some s \<in> (\<lambda>row. from_hex cr (salt_row_salt row)) ` set rows}"
    for out rows
  proof (induction rows arbitrary: out)
    case (Cons row rows)
    show ?case
    proof (cases "from_hex cr (salt_row_salt row)")
      case None
      then show ?thesis using Cons.IH [of out] by auto
    next
      case (Some s)
      then show ?thesis
        using Cons.IH [of out] Cons.IH [of "out @ [uid_pseudonym cr s uid]"]
        by (auto simp: Let_def)
    qed
  qed simp
  from this [of "[]" "audit_salt_epoch (db l)"] show ?thesis
    by (simp add: pseudonyms_for_uid_all_epochs_def epoch_salts_def)
qed

lemma epoch_salts_insert [simp]:
  "epoch_salts cr (insert_salt_row h now d) = epoch_salts cr d @ [from_hex cr h]"
  by (simp add: epoch_salts_def insert_salt_row_def)

lemma insert_salt_epoch_salts:
  assumes "insert_salt_epoch cr writable random now d = Inr (s, d')" and "hex_lengths cr"
  shows "epoch_salts cr d' = epoch_salts cr d @ [Some (active_salt s)]"
  using assms by (auto simp: insert_salt_epoch_def hex_lengths_def split: if_splits)

lemma load_active_salt_ok:
  assumes "load_active_salt cr d = Some s" and "None \<notin> set (epoch_salts cr d)"
  shows "Some (active_salt s) \<in> set (epoch_salts cr d)"
proof -
  let ?row = "last (audit_salt_epoch d)"
  from assms(1) have row: "?row \<in> set (audit_salt_epoch d)"
    and s: "active_salt s = or_default (from_hex cr (salt_row_salt ?row))"
    by (auto simp: load_active_salt_def Let_def split: if_splits)
  then have "from_hex cr (salt_row_salt ?row) \<noteq> None"
    using assms(2) by (force simp: epoch_salts_def)
  with row s show ?thesis by (force simp: epoch_salts_def)
qed

lemma rotate_salts:
  assumes "hex_lengths cr" and "salts_ok cr l"
  shows "salts_ok cr (snd (rotate_pseudonym_salt cr writable random now l)) \<and>
         set (epoch_salts cr (db l)) \<subseteq> set (epoch_salts cr (db (snd (rotate_pseudonym_salt cr writable random now l))))"
  using assms(2) insert_salt_epoch_salts [OF _ assms(1)]
  by (auto simp: rotate_pseudonym_salt_def salts_ok_def split: sum.split)

lemma mirror_salts [simp]: "epoch_salts cr (mirror_entry cr env e json canonical d) = epoch_salts cr d"
  by (auto simp: mirror_entry_def subject_key_def epoch_salts_def Let_def split: option.split)

lemma new_logger_salts:
  assumes "hex_lengths cr" and "new_logger cr writable random1 random2 now max_age argv_flag file d = Some l"
    and "None \<notin> set (epoch_salts cr d)"
  shows "salts_ok cr l \<and> set (epoch_salts cr d) \<subseteq> set (epoch_salts cr (db l))"
proof -
  define d1 where "d1 = (if audit_salt_epoch d = [] \<and> writable
                         then insert_salt_row (first_salt cr random1 d) now d else d)"
  have "from_hex cr (first_salt cr random1 d) \<noteq> None"
    using assms(1) by (auto simp: first_salt_def hex_lengths_def split: option.split)
  then have d1: "None \<notin> set (epoch_salts cr d1)" "set (epoch_salts cr d) \<subseteq> set (epoch_salts cr d1)"
    using assms(3) by (auto simp: d1_def)
  from assms(2) obtain active where active: "load_active_salt cr d1 = Some active"
    by (auto simp: new_logger_def d1_def [symmetric] Let_def split: option.splits)
  have "(salt_state l = active \<and> db l = d1) \<or>
        (\<exists>now. insert_salt_epoch cr writable random2 now d1 = Inr (salt_state l, db l))"
    using assms(2) active
    by (auto simp: new_logger_def d1_def [symmetric] Let_def split: sum.splits if_splits)
  then show ?thesis
    using d1 load_active_salt_ok [OF active d1(1)] insert_salt_epoch_salts [OF _ assms(1)]
    by (auto simp: salts_ok_def)
qed

lemma step_salts:
  assumes "hex_lengths cr" and "salts_ok cr l"
  shows "salts_ok cr (audit_step cr operation l) \<and>
         set (epoch_salts cr (db l)) \<subseteq> set (epoch_salts cr (db (audit_step cr operation l)))"
proof (cases operation)
  case (Log env observation intent assessment decision)
  then show ?thesis using assms(2)
    by (auto simp: audit_step_def log_entry_def append_file_def salts_ok_def Let_def
        split: option.split append_outcome.split)
next
  case (Rotate writable random now)
  then show ?thesis using rotate_salts [OF assms] by (simp add: audit_step_def)
next
  case (Enforce_rotation writable random now)
  then show ?thesis
    using rotate_salts [OF assms, of writable random now] assms(2)
    by (auto simp: audit_step_def enforce_salt_rotation_policy_def split: prod.splits sum.splits)
next
  case (Erase_subject commits subject)
  then show ?thesis using assms(2) erase_subject_frame [of commits subject l]
    by (simp add: audit_step_def salts_ok_def epoch_salts_def)
next
  case (Erase_uid commits uid)
  then show ?thesis using assms(2) erase_subjects_frame [of commits 0 _ l]
    by (simp add: audit_step_def erase_uid_def salts_ok_def epoch_salts_def)
next
  case (Restart writable random1 random2 now max_age argv_flag)
  then show ?thesis
    using assms new_logger_salts [OF assms(1)]
    by (auto simp: audit_step_def salts_ok_def split: option.split)
qed

lemma run_salts:
  assumes "hex_lengths cr" and "salts_ok cr l" and "(uid, e) \<in> set (audit_trace cr operations l)"
  shows "subject_pseudonym (entry_observation e) \<in>
         set (pseudonyms_for_uid_all_epochs cr (audit_run cr operations l) uid)"
proof -
  have mono: "salts_ok cr l \<Longrightarrow>
      set (epoch_salts cr (db l)) \<subseteq> set (epoch_salts cr (db (audit_run cr operations l)))" for l operations
  proof (induction operations arbitrary: l)
    case (Cons operation operations)
    then show ?case
      using step_salts [OF assms(1) Cons.prems, of operation]
      by (auto dest!: Cons.IH)
  qed simp
  from assms(2,3) show ?thesis
  proof (induction operations arbitrary: l)
    case (Cons operation operations)
    note step = step_salts [OF assms(1) Cons.prems(1), of operation]
    show ?case
    proof (cases "(uid, e) \<in> set (appended cr operation l)")
      case True
      have "Some (active_salt (salt_state l)) \<in> set (epoch_salts cr (db (audit_run cr (operation # operations) l)))"
        using Cons.prems(1) mono [OF Cons.prems(1), of "operation # operations"] by (auto simp: salts_ok_def)
      then show ?thesis
        unfolding pseudonyms_all_epochs appended_entry(3) [OF True] pseudonym_for_uid_def by blast
    qed (use Cons step in auto)
  qed simp
qed

text \<open>The database without the rows and the keys of some subjects.\<close>

definition without_subjects :: "byte list list \<Rightarrow> audit_db \<Rightarrow> audit_db" where
  "without_subjects subjects d =
     d\<lparr>audit_pii := filter (\<lambda>row. pii_row_subject row \<notin> set subjects) (audit_pii d),
       audit_pii_key := (\<lambda>s. if s \<in> set subjects then None else audit_pii_key d s)\<rparr>"

lemma erase_subject_result:
  "commits subject \<Longrightarrow>
   \<exists>n. erase_subject commits subject l = (Inr n, l\<lparr>db := without_subjects [subject] (db l)\<rparr>)"
  by (simp add: erase_subject_def without_subjects_def Let_def fun_upd_def)

lemma without_subjects_Cons:
  "without_subjects subjects (without_subjects [subject] d) = without_subjects (subject # subjects) d"
  by (auto simp: without_subjects_def intro!: audit_db.equality filter_cong)

lemma without_subjects_Nil [simp]: "without_subjects [] d = d"
  by (simp add: without_subjects_def)

lemma erase_subjects_result:
  assumes "\<forall>s \<in> set subjects. commits s"
  shows "\<exists>n. erase_subjects commits removed subjects l = (Inr n, l\<lparr>db := without_subjects subjects (db l)\<rparr>)"
  using assms
proof (induction subjects arbitrary: removed l)
  case (Cons subject subjects)
  from Cons.prems have "commits subject" by simp
  then obtain n where "erase_subject commits subject l = (Inr n, l\<lparr>db := without_subjects [subject] (db l)\<rparr>)"
    using erase_subject_result [of commits subject l] by blast
  then show ?case
    using Cons.IH [of "removed + n" "l\<lparr>db := without_subjects [subject] (db l)\<rparr>"] Cons.prems
    by (simp add: without_subjects_Cons)
qed simp

lemma verify_chain_cong:
  assumes "chain_file l = chain_file l'" and "audit_log (db l) = audit_log (db l')"
  shows "verify_chain cr l = verify_chain cr l'"
  unfolding verify_chain_def assms ..

lemma stored_key_None: "audit_pii_key d subject = None \<Longrightarrow> stored_key cr d subject = None"
  by (simp add: stored_key_def)

lemma read_other_subject:
  assumes "subject \<notin> set subjects"
  shows "read_subject_pii cr subject (l\<lparr>db := without_subjects subjects (db l)\<rparr>) = read_subject_pii cr subject l"
proof -
  have "filter (\<lambda>row. pii_row_subject row = subject) (filter (\<lambda>row. pii_row_subject row \<notin> set subjects) rows) =
        filter (\<lambda>row. pii_row_subject row = subject) rows" for rows :: "pii_row list"
    using assms by (auto intro: filter_cong)
  moreover have "stored_key cr (without_subjects subjects (db l)) subject = stored_key cr (db l) subject"
    using assms by (simp add: stored_key_def without_subjects_def)
  ultimately show ?thesis
    by (cases "stored_key cr (db l) subject") (simp_all add: read_subject_pii_def without_subjects_def)
qed

text \<open>C24: erasing a user removes, for every entry any run has logged about the user and under whatever
  salt, the sealed row and the key of its subject; reading the data of the user returns nothing, the
  data of the other subjects and the verification of the chain are as before.\<close>

theorem erased_user_forgotten:
  assumes "hex_lengths cr" and "salts_ok cr l"
    and "\<forall>subject. commits subject"
  shows "let l' = audit_run cr operations l; l'' = snd (erase_uid cr commits uid l');
             gone = set (pseudonyms_for_uid_all_epochs cr l' uid)
         in (\<forall>e. (uid, e) \<in> set (audit_trace cr operations l) \<longrightarrow>
                 subject_pseudonym (entry_observation e) \<in> gone) \<and>
            (\<forall>subject \<in> gone.
               audit_pii_key (db l'') subject = None \<and> subject \<notin> pii_row_subject ` set (audit_pii (db l'')) \<and>
               read_subject_pii cr subject l'' = Inr []) \<and>
            (\<forall>subject. subject \<notin> gone \<longrightarrow> read_subject_pii cr subject l'' = read_subject_pii cr subject l') \<and>
            verify_chain cr l'' = verify_chain cr l'"
proof -
  let ?l = "audit_run cr operations l"
  let ?gone = "pseudonyms_for_uid_all_epochs cr ?l uid"
  let ?l' = "?l\<lparr>db := without_subjects ?gone (db ?l)\<rparr>"
  have erased: "snd (erase_uid cr commits uid ?l) = ?l'"
    using erase_subjects_result [of ?gone commits 0 ?l] assms(3) by (auto simp: erase_uid_def)
  have key: "audit_pii_key (db ?l') subject = None" if "subject \<in> set ?gone" for subject
    using that by (simp add: without_subjects_def)
  have read: "read_subject_pii cr subject ?l' = Inr []" if "subject \<in> set ?gone" for subject
    using stored_key_None [OF key [OF that]] by (simp add: read_subject_pii_def)
  have row: "subject \<notin> pii_row_subject ` set (audit_pii (db ?l'))" if "subject \<in> set ?gone" for subject
    using that by (auto simp: without_subjects_def)
  have "verify_chain cr ?l' = verify_chain cr ?l"
    by (rule verify_chain_cong) (simp_all add: without_subjects_def)
  then show ?thesis
    unfolding Let_def erased
    by (intro conjI allI ballI impI run_salts [OF assms(1,2)] key row read read_other_subject)
qed

section \<open>The personal data that is held\<close>

subsection \<open>Sealing and opening\<close>

definition hmac_lengths :: "audit_crates \<Rightarrow> bool" where
  "hmac_lengths cr \<longleftrightarrow> (\<forall>key data. length (hmac_tag cr key data) = 32)"

lemma map2_xor_twice:
  "length xs \<le> length ks \<Longrightarrow> map2 (XOR) (map2 (XOR) xs ks) ks = (xs :: byte list)"
proof (induction xs arbitrary: ks)
  case (Cons x xs)
  then show ?case by (cases ks) (simp_all add: xor.assoc)
qed simp

lemma ctr_xor_from_twice:
  assumes "hmac_lengths cr"
  shows "ctr_xor_from cr enc_key counter (ctr_xor_from cr enc_key counter buf) = buf"
proof (induction "length buf" arbitrary: counter buf rule: less_induct)
  case less
  show ?case
  proof (cases "buf = []")
    case False
    define ks where "ks = hmac_tag cr enc_key (u32_to_be_bytes counter)"
    define block where "block = map2 (XOR) (take 32 buf) ks"
    have ks: "length ks = 32" using assms by (simp add: ks_def hmac_lengths_def)
    have len: "length block = min (length buf) 32" by (simp add: block_def ks)
    have eq: "ctr_xor_from cr enc_key counter buf = block @ ctr_xor_from cr enc_key (counter + 1) (drop 32 buf)"
      using False by (simp add: ctr_xor_from.simps [of cr enc_key counter buf] block_def ks_def)
    define rest where "rest = ctr_xor_from cr enc_key (counter + 1) (drop 32 buf)"
    have IH: "ctr_xor_from cr enc_key (counter + 1) rest = drop 32 buf"
      using less False unfolding rest_def by simp
    have short: "rest = []" if "length buf < 32"
      using that by (simp add: rest_def ctr_xor_from.simps)
    have "take 32 (block @ rest) = block" "drop 32 (block @ rest) = rest"
      using len short by (cases "length buf < 32"; simp)+
    moreover have "block @ rest \<noteq> []" using len False by (cases block) (auto simp: min_def split: if_splits)
    ultimately have "ctr_xor_from cr enc_key counter (block @ rest) = map2 (XOR) block ks @ drop 32 buf"
      using IH
      by (simp only: ctr_xor_from.simps [of cr enc_key counter "block @ rest"] if_False ks_def [symmetric])
    moreover have "map2 (XOR) block ks = take 32 buf"
      unfolding block_def by (rule map2_xor_twice) (simp add: ks)
    ultimately show ?thesis by (simp add: eq rest_def [symmetric])
  qed (simp add: ctr_xor_from.simps)
qed

lemma pii_open_seal:
  assumes "hmac_lengths cr" and "pii_seal cr nonce key plaintext = (nonce', ct, tag)"
  shows "pii_open cr key nonce' ct tag = Inr plaintext"
  using assms ctr_xor_from_twice [OF assms(1)]
  by (auto simp: pii_seal_def pii_open_def ctr_xor_def Let_def)

subsection \<open>The ledger that the sealed store implements\<close>

text \<open>Abstractly the store is a list of subjects, indices and bundles. An entry adds its bundle when
  its mirror commits, an erasure drops the bundles of its subject, and nothing else changes it.\<close>

type_synonym pii_ledger = "(byte list \<times> int \<times> PiiBundle) list"

definition held_bundle :: "audit_crates \<Rightarrow> audit_op \<Rightarrow> AuditLogger \<Rightarrow> pii_ledger" where
  "held_bundle cr operation l =
     (case operation of
        Log env observation intent assessment decision \<Rightarrow>
          map (\<lambda>(uid, e). (subject_pseudonym (entry_observation e), sint (entry_index e),
                           pii_bundle l observation))
            (if mirror_commits env \<and> to_hex cr (ref_bytes env) \<notin> set (map pii_row_ref (audit_pii (db l)))
             then appended cr operation l else [])
      | _ \<Rightarrow> [])"

fun ledger_erase :: "(byte list \<Rightarrow> bool) \<Rightarrow> byte list list \<Rightarrow> pii_ledger \<Rightarrow> pii_ledger" where
  "ledger_erase commits [] ledger = ledger"
| "ledger_erase commits (s # subjects) ledger =
     (if commits s then ledger_erase commits subjects (filter (\<lambda>held. fst held \<noteq> s) ledger) else ledger)"

definition ledger_step :: "audit_crates \<Rightarrow> audit_op \<Rightarrow> AuditLogger \<Rightarrow> pii_ledger \<Rightarrow> pii_ledger" where
  "ledger_step cr operation l ledger =
     (case operation of
        Erase_subject commits s \<Rightarrow> ledger_erase commits [s] ledger
      | Erase_uid commits uid \<Rightarrow> ledger_erase commits (pseudonyms_for_uid_all_epochs cr l uid) ledger
      | _ \<Rightarrow> ledger @ held_bundle cr operation l)"

fun ledger_run :: "audit_crates \<Rightarrow> audit_op list \<Rightarrow> AuditLogger \<Rightarrow> pii_ledger \<Rightarrow> pii_ledger" where
  "ledger_run cr [] l ledger = ledger"
| "ledger_run cr (operation # operations) l ledger =
     ledger_run cr operations (audit_step cr operation l) (ledger_step cr operation l ledger)"

text \<open>What a row stands for under the keys that are stored, and the abstraction relation.\<close>

definition row_view ::
  "audit_crates \<Rightarrow> audit_db \<Rightarrow> pii_row \<Rightarrow> byte list \<times> int \<times> (audit_error + PiiBundle) option"
where
  "row_view cr d row =
     (pii_row_subject row, pii_row_index row,
      map_option (\<lambda>key. open_row cr key row) (stored_key cr d (pii_row_subject row)))"

definition held_view :: "byte list \<times> int \<times> PiiBundle \<Rightarrow> byte list \<times> int \<times> (audit_error + PiiBundle) option"
where
  "held_view held = (fst held, fst (snd held), Some (Inr (snd (snd held))))"

definition ledger_ok :: "audit_crates \<Rightarrow> AuditLogger \<Rightarrow> pii_ledger \<Rightarrow> bool" where
  "ledger_ok cr l ledger \<longleftrightarrow> map (row_view cr (db l)) (audit_pii (db l)) = map held_view ledger"

definition random_keys :: "audit_op \<Rightarrow> bool" where
  "random_keys operation =
     (case operation of Log env _ _ _ _ \<Rightarrow> length (fresh_key env) = 32 | _ \<Rightarrow> True)"

definition pii_json_law :: "audit_crates \<Rightarrow> bool" where
  "pii_json_law cr \<longleftrightarrow> (\<forall>bundle s. pii_json cr bundle = Some s \<longrightarrow> pii_from_json cr s = Some bundle)"

lemma fst_row_view [simp]: "fst (row_view cr d row) = pii_row_subject row"
  by (simp add: row_view_def)

lemma fst_held_view [simp]: "fst (held_view held) = fst held"
  by (simp add: held_view_def)

lemma filter_views:
  assumes "map (row_view cr d) rows = map held_view ledger"
  shows "map (row_view cr d) (filter (\<lambda>row. P (pii_row_subject row)) rows) =
         map held_view (filter (\<lambda>held. P (fst held)) ledger)"
proof -
  have "filter (\<lambda>v. P (fst v)) (map (row_view cr d) rows) = filter (\<lambda>v. P (fst v)) (map held_view ledger)"
    using assms by simp
  then show ?thesis by (simp add: filter_map o_def)
qed

lemma sort_key_map: "sort_key f (map g xs) = map g (sort_key (\<lambda>x. f (g x)) xs)"
proof (induction xs)
  case (Cons x xs)
  have "insort_key f (g x) (map g ys) = map g (insort_key (\<lambda>x. f (g x)) x ys)" for ys
    by (induction ys) auto
  with Cons show ?case by simp
qed simp

lemma sort_views:
  assumes "map (row_view cr d) rows = map held_view ledger"
  shows "map (row_view cr d) (sort_key pii_row_index rows) =
         map held_view (sort_key (\<lambda>held. fst (snd held)) ledger)"
proof -
  have "sort_key (\<lambda>v. fst (snd v)) (map (row_view cr d) rows) =
        sort_key (\<lambda>v. fst (snd v)) (map held_view ledger)"
    using assms by simp
  then show ?thesis by (simp add: sort_key_map row_view_def held_view_def)
qed

lemma open_rows_views:
  assumes "stored_key cr d s = Some key" and "\<forall>row \<in> set rows. pii_row_subject row = s"
    and "map (row_view cr d) rows = map held_view ledger"
  shows "open_rows cr key rows = Inr (map (\<lambda>held. snd (snd held)) ledger)"
  using assms(2,3)
proof (induction rows arbitrary: ledger)
  case (Cons row rows)
  then obtain held rest where "ledger = held # rest" by (cases ledger) auto
  with Cons assms(1) show ?case by (auto simp: row_view_def held_view_def)
qed simp

lemma read_held:
  assumes "ledger_ok cr l ledger"
  shows "read_subject_pii cr subject l =
         Inr (map (\<lambda>held. snd (snd held))
               (sort_key (\<lambda>held. fst (snd held)) (filter (\<lambda>held. fst held = subject) ledger)))"
proof -
  let ?rows = "filter (\<lambda>row. pii_row_subject row = subject) (audit_pii (db l))"
  let ?held = "filter (\<lambda>held. fst held = subject) ledger"
  have views: "map (row_view cr (db l)) ?rows = map held_view ?held"
    using filter_views [OF assms [unfolded ledger_ok_def], of "\<lambda>s. s = subject"] .
  show ?thesis
  proof (cases "stored_key cr (db l) subject")
    case None
    have "?held = []"
    proof (rule ccontr)
      assume "?held \<noteq> []"
      then obtain held rest where "?held = held # rest" by (cases ?held) auto
      with views obtain row rows where "?rows = row # rows" "row_view cr (db l) row = held_view held"
        by (cases ?rows) auto
      moreover from this(1) have "row \<in> set ?rows" by simp
      then have "pii_row_subject row = subject" by simp
      ultimately show False using None by (simp add: row_view_def held_view_def)
    qed
    with None show ?thesis by (simp add: read_subject_pii_def)
  next
    case (Some key)
    have "\<forall>row \<in> set (sort_key pii_row_index ?rows). pii_row_subject row = subject" by simp
    from open_rows_views [OF Some this sort_views [OF views]] Some
    show ?thesis by (simp add: read_subject_pii_def)
  qed
qed

lemma row_view_cong: "audit_pii_key d = audit_pii_key d' \<Longrightarrow> row_view cr d = row_view cr d'"
  by (simp add: row_view_def stored_key_def fun_eq_iff)

lemma ledger_ok_cong:
  "audit_pii_key (db l') = audit_pii_key (db l) \<Longrightarrow> audit_pii (db l') = audit_pii (db l) \<Longrightarrow>
   ledger_ok cr l' ledger = ledger_ok cr l ledger"
  unfolding ledger_ok_def by (simp only: row_view_cong [of "db l'" "db l"])

lemma erase_subject_ledger:
  assumes "ledger_ok cr l ledger"
  shows "ledger_ok cr (l\<lparr>db := without_subjects [s] (db l)\<rparr>) (filter (\<lambda>held. fst held \<noteq> s) ledger)"
proof -
  have "map (row_view cr (without_subjects [s] (db l))) (filter (\<lambda>row. pii_row_subject row \<noteq> s) (audit_pii (db l)))
      = map (row_view cr (db l)) (filter (\<lambda>row. pii_row_subject row \<noteq> s) (audit_pii (db l)))"
    by (rule map_cong) (auto simp: row_view_def stored_key_def without_subjects_def)
  also have "\<dots> = map held_view (filter (\<lambda>held. fst held \<noteq> s) ledger)"
    using filter_views [OF assms [unfolded ledger_ok_def], of "\<lambda>t. t \<noteq> s"] .
  finally show ?thesis by (simp add: ledger_ok_def without_subjects_def)
qed

lemma erase_subjects_ledger:
  assumes "ledger_ok cr l ledger"
  shows "ledger_ok cr (snd (erase_subjects commits n subjects l)) (ledger_erase commits subjects ledger)"
  using assms
proof (induction commits subjects ledger arbitrary: n l rule: ledger_erase.induct)
  case (2 commits s subjects ledger)
  show ?case
  proof (cases "commits s")
    case True
    then obtain k where "erase_subject commits s l = (Inr k, l\<lparr>db := without_subjects [s] (db l)\<rparr>)"
      using erase_subject_result [of commits s l] by blast
    then show ?thesis using "2.IH" [OF True erase_subject_ledger [OF "2.prems"]] True by simp
  next
    case False
    then show ?thesis using "2.prems" by (simp add: erase_subject_def)
  qed
qed simp

lemma subject_key_stored:
  assumes "hex_lengths cr" and "length (fresh_key env) = 32" and "subject_key cr env s d = (key, d')"
  shows "stored_key cr d' s = Some key"
    and "stored_key cr d t \<noteq> None \<Longrightarrow> stored_key cr d' t = stored_key cr d t"
    and "audit_pii d' = audit_pii d"
proof -
  show "stored_key cr d' s = Some key"
    using assms by (auto simp: subject_key_def stored_key_def hex_lengths_def split: option.splits)
  show "audit_pii d' = audit_pii d"
    using assms(3) by (auto simp: subject_key_def split: option.splits)
  show "stored_key cr d' t = stored_key cr d t" if "stored_key cr d t \<noteq> None"
    using that assms(3) by (cases "t = s") (auto simp: subject_key_def stored_key_def split: option.splits)
qed

lemma open_sealed_row:
  assumes "hex_lengths cr" and "hmac_lengths cr" and "pii_from_json cr canonical = Some bundle"
  shows "open_row cr key (sealed_row cr env key e canonical) = Inr bundle"
proof -
  obtain nonce ct tag where seal: "pii_seal cr (fresh_nonce env) key canonical = (nonce, ct, tag)"
    by (cases "pii_seal cr (fresh_nonce env) key canonical")
  from pii_open_seal [OF assms(2) this] assms(1,3) show ?thesis
    by (simp add: open_row_def sealed_row_def seal hex_lengths_def)
qed

lemma mirror_ledger:
  assumes "ledger_ok cr l ledger" and laws: "hex_lengths cr" "hmac_lengths cr" "pii_from_json cr canonical = Some bundle"
    and "length (fresh_key env) = 32" and "mirror_commits env"
    and "pii_ref (entry_observation e) \<notin> set (map pii_row_ref (audit_pii (db l)))"
  shows "ledger_ok cr (l\<lparr>chain_file := file, db := mirror_entry cr env e json canonical (db l)\<rparr>)
           (ledger @ [(subject_pseudonym (entry_observation e), sint (entry_index e), bundle)])"
proof -
  let ?s = "subject_pseudonym (entry_observation e)"
  let ?d = "(db l)\<lparr>audit_log := audit_log (db l) @ [log_row e json]\<rparr>"
  obtain key d' where key: "subject_key cr env ?s ?d = (key, d')" by fastforce
  let ?d' = "d'\<lparr>audit_pii := audit_pii d' @ [sealed_row cr env key e canonical]\<rparr>"
  note stored = subject_key_stored [OF laws(1) assms(5) key]
  have same: "stored_key cr ?d t = stored_key cr (db l) t" "stored_key cr ?d' t = stored_key cr d' t" for t
    by (simp_all add: stored_key_def)
  have "row_view cr ?d' row = row_view cr (db l) row" if "row \<in> set (audit_pii (db l))" for row
  proof -
    from that have "row_view cr (db l) row \<in> held_view ` set ledger"
      using assms(1) unfolding ledger_ok_def by (metis image_eqI image_set)
    then have "stored_key cr (db l) (pii_row_subject row) \<noteq> None"
      by (auto simp: row_view_def held_view_def)
    with stored(2) same show ?thesis by (simp add: row_view_def)
  qed
  then have "map (row_view cr ?d') (audit_pii (db l)) = map (row_view cr (db l)) (audit_pii (db l))"
    by (intro map_cong refl)
  then have "map (row_view cr ?d') (audit_pii (db l)) = map held_view ledger"
    using assms(1) unfolding ledger_ok_def by (rule trans)
  moreover have "row_view cr ?d' (sealed_row cr env key e canonical) = held_view (?s, sint (entry_index e), bundle)"
  proof -
    have "pii_row_subject (sealed_row cr env key e canonical) = ?s"
      "pii_row_index (sealed_row cr env key e canonical) = sint (entry_index e)"
      by (simp_all add: sealed_row_def split: prod.split)
    with stored(1) show ?thesis
      by (simp add: row_view_def held_view_def same open_sealed_row [OF laws])
  qed
  moreover have "mirror_entry cr env e json canonical (db l) = ?d'"
    using assms(6,7) key by (simp add: mirror_entry_def)
  ultimately show ?thesis using stored(3) by (simp add: ledger_ok_def)
qed

lemma pii_frame:
  "audit_pii (db (snd (rotate_pseudonym_salt cr writable random now l))) = audit_pii (db l)"
  "audit_pii_key (db (snd (rotate_pseudonym_salt cr writable random now l))) = audit_pii_key (db l)"
  "audit_pii (db (snd (enforce_salt_rotation_policy cr writable random now l))) = audit_pii (db l)"
  "audit_pii_key (db (snd (enforce_salt_rotation_policy cr writable random now l))) = audit_pii_key (db l)"
  by (auto simp: enforce_salt_rotation_policy_def rotate_pseudonym_salt_def insert_salt_epoch_def
      insert_salt_row_def split: sum.split prod.split)

lemma new_logger_pii_frame:
  assumes "new_logger cr writable random1 random2 now max_age argv_flag file d = Some l"
  shows "audit_pii (db l) = audit_pii d" "audit_pii_key (db l) = audit_pii_key d"
  using assms
  by (auto simp: new_logger_def Let_def insert_salt_row_def insert_salt_epoch_def
      split: option.splits sum.splits if_splits)

lemma ledger_step_ok:
  assumes "hex_lengths cr" and "hmac_lengths cr" and "pii_json_law cr" and "random_keys operation"
    and ok: "ledger_ok cr l ledger"
  shows "ledger_ok cr (audit_step cr operation l) (ledger_step cr operation l ledger)"
proof (cases operation)
  case (Log env observation intent assessment decision)
  show ?thesis
  proof (cases "appended cr operation l")
    case Nil
    then have same: "audit_pii (db (audit_step cr operation l)) = audit_pii (db l)"
      "audit_pii_key (db (audit_step cr operation l)) = audit_pii_key (db l)"
      by (auto simp: Log audit_step_def appended_def log_entry_def append_file_def Let_def
          split: option.splits append_outcome.splits)
    have "ledger_step cr operation l ledger = ledger"
      using Nil by (simp add: Log ledger_step_def held_bundle_def)
    with ok show ?thesis by (simp only: ledger_ok_cong [OF same(2,1)])
  next
    case (Cons x xs)
    then obtain canonical json where parts: "pii_json cr (pii_bundle l observation) = Some canonical"
        "entry_json cr (next_entry cr env l (redact cr env l observation canonical) intent assessment decision) = Some json"
        "append_outcome env = Append_done"
      by (auto simp: Log appended_def Let_def split: option.splits if_splits)
    let ?e = "next_entry cr env l (redact cr env l observation canonical) intent assessment decision"
    have app: "appended cr operation l = [(obs_uid observation, ?e)]"
      using parts by (simp add: Log appended_def Let_def)
    have step: "audit_step cr operation l =
        l\<lparr>chain_file := Some (or_default (chain_file l) @ json @ [0x0A]),
          db := mirror_entry cr env ?e json canonical (db l)\<rparr>"
      using parts by (simp add: Log audit_step_def log_entry_def append_file_def Let_def)
    have ref: "pii_ref (entry_observation ?e) = to_hex cr (ref_bytes env)"
      by (simp add: next_entry_simps redact_def)
    have parsed: "pii_from_json cr canonical = Some (pii_bundle l observation)"
      using assms(3) parts(1) by (simp add: pii_json_law_def)
    have key: "length (fresh_key env) = 32" using assms(4) by (simp add: Log random_keys_def)
    show ?thesis
    proof (cases "mirror_commits env \<and> to_hex cr (ref_bytes env) \<notin> set (map pii_row_ref (audit_pii (db l)))")
      case True
      then have held: "ledger_step cr operation l ledger =
          ledger @ [(subject_pseudonym (entry_observation ?e), sint (entry_index ?e), pii_bundle l observation)]"
        using app by (simp add: Log ledger_step_def held_bundle_def)
      show ?thesis
        unfolding step held
        by (rule mirror_ledger [OF ok assms(1,2) parsed key]) (use True ref in simp_all)
    next
      case False
      then have "mirror_entry cr env ?e json canonical (db l) = db l"
        by (auto simp: mirror_entry_def ref)
      then have same: "db (audit_step cr operation l) = db l" by (simp add: step)
      have "ledger_step cr operation l ledger = ledger"
        using False by (auto simp: Log ledger_step_def held_bundle_def)
      with ok show ?thesis by (simp add: ledger_ok_def same)
    qed
  qed
next
  case (Erase_subject commits s)
  then show ?thesis using erase_subjects_ledger [OF ok, of commits 0 "[s]"]
    by (auto simp: audit_step_def ledger_step_def split: prod.splits sum.splits)
next
  case (Erase_uid commits uid)
  then show ?thesis using erase_subjects_ledger [OF ok]
    by (simp add: audit_step_def ledger_step_def erase_uid_def)
next
  case (Restart writable random1 random2 now max_age argv_flag)
  then have same: "audit_pii (db (audit_step cr operation l)) = audit_pii (db l)"
    "audit_pii_key (db (audit_step cr operation l)) = audit_pii_key (db l)"
    by (auto simp: audit_step_def new_logger_pii_frame split: option.split)
  have "ledger_step cr operation l ledger = ledger" by (simp add: Restart ledger_step_def held_bundle_def)
  with ok show ?thesis by (simp only: ledger_ok_cong [OF same(2,1)])
next
  case (Rotate writable random now)
  then have same: "audit_pii (db (audit_step cr operation l)) = audit_pii (db l)"
    "audit_pii_key (db (audit_step cr operation l)) = audit_pii_key (db l)"
    by (simp_all add: audit_step_def pii_frame)
  have "ledger_step cr operation l ledger = ledger" by (simp add: Rotate ledger_step_def held_bundle_def)
  with ok show ?thesis by (simp only: ledger_ok_cong [OF same(2,1)])
next
  case (Enforce_rotation writable random now)
  then have same: "audit_pii (db (audit_step cr operation l)) = audit_pii (db l)"
    "audit_pii_key (db (audit_step cr operation l)) = audit_pii_key (db l)"
    by (simp_all add: audit_step_def pii_frame)
  have "ledger_step cr operation l ledger = ledger" by (simp add: Enforce_rotation ledger_step_def held_bundle_def)
  with ok show ?thesis by (simp only: ledger_ok_cong [OF same(2,1)])
qed

lemma ledger_run_ok:
  assumes "hex_lengths cr" and "hmac_lengths cr" and "pii_json_law cr" and "list_all random_keys operations"
    and "ledger_ok cr l ledger"
  shows "ledger_ok cr (audit_run cr operations l) (ledger_run cr operations l ledger)"
  using assms(4,5)
proof (induction operations arbitrary: l ledger)
  case (Cons operation operations)
  then show ?case using ledger_step_ok [OF assms(1-3), of operation l ledger] by simp
qed simp

text \<open>C25: the sealed store implements the ledger: after any run of appends, rotations, erasures and
  restarts, what a subject is told is held about it is what the ledger holds, in the order of the
  entries, and no sealed row fails to open.\<close>

theorem access_returns_ledger:
  assumes "hex_lengths cr" and "hmac_lengths cr" and "pii_json_law cr"
    and "list_all random_keys operations" and "audit_pii (db l) = []"
  shows "read_subject_pii cr subject (audit_run cr operations l) =
         Inr (map (\<lambda>held. snd (snd held))
               (sort_key (\<lambda>held. fst (snd held))
                 (filter (\<lambda>held. fst held = subject) (ledger_run cr operations l []))))"
  by (rule read_held, rule ledger_run_ok [OF assms(1-4)]) (simp add: ledger_ok_def assms(5))

section \<open>Concrete logs\<close>

text \<open>Stand-ins for the crates that satisfy the laws; the parser is an argument. An entry is written as
  its index and its time.\<close>

definition toy_observation :: ObservationRecord where
  "toy_observation =
     \<lparr>obs_pid = 7, obs_start_time = 1, obs_uid = 1000, obs_gid = 1000, obs_executable_path = None,
      obs_command_line = [], namespace_observed = True, namespace_pid_inode = None,
      namespace_net_inode = None, socket_peer_verified = True, observed_at_unix_secs = 5\<rparr>"

definition toy_bundle :: PiiBundle where
  "toy_bundle =
     \<lparr>pii_uid = 1000, pii_gid = 1000, pii_executable_path = None, pii_command_line = []\<rparr>"

definition toy_crates :: "(byte list \<Rightarrow> AuditEntry option) \<Rightarrow> audit_crates" where
  "toy_crates parse =
     \<lparr>sha256 = (\<lambda>b. take 32 (rev b @ replicate 32 0)), hmac_tag = (\<lambda>k d. take 32 (d @ k @ replicate 32 0)),
      to_hex = (\<lambda>b. b @ b), from_hex = (\<lambda>h. Some (take (length h div 2) h)),
      observation_json = (\<lambda>_. Some [0x7B]), intent_json = (\<lambda>_. Some [0x7B]),
      assessment_json = (\<lambda>a. Some [if fused_risk a = Fin 0 then 0x30 else 0x31]), decision_json = (\<lambda>_. Some [0x7B]),
      entry_json = (\<lambda>e. Some [0x7B, 0x30 + ucast (entry_index e), 0x30 + ucast (entry_timestamp e)]),
      entry_from_json = parse,
      pii_json = (\<lambda>b. if b = toy_bundle then Some [0x7B] else None),
      pii_from_json = (\<lambda>s. if s = [0x7B] then Some toy_bundle else None)\<rparr>"

definition toy_logger :: AuditLogger where
  "toy_logger =
     \<lparr>chain_file = None,
      db = \<lparr>audit_log = [], audit_pii = [], audit_pii_key = (\<lambda>_. None), audit_meta = (\<lambda>_. None),
            audit_salt_epoch = [\<lparr>salt_row_epoch = 1, salt_row_salt = [1, 1], salt_row_created = 0\<rparr>]\<rparr>,
      salt_state = \<lparr>active_salt = [1], active_epoch = 1, salt_created_secs = 0\<rparr>,
      salt_max_age_secs = None, minimize_argv = False\<rparr>"

definition toy_env :: "u64 \<Rightarrow> bool \<Rightarrow> audit_env" where
  "toy_env now commits =
     \<lparr>now_secs = now, commitment_salt = [2], ref_bytes = [ucast now], fresh_key = replicate 32 3,
      fresh_nonce = [4], append_outcome = Append_done, mirror_commits = commits\<rparr>"

definition toy_intent :: SemanticIntent where
  "toy_intent = \<lparr>intent_class = ReadOnly, confidence = Fin 1, intent_risk = Fin 0, signals = []\<rparr>"

definition toy_assessment :: "f64 \<Rightarrow> RiskAssessment" where
  "toy_assessment risk =
     \<lparr>observed_risk = Fin 0, semantic_risk = Fin 0, topology_risk = Fin 0, declared_risk = None,
      fused_risk = risk, trust_score = Fin 1, risk_reasons = []\<rparr>"

definition toy_decision :: PolicyDecision where
  "toy_decision =
     \<lparr>verdict = Allow, reason = [], risk_score = Fin 0, decision_trust = Fin 1, constraints = None\<rparr>"

definition toy_log :: "u64 \<Rightarrow> bool \<Rightarrow> audit_op" where
  "toy_log now commits =
     Log (toy_env now commits) toy_observation toy_intent
       (toy_assessment (Fin 0)) toy_decision"

text \<open>The first entry, one that follows it at time 2, and one that follows it at time 3.\<close>

definition toy_entry :: "u64 \<Rightarrow> byte list \<Rightarrow> u64 \<Rightarrow> AuditEntry" where
  "toy_entry index prev now =
     (let cr = toy_crates (\<lambda>_. None);
          e = \<lparr>entry_index = index, entry_timestamp = now, prev_hash = prev,
               entry_observation = redact cr (toy_env now True) toy_logger toy_observation [0x7B],
               entry_intent = toy_intent, entry_assessment = toy_assessment (Fin 0),
               entry_decision = toy_decision, entry_hash = []\<rparr>
      in e\<lparr>entry_hash := recomputed_hash cr e\<rparr>)"

definition toy_first :: AuditEntry where
  "toy_first = toy_entry 0 genesis_hash 1"

definition toy_next :: "u64 \<Rightarrow> AuditEntry" where
  "toy_next now = toy_entry 1 (entry_hash toy_first) now"

definition toy_parse :: "byte list \<Rightarrow> AuditEntry option" where
  "toy_parse line =
     (if line = [0x7B, 0x30, 0x31] then Some toy_first
      else if line = [0x7B, 0x31, 0x32] then Some (toy_next 2)
      else if line = [0x7B, 0x31, 0x33] then Some (toy_next 3) else None)"

definition toy :: audit_crates where
  "toy = toy_crates toy_parse"

lemma toy_laws: "hex_lengths (toy_crates parse)" "hmac_lengths (toy_crates parse)" "pii_json_law (toy_crates parse)"
    "\<forall>b. length (sha256 (toy_crates parse) b) = 32"
  by (auto simp: hex_lengths_def hmac_lengths_def pii_json_law_def toy_crates_def)

definition toy_unstable :: audit_crates where
  "toy_unstable =
     toy_crates (\<lambda>line. if line = [0x7B, 0x30, 0x31]
                        then Some (toy_first\<lparr>entry_assessment :=
                                    toy_assessment (Fin 1)\<rparr>)
                        else None)"

lemma logged_chain_verifies_witness:
  "let operations = [toy_log 1 True, toy_log 2 False, Rotate True [9] 4]
   in verify_chain toy (audit_run toy operations toy_logger) =
        Inr \<lparr>chain_entries = 2, intact = True, first_broken_index = None\<rparr> \<and>
      \<not> (\<exists>v. verify_chain toy_unstable (audit_run toy_unstable operations toy_logger) = Inr v \<and> intact v)"
proof -
  let ?ops = "[toy_log 1 True, toy_log 2 False, Rotate True [9] 4]"
  have new: "or_default (chain_file toy_logger) = []" "audit_log (db toy_logger) = []"
    by (simp_all add: toy_logger_def)
  have whole: "list_all whole_append ?ops"
    by (simp add: whole_append_def toy_log_def toy_env_def)
  have serde: "list_all (serde_line toy) (map snd (audit_trace toy ?ops toy_logger))"
    "list_all (serde_line toy_unstable) (map snd (audit_trace toy_unstable ?ops toy_logger))"
    by code_simp+
  have "list_all (reads_back toy) (map snd (audit_trace toy ?ops toy_logger))"
    "length (audit_trace toy ?ops toy_logger) = 2"
    "\<not> list_all (reads_back toy_unstable) (map snd (audit_trace toy_unstable ?ops toy_logger))"
    by code_simp+
  then show ?thesis
    using logged_chain_verifies [OF new whole serde(1)] logged_chain_verifies [OF new whole serde(2)]
    by (simp only: Let_def length_map simp_thms)
qed

lemma lost_entries_hidden_witness:
  "let l = audit_run toy [toy_log 1 True, toy_log 2 True] toy_logger;
       cut = l\<lparr>chain_file := Some (chain_text toy (take 1 [toy_first, toy_next 2]))\<rparr>
   in \<exists>v. verify_chain toy (audit_run toy [toy_log 3 False] cut) = Inr v \<and> intact v"
proof -
  let ?l = "audit_run toy [toy_log 1 True, toy_log 2 True] toy_logger" and ?es = "[toy_first, toy_next 2]"
  let ?cut = "?l\<lparr>chain_file := Some (chain_text toy (take 1 ?es))\<rparr>"
  have "chain_ok toy ?es ?l" by code_simp
  moreover have "list_all whole_append [toy_log 3 False]"
    by (simp add: whole_append_def toy_log_def toy_env_def)
  moreover have "list_all (reads_back toy) (map snd (audit_trace toy [toy_log 3 False] ?cut))"
    by code_simp
  ultimately have "\<exists>v. verify_chain toy (audit_run toy [toy_log 3 False] ?cut) = Inr v \<and>
      (intact v \<longleftrightarrow> length (audit_log (db (audit_run toy [toy_log 3 False] ?cut)))
           \<le> 1 + length (audit_trace toy [toy_log 3 False] ?cut) \<and>
         ((1::nat) = 0 \<and> audit_log (db ?l) \<noteq> [] \<longrightarrow> row_entry_hash (last (audit_log (db ?l))) = genesis_hash))"
    using lost_entries_hidden [of toy ?es ?l 1 "Some (chain_text toy (take 1 ?es))" "[toy_log 3 False]"]
    unfolding Let_def by (simp only: or_default_simps length_Cons)
  moreover have "length (audit_log (db (audit_run toy [toy_log 3 False] ?cut))) \<le>
      1 + length (audit_trace toy [toy_log 3 False] ?cut)" by code_simp
  ultimately show ?thesis unfolding Let_def by (metis zero_neq_one)
qed

text \<open>A log in which one lost entry is hidden: two entries were logged, the second was cut off, and a
  third was logged whose mirror failed.\<close>

lemma lost_entry_hidden_example:
  "verify_chain toy (audit_run toy [toy_log 3 False]
     ((audit_run toy [toy_log 1 True, toy_log 2 True] toy_logger)
        \<lparr>chain_file := Some (chain_text toy [toy_first])\<rparr>)) =
   Inr \<lparr>chain_entries = 2, intact = True, first_broken_index = None\<rparr>"
  by code_simp

lemma unstable_entry_breaks_chain_witness:
  "verify_chain toy_unstable (audit_run toy_unstable (toy_log 1 True # [toy_log 2 True]) toy_logger) =
   Inr \<lparr>chain_entries = length ([] :: AuditEntry list), intact = False,
        first_broken_index = Some (entry_index (toy_first\<lparr>entry_assessment :=
          toy_assessment (Fin 1)\<rparr>))\<rparr>"
proof (rule unstable_entry_breaks_chain)
  show "chain_ok toy_unstable [] toy_logger" by (simp add: chain_ok_def toy_logger_def)
  show "appended toy_unstable (toy_log 1 True) toy_logger = [(1000, toy_first)]" by code_simp
  show "whole_append (toy_log 1 True)" by (simp add: whole_append_def toy_log_def toy_env_def)
  show "entry_json toy_unstable toy_first = Some [0x7B, 0x30, 0x31]"
    by (simp add: toy_unstable_def toy_crates_def toy_first_def toy_entry_def Let_def)
  show "plain_line [0x7B, 0x30, 0x31]" by (simp add: plain_line_def)
  show "entry_from_json toy_unstable [0x7B, 0x30, 0x31] =
      Some (toy_first\<lparr>entry_assessment := toy_assessment (Fin 1)\<rparr>)"
    by (simp add: toy_unstable_def toy_crates_def)
  show "entry_hash (toy_first\<lparr>entry_assessment := toy_assessment (Fin 1)\<rparr>) \<noteq>
      recomputed_hash toy_unstable
        (toy_first\<lparr>entry_assessment := toy_assessment (Fin 1)\<rparr>)"
    by code_simp
  show "list_all whole_append [toy_log 2 True]"
    by (simp add: whole_append_def toy_log_def toy_env_def)
  show "list_all (\<lambda>(uid, e). utf8_valid (the (entry_json toy_unstable e)))
          (audit_trace toy_unstable [toy_log 2 True] (audit_step toy_unstable (toy_log 1 True) toy_logger))"
    by code_simp
qed

lemma anchored_chain_unique_witness:
  "let l = audit_run toy [toy_log 1 True, toy_log 2 True] toy_logger;
       l' = toy_logger\<lparr>chain_file := chain_file l\<rparr>
   in map (committed toy) (chain_of toy l) = map (committed toy) (chain_of toy l') \<or>
      (\<exists>x \<in> entry_preimage toy ` (set (chain_of toy l) \<union> set (chain_of toy l')).
       \<exists>y \<in> entry_preimage toy ` (set (chain_of toy l) \<union> set (chain_of toy l')).
         x \<noteq> y \<and> sha256 toy x = sha256 toy y)"
  unfolding Let_def
proof (rule anchored_chain_unique)
  let ?l = "audit_run toy [toy_log 1 True, toy_log 2 True] toy_logger"
  let ?l' = "toy_logger\<lparr>chain_file := chain_file ?l\<rparr>"
  let ?v = "\<lparr>chain_entries = 2, intact = True, first_broken_index = None\<rparr>"
  show "verify_chain toy ?l = Inr ?v" by code_simp
  show "verify_chain toy ?l' = Inr ?v" by code_simp
  show "intact ?v" "intact ?v" "chain_entries ?v = chain_entries ?v" by simp_all
  show "last_hash genesis_hash (chain_of toy ?l) = last_hash genesis_hash (chain_of toy ?l')"
    by (simp add: chain_of_def)
  show "hex_lengths toy" "\<forall>b. length (sha256 toy b) = 32" unfolding toy_def by (rule toy_laws)+
qed

lemma erased_user_forgotten_witness:
  "let l' = audit_run toy [toy_log 1 True, Rotate True [9] 4, toy_log 2 True] toy_logger;
       l'' = snd (erase_uid toy (\<lambda>_. True) 1000 l');
       gone = set (pseudonyms_for_uid_all_epochs toy l' 1000)
   in (\<forall>e. (1000, e) \<in> set (audit_trace toy [toy_log 1 True, Rotate True [9] 4, toy_log 2 True] toy_logger) \<longrightarrow>
           subject_pseudonym (entry_observation e) \<in> gone) \<and>
      (\<forall>subject \<in> gone.
         audit_pii_key (db l'') subject = None \<and> subject \<notin> pii_row_subject ` set (audit_pii (db l'')) \<and>
         read_subject_pii toy subject l'' = Inr []) \<and>
      (\<forall>subject. subject \<notin> gone \<longrightarrow> read_subject_pii toy subject l'' = read_subject_pii toy subject l') \<and>
      verify_chain toy l'' = verify_chain toy l'"
proof (rule erased_user_forgotten)
  show "hex_lengths toy" unfolding toy_def by (rule toy_laws)
  show "salts_ok toy toy_logger"
    by (simp add: salts_ok_def epoch_salts_def toy_logger_def toy_def toy_crates_def)
qed simp

lemma access_returns_ledger_witness:
  "read_subject_pii toy (pseudonym_for_uid toy toy_logger 1000)
     (audit_run toy [toy_log 1 True, toy_log 2 True] toy_logger) =
   Inr (map (\<lambda>held. snd (snd held))
         (sort_key (\<lambda>held. fst (snd held))
           (filter (\<lambda>held. fst held = pseudonym_for_uid toy toy_logger 1000)
             (ledger_run toy [toy_log 1 True, toy_log 2 True] toy_logger []))))"
proof (rule access_returns_ledger)
  show "hex_lengths toy" "hmac_lengths toy" "pii_json_law toy" unfolding toy_def by (rule toy_laws)+
  show "list_all random_keys [toy_log 1 True, toy_log 2 True]"
    by (simp add: random_keys_def toy_log_def toy_env_def)
  show "audit_pii (db toy_logger) = []" by (simp add: toy_logger_def)
qed

end
