(* ===== verification/Vmlinux_Types.thy ===== *)
theory Vmlinux_Types
  imports C_Layout
begin

text \<open>
  The kernel types that the hooks read through pointers, translated from the BTF dump
  \<^verbatim>\<open>bpf/vmlinux.h\<close> member by member: sockets and socket addresses, message headers,
  \<^verbatim>\<open>linux_binprm\<close>, files, inodes, superblocks, dentries, user namespaces, credentials and
  the system-call tracepoint record, with every type they contain by value. A constant
  \<open>struct_x\<close>, \<open>union_x\<close>, \<open>enum_x\<close> or \<open>typedef_x\<close> is the C declaration of that
  name; each comes with its size and alignment, in the collection \<open>layout\<close>, so that a larger
  structure is laid out without opening the smaller ones.
\<close>

definition typedef_socket_state :: ctype where
  "typedef_socket_state = CEnum 4"

lemma typedef_socket_state_layout [layout]: "ct_size typedef_socket_state = 4" "ct_align typedef_socket_state = 4"
  by (simp_all add: typedef_socket_state_def placement layout cong: layout_cong)

definition typedef_atomic_t :: ctype where
  "typedef_atomic_t = struct_of [
     fld ''counter'' (CInt C_int)]"

lemma typedef_atomic_t_layout [layout]: "ct_size typedef_atomic_t = 4" "ct_align typedef_atomic_t = 4"
  by (simp_all add: typedef_atomic_t_def placement layout cong: layout_cong)

definition typedef___u8 :: ctype where
  "typedef___u8 = CInt C_uchar"

lemma typedef___u8_layout [layout]: "ct_size typedef___u8 = 1" "ct_align typedef___u8 = 1"
  by (simp_all add: typedef___u8_def placement layout cong: layout_cong)

definition typedef_u8 :: ctype where
  "typedef_u8 = typedef___u8"

lemma typedef_u8_layout [layout]: "ct_size typedef_u8 = 1" "ct_align typedef_u8 = 1"
  by (simp_all add: typedef_u8_def placement layout cong: layout_cong)

definition typedef___u16 :: ctype where
  "typedef___u16 = CInt C_ushort"

lemma typedef___u16_layout [layout]: "ct_size typedef___u16 = 2" "ct_align typedef___u16 = 2"
  by (simp_all add: typedef___u16_def placement layout cong: layout_cong)

definition typedef_u16 :: ctype where
  "typedef_u16 = typedef___u16"

lemma typedef_u16_layout [layout]: "ct_size typedef_u16 = 2" "ct_align typedef_u16 = 2"
  by (simp_all add: typedef_u16_def placement layout cong: layout_cong)

definition struct_qspinlock :: ctype where
  "struct_qspinlock = struct_of [
     fld '''' (union_of [
       fld ''val'' typedef_atomic_t,
       fld '''' (struct_of [
         fld ''locked'' typedef_u8,
         fld ''pending'' typedef_u8]),
       fld '''' (struct_of [
         fld ''locked_pending'' typedef_u16,
         fld ''tail'' typedef_u16])])]"

lemma struct_qspinlock_layout [layout]: "ct_size struct_qspinlock = 4" "ct_align struct_qspinlock = 4"
  by (simp_all add: struct_qspinlock_def placement layout cong: layout_cong)

definition typedef_arch_spinlock_t :: ctype where
  "typedef_arch_spinlock_t = struct_qspinlock"

lemma typedef_arch_spinlock_t_layout [layout]: "ct_size typedef_arch_spinlock_t = 4" "ct_align typedef_arch_spinlock_t = 4"
  by (simp_all add: typedef_arch_spinlock_t_def placement layout cong: layout_cong)

definition struct_raw_spinlock :: ctype where
  "struct_raw_spinlock = struct_of [
     fld ''raw_lock'' typedef_arch_spinlock_t]"

lemma struct_raw_spinlock_layout [layout]: "ct_size struct_raw_spinlock = 4" "ct_align struct_raw_spinlock = 4"
  by (simp_all add: struct_raw_spinlock_def placement layout cong: layout_cong)

definition struct_spinlock :: ctype where
  "struct_spinlock = struct_of [
     fld '''' (union_of [
       fld ''rlock'' struct_raw_spinlock])]"

lemma struct_spinlock_layout [layout]: "ct_size struct_spinlock = 4" "ct_align struct_spinlock = 4"
  by (simp_all add: struct_spinlock_def placement layout cong: layout_cong)

definition typedef_spinlock_t :: ctype where
  "typedef_spinlock_t = struct_spinlock"

lemma typedef_spinlock_t_layout [layout]: "ct_size typedef_spinlock_t = 4" "ct_align typedef_spinlock_t = 4"
  by (simp_all add: typedef_spinlock_t_def placement layout cong: layout_cong)

definition struct_list_head :: ctype where
  "struct_list_head = struct_of [
     fld ''next'' CPtr,
     fld ''prev'' CPtr]"

lemma struct_list_head_layout [layout]: "ct_size struct_list_head = 16" "ct_align struct_list_head = 8"
  by (simp_all add: struct_list_head_def placement layout cong: layout_cong)

definition struct_wait_queue_head :: ctype where
  "struct_wait_queue_head = struct_of [
     fld ''lock'' typedef_spinlock_t,
     fld ''head'' struct_list_head]"

lemma struct_wait_queue_head_layout [layout]: "ct_size struct_wait_queue_head = 24" "ct_align struct_wait_queue_head = 8"
  by (simp_all add: struct_wait_queue_head_def placement layout cong: layout_cong)

definition typedef_wait_queue_head_t :: ctype where
  "typedef_wait_queue_head_t = struct_wait_queue_head"

lemma typedef_wait_queue_head_t_layout [layout]: "ct_size typedef_wait_queue_head_t = 24" "ct_align typedef_wait_queue_head_t = 8"
  by (simp_all add: typedef_wait_queue_head_t_def placement layout cong: layout_cong)

definition struct_callback_head :: ctype where
  "struct_callback_head = struct_of [
     fld ''next'' CPtr,
     fld ''func'' CPtr]"

lemma struct_callback_head_layout [layout]: "ct_size struct_callback_head = 16" "ct_align struct_callback_head = 8"
  by (simp_all add: struct_callback_head_def placement layout cong: layout_cong)

definition struct_socket_wq :: ctype where
  "struct_socket_wq = struct_of [
     fld ''wait'' typedef_wait_queue_head_t,
     fld ''fasync_list'' CPtr,
     fld ''flags'' (CInt C_ulong),
     fld ''rcu'' struct_callback_head,
     CBits '''' (CInt C_long) 64]"

lemma struct_socket_wq_layout [layout]: "ct_size struct_socket_wq = 64" "ct_align struct_socket_wq = 8"
  by (simp_all add: struct_socket_wq_def placement layout cong: layout_cong)

definition struct_socket :: ctype where
  "struct_socket = struct_of [
     fld ''state'' typedef_socket_state,
     fld ''type'' (CInt C_short),
     fld ''flags'' (CInt C_ulong),
     fld ''file'' CPtr,
     fld ''sk'' CPtr,
     fld ''ops'' CPtr,
     CBits '''' (CInt C_long) 64,
     CBits '''' (CInt C_long) 64,
     CBits '''' (CInt C_long) 64,
     fld ''wq'' struct_socket_wq]"

lemma struct_socket_layout [layout]: "ct_size struct_socket = 128" "ct_align struct_socket = 8"
  by (simp_all add: struct_socket_def placement layout cong: layout_cong)

definition typedef___kernel_sa_family_t :: ctype where
  "typedef___kernel_sa_family_t = CInt C_ushort"

lemma typedef___kernel_sa_family_t_layout [layout]: "ct_size typedef___kernel_sa_family_t = 2" "ct_align typedef___kernel_sa_family_t = 2"
  by (simp_all add: typedef___kernel_sa_family_t_def placement layout cong: layout_cong)

definition typedef_sa_family_t :: ctype where
  "typedef_sa_family_t = typedef___kernel_sa_family_t"

lemma typedef_sa_family_t_layout [layout]: "ct_size typedef_sa_family_t = 2" "ct_align typedef_sa_family_t = 2"
  by (simp_all add: typedef_sa_family_t_def placement layout cong: layout_cong)

definition struct_sockaddr :: ctype where
  "struct_sockaddr = struct_of [
     fld ''sa_family'' typedef_sa_family_t,
     fld '''' (union_of [
       fld ''sa_data_min'' (CArr (CInt C_char) 14),
       fld '''' (struct_of [
         fld ''__empty_sa_data'' (struct_of []),
         fld ''sa_data'' (CArr (CInt C_char) 0)])])]"

lemma struct_sockaddr_layout [layout]: "ct_size struct_sockaddr = 16" "ct_align struct_sockaddr = 2"
  by (simp_all add: struct_sockaddr_def placement layout cong: layout_cong)

definition typedef___be16 :: ctype where
  "typedef___be16 = typedef___u16"

lemma typedef___be16_layout [layout]: "ct_size typedef___be16 = 2" "ct_align typedef___be16 = 2"
  by (simp_all add: typedef___be16_def placement layout cong: layout_cong)

definition typedef___u32 :: ctype where
  "typedef___u32 = CInt C_uint"

lemma typedef___u32_layout [layout]: "ct_size typedef___u32 = 4" "ct_align typedef___u32 = 4"
  by (simp_all add: typedef___u32_def placement layout cong: layout_cong)

definition typedef___be32 :: ctype where
  "typedef___be32 = typedef___u32"

lemma typedef___be32_layout [layout]: "ct_size typedef___be32 = 4" "ct_align typedef___be32 = 4"
  by (simp_all add: typedef___be32_def placement layout cong: layout_cong)

definition struct_in_addr :: ctype where
  "struct_in_addr = struct_of [
     fld ''s_addr'' typedef___be32]"

lemma struct_in_addr_layout [layout]: "ct_size struct_in_addr = 4" "ct_align struct_in_addr = 4"
  by (simp_all add: struct_in_addr_def placement layout cong: layout_cong)

definition struct_sockaddr_in :: ctype where
  "struct_sockaddr_in = struct_of [
     fld ''sin_family'' typedef___kernel_sa_family_t,
     fld ''sin_port'' typedef___be16,
     fld ''sin_addr'' struct_in_addr,
     fld ''__pad'' (CArr (CInt C_uchar) 8)]"

lemma struct_sockaddr_in_layout [layout]: "ct_size struct_sockaddr_in = 16" "ct_align struct_sockaddr_in = 4"
  by (simp_all add: struct_sockaddr_in_def placement layout cong: layout_cong)

definition struct_in6_addr :: ctype where
  "struct_in6_addr = struct_of [
     fld ''in6_u'' (union_of [
       fld ''u6_addr8'' (CArr typedef___u8 16),
       fld ''u6_addr16'' (CArr typedef___be16 8),
       fld ''u6_addr32'' (CArr typedef___be32 4)])]"

lemma struct_in6_addr_layout [layout]: "ct_size struct_in6_addr = 16" "ct_align struct_in6_addr = 4"
  by (simp_all add: struct_in6_addr_def placement layout cong: layout_cong)

definition struct_sockaddr_in6 :: ctype where
  "struct_sockaddr_in6 = struct_of [
     fld ''sin6_family'' (CInt C_ushort),
     fld ''sin6_port'' typedef___be16,
     fld ''sin6_flowinfo'' typedef___be32,
     fld ''sin6_addr'' struct_in6_addr,
     fld ''sin6_scope_id'' typedef___u32]"

lemma struct_sockaddr_in6_layout [layout]: "ct_size struct_sockaddr_in6 = 28" "ct_align struct_sockaddr_in6 = 4"
  by (simp_all add: struct_sockaddr_in6_def placement layout cong: layout_cong)

definition struct_sockaddr_un :: ctype where
  "struct_sockaddr_un = struct_of [
     fld ''sun_family'' typedef___kernel_sa_family_t,
     fld ''sun_path'' (CArr (CInt C_char) 108)]"

lemma struct_sockaddr_un_layout [layout]: "ct_size struct_sockaddr_un = 110" "ct_align struct_sockaddr_un = 2"
  by (simp_all add: struct_sockaddr_un_def placement layout cong: layout_cong)

definition typedef_bool :: ctype where
  "typedef_bool = CInt C_bool"

lemma typedef_bool_layout [layout]: "ct_size typedef_bool = 1" "ct_align typedef_bool = 1"
  by (simp_all add: typedef_bool_def placement layout cong: layout_cong)

definition typedef___kernel_ulong_t :: ctype where
  "typedef___kernel_ulong_t = CInt C_ulong"

lemma typedef___kernel_ulong_t_layout [layout]: "ct_size typedef___kernel_ulong_t = 8" "ct_align typedef___kernel_ulong_t = 8"
  by (simp_all add: typedef___kernel_ulong_t_def placement layout cong: layout_cong)

definition typedef___kernel_size_t :: ctype where
  "typedef___kernel_size_t = typedef___kernel_ulong_t"

lemma typedef___kernel_size_t_layout [layout]: "ct_size typedef___kernel_size_t = 8" "ct_align typedef___kernel_size_t = 8"
  by (simp_all add: typedef___kernel_size_t_def placement layout cong: layout_cong)

definition typedef_size_t :: ctype where
  "typedef_size_t = typedef___kernel_size_t"

lemma typedef_size_t_layout [layout]: "ct_size typedef_size_t = 8" "ct_align typedef_size_t = 8"
  by (simp_all add: typedef_size_t_def placement layout cong: layout_cong)

definition struct_iovec :: ctype where
  "struct_iovec = struct_of [
     fld ''iov_base'' CPtr,
     fld ''iov_len'' typedef___kernel_size_t]"

lemma struct_iovec_layout [layout]: "ct_size struct_iovec = 16" "ct_align struct_iovec = 8"
  by (simp_all add: struct_iovec_def placement layout cong: layout_cong)

definition typedef___kernel_loff_t :: ctype where
  "typedef___kernel_loff_t = CInt C_llong"

lemma typedef___kernel_loff_t_layout [layout]: "ct_size typedef___kernel_loff_t = 8" "ct_align typedef___kernel_loff_t = 8"
  by (simp_all add: typedef___kernel_loff_t_def placement layout cong: layout_cong)

definition typedef_loff_t :: ctype where
  "typedef_loff_t = typedef___kernel_loff_t"

lemma typedef_loff_t_layout [layout]: "ct_size typedef_loff_t = 8" "ct_align typedef_loff_t = 8"
  by (simp_all add: typedef_loff_t_def placement layout cong: layout_cong)

definition struct_iov_iter :: ctype where
  "struct_iov_iter = struct_of [
     fld ''iter_type'' typedef_u8,
     fld ''nofault'' typedef_bool,
     fld ''data_source'' typedef_bool,
     fld ''iov_offset'' typedef_size_t,
     fld '''' (union_of [
       fld ''__ubuf_iovec'' struct_iovec,
       fld '''' (struct_of [
         fld '''' (union_of [
           fld ''__iov'' CPtr,
           fld ''kvec'' CPtr,
           fld ''bvec'' CPtr,
           fld ''folioq'' CPtr,
           fld ''xarray'' CPtr,
           fld ''ubuf'' CPtr]),
         fld ''count'' typedef_size_t])]),
     fld '''' (union_of [
       fld ''nr_segs'' (CInt C_ulong),
       fld ''folioq_slot'' typedef_u8,
       fld ''xarray_start'' typedef_loff_t])]"

lemma struct_iov_iter_layout [layout]: "ct_size struct_iov_iter = 40" "ct_align struct_iov_iter = 8"
  by (simp_all add: struct_iov_iter_def placement layout cong: layout_cong)

definition struct_msghdr :: ctype where
  "struct_msghdr = struct_of [
     fld ''msg_name'' CPtr,
     fld ''msg_namelen'' (CInt C_int),
     fld ''msg_inq'' (CInt C_int),
     fld ''msg_iter'' struct_iov_iter,
     fld '''' (union_of [
       fld ''msg_control'' CPtr,
       fld ''msg_control_user'' CPtr]),
     CBits ''msg_control_is_user'' typedef_bool 1,
     CBits ''msg_get_inq'' typedef_bool 1,
     fld ''msg_flags'' (CInt C_uint),
     fld ''msg_controllen'' typedef___kernel_size_t,
     fld ''msg_iocb'' CPtr,
     fld ''msg_ubuf'' CPtr,
     fld ''sg_from_iter'' CPtr]"

lemma struct_msghdr_layout [layout]: "ct_size struct_msghdr = 104" "ct_align struct_msghdr = 8"
  by (simp_all add: struct_msghdr_def placement layout cong: layout_cong)

definition struct_rlimit :: ctype where
  "struct_rlimit = struct_of [
     fld ''rlim_cur'' typedef___kernel_ulong_t,
     fld ''rlim_max'' typedef___kernel_ulong_t]"

lemma struct_rlimit_layout [layout]: "ct_size struct_rlimit = 16" "ct_align struct_rlimit = 8"
  by (simp_all add: struct_rlimit_def placement layout cong: layout_cong)

definition struct_linux_binprm :: ctype where
  "struct_linux_binprm = struct_of [
     fld ''vma'' CPtr,
     fld ''vma_pages'' (CInt C_ulong),
     fld ''argmin'' (CInt C_ulong),
     fld ''mm'' CPtr,
     fld ''p'' (CInt C_ulong),
     CBits ''have_execfd'' (CInt C_uint) 1,
     CBits ''execfd_creds'' (CInt C_uint) 1,
     CBits ''secureexec'' (CInt C_uint) 1,
     CBits ''point_of_no_return'' (CInt C_uint) 1,
     CBits ''comm_from_dentry'' (CInt C_uint) 1,
     fld ''executable'' CPtr,
     fld ''interpreter'' CPtr,
     fld ''file'' CPtr,
     fld ''cred'' CPtr,
     fld ''unsafe'' (CInt C_int),
     fld ''per_clear'' (CInt C_uint),
     fld ''argc'' (CInt C_int),
     fld ''envc'' (CInt C_int),
     fld ''filename'' CPtr,
     fld ''interp'' CPtr,
     fld ''fdpath'' CPtr,
     fld ''interp_flags'' (CInt C_uint),
     fld ''execfd'' (CInt C_int),
     fld ''loader'' (CInt C_ulong),
     fld ''exec'' (CInt C_ulong),
     fld ''rlim_stack'' struct_rlimit,
     fld ''buf'' (CArr (CInt C_char) 256)]"

lemma struct_linux_binprm_layout [layout]: "ct_size struct_linux_binprm = 416" "ct_align struct_linux_binprm = 8"
  by (simp_all add: struct_linux_binprm_def placement layout cong: layout_cong)

definition typedef___s64 :: ctype where
  "typedef___s64 = CInt C_llong"

lemma typedef___s64_layout [layout]: "ct_size typedef___s64 = 8" "ct_align typedef___s64 = 8"
  by (simp_all add: typedef___s64_def placement layout cong: layout_cong)

definition typedef_s64 :: ctype where
  "typedef_s64 = typedef___s64"

lemma typedef_s64_layout [layout]: "ct_size typedef_s64 = 8" "ct_align typedef_s64 = 8"
  by (simp_all add: typedef_s64_def placement layout cong: layout_cong)

definition typedef_atomic64_t :: ctype where
  "typedef_atomic64_t = struct_of [
     fld ''counter'' typedef_s64]"

lemma typedef_atomic64_t_layout [layout]: "ct_size typedef_atomic64_t = 8" "ct_align typedef_atomic64_t = 8"
  by (simp_all add: typedef_atomic64_t_def placement layout cong: layout_cong)

definition typedef_atomic_long_t :: ctype where
  "typedef_atomic_long_t = typedef_atomic64_t"

lemma typedef_atomic_long_t_layout [layout]: "ct_size typedef_atomic_long_t = 8" "ct_align typedef_atomic_long_t = 8"
  by (simp_all add: typedef_atomic_long_t_def placement layout cong: layout_cong)

definition typedef_fmode_t :: ctype where
  "typedef_fmode_t = CInt C_uint"

lemma typedef_fmode_t_layout [layout]: "ct_size typedef_fmode_t = 4" "ct_align typedef_fmode_t = 4"
  by (simp_all add: typedef_fmode_t_def placement layout cong: layout_cong)

definition struct_path :: ctype where
  "struct_path = struct_of [
     fld ''mnt'' CPtr,
     fld ''dentry'' CPtr]"

lemma struct_path_layout [layout]: "ct_size struct_path = 16" "ct_align struct_path = 8"
  by (simp_all add: struct_path_def placement layout cong: layout_cong)

definition typedef_raw_spinlock_t :: ctype where
  "typedef_raw_spinlock_t = struct_raw_spinlock"

lemma typedef_raw_spinlock_t_layout [layout]: "ct_size typedef_raw_spinlock_t = 4" "ct_align typedef_raw_spinlock_t = 4"
  by (simp_all add: typedef_raw_spinlock_t_def placement layout cong: layout_cong)

definition struct_optimistic_spin_queue :: ctype where
  "struct_optimistic_spin_queue = struct_of [
     fld ''tail'' typedef_atomic_t]"

lemma struct_optimistic_spin_queue_layout [layout]: "ct_size struct_optimistic_spin_queue = 4" "ct_align struct_optimistic_spin_queue = 4"
  by (simp_all add: struct_optimistic_spin_queue_def placement layout cong: layout_cong)

definition struct_mutex :: ctype where
  "struct_mutex = struct_of [
     fld ''owner'' typedef_atomic_long_t,
     fld ''wait_lock'' typedef_raw_spinlock_t,
     fld ''osq'' struct_optimistic_spin_queue,
     fld ''wait_list'' struct_list_head]"

lemma struct_mutex_layout [layout]: "ct_size struct_mutex = 32" "ct_align struct_mutex = 8"
  by (simp_all add: struct_mutex_def placement layout cong: layout_cong)

definition typedef___u64 :: ctype where
  "typedef___u64 = CInt C_ullong"

lemma typedef___u64_layout [layout]: "ct_size typedef___u64 = 8" "ct_align typedef___u64 = 8"
  by (simp_all add: typedef___u64_def placement layout cong: layout_cong)

definition typedef_u64 :: ctype where
  "typedef_u64 = typedef___u64"

lemma typedef_u64_layout [layout]: "ct_size typedef_u64 = 8" "ct_align typedef_u64 = 8"
  by (simp_all add: typedef_u64_def placement layout cong: layout_cong)

definition typedef_u32 :: ctype where
  "typedef_u32 = typedef___u32"

lemma typedef_u32_layout [layout]: "ct_size typedef_u32 = 4" "ct_align typedef_u32 = 4"
  by (simp_all add: typedef_u32_def placement layout cong: layout_cong)

definition typedef_errseq_t :: ctype where
  "typedef_errseq_t = typedef_u32"

lemma typedef_errseq_t_layout [layout]: "ct_size typedef_errseq_t = 4" "ct_align typedef_errseq_t = 4"
  by (simp_all add: typedef_errseq_t_def placement layout cong: layout_cong)

definition struct_llist_node :: ctype where
  "struct_llist_node = struct_of [
     fld ''next'' CPtr]"

lemma struct_llist_node_layout [layout]: "ct_size struct_llist_node = 8" "ct_align struct_llist_node = 8"
  by (simp_all add: struct_llist_node_def placement layout cong: layout_cong)

definition struct_file_ra_state :: ctype where
  "struct_file_ra_state = struct_of [
     fld ''start'' (CInt C_ulong),
     fld ''size'' (CInt C_uint),
     fld ''async_size'' (CInt C_uint),
     fld ''ra_pages'' (CInt C_uint),
     fld ''mmap_miss'' (CInt C_uint),
     fld ''prev_pos'' typedef_loff_t]"

lemma struct_file_ra_state_layout [layout]: "ct_size struct_file_ra_state = 32" "ct_align struct_file_ra_state = 8"
  by (simp_all add: struct_file_ra_state_def placement layout cong: layout_cong)

definition typedef_freeptr_t :: ctype where
  "typedef_freeptr_t = struct_of [
     fld ''v'' (CInt C_ulong)]"

lemma typedef_freeptr_t_layout [layout]: "ct_size typedef_freeptr_t = 8" "ct_align typedef_freeptr_t = 8"
  by (simp_all add: typedef_freeptr_t_def placement layout cong: layout_cong)

definition struct_file :: ctype where
  "struct_file = struct_of [
     fld ''f_count'' typedef_atomic_long_t,
     fld ''f_lock'' typedef_spinlock_t,
     fld ''f_mode'' typedef_fmode_t,
     fld ''f_op'' CPtr,
     fld ''f_mapping'' CPtr,
     fld ''private_data'' CPtr,
     fld ''f_inode'' CPtr,
     fld ''f_flags'' (CInt C_uint),
     fld ''f_iocb_flags'' (CInt C_uint),
     fld ''f_cred'' CPtr,
     fld ''f_path'' struct_path,
     fld '''' (union_of [
       fld ''f_pos_lock'' struct_mutex,
       fld ''f_pipe'' typedef_u64]),
     fld ''f_pos'' typedef_loff_t,
     fld ''f_security'' CPtr,
     fld ''f_owner'' CPtr,
     fld ''f_wb_err'' typedef_errseq_t,
     fld ''f_sb_err'' typedef_errseq_t,
     fld ''f_ep'' CPtr,
     fld '''' (union_of [
       fld ''f_task_work'' struct_callback_head,
       fld ''f_llist'' struct_llist_node,
       fld ''f_ra'' struct_file_ra_state,
       fld ''f_freeptr'' typedef_freeptr_t])]"

lemma struct_file_layout [layout]: "ct_size struct_file = 184" "ct_align struct_file = 8"
  by (simp_all add: struct_file_def placement layout cong: layout_cong)

definition typedef_umode_t :: ctype where
  "typedef_umode_t = CInt C_ushort"

lemma typedef_umode_t_layout [layout]: "ct_size typedef_umode_t = 2" "ct_align typedef_umode_t = 2"
  by (simp_all add: typedef_umode_t_def placement layout cong: layout_cong)

definition typedef___kernel_uid32_t :: ctype where
  "typedef___kernel_uid32_t = CInt C_uint"

lemma typedef___kernel_uid32_t_layout [layout]: "ct_size typedef___kernel_uid32_t = 4" "ct_align typedef___kernel_uid32_t = 4"
  by (simp_all add: typedef___kernel_uid32_t_def placement layout cong: layout_cong)

definition typedef_uid_t :: ctype where
  "typedef_uid_t = typedef___kernel_uid32_t"

lemma typedef_uid_t_layout [layout]: "ct_size typedef_uid_t = 4" "ct_align typedef_uid_t = 4"
  by (simp_all add: typedef_uid_t_def placement layout cong: layout_cong)

definition typedef_kuid_t :: ctype where
  "typedef_kuid_t = struct_of [
     fld ''val'' typedef_uid_t]"

lemma typedef_kuid_t_layout [layout]: "ct_size typedef_kuid_t = 4" "ct_align typedef_kuid_t = 4"
  by (simp_all add: typedef_kuid_t_def placement layout cong: layout_cong)

definition typedef___kernel_gid32_t :: ctype where
  "typedef___kernel_gid32_t = CInt C_uint"

lemma typedef___kernel_gid32_t_layout [layout]: "ct_size typedef___kernel_gid32_t = 4" "ct_align typedef___kernel_gid32_t = 4"
  by (simp_all add: typedef___kernel_gid32_t_def placement layout cong: layout_cong)

definition typedef_gid_t :: ctype where
  "typedef_gid_t = typedef___kernel_gid32_t"

lemma typedef_gid_t_layout [layout]: "ct_size typedef_gid_t = 4" "ct_align typedef_gid_t = 4"
  by (simp_all add: typedef_gid_t_def placement layout cong: layout_cong)

definition typedef_kgid_t :: ctype where
  "typedef_kgid_t = struct_of [
     fld ''val'' typedef_gid_t]"

lemma typedef_kgid_t_layout [layout]: "ct_size typedef_kgid_t = 4" "ct_align typedef_kgid_t = 4"
  by (simp_all add: typedef_kgid_t_def placement layout cong: layout_cong)

definition typedef___kernel_dev_t :: ctype where
  "typedef___kernel_dev_t = typedef_u32"

lemma typedef___kernel_dev_t_layout [layout]: "ct_size typedef___kernel_dev_t = 4" "ct_align typedef___kernel_dev_t = 4"
  by (simp_all add: typedef___kernel_dev_t_def placement layout cong: layout_cong)

definition typedef_dev_t :: ctype where
  "typedef_dev_t = typedef___kernel_dev_t"

lemma typedef_dev_t_layout [layout]: "ct_size typedef_dev_t = 4" "ct_align typedef_dev_t = 4"
  by (simp_all add: typedef_dev_t_def placement layout cong: layout_cong)

definition typedef_time64_t :: ctype where
  "typedef_time64_t = typedef___s64"

lemma typedef_time64_t_layout [layout]: "ct_size typedef_time64_t = 8" "ct_align typedef_time64_t = 8"
  by (simp_all add: typedef_time64_t_def placement layout cong: layout_cong)

definition enum_rw_hint :: ctype where
  "enum_rw_hint = CEnum 1"

lemma enum_rw_hint_layout [layout]: "ct_size enum_rw_hint = 1" "ct_align enum_rw_hint = 1"
  by (simp_all add: enum_rw_hint_def placement layout cong: layout_cong)

definition typedef_blkcnt_t :: ctype where
  "typedef_blkcnt_t = typedef_u64"

lemma typedef_blkcnt_t_layout [layout]: "ct_size typedef_blkcnt_t = 8" "ct_align typedef_blkcnt_t = 8"
  by (simp_all add: typedef_blkcnt_t_def placement layout cong: layout_cong)

definition struct_rw_semaphore :: ctype where
  "struct_rw_semaphore = struct_of [
     fld ''count'' typedef_atomic_long_t,
     fld ''owner'' typedef_atomic_long_t,
     fld ''osq'' struct_optimistic_spin_queue,
     fld ''wait_lock'' typedef_raw_spinlock_t,
     fld ''wait_list'' struct_list_head]"

lemma struct_rw_semaphore_layout [layout]: "ct_size struct_rw_semaphore = 40" "ct_align struct_rw_semaphore = 8"
  by (simp_all add: struct_rw_semaphore_def placement layout cong: layout_cong)

definition struct_hlist_node :: ctype where
  "struct_hlist_node = struct_of [
     fld ''next'' CPtr,
     fld ''pprev'' CPtr]"

lemma struct_hlist_node_layout [layout]: "ct_size struct_hlist_node = 16" "ct_align struct_hlist_node = 8"
  by (simp_all add: struct_hlist_node_def placement layout cong: layout_cong)

definition struct_hlist_head :: ctype where
  "struct_hlist_head = struct_of [
     fld ''first'' CPtr]"

lemma struct_hlist_head_layout [layout]: "ct_size struct_hlist_head = 8" "ct_align struct_hlist_head = 8"
  by (simp_all add: struct_hlist_head_def placement layout cong: layout_cong)

definition typedef_gfp_t :: ctype where
  "typedef_gfp_t = CInt C_uint"

lemma typedef_gfp_t_layout [layout]: "ct_size typedef_gfp_t = 4" "ct_align typedef_gfp_t = 4"
  by (simp_all add: typedef_gfp_t_def placement layout cong: layout_cong)

definition struct_xarray :: ctype where
  "struct_xarray = struct_of [
     fld ''xa_lock'' typedef_spinlock_t,
     fld ''xa_flags'' typedef_gfp_t,
     fld ''xa_head'' CPtr]"

lemma struct_xarray_layout [layout]: "ct_size struct_xarray = 16" "ct_align struct_xarray = 8"
  by (simp_all add: struct_xarray_def placement layout cong: layout_cong)

definition struct_rb_root :: ctype where
  "struct_rb_root = struct_of [
     fld ''rb_node'' CPtr]"

lemma struct_rb_root_layout [layout]: "ct_size struct_rb_root = 8" "ct_align struct_rb_root = 8"
  by (simp_all add: struct_rb_root_def placement layout cong: layout_cong)

definition struct_rb_root_cached :: ctype where
  "struct_rb_root_cached = struct_of [
     fld ''rb_root'' struct_rb_root,
     fld ''rb_leftmost'' CPtr]"

lemma struct_rb_root_cached_layout [layout]: "ct_size struct_rb_root_cached = 16" "ct_align struct_rb_root_cached = 8"
  by (simp_all add: struct_rb_root_cached_def placement layout cong: layout_cong)

definition struct_address_space :: ctype where
  "struct_address_space = struct_of [
     fld ''host'' CPtr,
     fld ''i_pages'' struct_xarray,
     fld ''invalidate_lock'' struct_rw_semaphore,
     fld ''gfp_mask'' typedef_gfp_t,
     fld ''i_mmap_writable'' typedef_atomic_t,
     fld ''i_mmap'' struct_rb_root_cached,
     fld ''nrpages'' (CInt C_ulong),
     fld ''writeback_index'' (CInt C_ulong),
     fld ''a_ops'' CPtr,
     fld ''flags'' (CInt C_ulong),
     fld ''wb_err'' typedef_errseq_t,
     fld ''i_private_lock'' typedef_spinlock_t,
     fld ''i_private_list'' struct_list_head,
     fld ''i_mmap_rwsem'' struct_rw_semaphore,
     fld ''i_private_data'' CPtr]"

lemma struct_address_space_layout [layout]: "ct_size struct_address_space = 192" "ct_align struct_address_space = 8"
  by (simp_all add: struct_address_space_def placement layout cong: layout_cong)

definition struct_inode :: ctype where
  "struct_inode = struct_of [
     fld ''i_mode'' typedef_umode_t,
     fld ''i_opflags'' (CInt C_ushort),
     fld ''i_uid'' typedef_kuid_t,
     fld ''i_gid'' typedef_kgid_t,
     fld ''i_flags'' (CInt C_uint),
     fld ''i_acl'' CPtr,
     fld ''i_default_acl'' CPtr,
     fld ''i_op'' CPtr,
     fld ''i_sb'' CPtr,
     fld ''i_mapping'' CPtr,
     fld ''i_security'' CPtr,
     fld ''i_ino'' (CInt C_ulong),
     fld '''' (union_of [
       fld ''i_nlink'' (CInt C_uint),
       fld ''__i_nlink'' (CInt C_uint)]),
     fld ''i_rdev'' typedef_dev_t,
     fld ''i_size'' typedef_loff_t,
     fld ''i_atime_sec'' typedef_time64_t,
     fld ''i_mtime_sec'' typedef_time64_t,
     fld ''i_ctime_sec'' typedef_time64_t,
     fld ''i_atime_nsec'' typedef_u32,
     fld ''i_mtime_nsec'' typedef_u32,
     fld ''i_ctime_nsec'' typedef_u32,
     fld ''i_generation'' typedef_u32,
     fld ''i_lock'' typedef_spinlock_t,
     fld ''i_bytes'' (CInt C_ushort),
     fld ''i_blkbits'' typedef_u8,
     fld ''i_write_hint'' enum_rw_hint,
     fld ''i_blocks'' typedef_blkcnt_t,
     fld ''i_state'' typedef_u32,
     fld ''i_rwsem'' struct_rw_semaphore,
     fld ''dirtied_when'' (CInt C_ulong),
     fld ''dirtied_time_when'' (CInt C_ulong),
     fld ''i_hash'' struct_hlist_node,
     fld ''i_io_list'' struct_list_head,
     fld ''i_wb'' CPtr,
     fld ''i_wb_frn_winner'' (CInt C_int),
     fld ''i_wb_frn_avg_time'' typedef_u16,
     fld ''i_wb_frn_history'' typedef_u16,
     fld ''i_lru'' struct_list_head,
     fld ''i_sb_list'' struct_list_head,
     fld ''i_wb_list'' struct_list_head,
     fld '''' (union_of [
       fld ''i_dentry'' struct_hlist_head,
       fld ''i_rcu'' struct_callback_head]),
     fld ''i_version'' typedef_atomic64_t,
     fld ''i_sequence'' typedef_atomic64_t,
     fld ''i_count'' typedef_atomic_t,
     fld ''i_dio_count'' typedef_atomic_t,
     fld ''i_writecount'' typedef_atomic_t,
     fld ''i_readcount'' typedef_atomic_t,
     fld '''' (union_of [
       fld ''i_fop'' CPtr,
       fld ''free_inode'' CPtr]),
     fld ''i_flctx'' CPtr,
     fld ''i_data'' struct_address_space,
     fld ''i_devices'' struct_list_head,
     fld '''' (union_of [
       fld ''i_pipe'' CPtr,
       fld ''i_cdev'' CPtr,
       fld ''i_link'' CPtr,
       fld ''i_dir_seq'' (CInt C_uint)]),
     fld ''i_fsnotify_mask'' typedef___u32,
     fld ''i_fsnotify_marks'' CPtr,
     fld ''i_crypt_info'' CPtr,
     fld ''i_verity_info'' CPtr,
     fld ''i_private'' CPtr]"

lemma struct_inode_layout [layout]: "ct_size struct_inode = 624" "ct_align struct_inode = 8"
  by (simp_all add: struct_inode_def placement layout cong: layout_cong)

definition struct_hlist_bl_head :: ctype where
  "struct_hlist_bl_head = struct_of [
     fld ''first'' CPtr]"

lemma struct_hlist_bl_head_layout [layout]: "ct_size struct_hlist_bl_head = 8" "ct_align struct_hlist_bl_head = 8"
  by (simp_all add: struct_hlist_bl_head_def placement layout cong: layout_cong)

definition typedef_qsize_t :: ctype where
  "typedef_qsize_t = CInt C_llong"

lemma typedef_qsize_t_layout [layout]: "ct_size typedef_qsize_t = 8" "ct_align typedef_qsize_t = 8"
  by (simp_all add: typedef_qsize_t_def placement layout cong: layout_cong)

definition struct_mem_dqinfo :: ctype where
  "struct_mem_dqinfo = struct_of [
     fld ''dqi_format'' CPtr,
     fld ''dqi_fmt_id'' (CInt C_int),
     fld ''dqi_dirty_list'' struct_list_head,
     fld ''dqi_flags'' (CInt C_ulong),
     fld ''dqi_bgrace'' (CInt C_uint),
     fld ''dqi_igrace'' (CInt C_uint),
     fld ''dqi_max_spc_limit'' typedef_qsize_t,
     fld ''dqi_max_ino_limit'' typedef_qsize_t,
     fld ''dqi_priv'' CPtr]"

lemma struct_mem_dqinfo_layout [layout]: "ct_size struct_mem_dqinfo = 72" "ct_align struct_mem_dqinfo = 8"
  by (simp_all add: struct_mem_dqinfo_def placement layout cong: layout_cong)

definition struct_quota_info :: ctype where
  "struct_quota_info = struct_of [
     fld ''flags'' (CInt C_uint),
     fld ''dqio_sem'' struct_rw_semaphore,
     fld ''files'' (CArr CPtr 3),
     fld ''info'' (CArr struct_mem_dqinfo 3),
     fld ''ops'' (CArr CPtr 3)]"

lemma struct_quota_info_layout [layout]: "ct_size struct_quota_info = 312" "ct_align struct_quota_info = 8"
  by (simp_all add: struct_quota_info_def placement layout cong: layout_cong)

definition struct_rcu_sync :: ctype where
  "struct_rcu_sync = struct_of [
     fld ''gp_state'' (CInt C_int),
     fld ''gp_count'' (CInt C_int),
     fld ''gp_wait'' typedef_wait_queue_head_t,
     fld ''cb_head'' struct_callback_head]"

lemma struct_rcu_sync_layout [layout]: "ct_size struct_rcu_sync = 48" "ct_align struct_rcu_sync = 8"
  by (simp_all add: struct_rcu_sync_def placement layout cong: layout_cong)

definition struct_rcuwait :: ctype where
  "struct_rcuwait = struct_of [
     fld ''task'' CPtr]"

lemma struct_rcuwait_layout [layout]: "ct_size struct_rcuwait = 8" "ct_align struct_rcuwait = 8"
  by (simp_all add: struct_rcuwait_def placement layout cong: layout_cong)

definition struct_percpu_rw_semaphore :: ctype where
  "struct_percpu_rw_semaphore = struct_of [
     fld ''rss'' struct_rcu_sync,
     fld ''read_count'' CPtr,
     fld ''writer'' struct_rcuwait,
     fld ''waiters'' typedef_wait_queue_head_t,
     fld ''block'' typedef_atomic_t]"

lemma struct_percpu_rw_semaphore_layout [layout]: "ct_size struct_percpu_rw_semaphore = 96" "ct_align struct_percpu_rw_semaphore = 8"
  by (simp_all add: struct_percpu_rw_semaphore_def placement layout cong: layout_cong)

definition struct_sb_writers :: ctype where
  "struct_sb_writers = struct_of [
     fld ''frozen'' (CInt C_ushort),
     fld ''freeze_kcount'' (CInt C_int),
     fld ''freeze_ucount'' (CInt C_int),
     fld ''rw_sem'' (CArr struct_percpu_rw_semaphore 3)]"

lemma struct_sb_writers_layout [layout]: "ct_size struct_sb_writers = 304" "ct_align struct_sb_writers = 8"
  by (simp_all add: struct_sb_writers_def placement layout cong: layout_cong)

definition typedef_uuid_t :: ctype where
  "typedef_uuid_t = struct_of [
     fld ''b'' (CArr typedef___u8 16)]"

lemma typedef_uuid_t_layout [layout]: "ct_size typedef_uuid_t = 16" "ct_align typedef_uuid_t = 1"
  by (simp_all add: typedef_uuid_t_def placement layout cong: layout_cong)

definition struct_list_lru :: ctype where
  "struct_list_lru = struct_of [
     fld ''node'' CPtr,
     fld ''list'' struct_list_head,
     fld ''shrinker_id'' (CInt C_int),
     fld ''memcg_aware'' typedef_bool,
     fld ''xa'' struct_xarray]"

lemma struct_list_lru_layout [layout]: "ct_size struct_list_lru = 48" "ct_align struct_list_lru = 8"
  by (simp_all add: struct_list_lru_def placement layout cong: layout_cong)

definition typedef_work_func_t :: ctype where
  "typedef_work_func_t = CPtr"

lemma typedef_work_func_t_layout [layout]: "ct_size typedef_work_func_t = 8" "ct_align typedef_work_func_t = 8"
  by (simp_all add: typedef_work_func_t_def placement layout cong: layout_cong)

definition struct_work_struct :: ctype where
  "struct_work_struct = struct_of [
     fld ''data'' typedef_atomic_long_t,
     fld ''entry'' struct_list_head,
     fld ''func'' typedef_work_func_t]"

lemma struct_work_struct_layout [layout]: "ct_size struct_work_struct = 32" "ct_align struct_work_struct = 8"
  by (simp_all add: struct_work_struct_def placement layout cong: layout_cong)

definition struct_super_block :: ctype where
  "struct_super_block = struct_of [
     fld ''s_list'' struct_list_head,
     fld ''s_dev'' typedef_dev_t,
     fld ''s_blocksize_bits'' (CInt C_uchar),
     fld ''s_blocksize'' (CInt C_ulong),
     fld ''s_maxbytes'' typedef_loff_t,
     fld ''s_type'' CPtr,
     fld ''s_op'' CPtr,
     fld ''dq_op'' CPtr,
     fld ''s_qcop'' CPtr,
     fld ''s_export_op'' CPtr,
     fld ''s_flags'' (CInt C_ulong),
     fld ''s_iflags'' (CInt C_ulong),
     fld ''s_magic'' (CInt C_ulong),
     fld ''s_root'' CPtr,
     fld ''s_umount'' struct_rw_semaphore,
     fld ''s_count'' (CInt C_int),
     fld ''s_active'' typedef_atomic_t,
     fld ''s_security'' CPtr,
     fld ''s_xattr'' CPtr,
     fld ''s_cop'' CPtr,
     fld ''s_master_keys'' CPtr,
     fld ''s_vop'' CPtr,
     fld ''s_encoding'' CPtr,
     fld ''s_encoding_flags'' typedef___u16,
     fld ''s_roots'' struct_hlist_bl_head,
     fld ''s_mounts'' struct_list_head,
     fld ''s_bdev'' CPtr,
     fld ''s_bdev_file'' CPtr,
     fld ''s_bdi'' CPtr,
     fld ''s_mtd'' CPtr,
     fld ''s_instances'' struct_hlist_node,
     fld ''s_quota_types'' (CInt C_uint),
     fld ''s_dquot'' struct_quota_info,
     fld ''s_writers'' struct_sb_writers,
     fld ''s_fs_info'' CPtr,
     fld ''s_time_gran'' typedef_u32,
     fld ''s_time_min'' typedef_time64_t,
     fld ''s_time_max'' typedef_time64_t,
     fld ''s_fsnotify_mask'' typedef_u32,
     fld ''s_fsnotify_info'' CPtr,
     fld ''s_id'' (CArr (CInt C_char) 32),
     fld ''s_uuid'' typedef_uuid_t,
     fld ''s_uuid_len'' typedef_u8,
     fld ''s_sysfs_name'' (CArr (CInt C_char) 37),
     fld ''s_max_links'' (CInt C_uint),
     fld ''s_vfs_rename_mutex'' struct_mutex,
     fld ''s_subtype'' CPtr,
     fld ''s_d_op'' CPtr,
     fld ''s_shrink'' CPtr,
     fld ''s_remove_count'' typedef_atomic_long_t,
     fld ''s_readonly_remount'' (CInt C_int),
     fld ''s_wb_err'' typedef_errseq_t,
     fld ''s_dio_done_wq'' CPtr,
     fld ''s_pins'' struct_hlist_head,
     fld ''s_user_ns'' CPtr,
     fld ''s_dentry_lru'' struct_list_lru,
     fld ''s_inode_lru'' struct_list_lru,
     fld ''rcu'' struct_callback_head,
     fld ''destroy_work'' struct_work_struct,
     fld ''s_sync_lock'' struct_mutex,
     fld ''s_stack_depth'' (CInt C_int),
     CBits '''' (CInt C_long) 64,
     fld ''s_inode_list_lock'' typedef_spinlock_t,
     fld ''s_inodes'' struct_list_head,
     fld ''s_inode_wblist_lock'' typedef_spinlock_t,
     fld ''s_inodes_wb'' struct_list_head,
     CBits '''' (CInt C_long) 64,
     CBits '''' (CInt C_long) 64]"

lemma struct_super_block_layout [layout]: "ct_size struct_super_block = 1408" "ct_align struct_super_block = 8"
  by (simp_all add: struct_super_block_def placement layout cong: layout_cong)

definition struct_seqcount :: ctype where
  "struct_seqcount = struct_of [
     fld ''sequence'' (CInt C_uint)]"

lemma struct_seqcount_layout [layout]: "ct_size struct_seqcount = 4" "ct_align struct_seqcount = 4"
  by (simp_all add: struct_seqcount_def placement layout cong: layout_cong)

definition typedef_seqcount_t :: ctype where
  "typedef_seqcount_t = struct_seqcount"

lemma typedef_seqcount_t_layout [layout]: "ct_size typedef_seqcount_t = 4" "ct_align typedef_seqcount_t = 4"
  by (simp_all add: typedef_seqcount_t_def placement layout cong: layout_cong)

definition struct_seqcount_spinlock :: ctype where
  "struct_seqcount_spinlock = struct_of [
     fld ''seqcount'' typedef_seqcount_t]"

lemma struct_seqcount_spinlock_layout [layout]: "ct_size struct_seqcount_spinlock = 4" "ct_align struct_seqcount_spinlock = 4"
  by (simp_all add: struct_seqcount_spinlock_def placement layout cong: layout_cong)

definition typedef_seqcount_spinlock_t :: ctype where
  "typedef_seqcount_spinlock_t = struct_seqcount_spinlock"

lemma typedef_seqcount_spinlock_t_layout [layout]: "ct_size typedef_seqcount_spinlock_t = 4" "ct_align typedef_seqcount_spinlock_t = 4"
  by (simp_all add: typedef_seqcount_spinlock_t_def placement layout cong: layout_cong)

definition struct_hlist_bl_node :: ctype where
  "struct_hlist_bl_node = struct_of [
     fld ''next'' CPtr,
     fld ''pprev'' CPtr]"

lemma struct_hlist_bl_node_layout [layout]: "ct_size struct_hlist_bl_node = 16" "ct_align struct_hlist_bl_node = 8"
  by (simp_all add: struct_hlist_bl_node_def placement layout cong: layout_cong)

definition struct_qstr :: ctype where
  "struct_qstr = struct_of [
     fld '''' (union_of [
       fld '''' (struct_of [
         fld ''hash'' typedef_u32,
         fld ''len'' typedef_u32]),
       fld ''hash_len'' typedef_u64]),
     fld ''name'' CPtr]"

lemma struct_qstr_layout [layout]: "ct_size struct_qstr = 16" "ct_align struct_qstr = 8"
  by (simp_all add: struct_qstr_def placement layout cong: layout_cong)

definition struct_lockref :: ctype where
  "struct_lockref = struct_of [
     fld '''' (union_of [
       fld ''lock_count'' typedef___u64,
       fld '''' (struct_of [
         fld ''lock'' typedef_spinlock_t,
         fld ''count'' (CInt C_int)])])]"

lemma struct_lockref_layout [layout]: "ct_size struct_lockref = 8" "ct_align struct_lockref = 8"
  by (simp_all add: struct_lockref_def placement layout cong: layout_cong)

definition struct_dentry :: ctype where
  "struct_dentry = struct_of [
     fld ''d_flags'' (CInt C_uint),
     fld ''d_seq'' typedef_seqcount_spinlock_t,
     fld ''d_hash'' struct_hlist_bl_node,
     fld ''d_parent'' CPtr,
     fld ''d_name'' struct_qstr,
     fld ''d_inode'' CPtr,
     fld ''d_iname'' (CArr (CInt C_uchar) 40),
     fld ''d_op'' CPtr,
     fld ''d_sb'' CPtr,
     fld ''d_time'' (CInt C_ulong),
     fld ''d_fsdata'' CPtr,
     fld ''d_lockref'' struct_lockref,
     fld '''' (union_of [
       fld ''d_lru'' struct_list_head,
       fld ''d_wait'' CPtr]),
     fld ''d_sib'' struct_hlist_node,
     fld ''d_children'' struct_hlist_head,
     fld ''d_u'' (union_of [
       fld ''d_alias'' struct_hlist_node,
       fld ''d_in_lookup_hash'' struct_hlist_bl_node,
       fld ''d_rcu'' struct_callback_head])]"

lemma struct_dentry_layout [layout]: "ct_size struct_dentry = 192" "ct_align struct_dentry = 8"
  by (simp_all add: struct_dentry_def placement layout cong: layout_cong)

definition struct_uid_gid_extent :: ctype where
  "struct_uid_gid_extent = struct_of [
     fld ''first'' typedef_u32,
     fld ''lower_first'' typedef_u32,
     fld ''count'' typedef_u32]"

lemma struct_uid_gid_extent_layout [layout]: "ct_size struct_uid_gid_extent = 12" "ct_align struct_uid_gid_extent = 4"
  by (simp_all add: struct_uid_gid_extent_def placement layout cong: layout_cong)

definition struct_uid_gid_map :: ctype where
  "struct_uid_gid_map = struct_of [
     fld '''' (union_of [
       fld '''' (struct_of [
         fld ''extent'' (CArr struct_uid_gid_extent 5),
         fld ''nr_extents'' typedef_u32]),
       fld '''' (struct_of [
         fld ''forward'' CPtr,
         fld ''reverse'' CPtr])])]"

lemma struct_uid_gid_map_layout [layout]: "ct_size struct_uid_gid_map = 64" "ct_align struct_uid_gid_map = 8"
  by (simp_all add: struct_uid_gid_map_def placement layout cong: layout_cong)

definition struct_refcount_struct :: ctype where
  "struct_refcount_struct = struct_of [
     fld ''refs'' typedef_atomic_t]"

lemma struct_refcount_struct_layout [layout]: "ct_size struct_refcount_struct = 4" "ct_align struct_refcount_struct = 4"
  by (simp_all add: struct_refcount_struct_def placement layout cong: layout_cong)

definition typedef_refcount_t :: ctype where
  "typedef_refcount_t = struct_refcount_struct"

lemma typedef_refcount_t_layout [layout]: "ct_size typedef_refcount_t = 4" "ct_align typedef_refcount_t = 4"
  by (simp_all add: typedef_refcount_t_def placement layout cong: layout_cong)

definition struct_ns_common :: ctype where
  "struct_ns_common = struct_of [
     fld ''stashed'' CPtr,
     fld ''ops'' CPtr,
     fld ''inum'' (CInt C_uint),
     fld ''count'' typedef_refcount_t]"

lemma struct_ns_common_layout [layout]: "ct_size struct_ns_common = 24" "ct_align struct_ns_common = 8"
  by (simp_all add: struct_ns_common_def placement layout cong: layout_cong)

definition struct_ctl_table_header :: ctype where
  "struct_ctl_table_header = struct_of [
     fld '''' (union_of [
       fld '''' (struct_of [
         fld ''ctl_table'' CPtr,
         fld ''ctl_table_size'' (CInt C_int),
         fld ''used'' (CInt C_int),
         fld ''count'' (CInt C_int),
         fld ''nreg'' (CInt C_int)]),
       fld ''rcu'' struct_callback_head]),
     fld ''unregistering'' CPtr,
     fld ''ctl_table_arg'' CPtr,
     fld ''root'' CPtr,
     fld ''set'' CPtr,
     fld ''parent'' CPtr,
     fld ''node'' CPtr,
     fld ''inodes'' struct_hlist_head,
     fld ''type'' (CEnum 4)]"

lemma struct_ctl_table_header_layout [layout]: "ct_size struct_ctl_table_header = 88" "ct_align struct_ctl_table_header = 8"
  by (simp_all add: struct_ctl_table_header_def placement layout cong: layout_cong)

definition struct_ctl_dir :: ctype where
  "struct_ctl_dir = struct_of [
     fld ''header'' struct_ctl_table_header,
     fld ''root'' struct_rb_root]"

lemma struct_ctl_dir_layout [layout]: "ct_size struct_ctl_dir = 96" "ct_align struct_ctl_dir = 8"
  by (simp_all add: struct_ctl_dir_def placement layout cong: layout_cong)

definition struct_ctl_table_set :: ctype where
  "struct_ctl_table_set = struct_of [
     fld ''is_seen'' CPtr,
     fld ''dir'' struct_ctl_dir]"

lemma struct_ctl_table_set_layout [layout]: "ct_size struct_ctl_table_set = 104" "ct_align struct_ctl_table_set = 8"
  by (simp_all add: struct_ctl_table_set_def placement layout cong: layout_cong)

definition struct_user_namespace :: ctype where
  "struct_user_namespace = struct_of [
     fld ''uid_map'' struct_uid_gid_map,
     fld ''gid_map'' struct_uid_gid_map,
     fld ''projid_map'' struct_uid_gid_map,
     fld ''parent'' CPtr,
     fld ''level'' (CInt C_int),
     fld ''owner'' typedef_kuid_t,
     fld ''group'' typedef_kgid_t,
     fld ''ns'' struct_ns_common,
     fld ''flags'' (CInt C_ulong),
     fld ''parent_could_setfcap'' typedef_bool,
     fld ''keyring_name_list'' struct_list_head,
     fld ''user_keyring_register'' CPtr,
     fld ''keyring_sem'' struct_rw_semaphore,
     fld ''persistent_keyring_register'' CPtr,
     fld ''work'' struct_work_struct,
     fld ''set'' struct_ctl_table_set,
     fld ''sysctls'' CPtr,
     fld ''ucounts'' CPtr,
     fld ''ucount_max'' (CArr (CInt C_long) 12),
     fld ''rlimit_max'' (CArr (CInt C_long) 4),
     fld ''binfmt_misc'' CPtr]"

lemma struct_user_namespace_layout [layout]: "ct_size struct_user_namespace = 616" "ct_align struct_user_namespace = 8"
  by (simp_all add: struct_user_namespace_def placement layout cong: layout_cong)

definition struct_trace_entry :: ctype where
  "struct_trace_entry = struct_of [
     fld ''type'' (CInt C_ushort),
     fld ''flags'' (CInt C_uchar),
     fld ''preempt_count'' (CInt C_uchar),
     fld ''pid'' (CInt C_int)]"

lemma struct_trace_entry_layout [layout]: "ct_size struct_trace_entry = 8" "ct_align struct_trace_entry = 4"
  by (simp_all add: struct_trace_entry_def placement layout cong: layout_cong)

definition struct_trace_event_raw_sys_enter :: ctype where
  "struct_trace_event_raw_sys_enter = struct_of [
     fld ''ent'' struct_trace_entry,
     fld ''id'' (CInt C_long),
     fld ''args'' (CArr (CInt C_ulong) 6),
     fld ''__data'' (CArr (CInt C_char) 0)]"

lemma struct_trace_event_raw_sys_enter_layout [layout]: "ct_size struct_trace_event_raw_sys_enter = 64" "ct_align struct_trace_event_raw_sys_enter = 8"
  by (simp_all add: struct_trace_event_raw_sys_enter_def placement layout cong: layout_cong)

definition typedef_kernel_cap_t :: ctype where
  "typedef_kernel_cap_t = struct_of [
     fld ''val'' typedef_u64]"

lemma typedef_kernel_cap_t_layout [layout]: "ct_size typedef_kernel_cap_t = 8" "ct_align typedef_kernel_cap_t = 8"
  by (simp_all add: typedef_kernel_cap_t_def placement layout cong: layout_cong)

definition struct_cred :: ctype where
  "struct_cred = struct_of [
     fld ''usage'' typedef_atomic_long_t,
     fld ''uid'' typedef_kuid_t,
     fld ''gid'' typedef_kgid_t,
     fld ''suid'' typedef_kuid_t,
     fld ''sgid'' typedef_kgid_t,
     fld ''euid'' typedef_kuid_t,
     fld ''egid'' typedef_kgid_t,
     fld ''fsuid'' typedef_kuid_t,
     fld ''fsgid'' typedef_kgid_t,
     fld ''securebits'' (CInt C_uint),
     fld ''cap_inheritable'' typedef_kernel_cap_t,
     fld ''cap_permitted'' typedef_kernel_cap_t,
     fld ''cap_effective'' typedef_kernel_cap_t,
     fld ''cap_bset'' typedef_kernel_cap_t,
     fld ''cap_ambient'' typedef_kernel_cap_t,
     fld ''jit_keyring'' (CInt C_uchar),
     fld ''session_keyring'' CPtr,
     fld ''process_keyring'' CPtr,
     fld ''thread_keyring'' CPtr,
     fld ''request_key_auth'' CPtr,
     fld ''security'' CPtr,
     fld ''user'' CPtr,
     fld ''user_ns'' CPtr,
     fld ''ucounts'' CPtr,
     fld ''group_info'' CPtr,
     fld '''' (union_of [
       fld ''non_rcu'' (CInt C_int),
       fld ''rcu'' struct_callback_head])]"

lemma struct_cred_layout [layout]: "ct_size struct_cred = 184" "ct_align struct_cred = 8"
  by (simp_all add: struct_cred_def placement layout cong: layout_cong)

end
