(* ===== verification/Vmlinux_Task.thy ===== *)
theory Vmlinux_Task
  imports Vmlinux_Types
begin

text \<open>
  The kernel's \<^verbatim>\<open>struct task_struct\<close> and the register frame \<^verbatim>\<open>struct pt_regs\<close>, with
  every type they contain by value, translated from \<^verbatim>\<open>bpf/vmlinux.h\<close> member by member.
  \<^verbatim>\<open>jg_get_ppid\<close> reads \<^verbatim>\<open>real_parent\<close> and \<^verbatim>\<open>tgid\<close> of a task, which lie behind
  some ninety members with bit-fields and embedded scheduler, RCU and timer records.
\<close>

definition struct_fred_cs :: ctype where
  "struct_fred_cs = struct_of [
     CBits ''cs'' typedef_u64 16,
     CBits ''sl'' typedef_u64 2,
     CBits ''wfe'' typedef_u64 1]"

lemma struct_fred_cs_layout [layout]: "ct_size struct_fred_cs = 8" "ct_align struct_fred_cs = 8"
  by (simp_all add: struct_fred_cs_def placement layout cong: layout_cong)

definition struct_fred_ss :: ctype where
  "struct_fred_ss = struct_of [
     CBits ''ss'' typedef_u64 16,
     CBits ''sti'' typedef_u64 1,
     CBits ''swevent'' typedef_u64 1,
     CBits ''nmi'' typedef_u64 1,
     CBits '''' (CInt C_int) 13,
     CBits ''vector'' typedef_u64 8,
     CBits '''' (CInt C_short) 8,
     CBits ''type'' typedef_u64 4,
     CBits '''' (CInt C_char) 4,
     CBits ''enclave'' typedef_u64 1,
     CBits ''lm'' typedef_u64 1,
     CBits ''nested'' typedef_u64 1,
     CBits '''' (CInt C_char) 1,
     CBits ''insnlen'' typedef_u64 4]"

lemma struct_fred_ss_layout [layout]: "ct_size struct_fred_ss = 8" "ct_align struct_fred_ss = 8"
  by (simp_all add: struct_fred_ss_def placement layout cong: layout_cong)

definition struct_pt_regs :: ctype where
  "struct_pt_regs = struct_of [
     fld ''r15'' (CInt C_ulong),
     fld ''r14'' (CInt C_ulong),
     fld ''r13'' (CInt C_ulong),
     fld ''r12'' (CInt C_ulong),
     fld ''bp'' (CInt C_ulong),
     fld ''bx'' (CInt C_ulong),
     fld ''r11'' (CInt C_ulong),
     fld ''r10'' (CInt C_ulong),
     fld ''r9'' (CInt C_ulong),
     fld ''r8'' (CInt C_ulong),
     fld ''ax'' (CInt C_ulong),
     fld ''cx'' (CInt C_ulong),
     fld ''dx'' (CInt C_ulong),
     fld ''si'' (CInt C_ulong),
     fld ''di'' (CInt C_ulong),
     fld ''orig_ax'' (CInt C_ulong),
     fld ''ip'' (CInt C_ulong),
     fld '''' (union_of [
       fld ''cs'' typedef_u16,
       fld ''csx'' typedef_u64,
       fld ''fred_cs'' struct_fred_cs]),
     fld ''flags'' (CInt C_ulong),
     fld ''sp'' (CInt C_ulong),
     fld '''' (union_of [
       fld ''ss'' typedef_u16,
       fld ''ssx'' typedef_u64,
       fld ''fred_ss'' struct_fred_ss])]"

lemma struct_pt_regs_layout [layout]: "ct_size struct_pt_regs = 168" "ct_align struct_pt_regs = 8"
  by (simp_all add: struct_pt_regs_def placement layout cong: layout_cong)

definition struct_thread_info :: ctype where
  "struct_thread_info = struct_of [
     fld ''flags'' (CInt C_ulong),
     fld ''syscall_work'' (CInt C_ulong),
     fld ''status'' typedef_u32,
     fld ''cpu'' typedef_u32]"

lemma struct_thread_info_layout [layout]: "ct_size struct_thread_info = 24" "ct_align struct_thread_info = 8"
  by (simp_all add: struct_thread_info_def placement layout cong: layout_cong)

definition struct___call_single_node :: ctype where
  "struct___call_single_node = struct_of [
     fld ''llist'' struct_llist_node,
     fld '''' (union_of [
       fld ''u_flags'' (CInt C_uint),
       fld ''a_flags'' typedef_atomic_t]),
     fld ''src'' typedef_u16,
     fld ''dst'' typedef_u16]"

lemma struct___call_single_node_layout [layout]: "ct_size struct___call_single_node = 16" "ct_align struct___call_single_node = 8"
  by (simp_all add: struct___call_single_node_def placement layout cong: layout_cong)

definition struct_load_weight :: ctype where
  "struct_load_weight = struct_of [
     fld ''weight'' (CInt C_ulong),
     fld ''inv_weight'' typedef_u32]"

lemma struct_load_weight_layout [layout]: "ct_size struct_load_weight = 16" "ct_align struct_load_weight = 8"
  by (simp_all add: struct_load_weight_def placement layout cong: layout_cong)

definition struct_rb_node :: ctype where
  "struct_rb_node = struct_of [
     fld ''__rb_parent_color'' (CInt C_ulong),
     fld ''rb_right'' CPtr,
     fld ''rb_left'' CPtr]"

lemma struct_rb_node_layout [layout]: "ct_size struct_rb_node = 24" "ct_align struct_rb_node = 8"
  by (simp_all add: struct_rb_node_def placement layout cong: layout_cong)

definition struct_sched_avg :: ctype where
  "struct_sched_avg = struct_of [
     fld ''last_update_time'' typedef_u64,
     fld ''load_sum'' typedef_u64,
     fld ''runnable_sum'' typedef_u64,
     fld ''util_sum'' typedef_u32,
     fld ''period_contrib'' typedef_u32,
     fld ''load_avg'' (CInt C_ulong),
     fld ''runnable_avg'' (CInt C_ulong),
     fld ''util_avg'' (CInt C_ulong),
     fld ''util_est'' (CInt C_uint)]"

lemma struct_sched_avg_layout [layout]: "ct_size struct_sched_avg = 64" "ct_align struct_sched_avg = 8"
  by (simp_all add: struct_sched_avg_def placement layout cong: layout_cong)

definition struct_sched_entity :: ctype where
  "struct_sched_entity = struct_of [
     fld ''load'' struct_load_weight,
     fld ''run_node'' struct_rb_node,
     fld ''deadline'' typedef_u64,
     fld ''min_vruntime'' typedef_u64,
     fld ''min_slice'' typedef_u64,
     fld ''group_node'' struct_list_head,
     fld ''on_rq'' (CInt C_uchar),
     fld ''sched_delayed'' (CInt C_uchar),
     fld ''rel_deadline'' (CInt C_uchar),
     fld ''custom_slice'' (CInt C_uchar),
     fld ''exec_start'' typedef_u64,
     fld ''sum_exec_runtime'' typedef_u64,
     fld ''prev_sum_exec_runtime'' typedef_u64,
     fld ''vruntime'' typedef_u64,
     fld ''vlag'' typedef_s64,
     fld ''slice'' typedef_u64,
     fld ''nr_migrations'' typedef_u64,
     fld ''depth'' (CInt C_int),
     fld ''parent'' CPtr,
     fld ''cfs_rq'' CPtr,
     fld ''my_q'' CPtr,
     fld ''runnable_weight'' (CInt C_ulong),
     CBits '''' (CInt C_long) 64,
     fld ''avg'' struct_sched_avg]"

lemma struct_sched_entity_layout [layout]: "ct_size struct_sched_entity = 256" "ct_align struct_sched_entity = 8"
  by (simp_all add: struct_sched_entity_def placement layout cong: layout_cong)

definition struct_sched_rt_entity :: ctype where
  "struct_sched_rt_entity = struct_of [
     fld ''run_list'' struct_list_head,
     fld ''timeout'' (CInt C_ulong),
     fld ''watchdog_stamp'' (CInt C_ulong),
     fld ''time_slice'' (CInt C_uint),
     fld ''on_rq'' (CInt C_ushort),
     fld ''on_list'' (CInt C_ushort),
     fld ''back'' CPtr]"

lemma struct_sched_rt_entity_layout [layout]: "ct_size struct_sched_rt_entity = 48" "ct_align struct_sched_rt_entity = 8"
  by (simp_all add: struct_sched_rt_entity_def placement layout cong: layout_cong)

definition typedef_ktime_t :: ctype where
  "typedef_ktime_t = typedef_s64"

lemma typedef_ktime_t_layout [layout]: "ct_size typedef_ktime_t = 8" "ct_align typedef_ktime_t = 8"
  by (simp_all add: typedef_ktime_t_def placement layout cong: layout_cong)

definition struct_timerqueue_node :: ctype where
  "struct_timerqueue_node = struct_of [
     fld ''node'' struct_rb_node,
     fld ''expires'' typedef_ktime_t]"

lemma struct_timerqueue_node_layout [layout]: "ct_size struct_timerqueue_node = 32" "ct_align struct_timerqueue_node = 8"
  by (simp_all add: struct_timerqueue_node_def placement layout cong: layout_cong)

definition struct_hrtimer :: ctype where
  "struct_hrtimer = struct_of [
     fld ''node'' struct_timerqueue_node,
     fld ''_softexpires'' typedef_ktime_t,
     fld ''function'' CPtr,
     fld ''base'' CPtr,
     fld ''state'' typedef_u8,
     fld ''is_rel'' typedef_u8,
     fld ''is_soft'' typedef_u8,
     fld ''is_hard'' typedef_u8]"

lemma struct_hrtimer_layout [layout]: "ct_size struct_hrtimer = 64" "ct_align struct_hrtimer = 8"
  by (simp_all add: struct_hrtimer_def placement layout cong: layout_cong)

definition typedef_dl_server_has_tasks_f :: ctype where
  "typedef_dl_server_has_tasks_f = CPtr"

lemma typedef_dl_server_has_tasks_f_layout [layout]: "ct_size typedef_dl_server_has_tasks_f = 8" "ct_align typedef_dl_server_has_tasks_f = 8"
  by (simp_all add: typedef_dl_server_has_tasks_f_def placement layout cong: layout_cong)

definition typedef_dl_server_pick_f :: ctype where
  "typedef_dl_server_pick_f = CPtr"

lemma typedef_dl_server_pick_f_layout [layout]: "ct_size typedef_dl_server_pick_f = 8" "ct_align typedef_dl_server_pick_f = 8"
  by (simp_all add: typedef_dl_server_pick_f_def placement layout cong: layout_cong)

definition struct_sched_dl_entity :: ctype where
  "struct_sched_dl_entity = struct_of [
     fld ''rb_node'' struct_rb_node,
     fld ''dl_runtime'' typedef_u64,
     fld ''dl_deadline'' typedef_u64,
     fld ''dl_period'' typedef_u64,
     fld ''dl_bw'' typedef_u64,
     fld ''dl_density'' typedef_u64,
     fld ''runtime'' typedef_s64,
     fld ''deadline'' typedef_u64,
     fld ''flags'' (CInt C_uint),
     CBits ''dl_throttled'' (CInt C_uint) 1,
     CBits ''dl_yielded'' (CInt C_uint) 1,
     CBits ''dl_non_contending'' (CInt C_uint) 1,
     CBits ''dl_overrun'' (CInt C_uint) 1,
     CBits ''dl_server'' (CInt C_uint) 1,
     CBits ''dl_server_active'' (CInt C_uint) 1,
     CBits ''dl_defer'' (CInt C_uint) 1,
     CBits ''dl_defer_armed'' (CInt C_uint) 1,
     CBits ''dl_defer_running'' (CInt C_uint) 1,
     fld ''dl_timer'' struct_hrtimer,
     fld ''inactive_timer'' struct_hrtimer,
     fld ''rq'' CPtr,
     fld ''server_has_tasks'' typedef_dl_server_has_tasks_f,
     fld ''server_pick_task'' typedef_dl_server_pick_f,
     fld ''pi_se'' CPtr]"

lemma struct_sched_dl_entity_layout [layout]: "ct_size struct_sched_dl_entity = 248" "ct_align struct_sched_dl_entity = 8"
  by (simp_all add: struct_sched_dl_entity_def placement layout cong: layout_cong)

definition struct_sched_statistics :: ctype where
  "struct_sched_statistics = struct_of [
     fld ''wait_start'' typedef_u64,
     fld ''wait_max'' typedef_u64,
     fld ''wait_count'' typedef_u64,
     fld ''wait_sum'' typedef_u64,
     fld ''iowait_count'' typedef_u64,
     fld ''iowait_sum'' typedef_u64,
     fld ''sleep_start'' typedef_u64,
     fld ''sleep_max'' typedef_u64,
     fld ''sum_sleep_runtime'' typedef_s64,
     fld ''block_start'' typedef_u64,
     fld ''block_max'' typedef_u64,
     fld ''sum_block_runtime'' typedef_s64,
     fld ''exec_max'' typedef_s64,
     fld ''slice_max'' typedef_u64,
     fld ''nr_migrations_cold'' typedef_u64,
     fld ''nr_failed_migrations_affine'' typedef_u64,
     fld ''nr_failed_migrations_running'' typedef_u64,
     fld ''nr_failed_migrations_hot'' typedef_u64,
     fld ''nr_forced_migrations'' typedef_u64,
     fld ''nr_wakeups'' typedef_u64,
     fld ''nr_wakeups_sync'' typedef_u64,
     fld ''nr_wakeups_migrate'' typedef_u64,
     fld ''nr_wakeups_local'' typedef_u64,
     fld ''nr_wakeups_remote'' typedef_u64,
     fld ''nr_wakeups_affine'' typedef_u64,
     fld ''nr_wakeups_affine_attempts'' typedef_u64,
     fld ''nr_wakeups_passive'' typedef_u64,
     fld ''nr_wakeups_idle'' typedef_u64,
     CBits '''' (CInt C_long) 64,
     CBits '''' (CInt C_long) 64,
     CBits '''' (CInt C_long) 64,
     CBits '''' (CInt C_long) 64]"

lemma struct_sched_statistics_layout [layout]: "ct_size struct_sched_statistics = 256" "ct_align struct_sched_statistics = 8"
  by (simp_all add: struct_sched_statistics_def placement layout cong: layout_cong)

definition struct_cpumask :: ctype where
  "struct_cpumask = struct_of [
     fld ''bits'' (CArr (CInt C_ulong) 128)]"

lemma struct_cpumask_layout [layout]: "ct_size struct_cpumask = 1024" "ct_align struct_cpumask = 8"
  by (simp_all add: struct_cpumask_def placement layout cong: layout_cong)

definition typedef_cpumask_t :: ctype where
  "typedef_cpumask_t = struct_cpumask"

lemma typedef_cpumask_t_layout [layout]: "ct_size typedef_cpumask_t = 1024" "ct_align typedef_cpumask_t = 8"
  by (simp_all add: typedef_cpumask_t_def placement layout cong: layout_cong)

definition union_rcu_special :: ctype where
  "union_rcu_special = union_of [
     fld ''b'' (struct_of [
       fld ''blocked'' typedef_u8,
       fld ''need_qs'' typedef_u8,
       fld ''exp_hint'' typedef_u8,
       fld ''need_mb'' typedef_u8]),
     fld ''s'' typedef_u32]"

lemma union_rcu_special_layout [layout]: "ct_size union_rcu_special = 4" "ct_align union_rcu_special = 4"
  by (simp_all add: union_rcu_special_def placement layout cong: layout_cong)

definition struct_sched_info :: ctype where
  "struct_sched_info = struct_of [
     fld ''pcount'' (CInt C_ulong),
     fld ''run_delay'' (CInt C_ullong),
     fld ''last_arrival'' (CInt C_ullong),
     fld ''last_queued'' (CInt C_ullong)]"

lemma struct_sched_info_layout [layout]: "ct_size struct_sched_info = 32" "ct_align struct_sched_info = 8"
  by (simp_all add: struct_sched_info_def placement layout cong: layout_cong)

definition struct_plist_node :: ctype where
  "struct_plist_node = struct_of [
     fld ''prio'' (CInt C_int),
     fld ''prio_list'' struct_list_head,
     fld ''node_list'' struct_list_head]"

lemma struct_plist_node_layout [layout]: "ct_size struct_plist_node = 40" "ct_align struct_plist_node = 8"
  by (simp_all add: struct_plist_node_def placement layout cong: layout_cong)

definition typedef___kernel_clockid_t :: ctype where
  "typedef___kernel_clockid_t = CInt C_int"

lemma typedef___kernel_clockid_t_layout [layout]: "ct_size typedef___kernel_clockid_t = 4" "ct_align typedef___kernel_clockid_t = 4"
  by (simp_all add: typedef___kernel_clockid_t_def placement layout cong: layout_cong)

definition typedef_clockid_t :: ctype where
  "typedef_clockid_t = typedef___kernel_clockid_t"

lemma typedef_clockid_t_layout [layout]: "ct_size typedef_clockid_t = 4" "ct_align typedef_clockid_t = 4"
  by (simp_all add: typedef_clockid_t_def placement layout cong: layout_cong)

definition enum_timespec_type :: ctype where
  "enum_timespec_type = CEnum 4"

lemma enum_timespec_type_layout [layout]: "ct_size enum_timespec_type = 4" "ct_align enum_timespec_type = 4"
  by (simp_all add: enum_timespec_type_def placement layout cong: layout_cong)

definition struct_restart_block :: ctype where
  "struct_restart_block = struct_of [
     fld ''arch_data'' (CInt C_ulong),
     fld ''fn'' CPtr,
     fld '''' (union_of [
       fld ''futex'' (struct_of [
         fld ''uaddr'' CPtr,
         fld ''val'' typedef_u32,
         fld ''flags'' typedef_u32,
         fld ''bitset'' typedef_u32,
         fld ''time'' typedef_u64,
         fld ''uaddr2'' CPtr]),
       fld ''nanosleep'' (struct_of [
         fld ''clockid'' typedef_clockid_t,
         fld ''type'' enum_timespec_type,
         fld '''' (union_of [
           fld ''rmtp'' CPtr,
           fld ''compat_rmtp'' CPtr]),
         fld ''expires'' typedef_u64]),
       fld ''poll'' (struct_of [
         fld ''ufds'' CPtr,
         fld ''nfds'' (CInt C_int),
         fld ''has_timeout'' (CInt C_int),
         fld ''tv_sec'' (CInt C_ulong),
         fld ''tv_nsec'' (CInt C_ulong)])])]"

lemma struct_restart_block_layout [layout]: "ct_size struct_restart_block = 56" "ct_align struct_restart_block = 8"
  by (simp_all add: struct_restart_block_def placement layout cong: layout_cong)

definition typedef___kernel_pid_t :: ctype where
  "typedef___kernel_pid_t = CInt C_int"

lemma typedef___kernel_pid_t_layout [layout]: "ct_size typedef___kernel_pid_t = 4" "ct_align typedef___kernel_pid_t = 4"
  by (simp_all add: typedef___kernel_pid_t_def placement layout cong: layout_cong)

definition typedef_pid_t :: ctype where
  "typedef_pid_t = typedef___kernel_pid_t"

lemma typedef_pid_t_layout [layout]: "ct_size typedef_pid_t = 4" "ct_align typedef_pid_t = 4"
  by (simp_all add: typedef_pid_t_def placement layout cong: layout_cong)

definition struct_prev_cputime :: ctype where
  "struct_prev_cputime = struct_of [
     fld ''utime'' typedef_u64,
     fld ''stime'' typedef_u64,
     fld ''lock'' typedef_raw_spinlock_t]"

lemma struct_prev_cputime_layout [layout]: "ct_size struct_prev_cputime = 24" "ct_align struct_prev_cputime = 8"
  by (simp_all add: struct_prev_cputime_def placement layout cong: layout_cong)

definition enum_vtime_state :: ctype where
  "enum_vtime_state = CEnum 4"

lemma enum_vtime_state_layout [layout]: "ct_size enum_vtime_state = 4" "ct_align enum_vtime_state = 4"
  by (simp_all add: enum_vtime_state_def placement layout cong: layout_cong)

definition struct_vtime :: ctype where
  "struct_vtime = struct_of [
     fld ''seqcount'' typedef_seqcount_t,
     fld ''starttime'' (CInt C_ullong),
     fld ''state'' enum_vtime_state,
     fld ''cpu'' (CInt C_uint),
     fld ''utime'' typedef_u64,
     fld ''stime'' typedef_u64,
     fld ''gtime'' typedef_u64]"

lemma struct_vtime_layout [layout]: "ct_size struct_vtime = 48" "ct_align struct_vtime = 8"
  by (simp_all add: struct_vtime_def placement layout cong: layout_cong)

definition struct_timerqueue_head :: ctype where
  "struct_timerqueue_head = struct_of [
     fld ''rb_root'' struct_rb_root_cached]"

lemma struct_timerqueue_head_layout [layout]: "ct_size struct_timerqueue_head = 16" "ct_align struct_timerqueue_head = 8"
  by (simp_all add: struct_timerqueue_head_def placement layout cong: layout_cong)

definition struct_posix_cputimer_base :: ctype where
  "struct_posix_cputimer_base = struct_of [
     fld ''nextevt'' typedef_u64,
     fld ''tqhead'' struct_timerqueue_head]"

lemma struct_posix_cputimer_base_layout [layout]: "ct_size struct_posix_cputimer_base = 24" "ct_align struct_posix_cputimer_base = 8"
  by (simp_all add: struct_posix_cputimer_base_def placement layout cong: layout_cong)

definition struct_posix_cputimers :: ctype where
  "struct_posix_cputimers = struct_of [
     fld ''bases'' (CArr struct_posix_cputimer_base 3),
     fld ''timers_active'' (CInt C_uint),
     fld ''expiry_active'' (CInt C_uint)]"

lemma struct_posix_cputimers_layout [layout]: "ct_size struct_posix_cputimers = 80" "ct_align struct_posix_cputimers = 8"
  by (simp_all add: struct_posix_cputimers_def placement layout cong: layout_cong)

definition struct_posix_cputimers_work :: ctype where
  "struct_posix_cputimers_work = struct_of [
     fld ''work'' struct_callback_head,
     fld ''mutex'' struct_mutex,
     fld ''scheduled'' (CInt C_uint)]"

lemma struct_posix_cputimers_work_layout [layout]: "ct_size struct_posix_cputimers_work = 56" "ct_align struct_posix_cputimers_work = 8"
  by (simp_all add: struct_posix_cputimers_work_def placement layout cong: layout_cong)

definition struct_sysv_sem :: ctype where
  "struct_sysv_sem = struct_of [
     fld ''undo_list'' CPtr]"

lemma struct_sysv_sem_layout [layout]: "ct_size struct_sysv_sem = 8" "ct_align struct_sysv_sem = 8"
  by (simp_all add: struct_sysv_sem_def placement layout cong: layout_cong)

definition struct_sysv_shm :: ctype where
  "struct_sysv_shm = struct_of [
     fld ''shm_clist'' struct_list_head]"

lemma struct_sysv_shm_layout [layout]: "ct_size struct_sysv_shm = 16" "ct_align struct_sysv_shm = 8"
  by (simp_all add: struct_sysv_shm_def placement layout cong: layout_cong)

definition typedef_sigset_t :: ctype where
  "typedef_sigset_t = struct_of [
     fld ''sig'' (CArr (CInt C_ulong) 1)]"

lemma typedef_sigset_t_layout [layout]: "ct_size typedef_sigset_t = 8" "ct_align typedef_sigset_t = 8"
  by (simp_all add: typedef_sigset_t_def placement layout cong: layout_cong)

definition struct_sigpending :: ctype where
  "struct_sigpending = struct_of [
     fld ''list'' struct_list_head,
     fld ''signal'' typedef_sigset_t]"

lemma struct_sigpending_layout [layout]: "ct_size struct_sigpending = 24" "ct_align struct_sigpending = 8"
  by (simp_all add: struct_sigpending_def placement layout cong: layout_cong)

definition struct_seccomp :: ctype where
  "struct_seccomp = struct_of [
     fld ''mode'' (CInt C_int),
     fld ''filter_count'' typedef_atomic_t,
     fld ''filter'' CPtr]"

lemma struct_seccomp_layout [layout]: "ct_size struct_seccomp = 16" "ct_align struct_seccomp = 8"
  by (simp_all add: struct_seccomp_def placement layout cong: layout_cong)

definition struct_syscall_user_dispatch :: ctype where
  "struct_syscall_user_dispatch = struct_of [
     fld ''selector'' CPtr,
     fld ''offset'' (CInt C_ulong),
     fld ''len'' (CInt C_ulong),
     fld ''on_dispatch'' typedef_bool]"

lemma struct_syscall_user_dispatch_layout [layout]: "ct_size struct_syscall_user_dispatch = 32" "ct_align struct_syscall_user_dispatch = 8"
  by (simp_all add: struct_syscall_user_dispatch_def placement layout cong: layout_cong)

definition struct_wake_q_node :: ctype where
  "struct_wake_q_node = struct_of [
     fld ''next'' CPtr]"

lemma struct_wake_q_node_layout [layout]: "ct_size struct_wake_q_node = 8" "ct_align struct_wake_q_node = 8"
  by (simp_all add: struct_wake_q_node_def placement layout cong: layout_cong)

definition struct_task_io_accounting :: ctype where
  "struct_task_io_accounting = struct_of [
     fld ''rchar'' typedef_u64,
     fld ''wchar'' typedef_u64,
     fld ''syscr'' typedef_u64,
     fld ''syscw'' typedef_u64,
     fld ''read_bytes'' typedef_u64,
     fld ''write_bytes'' typedef_u64,
     fld ''cancelled_write_bytes'' typedef_u64]"

lemma struct_task_io_accounting_layout [layout]: "ct_size struct_task_io_accounting = 56" "ct_align struct_task_io_accounting = 8"
  by (simp_all add: struct_task_io_accounting_def placement layout cong: layout_cong)

definition typedef_nodemask_t :: ctype where
  "typedef_nodemask_t = struct_of [
     fld ''bits'' (CArr (CInt C_ulong) 16)]"

lemma typedef_nodemask_t_layout [layout]: "ct_size typedef_nodemask_t = 128" "ct_align typedef_nodemask_t = 8"
  by (simp_all add: typedef_nodemask_t_def placement layout cong: layout_cong)

definition struct_arch_tlbflush_unmap_batch :: ctype where
  "struct_arch_tlbflush_unmap_batch = struct_of [
     fld ''cpumask'' struct_cpumask]"

lemma struct_arch_tlbflush_unmap_batch_layout [layout]: "ct_size struct_arch_tlbflush_unmap_batch = 1024" "ct_align struct_arch_tlbflush_unmap_batch = 8"
  by (simp_all add: struct_arch_tlbflush_unmap_batch_def placement layout cong: layout_cong)

definition struct_tlbflush_unmap_batch :: ctype where
  "struct_tlbflush_unmap_batch = struct_of [
     fld ''arch'' struct_arch_tlbflush_unmap_batch,
     fld ''flush_required'' typedef_bool,
     fld ''writable'' typedef_bool]"

lemma struct_tlbflush_unmap_batch_layout [layout]: "ct_size struct_tlbflush_unmap_batch = 1032" "ct_align struct_tlbflush_unmap_batch = 8"
  by (simp_all add: struct_tlbflush_unmap_batch_def placement layout cong: layout_cong)

definition struct_page_frag :: ctype where
  "struct_page_frag = struct_of [
     fld ''page'' CPtr,
     fld ''offset'' typedef___u32,
     fld ''size'' typedef___u32]"

lemma struct_page_frag_layout [layout]: "ct_size struct_page_frag = 16" "ct_align struct_page_frag = 8"
  by (simp_all add: struct_page_frag_def placement layout cong: layout_cong)

definition struct_kmap_ctrl :: ctype where
  "struct_kmap_ctrl = struct_of []"

lemma struct_kmap_ctrl_layout [layout]: "ct_size struct_kmap_ctrl = 0" "ct_align struct_kmap_ctrl = 1"
  by (simp_all add: struct_kmap_ctrl_def placement layout cong: layout_cong)

definition struct_timer_list :: ctype where
  "struct_timer_list = struct_of [
     fld ''entry'' struct_hlist_node,
     fld ''expires'' (CInt C_ulong),
     fld ''function'' CPtr,
     fld ''flags'' typedef_u32]"

lemma struct_timer_list_layout [layout]: "ct_size struct_timer_list = 40" "ct_align struct_timer_list = 8"
  by (simp_all add: struct_timer_list_def placement layout cong: layout_cong)

definition struct_llist_head :: ctype where
  "struct_llist_head = struct_of [
     fld ''first'' CPtr]"

lemma struct_llist_head_layout [layout]: "ct_size struct_llist_head = 8" "ct_align struct_llist_head = 8"
  by (simp_all add: struct_llist_head_def placement layout cong: layout_cong)

definition struct_desc_struct :: ctype where
  "struct_desc_struct = struct_of [
     fld ''limit0'' typedef_u16,
     fld ''base0'' typedef_u16,
     CBits ''base1'' typedef_u16 8,
     CBits ''type'' typedef_u16 4,
     CBits ''s'' typedef_u16 1,
     CBits ''dpl'' typedef_u16 2,
     CBits ''p'' typedef_u16 1,
     CBits ''limit1'' typedef_u16 4,
     CBits ''avl'' typedef_u16 1,
     CBits ''l'' typedef_u16 1,
     CBits ''d'' typedef_u16 1,
     CBits ''g'' typedef_u16 1,
     CBits ''base2'' typedef_u16 8]"

lemma struct_desc_struct_layout [layout]: "ct_size struct_desc_struct = 8" "ct_align struct_desc_struct = 2"
  by (simp_all add: struct_desc_struct_def placement layout cong: layout_cong)

definition struct_thread_shstk :: ctype where
  "struct_thread_shstk = struct_of [
     fld ''base'' typedef_u64,
     fld ''size'' typedef_u64]"

lemma struct_thread_shstk_layout [layout]: "ct_size struct_thread_shstk = 16" "ct_align struct_thread_shstk = 8"
  by (simp_all add: struct_thread_shstk_def placement layout cong: layout_cong)

definition struct_fpu_state_perm :: ctype where
  "struct_fpu_state_perm = struct_of [
     fld ''__state_perm'' typedef_u64,
     fld ''__state_size'' (CInt C_uint),
     fld ''__user_state_size'' (CInt C_uint)]"

lemma struct_fpu_state_perm_layout [layout]: "ct_size struct_fpu_state_perm = 16" "ct_align struct_fpu_state_perm = 8"
  by (simp_all add: struct_fpu_state_perm_def placement layout cong: layout_cong)

definition struct_fregs_state :: ctype where
  "struct_fregs_state = struct_of [
     fld ''cwd'' typedef_u32,
     fld ''swd'' typedef_u32,
     fld ''twd'' typedef_u32,
     fld ''fip'' typedef_u32,
     fld ''fcs'' typedef_u32,
     fld ''foo'' typedef_u32,
     fld ''fos'' typedef_u32,
     fld ''st_space'' (CArr typedef_u32 20),
     fld ''status'' typedef_u32]"

lemma struct_fregs_state_layout [layout]: "ct_size struct_fregs_state = 112" "ct_align struct_fregs_state = 4"
  by (simp_all add: struct_fregs_state_def placement layout cong: layout_cong)

definition struct_fxregs_state :: ctype where
  "struct_fxregs_state = struct_of [
     fld ''cwd'' typedef_u16,
     fld ''swd'' typedef_u16,
     fld ''twd'' typedef_u16,
     fld ''fop'' typedef_u16,
     fld '''' (union_of [
       fld '''' (struct_of [
         fld ''rip'' typedef_u64,
         fld ''rdp'' typedef_u64]),
       fld '''' (struct_of [
         fld ''fip'' typedef_u32,
         fld ''fcs'' typedef_u32,
         fld ''foo'' typedef_u32,
         fld ''fos'' typedef_u32])]),
     fld ''mxcsr'' typedef_u32,
     fld ''mxcsr_mask'' typedef_u32,
     fld ''st_space'' (CArr typedef_u32 32),
     fld ''xmm_space'' (CArr typedef_u32 64),
     fld ''padding'' (CArr typedef_u32 12),
     fld '''' (union_of [
       fld ''padding1'' (CArr typedef_u32 12),
       fld ''sw_reserved'' (CArr typedef_u32 12)])]"

lemma struct_fxregs_state_layout [layout]: "ct_size struct_fxregs_state = 512" "ct_align struct_fxregs_state = 8"
  by (simp_all add: struct_fxregs_state_def placement layout cong: layout_cong)

definition struct_swregs_state :: ctype where
  "struct_swregs_state = struct_of [
     fld ''cwd'' typedef_u32,
     fld ''swd'' typedef_u32,
     fld ''twd'' typedef_u32,
     fld ''fip'' typedef_u32,
     fld ''fcs'' typedef_u32,
     fld ''foo'' typedef_u32,
     fld ''fos'' typedef_u32,
     fld ''st_space'' (CArr typedef_u32 20),
     fld ''ftop'' typedef_u8,
     fld ''changed'' typedef_u8,
     fld ''lookahead'' typedef_u8,
     fld ''no_update'' typedef_u8,
     fld ''rm'' typedef_u8,
     fld ''alimit'' typedef_u8,
     fld ''info'' CPtr,
     fld ''entry_eip'' typedef_u32]"

lemma struct_swregs_state_layout [layout]: "ct_size struct_swregs_state = 136" "ct_align struct_swregs_state = 8"
  by (simp_all add: struct_swregs_state_def placement layout cong: layout_cong)

definition struct_xstate_header :: ctype where
  "struct_xstate_header = struct_of [
     fld ''xfeatures'' typedef_u64,
     fld ''xcomp_bv'' typedef_u64,
     fld ''reserved'' (CArr typedef_u64 6)]"

lemma struct_xstate_header_layout [layout]: "ct_size struct_xstate_header = 64" "ct_align struct_xstate_header = 8"
  by (simp_all add: struct_xstate_header_def placement layout cong: layout_cong)

definition struct_xregs_state :: ctype where
  "struct_xregs_state = struct_of [
     fld ''i387'' struct_fxregs_state,
     fld ''header'' struct_xstate_header,
     fld ''extended_state_area'' (CArr typedef_u8 0)]"

lemma struct_xregs_state_layout [layout]: "ct_size struct_xregs_state = 576" "ct_align struct_xregs_state = 8"
  by (simp_all add: struct_xregs_state_def placement layout cong: layout_cong)

definition union_fpregs_state :: ctype where
  "union_fpregs_state = union_of [
     fld ''fsave'' struct_fregs_state,
     fld ''fxsave'' struct_fxregs_state,
     fld ''soft'' struct_swregs_state,
     fld ''xsave'' struct_xregs_state,
     fld ''__padding'' (CArr typedef_u8 4096)]"

lemma union_fpregs_state_layout [layout]: "ct_size union_fpregs_state = 4096" "ct_align union_fpregs_state = 8"
  by (simp_all add: union_fpregs_state_def placement layout cong: layout_cong)

definition struct_fpstate :: ctype where
  "struct_fpstate = struct_of [
     fld ''size'' (CInt C_uint),
     fld ''user_size'' (CInt C_uint),
     fld ''xfeatures'' typedef_u64,
     fld ''user_xfeatures'' typedef_u64,
     fld ''xfd'' typedef_u64,
     CBits ''is_valloc'' (CInt C_uint) 1,
     CBits ''is_guest'' (CInt C_uint) 1,
     CBits ''is_confidential'' (CInt C_uint) 1,
     CBits ''in_use'' (CInt C_uint) 1,
     CBits '''' (CInt C_long) 64,
     CBits '''' (CInt C_long) 64,
     CBits '''' (CInt C_long) 64,
     fld ''regs'' union_fpregs_state]"

lemma struct_fpstate_layout [layout]: "ct_size struct_fpstate = 4160" "ct_align struct_fpstate = 8"
  by (simp_all add: struct_fpstate_def placement layout cong: layout_cong)

definition struct_fpu :: ctype where
  "struct_fpu = struct_of [
     fld ''last_cpu'' (CInt C_uint),
     fld ''avx512_timestamp'' (CInt C_ulong),
     fld ''fpstate'' CPtr,
     fld ''__task_fpstate'' CPtr,
     fld ''perm'' struct_fpu_state_perm,
     fld ''guest_perm'' struct_fpu_state_perm,
     fld ''__fpstate'' struct_fpstate]"

lemma struct_fpu_layout [layout]: "ct_size struct_fpu = 4224" "ct_align struct_fpu = 8"
  by (simp_all add: struct_fpu_def placement layout cong: layout_cong)

definition struct_thread_struct :: ctype where
  "struct_thread_struct = struct_of [
     fld ''tls_array'' (CArr struct_desc_struct 3),
     fld ''sp'' (CInt C_ulong),
     fld ''es'' (CInt C_ushort),
     fld ''ds'' (CInt C_ushort),
     fld ''fsindex'' (CInt C_ushort),
     fld ''gsindex'' (CInt C_ushort),
     fld ''fsbase'' (CInt C_ulong),
     fld ''gsbase'' (CInt C_ulong),
     fld ''ptrace_bps'' (CArr CPtr 4),
     fld ''virtual_dr6'' (CInt C_ulong),
     fld ''ptrace_dr7'' (CInt C_ulong),
     fld ''cr2'' (CInt C_ulong),
     fld ''trap_nr'' (CInt C_ulong),
     fld ''error_code'' (CInt C_ulong),
     fld ''io_bitmap'' CPtr,
     fld ''iopl_emul'' (CInt C_ulong),
     CBits ''iopl_warn'' (CInt C_uint) 1,
     fld ''pkru'' typedef_u32,
     fld ''features'' (CInt C_ulong),
     fld ''features_locked'' (CInt C_ulong),
     fld ''shstk'' struct_thread_shstk,
     CBits '''' (CInt C_long) 64,
     fld ''fpu'' struct_fpu]"

lemma struct_thread_struct_layout [layout]: "ct_size struct_thread_struct = 4416" "ct_align struct_thread_struct = 8"
  by (simp_all add: struct_thread_struct_def placement layout cong: layout_cong)

definition task_struct_fields_1 :: "cfield list" where
  "task_struct_fields_1 = [
     fld ''thread_info'' struct_thread_info,
     fld ''__state'' (CInt C_uint),
     fld ''saved_state'' (CInt C_uint),
     fld ''stack'' CPtr,
     fld ''usage'' typedef_refcount_t,
     fld ''flags'' (CInt C_uint),
     fld ''ptrace'' (CInt C_uint),
     fld ''on_cpu'' (CInt C_int),
     fld ''wake_entry'' struct___call_single_node,
     fld ''wakee_flips'' (CInt C_uint),
     fld ''wakee_flip_decay_ts'' (CInt C_ulong),
     fld ''last_wakee'' CPtr,
     fld ''recent_used_cpu'' (CInt C_int),
     fld ''wake_cpu'' (CInt C_int),
     fld ''on_rq'' (CInt C_int),
     fld ''prio'' (CInt C_int),
     fld ''static_prio'' (CInt C_int),
     fld ''normal_prio'' (CInt C_int),
     fld ''rt_priority'' (CInt C_uint),
     fld ''se'' struct_sched_entity,
     fld ''rt'' struct_sched_rt_entity,
     fld ''dl'' struct_sched_dl_entity,
     fld ''dl_server'' CPtr,
     fld ''sched_class'' CPtr,
     fld ''sched_task_group'' CPtr,
     fld ''stats'' struct_sched_statistics,
     fld ''preempt_notifiers'' struct_hlist_head,
     fld ''btrace_seq'' (CInt C_uint),
     fld ''policy'' (CInt C_uint),
     fld ''max_allowed_capacity'' (CInt C_ulong),
     fld ''nr_cpus_allowed'' (CInt C_int),
     fld ''cpus_ptr'' CPtr,
     fld ''user_cpus_ptr'' CPtr,
     fld ''cpus_mask'' typedef_cpumask_t,
     fld ''migration_pending'' CPtr,
     fld ''migration_disabled'' (CInt C_ushort),
     fld ''migration_flags'' (CInt C_ushort),
     fld ''rcu_read_lock_nesting'' (CInt C_int),
     fld ''rcu_read_unlock_special'' union_rcu_special,
     fld ''rcu_node_entry'' struct_list_head,
     fld ''rcu_blocked_node'' CPtr,
     fld ''rcu_tasks_nvcsw'' (CInt C_ulong),
     fld ''rcu_tasks_holdout'' typedef_u8,
     fld ''rcu_tasks_idx'' typedef_u8,
     fld ''rcu_tasks_idle_cpu'' (CInt C_int),
     fld ''rcu_tasks_holdout_list'' struct_list_head,
     fld ''rcu_tasks_exit_cpu'' (CInt C_int),
     fld ''rcu_tasks_exit_list'' struct_list_head,
     fld ''trc_reader_nesting'' (CInt C_int),
     fld ''trc_ipi_to_cpu'' (CInt C_int),
     fld ''trc_reader_special'' union_rcu_special,
     fld ''trc_holdout_list'' struct_list_head,
     fld ''trc_blkd_node'' struct_list_head,
     fld ''trc_blkd_cpu'' (CInt C_int),
     fld ''sched_info'' struct_sched_info,
     fld ''tasks'' struct_list_head,
     fld ''pushable_tasks'' struct_plist_node,
     fld ''pushable_dl_tasks'' struct_rb_node,
     fld ''mm'' CPtr,
     fld ''active_mm'' CPtr,
     fld ''faults_disabled_mapping'' CPtr,
     fld ''exit_state'' (CInt C_int),
     fld ''exit_code'' (CInt C_int),
     fld ''exit_signal'' (CInt C_int),
     fld ''pdeath_signal'' (CInt C_int),
     fld ''jobctl'' (CInt C_ulong),
     fld ''personality'' (CInt C_uint)]"

definition task_struct_fields_2 :: "cfield list" where
  "task_struct_fields_2 = [
     CBits ''sched_reset_on_fork'' (CInt C_uint) 1,
     CBits ''sched_contributes_to_load'' (CInt C_uint) 1,
     CBits ''sched_migrated'' (CInt C_uint) 1,
     CBits ''sched_task_hot'' (CInt C_uint) 1,
     CBits '''' (CInt C_long) 28,
     CBits ''sched_remote_wakeup'' (CInt C_uint) 1,
     CBits ''sched_rt_mutex'' (CInt C_uint) 1,
     CBits ''user_dumpable'' (CInt C_uint) 1,
     CBits ''in_execve'' (CInt C_uint) 1,
     CBits ''in_iowait'' (CInt C_uint) 1,
     CBits ''restore_sigmask'' (CInt C_uint) 1,
     CBits ''in_lru_fault'' (CInt C_uint) 1,
     CBits ''no_cgroup_migration'' (CInt C_uint) 1,
     CBits ''frozen'' (CInt C_uint) 1,
     CBits ''use_memdelay'' (CInt C_uint) 1,
     CBits ''in_memstall'' (CInt C_uint) 1,
     CBits ''in_eventfd'' (CInt C_uint) 1,
     CBits ''pasid_activated'' (CInt C_uint) 1,
     CBits ''reported_split_lock'' (CInt C_uint) 1,
     CBits ''in_thrashing'' (CInt C_uint) 1,
     fld ''atomic_flags'' (CInt C_ulong),
     fld ''restart_block'' struct_restart_block,
     fld ''pid'' typedef_pid_t,
     fld ''tgid'' typedef_pid_t,
     fld ''stack_canary'' (CInt C_ulong),
     fld ''real_parent'' CPtr,
     fld ''parent'' CPtr,
     fld ''children'' struct_list_head,
     fld ''sibling'' struct_list_head,
     fld ''group_leader'' CPtr,
     fld ''ptraced'' struct_list_head,
     fld ''ptrace_entry'' struct_list_head,
     fld ''thread_pid'' CPtr,
     fld ''pid_links'' (CArr struct_hlist_node 4),
     fld ''thread_node'' struct_list_head,
     fld ''vfork_done'' CPtr,
     fld ''set_child_tid'' CPtr,
     fld ''clear_child_tid'' CPtr,
     fld ''worker_private'' CPtr,
     fld ''utime'' typedef_u64,
     fld ''stime'' typedef_u64,
     fld ''gtime'' typedef_u64,
     fld ''prev_cputime'' struct_prev_cputime,
     fld ''vtime'' struct_vtime,
     fld ''tick_dep_mask'' typedef_atomic_t,
     fld ''nvcsw'' (CInt C_ulong),
     fld ''nivcsw'' (CInt C_ulong),
     fld ''start_time'' typedef_u64,
     fld ''start_boottime'' typedef_u64,
     fld ''min_flt'' (CInt C_ulong),
     fld ''maj_flt'' (CInt C_ulong),
     fld ''posix_cputimers'' struct_posix_cputimers,
     fld ''posix_cputimers_work'' struct_posix_cputimers_work,
     fld ''ptracer_cred'' CPtr,
     fld ''real_cred'' CPtr,
     fld ''cred'' CPtr,
     fld ''cached_requested_key'' CPtr,
     fld ''comm'' (CArr (CInt C_char) 16),
     fld ''nameidata'' CPtr,
     fld ''sysvsem'' struct_sysv_sem,
     fld ''sysvshm'' struct_sysv_shm,
     fld ''last_switch_count'' (CInt C_ulong),
     fld ''last_switch_time'' (CInt C_ulong),
     fld ''fs'' CPtr,
     fld ''files'' CPtr,
     fld ''io_uring'' CPtr,
     fld ''nsproxy'' CPtr]"

definition task_struct_fields_3 :: "cfield list" where
  "task_struct_fields_3 = [
     fld ''signal'' CPtr,
     fld ''sighand'' CPtr,
     fld ''blocked'' typedef_sigset_t,
     fld ''real_blocked'' typedef_sigset_t,
     fld ''saved_sigmask'' typedef_sigset_t,
     fld ''pending'' struct_sigpending,
     fld ''sas_ss_sp'' (CInt C_ulong),
     fld ''sas_ss_size'' typedef_size_t,
     fld ''sas_ss_flags'' (CInt C_uint),
     fld ''task_works'' CPtr,
     fld ''audit_context'' CPtr,
     fld ''loginuid'' typedef_kuid_t,
     fld ''sessionid'' (CInt C_uint),
     fld ''seccomp'' struct_seccomp,
     fld ''syscall_dispatch'' struct_syscall_user_dispatch,
     fld ''parent_exec_id'' typedef_u64,
     fld ''self_exec_id'' typedef_u64,
     fld ''alloc_lock'' typedef_spinlock_t,
     fld ''pi_lock'' typedef_raw_spinlock_t,
     fld ''wake_q'' struct_wake_q_node,
     fld ''pi_waiters'' struct_rb_root_cached,
     fld ''pi_top_task'' CPtr,
     fld ''pi_blocked_on'' CPtr,
     fld ''journal_info'' CPtr,
     fld ''bio_list'' CPtr,
     fld ''plug'' CPtr,
     fld ''reclaim_state'' CPtr,
     fld ''io_context'' CPtr,
     fld ''capture_control'' CPtr,
     fld ''ptrace_message'' (CInt C_ulong),
     fld ''last_siginfo'' CPtr,
     fld ''ioac'' struct_task_io_accounting,
     fld ''psi_flags'' (CInt C_uint),
     fld ''acct_rss_mem1'' typedef_u64,
     fld ''acct_vm_mem1'' typedef_u64,
     fld ''acct_timexpd'' typedef_u64,
     fld ''mems_allowed'' typedef_nodemask_t,
     fld ''mems_allowed_seq'' typedef_seqcount_spinlock_t,
     fld ''cpuset_mem_spread_rotor'' (CInt C_int),
     fld ''cgroups'' CPtr,
     fld ''cg_list'' struct_list_head,
     fld ''closid'' typedef_u32,
     fld ''rmid'' typedef_u32,
     fld ''robust_list'' CPtr,
     fld ''compat_robust_list'' CPtr,
     fld ''pi_state_list'' struct_list_head,
     fld ''pi_state_cache'' CPtr,
     fld ''futex_exit_mutex'' struct_mutex,
     fld ''futex_state'' (CInt C_uint),
     fld ''perf_recursion'' (CArr typedef_u8 4),
     fld ''perf_event_ctxp'' CPtr,
     fld ''perf_event_mutex'' struct_mutex,
     fld ''perf_event_list'' struct_list_head,
     fld ''mempolicy'' CPtr,
     fld ''il_prev'' (CInt C_short),
     fld ''il_weight'' typedef_u8,
     fld ''pref_node_fork'' (CInt C_short),
     fld ''numa_scan_seq'' (CInt C_int),
     fld ''numa_scan_period'' (CInt C_uint),
     fld ''numa_scan_period_max'' (CInt C_uint),
     fld ''numa_preferred_nid'' (CInt C_int),
     fld ''numa_migrate_retry'' (CInt C_ulong),
     fld ''node_stamp'' typedef_u64,
     fld ''last_task_numa_placement'' typedef_u64,
     fld ''last_sum_exec_runtime'' typedef_u64,
     fld ''numa_work'' struct_callback_head,
     fld ''numa_group'' CPtr]"

definition task_struct_fields_4 :: "cfield list" where
  "task_struct_fields_4 = [
     fld ''numa_faults'' CPtr,
     fld ''total_numa_faults'' (CInt C_ulong),
     fld ''numa_faults_locality'' (CArr (CInt C_ulong) 3),
     fld ''numa_pages_migrated'' (CInt C_ulong),
     fld ''rseq'' CPtr,
     fld ''rseq_len'' typedef_u32,
     fld ''rseq_sig'' typedef_u32,
     fld ''rseq_event_mask'' (CInt C_ulong),
     fld ''mm_cid'' (CInt C_int),
     fld ''last_mm_cid'' (CInt C_int),
     fld ''migrate_from_cpu'' (CInt C_int),
     fld ''mm_cid_active'' (CInt C_int),
     fld ''cid_work'' struct_callback_head,
     fld ''tlb_ubc'' struct_tlbflush_unmap_batch,
     fld ''splice_pipe'' CPtr,
     fld ''task_frag'' struct_page_frag,
     fld ''delays'' CPtr,
     fld ''nr_dirtied'' (CInt C_int),
     fld ''nr_dirtied_pause'' (CInt C_int),
     fld ''dirty_paused_when'' (CInt C_ulong),
     fld ''timer_slack_ns'' typedef_u64,
     fld ''default_timer_slack_ns'' typedef_u64,
     fld ''curr_ret_stack'' (CInt C_int),
     fld ''curr_ret_depth'' (CInt C_int),
     fld ''ret_stack'' CPtr,
     fld ''ftrace_timestamp'' (CInt C_ullong),
     fld ''trace_overrun'' typedef_atomic_t,
     fld ''tracing_graph_pause'' typedef_atomic_t,
     fld ''trace_recursion'' (CInt C_ulong),
     fld ''memcg_nr_pages_over_high'' (CInt C_uint),
     fld ''active_memcg'' CPtr,
     fld ''objcg'' CPtr,
     fld ''throttle_disk'' CPtr,
     fld ''utask'' CPtr,
     fld ''sequential_io'' (CInt C_uint),
     fld ''sequential_io_avg'' (CInt C_uint),
     fld ''kmap_ctrl'' struct_kmap_ctrl,
     fld ''rcu'' struct_callback_head,
     fld ''rcu_users'' typedef_refcount_t,
     fld ''pagefault_disabled'' (CInt C_int),
     fld ''oom_reaper_list'' CPtr,
     fld ''oom_reaper_timer'' struct_timer_list,
     fld ''stack_vm_area'' CPtr,
     fld ''stack_refcount'' typedef_refcount_t,
     fld ''patch_state'' (CInt C_int),
     fld ''security'' CPtr,
     fld ''bpf_storage'' CPtr,
     fld ''bpf_ctx'' CPtr,
     fld ''bpf_net_context'' CPtr,
     fld ''kstack_offset'' typedef_u32,
     fld ''mce_vaddr'' CPtr,
     fld ''mce_kflags'' typedef___u64,
     fld ''mce_addr'' typedef_u64,
     CBits ''mce_ripv'' typedef___u64 1,
     CBits ''mce_whole_page'' typedef___u64 1,
     CBits ''__mce_reserved'' typedef___u64 62,
     fld ''mce_kill_me'' struct_callback_head,
     fld ''mce_count'' (CInt C_int),
     fld ''kretprobe_instances'' struct_llist_head,
     fld ''rethooks'' struct_llist_head,
     fld ''l1d_flush_kill'' struct_callback_head,
     CBits '''' (CInt C_long) 64,
     CBits '''' (CInt C_long) 64,
     CBits '''' (CInt C_long) 64,
     CBits '''' (CInt C_long) 64,
     fld ''thread'' struct_thread_struct]"

definition struct_task_struct :: ctype where
  "struct_task_struct = struct_of (task_struct_fields_1 @ task_struct_fields_2 @ task_struct_fields_3 @ task_struct_fields_4)"

lemma struct_task_struct_layout [layout]: "ct_size struct_task_struct = 9792" "ct_align struct_task_struct = 8"
  by (simp_all add: struct_task_struct_def task_struct_fields_1_def task_struct_fields_2_def task_struct_fields_3_def task_struct_fields_4_def placement layout cong: layout_cong)

end
