(* ===== verification/Bpf_Runtime.thy ===== *)
theory Bpf_Runtime
  imports Vmlinux_Task
begin

text \<open>
  What a BPF program sees of the kernel that runs it. The helper functions are not part of the
  repository; they are the fields of \<open>bpf_env\<close>, an argument of every program, so each
  definition holds for whatever the helpers do. What their documentation promises about
  kernel memory is the locale \<open>probe_helpers\<close>, which relates the read helpers to a partial
  memory \<open>mem\<close>; \<open>with_memory\<close> is an environment that satisfies it. The theory also
  has the CO-RE field reads, the ring buffer protocol (reserve, then submit or discard) and the
  declarations of BPF maps.
\<close>

section \<open>Helpers\<close>

text \<open>The results of the helpers during one invocation of a program. A read helper gets the
  address and the current contents of the destination (whose length is the requested size) and
  gives its contents afterwards; the string helpers also give their return value.
  \<open>uninit n\<close> is what an uninitialised local variable of \<open>n\<close> bytes holds, and
  \<open>ringbuf_reserve n\<close> is the memory handed out, or \<open>None\<close> for a null pointer.\<close>

record bpf_env =
  get_current_pid_tgid :: u64
  ktime_get_ns :: u64
  get_current_task :: addr
  get_current_cgroup_id :: u64
  get_current_ancestor_cgroup_id :: "int \<Rightarrow> u64"
  probe_read_kernel :: "addr \<Rightarrow> byte list \<Rightarrow> byte list"
  probe_read_kernel_str :: "addr \<Rightarrow> byte list \<Rightarrow> byte list \<times> int"
  probe_read_user_str :: "addr \<Rightarrow> byte list \<Rightarrow> byte list \<times> int"
  snprintf_helper :: "byte list \<Rightarrow> string \<Rightarrow> int \<Rightarrow> byte list"
  ringbuf_reserve :: "nat \<Rightarrow> byte list option"
  uninit :: "nat \<Rightarrow> byte list"

section \<open>Field reads\<close>

text \<open>\<open>core_read\<close> is \<^verbatim>\<open>bpf_core_read(&dst, sizeof(dst), &base->path)\<close>: it reads as many
  bytes as the destination has, whatever the width of the field. \<open>core_field\<close> is
  \<^verbatim>\<open>BPF_CORE_READ(base, path)\<close>: the destination is an uninitialised variable of the
  field's own type. A field name that does not exist would not compile.\<close>

definition field_addr :: "addr \<Rightarrow> ctype \<Rightarrow> string list \<Rightarrow> addr" where
  "field_addr base t path = (case field_at path t of None \<Rightarrow> base | Some (d, _) \<Rightarrow> base + of_nat d)"

definition field_size :: "ctype \<Rightarrow> string list \<Rightarrow> nat" where
  "field_size t path = (case field_at path t of None \<Rightarrow> 0 | Some (_, t') \<Rightarrow> ct_size t')"

definition core_read :: "bpf_env \<Rightarrow> addr \<Rightarrow> ctype \<Rightarrow> string list \<Rightarrow> byte list \<Rightarrow> byte list" where
  "core_read env base t path dst = probe_read_kernel env (field_addr base t path) dst"

definition core_field :: "bpf_env \<Rightarrow> addr \<Rightarrow> ctype \<Rightarrow> string list \<Rightarrow> 'a::len word" where
  "core_field env base t path = le_word (core_read env base t path (uninit env (field_size t path)))"

section \<open>Kernel memory and the contract of the read helpers\<close>

type_synonym kmem = "addr \<Rightarrow> byte option"

primrec bytes_at :: "kmem \<Rightarrow> addr \<Rightarrow> nat \<Rightarrow> byte list option" where
  "bytes_at mem a 0 = Some []"
| "bytes_at mem a (Suc n) =
     (case mem a of None \<Rightarrow> None | Some b \<Rightarrow> map_option ((#) b) (bytes_at mem (a + 1) n))"

text \<open>\<open>str_at mem a n\<close> is the string at \<open>a\<close>, cut after \<open>n\<close> bytes; it is undefined when an
  unmapped byte comes before the end.\<close>

primrec str_at :: "kmem \<Rightarrow> addr \<Rightarrow> nat \<Rightarrow> byte list option" where
  "str_at mem a 0 = Some []"
| "str_at mem a (Suc n) =
     (case mem a of None \<Rightarrow> None
      | Some b \<Rightarrow> if b = 0 then Some [] else map_option ((#) b) (str_at mem (a + 1) n))"

text \<open>A string copied into a buffer: at most all but one of its bytes are copied, a NUL follows
  them, and what lies behind the NUL stays as it was.\<close>

definition copy_str :: "byte list \<Rightarrow> byte list \<Rightarrow> byte list \<times> int" where
  "copy_str s dst =
     (let s' = take (length dst - 1) s
      in (s' @ 0 # drop (length s' + 1) dst, int (length s') + 1))"

locale probe_helpers =
  fixes env :: bpf_env and mem :: kmem
  assumes read_ok: "bytes_at mem a (length dst) = Some bs \<Longrightarrow> probe_read_kernel env a dst = bs"
    and read_fault: "bytes_at mem a (length dst) = None \<Longrightarrow>
      probe_read_kernel env a dst = replicate (length dst) 0"
    and str_ok: "dst \<noteq> [] \<Longrightarrow> str_at mem a (length dst) = Some s \<Longrightarrow>
      probe_read_kernel_str env a dst = copy_str s dst"
    and str_fault: "dst \<noteq> [] \<Longrightarrow> str_at mem a (length dst) = None \<Longrightarrow>
      \<exists>r<0. probe_read_kernel_str env a dst = (replicate (length dst) 0, r)"
    and uninit_size: "length (uninit env n) = n"

lemma length_bytes_at: "bytes_at mem a n = Some bs \<Longrightarrow> length bs = n"
  by (induction n arbitrary: a bs) (auto split: option.splits)

lemma str_at_nul_free: "str_at mem a n = Some s \<Longrightarrow> nul_free s"
  by (induction n arbitrary: a s) (auto split: option.splits if_splits)

lemma length_str_at: "str_at mem a n = Some s \<Longrightarrow> length s \<le> n"
  by (induction n arbitrary: a s) (auto split: option.splits if_splits)

lemma length_copy_str: "dst \<noteq> [] \<Longrightarrow> length (fst (copy_str s dst)) = length dst"
  by (cases dst) (auto simp: copy_str_def Let_def)

lemma copy_str_ret: "dst \<noteq> [] \<Longrightarrow> 1 \<le> snd (copy_str s dst) \<and> snd (copy_str s dst) \<le> int (length dst)"
  by (cases dst) (auto simp: copy_str_def Let_def)

lemma copy_str_zeroed:
  assumes "0 < n"
  shows "fst (copy_str s (replicate n 0)) = nul_pad n (take (n - 1) s)"
proof -
  define k where "k = length (take (n - 1) s)"
  have "k < n" using assms by (auto simp: k_def min_def)
  then have "0 # replicate (n - (k + 1)) (0::byte) = replicate (n - k) 0"
    by (metis Suc_diff_Suc Suc_eq_plus1 replicate_Suc)
  then show ?thesis
    by (simp add: copy_str_def nul_pad_def Let_def k_def)
qed

context probe_helpers
begin

lemma length_read [simp]: "length (probe_read_kernel env a dst) = length dst"
  by (cases "bytes_at mem a (length dst)") (auto simp: read_ok read_fault dest: length_bytes_at)

lemma length_read_str: "dst \<noteq> [] \<Longrightarrow> length (fst (probe_read_kernel_str env a dst)) = length dst"
proof (cases "str_at mem a (length dst)")
  case None
  assume "dst \<noteq> []"
  from str_fault [OF this None] show ?thesis by auto
next
  case (Some s)
  assume "dst \<noteq> []"
  with Some show ?thesis by (simp add: str_ok length_copy_str)
qed

lemma read_str_ret: "dst \<noteq> [] \<Longrightarrow> snd (probe_read_kernel_str env a dst) \<le> int (length dst)"
proof (cases "str_at mem a (length dst)")
  case None
  assume "dst \<noteq> []"
  from str_fault [OF this None] show ?thesis by auto
next
  case (Some s)
  assume "dst \<noteq> []"
  with Some copy_str_ret show ?thesis by (simp add: str_ok)
qed

text \<open>The string a reader finds in a zeroed buffer afterwards: the string in memory, cut to
  what fits, and nothing when the read faults.\<close>

lemma read_str_zeroed:
  assumes "0 < n"
  shows "fst (probe_read_kernel_str env a (replicate n 0)) =
    nul_pad n (case str_at mem a n of None \<Rightarrow> [] | Some s \<Rightarrow> take (n - 1) s)"
proof (cases "str_at mem a n")
  case None
  with assms str_fault [of "replicate n 0" a] show ?thesis
    by (auto simp: nul_pad_def)
next
  case (Some s)
  with assms str_ok [of "replicate n 0" a s] show ?thesis
    by (simp add: copy_str_zeroed)
qed

lemma core_field_ok:
  "field_at path t = Some (d, t') \<Longrightarrow> bytes_at mem (base + of_nat d) (ct_size t') = Some bs \<Longrightarrow>
   core_field env base t path = le_word bs"
  by (simp add: core_field_def core_read_def field_addr_def field_size_def read_ok uninit_size)

lemma core_field_fault:
  "field_at path t = Some (d, t') \<Longrightarrow> bytes_at mem (base + of_nat d) (ct_size t') = None \<Longrightarrow>
   core_field env base t path = 0"
  by (simp add: core_field_def core_read_def field_addr_def field_size_def read_fault uninit_size
      le_word_replicate_0)

end

text \<open>An environment whose read helpers behave as documented over a given memory, for any
  behaviour of the other helpers.\<close>

definition nofault_read :: "kmem \<Rightarrow> addr \<Rightarrow> byte list \<Rightarrow> byte list" where
  "nofault_read mem a dst =
     (case bytes_at mem a (length dst) of None \<Rightarrow> replicate (length dst) 0 | Some bs \<Rightarrow> bs)"

definition nofault_str :: "kmem \<Rightarrow> addr \<Rightarrow> byte list \<Rightarrow> byte list \<times> int" where
  "nofault_str mem a dst =
     (case str_at mem a (length dst) of
        None \<Rightarrow> (replicate (length dst) 0, - 14)
      | Some s \<Rightarrow> copy_str s dst)"

definition with_memory :: "kmem \<Rightarrow> bpf_env \<Rightarrow> bpf_env" where
  "with_memory mem e =
     e\<lparr>probe_read_kernel := nofault_read mem, probe_read_kernel_str := nofault_str mem,
       uninit := (\<lambda>n. replicate n 0)\<rparr>"

interpretation nofault: probe_helpers "with_memory mem e" mem for mem e
  by unfold_locales (auto simp: with_memory_def nofault_read_def nofault_str_def)

section \<open>The ring buffer\<close>

text \<open>A ring buffer as its consumer will see it: the submitted records in order, and how many
  reservations are still open. The verifier of the kernel rejects a program that leaves one
  open; the hooks' contracts below show that none does.\<close>

record 'r ringbuf =
  rb_records :: "'r list"
  rb_open :: nat

definition rb_reserve :: "'r ringbuf \<Rightarrow> 'r ringbuf" where
  "rb_reserve rb = rb\<lparr>rb_open := Suc (rb_open rb)\<rparr>"

definition rb_submit :: "'r \<Rightarrow> 'r ringbuf \<Rightarrow> 'r ringbuf" where
  "rb_submit r rb = rb\<lparr>rb_records := rb_records rb @ [r], rb_open := rb_open rb - 1\<rparr>"

definition rb_discard :: "'r ringbuf \<Rightarrow> 'r ringbuf" where
  "rb_discard rb = rb\<lparr>rb_open := rb_open rb - 1\<rparr>"

lemma rb_submit_reserve [hook_simps]:
  "rb_submit r (rb_reserve rb) = rb\<lparr>rb_records := rb_records rb @ [r]\<rparr>"
  by (simp add: rb_submit_def rb_reserve_def)

lemma rb_discard_reserve [hook_simps]: "rb_discard (rb_reserve rb) = rb"
  by (simp add: rb_discard_def rb_reserve_def)

section \<open>Map declarations\<close>

datatype bpf_map_type =
    BPF_MAP_TYPE_UNSPEC | BPF_MAP_TYPE_HASH | BPF_MAP_TYPE_ARRAY | BPF_MAP_TYPE_PROG_ARRAY
  | BPF_MAP_TYPE_PERF_EVENT_ARRAY | BPF_MAP_TYPE_PERCPU_HASH | BPF_MAP_TYPE_PERCPU_ARRAY
  | BPF_MAP_TYPE_STACK_TRACE | BPF_MAP_TYPE_CGROUP_ARRAY | BPF_MAP_TYPE_LRU_HASH
  | BPF_MAP_TYPE_LRU_PERCPU_HASH | BPF_MAP_TYPE_LPM_TRIE | BPF_MAP_TYPE_ARRAY_OF_MAPS
  | BPF_MAP_TYPE_HASH_OF_MAPS | BPF_MAP_TYPE_DEVMAP | BPF_MAP_TYPE_SOCKMAP | BPF_MAP_TYPE_CPUMAP
  | BPF_MAP_TYPE_XSKMAP | BPF_MAP_TYPE_SOCKHASH | BPF_MAP_TYPE_CGROUP_STORAGE
  | BPF_MAP_TYPE_REUSEPORT_SOCKARRAY | BPF_MAP_TYPE_PERCPU_CGROUP_STORAGE | BPF_MAP_TYPE_QUEUE
  | BPF_MAP_TYPE_STACK | BPF_MAP_TYPE_SK_STORAGE | BPF_MAP_TYPE_DEVMAP_HASH
  | BPF_MAP_TYPE_STRUCT_OPS | BPF_MAP_TYPE_RINGBUF | BPF_MAP_TYPE_INODE_STORAGE
  | BPF_MAP_TYPE_TASK_STORAGE | BPF_MAP_TYPE_BLOOM_FILTER | BPF_MAP_TYPE_USER_RINGBUF
  | BPF_MAP_TYPE_CGRP_STORAGE | BPF_MAP_TYPE_ARENA

text \<open>The attributes of one \<^verbatim>\<open>SEC(".maps")\<close> declaration; a ring buffer has no key and value.\<close>

record bpf_map_def =
  map_type :: bpf_map_type
  max_entries :: nat
  map_key :: "ctype option"
  map_value :: "ctype option"
  pinned_by_name :: bool

definition hash_map :: "nat \<Rightarrow> ctype \<Rightarrow> ctype \<Rightarrow> bpf_map_def" where
  "hash_map n k v =
     \<lparr>map_type = BPF_MAP_TYPE_HASH, max_entries = n, map_key = Some k, map_value = Some v,
      pinned_by_name = False\<rparr>"

definition lru_hash_map :: "nat \<Rightarrow> ctype \<Rightarrow> ctype \<Rightarrow> bpf_map_def" where
  "lru_hash_map n k v = (hash_map n k v)\<lparr>map_type := BPF_MAP_TYPE_LRU_HASH\<rparr>"

definition array_map :: "nat \<Rightarrow> ctype \<Rightarrow> ctype \<Rightarrow> bpf_map_def" where
  "array_map n k v = (hash_map n k v)\<lparr>map_type := BPF_MAP_TYPE_ARRAY\<rparr>"

definition ringbuf_map :: "nat \<Rightarrow> bool \<Rightarrow> bpf_map_def" where
  "ringbuf_map n pin =
     \<lparr>map_type = BPF_MAP_TYPE_RINGBUF, max_entries = n, map_key = None, map_value = None,
      pinned_by_name = pin\<rparr>"

text \<open>A hashed key is compared byte for byte, so a padding byte in it would make equal keys
  differ. \<open>no_padding\<close> says that the members of a structure fill it completely.\<close>

fun no_padding :: "ctype \<Rightarrow> bool" and dense :: "nat \<Rightarrow> cfield list \<Rightarrow> bool" where
  "no_padding (CInt k) \<longleftrightarrow> True"
| "no_padding (CEnum n) \<longleftrightarrow> True"
| "no_padding CPtr \<longleftrightarrow> True"
| "no_padding (CArr t n) \<longleftrightarrow> no_padding t"
| "no_padding (CStruct p a fs) \<longleftrightarrow> dense 0 fs \<and> st_end p 0 fs = 8 * ct_size (CStruct p a fs)"
| "no_padding (CUnion p a fs) \<longleftrightarrow> False"
| "dense pos [] \<longleftrightarrow> True"
| "dense pos (CField nm t a # fs) \<longleftrightarrow>
     field_start False pos (ct_align t) a = pos \<and> no_padding t \<and> dense (pos + 8 * ct_size t) fs"
| "dense pos (CBits nm t w # fs) \<longleftrightarrow> False"

end
