(* ===== verification/Kernel_Fields.thy ===== *)
theory Kernel_Fields
  imports Bpf_Runtime
begin

text \<open>
  The kernel fields that the BPF programs read, with the offset and the type the layout of
  \<^verbatim>\<open>vmlinux.h\<close> gives them, in the bundle \<open>kernel_fields\<close>, and the addresses of the
  reads that follow.
\<close>

lemma socket_type: "field_at [''type''] struct_socket = Some (4, CInt C_short)"
  by (simp add: struct_socket_def placement layout cong: layout_cong)

lemma sockaddr_family: "field_at [''sa_family''] struct_sockaddr = Some (0, typedef_sa_family_t)"
  by (simp add: struct_sockaddr_def placement layout cong: layout_cong)

lemma sockaddr_in_addr:
  "field_at [''sin_addr'', ''s_addr''] struct_sockaddr_in = Some (4, typedef___be32)"
  by (simp add: struct_sockaddr_in_def struct_in_addr_def placement layout cong: layout_cong)

lemma sockaddr_in_port: "field_at [''sin_port''] struct_sockaddr_in = Some (2, typedef___be16)"
  by (simp add: struct_sockaddr_in_def placement layout cong: layout_cong)

lemma sockaddr_in6_addr: "field_at [''sin6_addr''] struct_sockaddr_in6 = Some (8, struct_in6_addr)"
  by (simp add: struct_sockaddr_in6_def placement layout cong: layout_cong)

lemma sockaddr_in6_port: "field_at [''sin6_port''] struct_sockaddr_in6 = Some (2, typedef___be16)"
  by (simp add: struct_sockaddr_in6_def placement layout cong: layout_cong)

lemma sockaddr_un_path:
  "field_at [''sun_path''] struct_sockaddr_un = Some (2, CArr (CInt C_char) 108)"
  by (simp add: struct_sockaddr_un_def placement layout cong: layout_cong)

lemma msghdr_name: "field_at [''msg_name''] struct_msghdr = Some (0, CPtr)"
  by (simp add: struct_msghdr_def placement layout cong: layout_cong)

lemma binprm_filename: "field_at [''filename''] struct_linux_binprm = Some (96, CPtr)"
  by (simp add: struct_linux_binprm_def placement layout cong: layout_cong)

lemma file_inode: "field_at [''f_inode''] struct_file = Some (40, CPtr)"
  by (simp add: struct_file_def placement layout cong: layout_cong)

lemma inode_rdev: "field_at [''i_rdev''] struct_inode = Some (76, typedef_dev_t)"
  by (simp add: struct_inode_def placement layout cong: layout_cong)

lemma inode_ino: "field_at [''i_ino''] struct_inode = Some (64, CInt C_ulong)"
  by (simp add: struct_inode_def placement layout cong: layout_cong)

lemma inode_sb: "field_at [''i_sb''] struct_inode = Some (40, CPtr)"
  by (simp add: struct_inode_def placement layout cong: layout_cong)

lemma super_block_dev: "field_at [''s_dev''] struct_super_block = Some (16, typedef_dev_t)"
  by (simp add: struct_super_block_def placement layout cong: layout_cong)

lemma dentry_parent_field: "field_at [''d_parent''] struct_dentry = Some (24, CPtr)"
  by (simp add: struct_dentry_def placement layout cong: layout_cong)

lemma dentry_name_field: "field_at [''d_name'', ''name''] struct_dentry = Some (40, CPtr)"
  by (simp add: struct_dentry_def struct_qstr_def placement layout cong: layout_cong)

lemma user_namespace_level: "field_at [''level''] struct_user_namespace = Some (200, CInt C_int)"
  by (simp add: struct_user_namespace_def placement layout cong: layout_cong)

lemma task_real_parent: "field_at [''real_parent''] struct_task_struct = Some (2448, CPtr)"
  by (simp add: struct_task_struct_def task_struct_fields_1_def task_struct_fields_2_def
      placement layout cong: layout_cong)

lemma task_tgid: "field_at [''tgid''] struct_task_struct = Some (2436, typedef_pid_t)"
  by (simp add: struct_task_struct_def task_struct_fields_1_def task_struct_fields_2_def
      placement layout cong: layout_cong)

lemma sys_enter_args:
  "field_at [''args''] struct_trace_event_raw_sys_enter = Some (16, CArr (CInt C_ulong) 6)"
  by (simp add: struct_trace_event_raw_sys_enter_def placement layout cong: layout_cong)

lemmas kernel_fields =
  socket_type sockaddr_family sockaddr_in_addr sockaddr_in_port sockaddr_in6_addr
  sockaddr_in6_port sockaddr_un_path msghdr_name binprm_filename file_inode inode_rdev inode_ino
  inode_sb super_block_dev dentry_parent_field dentry_name_field user_namespace_level
  task_real_parent task_tgid sys_enter_args

lemma field_addr_eq: "field_at path t = Some (d, t') \<Longrightarrow> field_addr base t path = base + of_nat d"
  by (simp add: field_addr_def)

lemma field_size_eq: "field_at path t = Some (d, t') \<Longrightarrow> field_size t path = ct_size t'"
  by (simp add: field_size_def)

section \<open>Fields as they are in memory\<close>

text \<open>\<open>mem_field\<close> is the contents of a field, zeros when a byte of it is not mapped. Every read
  whose destination has the width of the field gives exactly these bytes.\<close>

definition mem_field :: "kmem \<Rightarrow> addr \<Rightarrow> ctype \<Rightarrow> string list \<Rightarrow> byte list" where
  "mem_field mem base t path =
     (case bytes_at mem (field_addr base t path) (field_size t path) of
        None \<Rightarrow> replicate (field_size t path) 0
      | Some bs \<Rightarrow> bs)"

lemma length_mem_field [simp]: "length (mem_field mem base t path) = field_size t path"
  by (auto simp: mem_field_def dest: length_bytes_at split: option.splits)

context probe_helpers
begin

lemma core_read_exact:
  "length dst = field_size t path \<Longrightarrow> core_read env base t path dst = mem_field mem base t path"
  by (cases "bytes_at mem (field_addr base t path) (length dst)")
    (auto simp: core_read_def mem_field_def read_ok read_fault)

lemma core_field_exact: "core_field env base t path = le_word (mem_field mem base t path)"
  by (simp add: core_field_def core_read_exact uninit_size)

end

text \<open>The widths of the fields, and their addresses.\<close>

lemma kernel_field_sizes [simp]:
  "field_size struct_socket [''type''] = 2"
  "field_size struct_sockaddr [''sa_family''] = 2"
  "field_size struct_sockaddr_in [''sin_addr'', ''s_addr''] = 4"
  "field_size struct_sockaddr_in [''sin_port''] = 2"
  "field_size struct_sockaddr_in6 [''sin6_addr''] = 16"
  "field_size struct_sockaddr_in6 [''sin6_port''] = 2"
  "field_size struct_sockaddr_un [''sun_path''] = 108"
  "field_size struct_msghdr [''msg_name''] = 8"
  "field_size struct_linux_binprm [''filename''] = 8"
  "field_size struct_file [''f_inode''] = 8"
  "field_size struct_inode [''i_rdev''] = 4"
  "field_size struct_inode [''i_ino''] = 8"
  "field_size struct_inode [''i_sb''] = 8"
  "field_size struct_super_block [''s_dev''] = 4"
  "field_size struct_dentry [''d_parent''] = 8"
  "field_size struct_dentry [''d_name'', ''name''] = 8"
  "field_size struct_user_namespace [''level''] = 4"
  "field_size struct_task_struct [''real_parent''] = 8"
  "field_size struct_task_struct [''tgid''] = 4"
  by (simp_all add: field_size_def kernel_fields layout del: field_at.simps)

lemma field_addrs:
  "field_addr a struct_socket [''type''] = a + 4"
  "field_addr a struct_sockaddr [''sa_family''] = a"
  "field_addr a struct_sockaddr_in [''sin_addr'', ''s_addr''] = a + 4"
  "field_addr a struct_sockaddr_in [''sin_port''] = a + 2"
  "field_addr a struct_sockaddr_in6 [''sin6_addr''] = a + 8"
  "field_addr a struct_sockaddr_in6 [''sin6_port''] = a + 2"
  "field_addr a struct_sockaddr_un [''sun_path''] = a + 2"
  "field_addr a struct_msghdr [''msg_name''] = a"
  "field_addr a struct_linux_binprm [''filename''] = a + 96"
  "field_addr a struct_file [''f_inode''] = a + 40"
  "field_addr a struct_inode [''i_rdev''] = a + 76"
  "field_addr a struct_inode [''i_ino''] = a + 64"
  "field_addr a struct_inode [''i_sb''] = a + 40"
  "field_addr a struct_super_block [''s_dev''] = a + 16"
  "field_addr a struct_dentry [''d_parent''] = a + 24"
  "field_addr a struct_dentry [''d_name'', ''name''] = a + 40"
  "field_addr a struct_user_namespace [''level''] = a + 200"
  "field_addr a struct_task_struct [''real_parent''] = a + 2448"
  "field_addr a struct_task_struct [''tgid''] = a + 2436"
  by (simp_all add: field_addr_def kernel_fields del: field_at.simps)

section \<open>Concrete memories\<close>

text \<open>A memory made of blocks, and an environment with a working ring buffer in which nothing else is
  set, for applying the theorems to concrete inputs.\<close>

fun mem_of :: "(addr \<times> byte list) list \<Rightarrow> kmem" where
  "mem_of [] x = None"
| "mem_of ((a, bs) # blocks) x =
     (if x - a < of_nat (length bs) then Some (bs ! unat (x - a)) else mem_of blocks x)"

definition quiet_env :: bpf_env where
  "quiet_env =
     \<lparr>get_current_pid_tgid = 0, ktime_get_ns = 0, get_current_task = 0, get_current_cgroup_id = 0,
      get_current_ancestor_cgroup_id = (\<lambda>_. 0), probe_read_kernel = (\<lambda>_ dst. dst),
      probe_read_kernel_str = (\<lambda>_ dst. (dst, 0)), probe_read_user_str = (\<lambda>_ dst. (dst, 0)),
      snprintf_helper = (\<lambda>dst _ _. dst), ringbuf_reserve = (\<lambda>n. Some (replicate n 0)),
      uninit = (\<lambda>n. replicate n 0)\<rparr>"

lemma quiet_env_reserve [simp]: "ringbuf_reserve (with_memory mem quiet_env) n = Some (replicate n 0)"
  by (simp add: with_memory_def quiet_env_def)

end
