(* ===== verification/Jg_Common.thy ===== *)
theory Jg_Common
  imports Kernel_Fields
begin

text \<open>
  Translation of \<^verbatim>\<open>bpf/lsm/jg_common.h\<close>: the constants and records shared by the LSM
  hooks and by user space, the tests of the control bits and of loopback addresses, the
  cgroup-scope test, and the path routines. Arrays of characters are byte lists; a C function that
  writes through a pointer returns the new contents of the array. Each routine comes
  with its functional behaviour: which tasks are governed, which strings two path buffers are
  compared on, and which bytes a map key consists of.
\<close>

section \<open>Constants\<close>

definition AF_UNIX :: u16 where "AF_UNIX = 1"
definition AF_INET :: u16 where "AF_INET = 2"
definition AF_INET6 :: u16 where "AF_INET6 = 10"
definition SOCK_STREAM :: u16 where "SOCK_STREAM = 1"
definition SOCK_DGRAM :: u16 where "SOCK_DGRAM = 2"
definition JG_EPERM :: int where "JG_EPERM = 1"
definition S_IFMT :: u16 where "S_IFMT = 0xF000"
definition S_IFREG :: u16 where "S_IFREG = 0x8000"

definition JG_S_ISREG :: "u16 \<Rightarrow> bool" where
  "JG_S_ISREG mode \<longleftrightarrow> (mode AND S_IFMT) = S_IFREG"

definition JG_MAX_RESOURCE_LEN :: nat where "JG_MAX_RESOURCE_LEN = 128"
definition JG_PAYLOAD_PREVIEW_LEN :: nat where "JG_PAYLOAD_PREVIEW_LEN = 64"
definition JG_MAX_UNIX_PATH :: nat where "JG_MAX_UNIX_PATH = 108"

definition JG_CONTROL_AUDIT_ONLY :: u32 where "JG_CONTROL_AUDIT_ONLY = 1"
definition JG_CONTROL_CONNECT_DEFAULT_DENY :: u32 where "JG_CONTROL_CONNECT_DEFAULT_DENY = 2"
definition JG_CONTROL_UNIX_DEFAULT_DENY :: u32 where "JG_CONTROL_UNIX_DEFAULT_DENY = 4"

definition JG_SCOPE_KEY :: u32 where "JG_SCOPE_KEY = 0"
definition JG_SCOPE_GLOBAL :: u64 where "JG_SCOPE_GLOBAL = 0"
definition JG_CGROUP_MAX_DEPTH :: nat where "JG_CGROUP_MAX_DEPTH = 16"
definition JG_PATH_MAX_DEPTH :: nat where "JG_PATH_MAX_DEPTH = 12"
definition JG_PATH_COMP_LEN :: nat where "JG_PATH_COMP_LEN = 40"

lemmas jg_consts [hook_simps] =
  JG_EPERM_def JG_MAX_RESOURCE_LEN_def JG_PAYLOAD_PREVIEW_LEN_def JG_MAX_UNIX_PATH_def
  JG_CGROUP_MAX_DEPTH_def JG_PATH_MAX_DEPTH_def JG_PATH_COMP_LEN_def

section \<open>Control bits\<close>

definition control_bit :: "(u32 \<rightharpoonup> u32) \<Rightarrow> u32 \<Rightarrow> bool" where
  "control_bit controls m = (case controls 0 of None \<Rightarrow> False | Some v \<Rightarrow> (v AND m) \<noteq> 0)"

definition jg_audit_only_enabled :: "(u32 \<rightharpoonup> u32) \<Rightarrow> bool" where
  "jg_audit_only_enabled controls = control_bit controls JG_CONTROL_AUDIT_ONLY"

definition jg_connect_default_deny_enabled :: "(u32 \<rightharpoonup> u32) \<Rightarrow> bool" where
  "jg_connect_default_deny_enabled controls = control_bit controls JG_CONTROL_CONNECT_DEFAULT_DENY"

definition jg_unix_default_deny_enabled :: "(u32 \<rightharpoonup> u32) \<Rightarrow> bool" where
  "jg_unix_default_deny_enabled controls = control_bit controls JG_CONTROL_UNIX_DEFAULT_DENY"

section \<open>Loopback addresses\<close>

definition jg_ipv4_is_loopback :: "u32 \<Rightarrow> bool" where
  "jg_ipv4_is_loopback a \<longleftrightarrow> (a AND 0xFF) = 127"

definition jg_ipv6_is_loopback :: "byte list \<Rightarrow> bool" where
  "jg_ipv6_is_loopback a =
     (if list_ex (\<lambda>i. a ! i \<noteq> 0) [0..<15] then False else a ! 15 = 1)"

section \<open>Shared records\<close>

text \<open>The C types of the records, for their layout.\<close>

definition struct_jg_ipv6_key :: ctype where
  "struct_jg_ipv6_key = struct_of [fld ''addr'' (CArr (CInt C_uchar) 16)]"

definition struct_jg_path_key :: ctype where
  "struct_jg_path_key = struct_of [fld ''path'' (CArr (CInt C_char) JG_MAX_RESOURCE_LEN)]"

definition struct_jg_inode_key :: ctype where
  "struct_jg_inode_key = struct_of [
     fld ''dev'' (CInt C_ullong),
     fld ''ino'' (CInt C_ullong)]"

definition struct_jg_dir_file_key :: ctype where
  "struct_jg_dir_file_key = struct_of [
     fld ''dev'' (CInt C_ullong),
     fld ''ino'' (CInt C_ullong),
     fld ''name'' (CArr (CInt C_char) JG_MAX_RESOURCE_LEN)]"

datatype jg_verdict = VERDICT_UNKNOWN | VERDICT_ALLOW | VERDICT_DENY

fun jg_verdict_val :: "jg_verdict \<Rightarrow> u32" where
  "jg_verdict_val VERDICT_UNKNOWN = 0"
| "jg_verdict_val VERDICT_ALLOW = 1"
| "jg_verdict_val VERDICT_DENY = 2"

datatype jg_request_type =
    REQ_CONNECT | REQ_SENDMSG | REQ_EXECVE | REQ_INODE_CREATE | REQ_INODE_UNLINK

fun jg_request_type_val :: "jg_request_type \<Rightarrow> u32" where
  "jg_request_type_val REQ_CONNECT = 0"
| "jg_request_type_val REQ_SENDMSG = 1"
| "jg_request_type_val REQ_EXECVE = 2"
| "jg_request_type_val REQ_INODE_CREATE = 3"
| "jg_request_type_val REQ_INODE_UNLINK = 4"

datatype jg_source_program =
    JG_SRC_INODE_CREATE | JG_SRC_INODE_UNLINK | JG_SRC_BPRM_CHECK_SECURITY
  | JG_SRC_SOCKET_CONNECT | JG_SRC_SOCKET_SENDMSG

fun jg_source_program_val :: "jg_source_program \<Rightarrow> u32" where
  "jg_source_program_val JG_SRC_INODE_CREATE = 1"
| "jg_source_program_val JG_SRC_INODE_UNLINK = 2"
| "jg_source_program_val JG_SRC_BPRM_CHECK_SECURITY = 3"
| "jg_source_program_val JG_SRC_SOCKET_CONNECT = 4"
| "jg_source_program_val JG_SRC_SOCKET_SENDMSG = 5"

definition struct_jg_request :: ctype where
  "struct_jg_request = struct_of [
     fld ''cookie'' (CInt C_ullong),
     fld ''pid'' (CInt C_uint),
     fld ''type'' (CEnum 4),
     fld ''family'' (CInt C_ushort),
     fld ''resource_path'' (CArr (CInt C_char) JG_MAX_RESOURCE_LEN),
     fld ''__pad_after_resource'' (CArr (CInt C_uchar) 2),
     fld ''dest'' (union_of [
       fld ''v4'' (struct_of [
         fld ''addr'' (CInt C_uint),
         fld ''port'' (CInt C_ushort)]),
       fld ''v6'' (struct_of [
         fld ''addr'' (CArr (CInt C_uchar) 16),
         fld ''port'' (CInt C_ushort)]),
       fld ''path'' (CArr (CInt C_char) JG_MAX_UNIX_PATH)]),
     fld ''payload_preview'' (CArr (CInt C_uchar) JG_PAYLOAD_PREVIEW_LEN),
     fld ''source_program'' (CInt C_uint),
     fld ''ppid'' (CInt C_uint)]"

definition struct_jg_verdict_payload :: ctype where
  "struct_jg_verdict_payload = struct_of [
     fld ''cookie'' (CInt C_ullong),
     fld ''verdict'' (CEnum 4)]"

lemma struct_jg_layout [layout]:
  "ct_size struct_jg_ipv6_key = 16" "ct_align struct_jg_ipv6_key = 1"
  "ct_size struct_jg_path_key = 128" "ct_align struct_jg_path_key = 1"
  "ct_size struct_jg_inode_key = 16" "ct_align struct_jg_inode_key = 8"
  "ct_size struct_jg_dir_file_key = 144" "ct_align struct_jg_dir_file_key = 8"
  "ct_size struct_jg_request = 328" "ct_align struct_jg_request = 8"
  "ct_size struct_jg_verdict_payload = 16" "ct_align struct_jg_verdict_payload = 8"
  by (simp_all add: struct_jg_ipv6_key_def struct_jg_path_key_def struct_jg_inode_key_def
      struct_jg_dir_file_key_def struct_jg_request_def struct_jg_verdict_payload_def
      jg_consts placement layout cong: layout_cong)

text \<open>The values of the records. In a request the \<^verbatim>\<open>dest\<close> union is its 108 bytes, since the
  hooks write one view of it and user space reads it by family.\<close>

record jg_inode_key =
  dev :: u64
  ino :: u64

record jg_dir_file_key = jg_inode_key +
  dname :: "byte list"

record jg_request =
  cookie :: u64
  pid :: u32
  req_type :: jg_request_type
  family :: u16
  resource_path :: "byte list"
  pad_after_resource :: "byte list"
  dest :: "byte list"
  payload_preview :: "byte list"
  source_program :: u32
  ppid :: u32

record jg_verdict_payload =
  v_cookie :: u64
  v_verdict :: jg_verdict

text \<open>The maps that every object declares for itself; the hooks extend the record by their policy
  maps. \<open>map_flag\<close> is the test \<^verbatim>\<open>entry && *entry\<close> on a looked-up flag byte.\<close>

record ctl_maps =
  verdicts :: "u64 \<rightharpoonup> jg_verdict_payload"
  runtime_controls :: "u32 \<rightharpoonup> u32"
  governed_scope :: "u32 \<rightharpoonup> u64"

definition map_flag :: "('k \<rightharpoonup> u8) \<Rightarrow> 'k \<Rightarrow> bool" where
  "map_flag m k = (case m k of None \<Rightarrow> False | Some v \<Rightarrow> v \<noteq> 0)"

text \<open>The request after \<^verbatim>\<open>__builtin_memset(req, 0, sizeof(*req))\<close>.\<close>

definition zeroed_request :: jg_request where
  "zeroed_request =
     \<lparr>cookie = 0, pid = 0, req_type = REQ_CONNECT, family = 0,
      resource_path = replicate JG_MAX_RESOURCE_LEN 0, pad_after_resource = replicate 2 0,
      dest = replicate JG_MAX_UNIX_PATH 0, payload_preview = replicate JG_PAYLOAD_PREVIEW_LEN 0,
      source_program = 0, ppid = 0\<rparr>"

section \<open>Identity of the current task\<close>

definition jg_get_ppid :: "bpf_env \<Rightarrow> u32" where
  "jg_get_ppid env =
     (let task = get_current_task env;
          parent = core_field env task struct_task_struct [''real_parent'']
      in core_field env parent struct_task_struct [''tgid''])"

definition current_pid :: "bpf_env \<Rightarrow> u32" where
  "current_pid env = ucast (drop_bit 32 (get_current_pid_tgid env))"

definition request_cookie :: "bpf_env \<Rightarrow> u64" where
  "request_cookie env = get_current_pid_tgid env XOR ktime_get_ns env"

definition jg_in_governed_scope :: "bpf_env \<Rightarrow> (u32 \<rightharpoonup> u64) \<Rightarrow> bool" where
  "jg_in_governed_scope env scope_map =
     (case scope_map JG_SCOPE_KEY of
        None \<Rightarrow> True
      | Some scope \<Rightarrow>
          if scope = JG_SCOPE_GLOBAL then True
          else if get_current_cgroup_id env = scope then True
          else list_ex (\<lambda>lvl. get_current_ancestor_cgroup_id env (int lvl) = scope)
                 [0..<JG_CGROUP_MAX_DEPTH])"

section \<open>Path routines\<close>

text \<open>The comparison loops over at most 128 characters. The index counts up, so their
  termination is by the distance to the bound.\<close>

function path_equals_from :: "nat \<Rightarrow> byte list \<Rightarrow> byte list \<Rightarrow> bool" where
  "path_equals_from i left right =
     (if i < JG_MAX_RESOURCE_LEN then
        if left ! i \<noteq> right ! i then False
        else if left ! i = 0 then True
        else path_equals_from (Suc i) left right
      else True)"
  by pat_completeness auto
termination
  by (relation "measure (\<lambda>(i, left, right). JG_MAX_RESOURCE_LEN - i)") auto

definition jg_path_equals :: "byte list \<Rightarrow> byte list \<Rightarrow> bool" where
  "jg_path_equals left right = path_equals_from 0 left right"

function path_has_prefix_from :: "nat \<Rightarrow> byte list \<Rightarrow> byte list \<Rightarrow> bool" where
  "path_has_prefix_from i path prefx =
     (if i < JG_MAX_RESOURCE_LEN then
        if prefx ! i = 0 then True
        else if path ! i = 0 then False
        else if path ! i \<noteq> prefx ! i then False
        else path_has_prefix_from (Suc i) path prefx
      else True)"
  by pat_completeness auto
termination
  by (relation "measure (\<lambda>(i, path, prefx). JG_MAX_RESOURCE_LEN - i)") auto

definition jg_path_has_prefix :: "byte list \<Rightarrow> byte list \<Rightarrow> bool" where
  "jg_path_has_prefix path prefx = path_has_prefix_from 0 path prefx"

text \<open>The copy loop of \<^verbatim>\<open>jg_copy_path_key\<close> and of the name in \<^verbatim>\<open>jg_dir_file_key\<close>.
  \<open>path\<close> is the memory from the pointer on.\<close>

function copy_name_from :: "nat \<Rightarrow> byte list \<Rightarrow> byte list \<Rightarrow> byte list" where
  "copy_name_from i key path =
     (if i < JG_MAX_RESOURCE_LEN then
        if path ! i = 0 then key[i := path ! i]
        else copy_name_from (Suc i) (key[i := path ! i]) path
      else key)"
  by pat_completeness auto
termination
  by (relation "measure (\<lambda>(i, key, path). JG_MAX_RESOURCE_LEN - i)") auto

declare path_equals_from.simps [simp del] path_has_prefix_from.simps [simp del]
  copy_name_from.simps [simp del]

definition jg_copy_path_key :: "byte list \<Rightarrow> byte list" where
  "jg_copy_path_key path = copy_name_from 0 (replicate JG_MAX_RESOURCE_LEN 0) path"

definition jg_clear_resource :: "byte list \<Rightarrow> byte list" where
  "jg_clear_resource out =
     fold (\<lambda>i out. out[i := 0]) [0..<JG_MAX_RESOURCE_LEN] out"

section \<open>Names and paths of dentries\<close>

definition dentry_name_ptr :: "bpf_env \<Rightarrow> addr \<Rightarrow> addr" where
  "dentry_name_ptr env dentry =
     le_word (core_read env dentry struct_dentry [''d_name'', ''name''] (replicate 8 0))"

definition jg_read_dentry_basename :: "bpf_env \<Rightarrow> addr \<Rightarrow> byte list \<Rightarrow> nat \<Rightarrow> byte list" where
  "jg_read_dentry_basename env dentry out out_size =
     (let out = jg_clear_resource out
      in if dentry = 0 then out
         else let name = dentry_name_ptr env dentry
              in if name \<noteq> 0
                 then put 0 (fst (probe_read_kernel_str env name (take out_size out))) out
                 else out)"

text \<open>First pass: the chain of dentries from the leaf, and whether the root of the mount was
  reached within the depth bound. \<open>parent\<close> keeps its value between the reads.\<close>

function dentry_chain_from ::
    "bpf_env \<Rightarrow> nat \<Rightarrow> addr list \<Rightarrow> addr \<Rightarrow> addr \<Rightarrow> addr list \<times> bool" where
  "dentry_chain_from env i chain d parent =
     (if i < JG_PATH_MAX_DEPTH then
        let chain = chain @ [d];
            parent = le_word (core_read env d struct_dentry [''d_parent''] (word_bytes 8 parent))
        in if parent = 0 \<or> parent = d then (chain, True)
           else dentry_chain_from env (Suc i) chain parent parent
      else (chain, False))"
  by pat_completeness auto
termination
  by (relation "measure (\<lambda>(env, i, chain, d, parent). JG_PATH_MAX_DEPTH - i)") auto

declare dentry_chain_from.simps [simp del]

definition dentry_chain :: "bpf_env \<Rightarrow> addr \<Rightarrow> addr list \<times> bool" where
  "dentry_chain env dentry = dentry_chain_from env 0 [] dentry 0"

text \<open>Second pass: the components from the root to the leaf. \<open>write_path k\<close> runs the
  iterations \<open>i = k - 1, \<dots>, 0\<close>; the dentry at \<open>length chain - 1\<close> is the root and is
  skipped.\<close>

primrec write_path ::
    "nat \<Rightarrow> bpf_env \<Rightarrow> addr list \<Rightarrow> byte list \<Rightarrow> nat \<Rightarrow> byte list \<times> nat" where
  "write_path 0 env chain out off = (out, off)"
| "write_path (Suc i) env chain out off =
     (if length chain \<le> i + 1 then write_path i env chain out off
      else let name = dentry_name_ptr env (chain ! i)
           in if name = 0 then write_path i env chain out off
              else if off > JG_MAX_RESOURCE_LEN - JG_PATH_COMP_LEN - 2 then (out, off)
              else let (comp, n) =
                         probe_read_kernel_str env name (window (off + 1) JG_PATH_COMP_LEN out);
                       out = put (off + 1) comp out
                   in if n > 1
                      then write_path i env chain (out[off := 0x2F]) (off + 1 + nat (n - 1))
                      else write_path i env chain out off)"

definition jg_read_dentry_path :: "bpf_env \<Rightarrow> addr \<Rightarrow> byte list \<Rightarrow> nat \<Rightarrow> byte list" where
  "jg_read_dentry_path env dentry out out_size =
     (let out = jg_clear_resource out
      in if dentry = 0 then out
         else let (chain, reached_root) = dentry_chain env dentry
              in if \<not> reached_root then jg_read_dentry_basename env dentry out out_size
                 else let (out, off) = write_path JG_PATH_MAX_DEPTH env chain out 0
                      in if off = 0 then jg_read_dentry_basename env dentry out out_size
                         else let off = (if off \<ge> out_size then out_size - 1 else off)
                              in out[off := 0])"

section \<open>Control bits and scope\<close>

lemma audit_only_iff:
  "jg_audit_only_enabled controls \<longleftrightarrow> (\<exists>v. controls 0 = Some v \<and> bit v 0)"
  by (auto simp: jg_audit_only_enabled_def control_bit_def JG_CONTROL_AUDIT_ONLY_def
      and_one_eq bit_0 odd_iff_mod_2_eq_one split: option.splits)

text \<open>The governed tasks: all of them under the global scope, otherwise exactly those whose own
  cgroup or one of whose ancestors down to level 15 is the configured one.\<close>

lemma in_governed_scope_iff:
  "jg_in_governed_scope env scope_map \<longleftrightarrow>
     (case scope_map 0 of
        None \<Rightarrow> True
      | Some scope \<Rightarrow> scope = 0 \<or> get_current_cgroup_id env = scope \<or>
          (\<exists>lvl<16. get_current_ancestor_cgroup_id env (int lvl) = scope))"
  by (auto simp: jg_in_governed_scope_def JG_SCOPE_KEY_def JG_SCOPE_GLOBAL_def
      JG_CGROUP_MAX_DEPTH_def list_ex_iff split: option.splits)

lemma ipv4_is_loopback_iff: "jg_ipv4_is_loopback a \<longleftrightarrow> unat a mod 256 = 127"
proof -
  have "a AND 0xFF = a mod 256"
    using take_bit_eq_mask [of 8 a] take_bit_eq_mod [of 8 a]
    by (simp add: mask_eq_exp_minus_1)
  then show ?thesis
    by (simp add: jg_ipv4_is_loopback_def word_unat_eq_iff unat_mod)
qed

lemma ipv6_is_loopback_iff:
  assumes "length a = 16"
  shows "jg_ipv6_is_loopback a \<longleftrightarrow> a = replicate 15 0 @ [1]"
proof
  assume "jg_ipv6_is_loopback a"
  then have z: "\<forall>i<15. a ! i = 0" and o: "a ! 15 = 1"
    by (auto simp: jg_ipv6_is_loopback_def list_ex_iff split: if_splits)
  show "a = replicate 15 0 @ [1]"
  proof (rule nth_equalityI)
    show "length a = length (replicate 15 (0::byte) @ [1])" using assms by simp
    fix i assume "i < length a"
    with assms have "i < 15 \<or> i = 15" by linarith
    with z o show "a ! i = (replicate 15 0 @ [1]) ! i"
      by (auto simp: nth_append)
  qed
next
  assume "a = replicate 15 0 @ [1]"
  then show "jg_ipv6_is_loopback a"
    by (auto simp: jg_ipv6_is_loopback_def list_ex_iff nth_append)
qed

section \<open>Requests\<close>

text \<open>The fields that every requesting hook fills in first.\<close>

definition base_request :: "bpf_env \<Rightarrow> jg_request_type \<Rightarrow> jg_source_program \<Rightarrow> jg_request" where
  "base_request env rt src =
     zeroed_request\<lparr>cookie := request_cookie env, pid := current_pid env, ppid := jg_get_ppid env,
       req_type := rt, source_program := jg_source_program_val src\<rparr>"

definition request_size :: nat where
  "request_size = ct_size struct_jg_request"

text \<open>The shared ring buffer of \<^verbatim>\<open>bpf/common/maps.h\<close>.\<close>

definition requests_map_def :: bpf_map_def where
  "requests_map_def = ringbuf_map (2 ^ 24) True"

text \<open>A request as every hook leaves it: arrays of their declared sizes.\<close>

definition wf_request :: "jg_request \<Rightarrow> bool" where
  "wf_request r \<longleftrightarrow>
     length (resource_path r) = JG_MAX_RESOURCE_LEN \<and> length (pad_after_resource r) = 2 \<and>
     length (dest r) = JG_MAX_UNIX_PATH \<and> length (payload_preview r) = JG_PAYLOAD_PREVIEW_LEN"

lemma wf_zeroed_request [simp]: "wf_request zeroed_request"
  by (simp add: wf_request_def zeroed_request_def)

lemma wf_base_request [simp]: "wf_request (base_request env rt src)"
  by (simp add: wf_request_def base_request_def zeroed_request_def)

lemma request_size_eq [simp]: "request_size = 328"
  by (simp add: request_size_def layout)

section \<open>Scope and the cgroup tree\<close>

text \<open>\<open>in_cgroup env path\<close>: the current task is in the cgroup at the end of \<open>path\<close>, the ids from the
  root of the hierarchy on. The ancestor helper gives the id at a level of this path, and 0 below
  its end.\<close>

definition in_cgroup :: "bpf_env \<Rightarrow> u64 list \<Rightarrow> bool" where
  "in_cgroup env path \<longleftrightarrow>
     path \<noteq> [] \<and> get_current_cgroup_id env = last path \<and>
     (\<forall>l. get_current_ancestor_cgroup_id env (int l) = (if l < length path then path ! l else 0))"

text \<open>C30: with a configured scope, a task is governed exactly when the scope is its own cgroup or one of
  its ancestors on the first sixteen levels. So a task that moves into a child cgroup stays governed
  as long as the scope is on these levels, and a task outside the subtree is never governed.\<close>

theorem scope_is_subtree:
  assumes "in_cgroup env path" "scope_map 0 = Some scope" "scope \<noteq> 0"
  shows "jg_in_governed_scope env scope_map \<longleftrightarrow> scope \<in> set (take 16 path) \<or> scope = last path"
proof -
  have "(\<exists>lvl<16. get_current_ancestor_cgroup_id env (int lvl) = scope) \<longleftrightarrow> scope \<in> set (take 16 path)"
    using assms(1,3) by (auto simp: in_cgroup_def in_set_conv_nth split: if_splits)
  with assms show ?thesis by (auto simp: in_governed_scope_iff in_cgroup_def)
qed

definition cgroup_env :: "u64 list \<Rightarrow> bpf_env" where
  "cgroup_env path = quiet_env\<lparr>get_current_cgroup_id := last path,
     get_current_ancestor_cgroup_id := (\<lambda>l. if nat l < length path then path ! nat l else 0)\<rparr>"

theorem scope_is_subtree_witness:
  "jg_in_governed_scope (cgroup_env [1, 7, 9]) [0 \<mapsto> 7] \<and> \<not> jg_in_governed_scope (cgroup_env [1, 8]) [0 \<mapsto> 7]"
proof -
  have "in_cgroup (cgroup_env p) p" if "p \<noteq> []" for p
    using that by (simp add: in_cgroup_def cgroup_env_def)
  then show ?thesis
    using scope_is_subtree [of "cgroup_env [1, 7, 9]" "[1, 7, 9]" "[0 \<mapsto> 7]" 7]
      scope_is_subtree [of "cgroup_env [1, 8]" "[1, 8]" "[0 \<mapsto> 7]" 7]
    by simp
qed

end
