(* ===== verification/Hook_Contract.thy ===== *)
theory Hook_Contract
  imports Jg_Common
begin

text \<open>
  The contract shared by all LSM hooks, as a locale: a hook answers 0 or \<^verbatim>\<open>-EPERM\<close>; it
  lets an ungoverned task pass without a trace; in audit-only mode it never denies; it submits
  at most one request and leaves no reservation open; and it does not depend on the verdicts that
  user space sends back. The lemmas of the locale follow for sequences of invocations; every hook
  theory interprets it.
\<close>

section \<open>Contract of one hook\<close>

locale lsm_hook =
  fixes hook :: "bpf_env \<Rightarrow> 'm ctl_maps_scheme \<Rightarrow> 'a \<Rightarrow> jg_request ringbuf \<Rightarrow> int \<times> jg_request ringbuf"
  assumes hook_ret: "fst (hook env m a rb) = 0 \<or> fst (hook env m a rb) = - JG_EPERM"
    and hook_ungoverned: "\<not> jg_in_governed_scope env (governed_scope m) \<Longrightarrow> hook env m a rb = (0, rb)"
    and hook_audit: "jg_audit_only_enabled (runtime_controls m) \<Longrightarrow> fst (hook env m a rb) = 0"
    and hook_ring: "\<exists>rs. length rs \<le> 1 \<and>
      snd (hook env m a rb) = rb\<lparr>rb_records := rb_records rb @ rs\<rparr>"
    and hook_verdicts: "hook env (m\<lparr>verdicts := v\<rparr>) a rb = hook env m a rb"
begin

lemma hook_open: "rb_open (snd (hook env m a rb)) = rb_open rb"
  using hook_ring [of env m a rb] by auto

lemma denied_is_governed_and_armed:
  "fst (hook env m a rb) \<noteq> 0 \<Longrightarrow>
   jg_in_governed_scope env (governed_scope m) \<and> \<not> jg_audit_only_enabled (runtime_controls m)"
  using hook_ungoverned [of env m a rb] hook_audit [of m env a rb] by fastforce

end

section \<open>Sequences of invocations\<close>

text \<open>A run of a hook: each invocation has its own environment, maps (the daemon may
  reconfigure them in between) and arguments; the ring buffer is carried through.\<close>

fun hook_run ::
    "(bpf_env \<Rightarrow> 'm ctl_maps_scheme \<Rightarrow> 'a \<Rightarrow> jg_request ringbuf \<Rightarrow> int \<times> jg_request ringbuf) \<Rightarrow>
     (bpf_env \<times> 'm ctl_maps_scheme \<times> 'a) list \<Rightarrow> jg_request ringbuf \<Rightarrow>
     int list \<times> jg_request ringbuf" where
  "hook_run h [] rb = ([], rb)"
| "hook_run h ((env, m, a) # is) rb =
     (let (r, rb) = h env m a rb; (rs, rb) = hook_run h is rb in (r # rs, rb))"

definition governed_call :: "bpf_env \<times> 'm ctl_maps_scheme \<times> 'a \<Rightarrow> bool" where
  "governed_call i = (case i of (env, m, a) \<Rightarrow> jg_in_governed_scope env (governed_scope m))"

lemma hook_run_Cons:
  "hook_run h ((env, m, a) # is) rb =
     (fst (h env m a rb) # fst (hook_run h is (snd (h env m a rb))),
      snd (hook_run h is (snd (h env m a rb))))"
  by (simp add: split_beta Let_def)

context lsm_hook
begin

lemma run_results: "set (fst (hook_run hook is rb)) \<subseteq> {0, - JG_EPERM}"
proof (induction "is" arbitrary: rb)
  case Nil
  then show ?case by simp
next
  case (Cons i "is")
  obtain env m a where i: "i = (env, m, a)" by (cases i) auto
  show ?case
    using hook_ret [of env m a rb] Cons [of "snd (hook env m a rb)"]
    by (auto simp: i hook_run_Cons simp del: hook_run.simps(2))
qed

lemma run_ring:
  "rb_open (snd (hook_run hook is rb)) = rb_open rb \<and>
   (\<exists>rs. rb_records (snd (hook_run hook is rb)) = rb_records rb @ rs \<and> length rs \<le> length is)"
proof (induction "is" arbitrary: rb)
  case Nil
  then show ?case by simp
next
  case (Cons i "is")
  obtain env m a where i: "i = (env, m, a)" by (cases i) auto
  obtain r1 where r1: "length r1 \<le> 1" "snd (hook env m a rb) = rb\<lparr>rb_records := rb_records rb @ r1\<rparr>"
    using hook_ring by blast
  from Cons [of "snd (hook env m a rb)"] r1 obtain r2 where
    "rb_records (snd (hook_run hook is (snd (hook env m a rb)))) = rb_records rb @ r1 @ r2"
    "length r2 \<le> length is"
    "rb_open (snd (hook_run hook is (snd (hook env m a rb)))) = rb_open rb"
    by auto
  with r1 show ?case
    by (auto simp: i hook_run_Cons simp del: hook_run.simps(2) intro!: exI [of _ "r1 @ r2"])
qed

text \<open>Invocations by ungoverned tasks are invisible: removing them from a run changes neither the
  ring buffer nor the answers to the others, and their own answers are 0.\<close>

lemma run_ungoverned:
  "snd (hook_run hook is rb) = snd (hook_run hook (filter governed_call is) rb) \<and>
   fst (hook_run hook (filter governed_call is) rb) =
     map snd (filter (governed_call \<circ> fst) (zip is (fst (hook_run hook is rb)))) \<and>
   (\<forall>(i, r) \<in> set (zip is (fst (hook_run hook is rb))). \<not> governed_call i \<longrightarrow> r = 0)"
proof (induction "is" arbitrary: rb)
  case Nil
  then show ?case by simp
next
  case (Cons i "is")
  obtain env m a where i: "i = (env, m, a)" by (cases i) auto
  show ?case
  proof (cases "governed_call i")
    case True
    with Cons [of "snd (hook env m a rb)"] show ?thesis
      by (simp add: i hook_run_Cons del: hook_run.simps(2))
  next
    case False
    then have "hook env m a rb = (0, rb)"
      by (simp add: i governed_call_def hook_ungoverned)
    with False Cons [of rb] show ?thesis
      by (simp add: i hook_run_Cons del: hook_run.simps(2))
  qed
qed

lemma run_audit_only:
  "\<forall>(env, m, a) \<in> set is. jg_audit_only_enabled (runtime_controls m) \<Longrightarrow>
   set (fst (hook_run hook is rb)) \<subseteq> {0}"
proof (induction "is" arbitrary: rb)
  case Nil
  then show ?case by simp
next
  case (Cons i "is")
  obtain env m a where i: "i = (env, m, a)" by (cases i) auto
  with Cons.prems have "fst (hook env m a rb) = 0" by (simp add: hook_audit)
  with Cons.IH Cons.prems i show ?case
    by (auto simp: hook_run_Cons simp del: hook_run.simps(2))
qed

end

end
