(* ===== verification/Governed_Floor.thy ===== *)
theory Governed_Floor
  imports Hook_Contract
begin

text \<open>
  The kernel-floor hooks, which deny in governed scope without a request to user space:
  \<^verbatim>\<open>bpf/common/governed_floor.h\<close>, the mount hooks \<^verbatim>\<open>jg_sb_mount.c\<close>,
  \<^verbatim>\<open>jg_sb_pivotroot.c\<close> and \<^verbatim>\<open>jg_move_mount.c\<close>, the device hook \<^verbatim>\<open>jg_file_open.c\<close>
  and the capability hook \<^verbatim>\<open>jg_capable.c\<close>. Each decision is characterised completely and
  every hook is an instance of the hook contract.
\<close>

section \<open>governed_floor.h\<close>

abbreviation u32_t :: ctype where "u32_t \<equiv> CInt C_uint"
abbreviation u64_t :: ctype where "u64_t \<equiv> CInt C_ullong"
abbreviation u8_t :: ctype where "u8_t \<equiv> CInt C_uchar"

definition floor_map_defs :: "(string \<times> bpf_map_def) list" where
  "floor_map_defs = [
     (''verdicts'', lru_hash_map 8192 u64_t struct_jg_verdict_payload),
     (''runtime_controls'', array_map 1 u32_t u32_t),
     (''governed_scope'', array_map 1 u32_t u64_t)]"

definition jg_governed_floor_deny :: "bpf_env \<Rightarrow> 'm ctl_maps_scheme \<Rightarrow> int" where
  "jg_governed_floor_deny env m =
     (if \<not> jg_in_governed_scope env (governed_scope m) then 0
      else if jg_audit_only_enabled (runtime_controls m) then 0
      else - JG_EPERM)"

lemma floor_deny_iff:
  "jg_governed_floor_deny env m = - JG_EPERM \<longleftrightarrow>
     jg_in_governed_scope env (governed_scope m) \<and> \<not> jg_audit_only_enabled (runtime_controls m)"
  by (auto simp: jg_governed_floor_deny_def JG_EPERM_def)

lemma floor_deny_cases: "jg_governed_floor_deny env m = 0 \<or> jg_governed_floor_deny env m = - JG_EPERM"
  by (auto simp: jg_governed_floor_deny_def)

section \<open>Mount hooks\<close>

text \<open>The arguments are the kernel's: pointers and flags, none of which the hooks look at.\<close>

definition jg_sb_mount ::
    "bpf_env \<Rightarrow> 'm ctl_maps_scheme \<Rightarrow> addr \<times> addr \<times> addr \<times> u64 \<times> addr \<Rightarrow> int" where
  "jg_sb_mount env m = (\<lambda>(dev_name, path, fstype, flags, data). jg_governed_floor_deny env m)"

definition jg_sb_pivotroot :: "bpf_env \<Rightarrow> 'm ctl_maps_scheme \<Rightarrow> addr \<times> addr \<Rightarrow> int" where
  "jg_sb_pivotroot env m = (\<lambda>(old_path, new_path). jg_governed_floor_deny env m)"

definition jg_move_mount :: "bpf_env \<Rightarrow> 'm ctl_maps_scheme \<Rightarrow> addr \<times> addr \<Rightarrow> int" where
  "jg_move_mount env m = (\<lambda>(from_path, to_path). jg_governed_floor_deny env m)"

section \<open>Opening the KVM device\<close>

definition JG_MINORBITS :: nat where "JG_MINORBITS = 20"
definition JG_MINORMASK :: u32 where "JG_MINORMASK = push_bit JG_MINORBITS 1 - 1"
definition JG_MAJOR :: "u32 \<Rightarrow> u32" where "JG_MAJOR d = drop_bit JG_MINORBITS d"
definition JG_MINOR :: "u32 \<Rightarrow> u32" where "JG_MINOR d = d AND JG_MINORMASK"
definition JG_MISC_MAJOR :: u32 where "JG_MISC_MAJOR = 10"
definition JG_KVM_MINOR :: u32 where "JG_KVM_MINOR = 232"

definition jg_file_open :: "bpf_env \<Rightarrow> 'm ctl_maps_scheme \<Rightarrow> addr \<Rightarrow> int" where
  "jg_file_open env m file =
     (let inode = core_field env file struct_file [''f_inode'']
      in if inode = (0 :: addr) then 0
         else let rdev = core_field env inode struct_inode [''i_rdev'']
              in if JG_MAJOR rdev \<noteq> JG_MISC_MAJOR \<or> JG_MINOR rdev \<noteq> JG_KVM_MINOR then 0
                 else jg_governed_floor_deny env m)"

section \<open>Capabilities in nested user namespaces\<close>

definition JG_CAP_SYS_MODULE :: int where "JG_CAP_SYS_MODULE = 16"
definition JG_CAP_SYS_RAWIO :: int where "JG_CAP_SYS_RAWIO = 17"
definition JG_CAP_SYS_PTRACE :: int where "JG_CAP_SYS_PTRACE = 19"
definition JG_CAP_SYS_ADMIN :: int where "JG_CAP_SYS_ADMIN = 21"
definition JG_CAP_SYS_BOOT :: int where "JG_CAP_SYS_BOOT = 22"
definition JG_CAP_MKNOD :: int where "JG_CAP_MKNOD = 27"

definition capable_map_defs :: "(string \<times> bpf_map_def) list" where
  "capable_map_defs = [
     (''verdicts'', lru_hash_map 8192 u64_t struct_jg_verdict_payload),
     (''runtime_controls'', array_map 1 u32_t u32_t),
     (''governed_scope'', array_map 1 u32_t u64_t)]"

definition jg_cap_is_denylisted :: "int \<Rightarrow> bool" where
  "jg_cap_is_denylisted cap =
     (if cap = JG_CAP_SYS_MODULE then True
      else if cap = JG_CAP_SYS_RAWIO then True
      else if cap = JG_CAP_SYS_PTRACE then True
      else if cap = JG_CAP_SYS_ADMIN then True
      else if cap = JG_CAP_SYS_BOOT then True
      else if cap = JG_CAP_MKNOD then True
      else False)"

definition jg_capable :: "bpf_env \<Rightarrow> 'm ctl_maps_scheme \<Rightarrow> addr \<times> addr \<times> int \<times> u32 \<Rightarrow> int" where
  "jg_capable env m = (\<lambda>(cred, ns, cap, opts).
     if ns = 0 then 0
     else let level = core_field env ns struct_user_namespace [''level'']
          in if level = (0 :: u32) then 0
             else if \<not> jg_cap_is_denylisted cap then 0
             else if \<not> jg_in_governed_scope env (governed_scope m) then 0
             else if jg_audit_only_enabled (runtime_controls m) then 0
             else - JG_EPERM)"

section \<open>The hooks are instances of the contract\<close>

text \<open>A hook without a ring buffer leaves any ring buffer alone.\<close>

definition ringless ::
    "(bpf_env \<Rightarrow> 'm ctl_maps_scheme \<Rightarrow> 'a \<Rightarrow> int) \<Rightarrow>
     bpf_env \<Rightarrow> 'm ctl_maps_scheme \<Rightarrow> 'a \<Rightarrow> jg_request ringbuf \<Rightarrow> int \<times> jg_request ringbuf" where
  "ringless h env m a rb = (h env m a, rb)"

lemma ringless_contract:
  assumes "\<And>env m a. h env m a = 0 \<or> h env m a = - JG_EPERM"
    and "\<And>env m a. h env m a \<noteq> 0 \<Longrightarrow> jg_in_governed_scope env (governed_scope m) \<and>
      \<not> jg_audit_only_enabled (runtime_controls m)"
    and "\<And>env m a v. h env (m\<lparr>verdicts := v\<rparr>) a = h env m a"
  shows "lsm_hook (ringless h)"
proof unfold_locales
  show "\<exists>rs. length rs \<le> 1 \<and> snd (ringless h env m a rb) = rb\<lparr>rb_records := rb_records rb @ rs\<rparr>"
    for env m a rb by (rule exI [of _ "[]"]) (simp add: ringless_def)
  show "\<not> jg_in_governed_scope env (governed_scope m) \<Longrightarrow> ringless h env m a rb = (0, rb)"
    for env m a rb using assms(2) [of env m a] by (auto simp: ringless_def)
  show "jg_audit_only_enabled (runtime_controls m) \<Longrightarrow> fst (ringless h env m a rb) = 0"
    for env m a rb using assms(2) [of env m a] by (auto simp: ringless_def)
qed (simp_all add: ringless_def assms(1,3))

lemma floor_deny_verdicts [simp]:
  "jg_governed_floor_deny env (m\<lparr>verdicts := v\<rparr>) = jg_governed_floor_deny env m"
  by (simp add: jg_governed_floor_deny_def)

lemma floor_deny_nonzero:
  "jg_governed_floor_deny env m \<noteq> 0 \<Longrightarrow>
   jg_in_governed_scope env (governed_scope m) \<and> \<not> jg_audit_only_enabled (runtime_controls m)"
  by (auto simp: jg_governed_floor_deny_def split: if_splits)

interpretation sb_mount: lsm_hook "ringless jg_sb_mount"
  by (rule ringless_contract) (auto simp: jg_sb_mount_def floor_deny_cases dest: floor_deny_nonzero)

interpretation sb_pivotroot: lsm_hook "ringless jg_sb_pivotroot"
  by (rule ringless_contract) (auto simp: jg_sb_pivotroot_def floor_deny_cases dest: floor_deny_nonzero)

interpretation move_mount: lsm_hook "ringless jg_move_mount"
  by (rule ringless_contract) (auto simp: jg_move_mount_def floor_deny_cases dest: floor_deny_nonzero)

interpretation file_open: lsm_hook "ringless jg_file_open"
  by (rule ringless_contract)
    (auto simp: jg_file_open_def floor_deny_cases Let_def dest: floor_deny_nonzero split: if_splits)

interpretation capable: lsm_hook "ringless jg_capable"
  by (rule ringless_contract) (auto simp: jg_capable_def Let_def split: if_splits)

section \<open>Properties\<close>

lemma kvm_rdev_iff: "JG_MAJOR d = JG_MISC_MAJOR \<and> JG_MINOR d = JG_KVM_MINOR \<longleftrightarrow> d = 0xA000E8"
proof -
  have "push_bit 20 (1::u32) - 1 = mask 20"
    by (simp add: mask_eq_exp_minus_1 push_bit_eq_mult)
  then have minor: "JG_MINOR d = take_bit 20 d"
    by (simp add: JG_MINOR_def JG_MINORMASK_def JG_MINORBITS_def take_bit_eq_mask)
  have "JG_MAJOR d = JG_MISC_MAJOR \<longleftrightarrow> unat d div 2 ^ 20 = 10"
    by (simp add: JG_MAJOR_def JG_MISC_MAJOR_def JG_MINORBITS_def word_unat_eq_iff drop_bit_eq_div
        unat_div)
  moreover have "JG_MINOR d = JG_KVM_MINOR \<longleftrightarrow> unat d mod 2 ^ 20 = 232"
    by (simp add: minor JG_KVM_MINOR_def word_unat_eq_iff take_bit_eq_mod unat_mod)
  moreover have "unat d div 2 ^ 20 = 10 \<and> unat d mod 2 ^ 20 = 232 \<longleftrightarrow> unat d = 0xA000E8"
  proof
    assume "unat d div 2 ^ 20 = 10 \<and> unat d mod 2 ^ 20 = 232"
    then have "unat d = 10 * 2 ^ 20 + 232"
      using div_mult_mod_eq [of "unat d" "2 ^ 20"] by metis
    then show "unat d = 0xA000E8" by simp
  qed simp
  moreover have "d = 0xA000E8 \<longleftrightarrow> unat d = 0xA000E8" by (simp add: word_unat_eq_iff)
  ultimately show ?thesis by simp
qed

text \<open>An open is refused exactly when the file is the device 10:232 (\<^verbatim>\<open>/dev/kvm\<close>, by the
  kernel's encoding of its number, whatever its path), the task is governed and audit-only mode is
  off. Opens of anything else are never refused.\<close>

theorem file_open_decision:
  assumes "probe_helpers env mem"
  shows "jg_file_open env m file = - JG_EPERM \<longleftrightarrow>
    (let inode = le_word (mem_field mem file struct_file [''f_inode''])
     in inode \<noteq> 0 \<and> le_word (mem_field mem inode struct_inode [''i_rdev'']) = (0xA000E8 :: u32)) \<and>
    jg_in_governed_scope env (governed_scope m) \<and> \<not> jg_audit_only_enabled (runtime_controls m)"
proof -
  let ?inode = "le_word (mem_field mem file struct_file [''f_inode'']) :: addr"
  have "jg_file_open env m file = (if ?inode \<noteq> 0 \<and>
      le_word (mem_field mem ?inode struct_inode [''i_rdev'']) = (0xA000E8 :: u32)
    then jg_governed_floor_deny env m else 0)"
    using kvm_rdev_iff [of "le_word (mem_field mem ?inode struct_inode [''i_rdev''])"]
    by (auto simp: jg_file_open_def probe_helpers.core_field_exact [OF assms] Let_def)
  then show ?thesis by (auto simp: jg_governed_floor_deny_def JG_EPERM_def Let_def split: if_splits)
qed

definition kvm_mem :: kmem where
  "kvm_mem = mem_of [(0x1028, [0, 0x20, 0, 0, 0, 0, 0, 0]), (0x204C, [0xE8, 0, 0xA0, 0])]"

definition no_controls :: ctl_maps where
  "no_controls = \<lparr>verdicts = Map.empty, runtime_controls = Map.empty, governed_scope = Map.empty\<rparr>"

lemma no_controls_armed [simp]:
  "jg_in_governed_scope env (governed_scope no_controls)"
  "\<not> jg_audit_only_enabled (runtime_controls no_controls)"
  by (simp_all add: no_controls_def jg_in_governed_scope_def jg_audit_only_enabled_def control_bit_def)

lemma kvm_mem_fields:
  "mem_field kvm_mem 0x1000 struct_file [''f_inode''] = [0, 0x20, 0, 0, 0, 0, 0, 0]"
  "mem_field kvm_mem 0x2000 struct_inode [''i_rdev''] = [0xE8, 0, 0xA0, 0]"
  unfolding mem_field_def field_addrs kernel_field_sizes by code_simp+

theorem file_open_decision_witness:
  "jg_file_open (with_memory kvm_mem quiet_env) no_controls 0x1000 = - JG_EPERM"
proof -
  have "le_word [0, 0x20, 0, 0, 0, 0, 0, 0] = (0x2000 :: addr)" by (simp add: le_word_def)
  moreover have "le_word [0xE8, 0, 0xA0, 0] = (0xA000E8 :: u32)" by (simp add: le_word_def)
  ultimately show ?thesis
    using file_open_decision [OF nofault.probe_helpers_axioms, of kvm_mem quiet_env no_controls "0x1000"]
    by (simp add: kvm_mem_fields)
qed

text \<open>A capability check is refused exactly when the capability is one of the six escalation
  capabilities (module loading, raw I/O, ptrace, admin, boot, mknod), it is exercised in a nested
  user namespace, the task is governed and audit-only mode is off.\<close>

theorem capable_decision:
  assumes "probe_helpers env mem"
  shows "jg_capable env m (cred, ns, cap, opts) = - JG_EPERM \<longleftrightarrow>
    ns \<noteq> 0 \<and> le_word (mem_field mem ns struct_user_namespace [''level'']) \<noteq> (0 :: u32) \<and>
    cap \<in> {16, 17, 19, 21, 22, 27} \<and>
    jg_in_governed_scope env (governed_scope m) \<and> \<not> jg_audit_only_enabled (runtime_controls m)"
proof -
  have "jg_cap_is_denylisted cap \<longleftrightarrow> cap \<in> {16, 17, 19, 21, 22, 27}"
    by (auto simp: jg_cap_is_denylisted_def JG_CAP_SYS_MODULE_def JG_CAP_SYS_RAWIO_def
        JG_CAP_SYS_PTRACE_def JG_CAP_SYS_ADMIN_def JG_CAP_SYS_BOOT_def JG_CAP_MKNOD_def)
  then show ?thesis
    by (auto simp: jg_capable_def probe_helpers.core_field_exact [OF assms] JG_EPERM_def Let_def)
qed

definition userns_mem :: kmem where
  "userns_mem = mem_of [(0x10C8, [1, 0, 0, 0])]"

theorem capable_decision_witness:
  "jg_capable (with_memory userns_mem quiet_env) no_controls (0, 0x1000, 21, 0) = - JG_EPERM \<and>
   jg_capable (with_memory userns_mem quiet_env) no_controls (0, 0x1000, 10, 0) \<noteq> - JG_EPERM"
proof -
  have "mem_field userns_mem 0x1000 struct_user_namespace [''level''] = [1, 0, 0, 0]"
    unfolding mem_field_def field_addrs kernel_field_sizes by code_simp
  moreover have "le_word [1, 0, 0, 0] = (1 :: u32)" by (simp add: le_word_def)
  ultimately show ?thesis
    using capable_decision [OF nofault.probe_helpers_axioms, of userns_mem quiet_env no_controls 0
        "0x1000" 21 0]
      capable_decision [OF nofault.probe_helpers_axioms, of userns_mem quiet_env no_controls 0
        "0x1000" 10 0]
    by simp
qed

text \<open>Mounting, pivoting the root and moving a mount are refused exactly to governed tasks outside
  audit-only mode, whatever the arguments.\<close>

theorem mount_floor:
  "(jg_sb_mount env m a = - JG_EPERM \<longleftrightarrow>
      jg_in_governed_scope env (governed_scope m) \<and> \<not> jg_audit_only_enabled (runtime_controls m)) \<and>
   (jg_sb_pivotroot env m b = - JG_EPERM \<longleftrightarrow>
      jg_in_governed_scope env (governed_scope m) \<and> \<not> jg_audit_only_enabled (runtime_controls m)) \<and>
   (jg_move_mount env m b = - JG_EPERM \<longleftrightarrow>
      jg_in_governed_scope env (governed_scope m) \<and> \<not> jg_audit_only_enabled (runtime_controls m))"
  by (simp add: jg_sb_mount_def jg_sb_pivotroot_def jg_move_mount_def floor_deny_iff split: prod.splits)

end
