(* ===== verification/Jg_Paths.thy ===== *)
theory Jg_Paths
  imports Jg_Common "HOL-Library.Sublist"
begin

text \<open>
  Correctness of the path routines of \<^verbatim>\<open>jg_common.h\<close>. The comparison loops decide equality
  and the prefix order of the strings in their buffers; \<^verbatim>\<open>jg_copy_path_key\<close> gives the
  NUL-padded key of a path, so that two paths have the same key exactly when they are the same
  string; \<^verbatim>\<open>jg_read_dentry_basename\<close> reads the last component; and \<^verbatim>\<open>jg_read_dentry_path\<close>
  equals a reference that joins the components of the dentry chain, which shows what is cut
  off and that no write leaves the buffer.
\<close>

section \<open>Comparing and copying\<close>

text \<open>\<open>path_str\<close> is the string that a routine bounded by 128 characters sees.\<close>

definition path_str :: "byte list \<Rightarrow> byte list" where
  "path_str p = c_str (take JG_MAX_RESOURCE_LEN p)"

lemma c_str_Cons: "c_str (b # bs) = (if b = 0 then [] else b # c_str bs)"
  by (simp add: c_str_def)

lemma c_str_take_drop:
  assumes "i < n" "n \<le> length p"
  shows "c_str (take (n - i) (drop i p)) =
    (if p ! i = 0 then [] else p ! i # c_str (take (n - Suc i) (drop (Suc i) p)))"
proof -
  have "take (n - i) (drop i p) = p ! i # take (n - Suc i) (drop (Suc i) p)"
    using assms by (metis Cons_nth_drop_Suc Suc_diff_Suc order_less_le_trans take_Suc_Cons)
  then show ?thesis by (simp add: c_str_Cons)
qed

lemma path_equals_from_eq:
  assumes "128 \<le> length l" "128 \<le> length r" "i \<le> 128"
  shows "path_equals_from i l r \<longleftrightarrow>
    c_str (take (128 - i) (drop i l)) = c_str (take (128 - i) (drop i r))"
  using assms
proof (induction i l r rule: path_equals_from.induct)
  case (1 i l r)
  show ?case
  proof (cases "i < 128")
    case True
    with "1" show ?thesis
      by (auto simp: path_equals_from.simps [of i l r] c_str_take_drop jg_consts)
  next
    case False
    then show ?thesis by (simp add: path_equals_from.simps [of i l r] jg_consts)
  qed
qed

lemma jg_path_equals_eq:
  "128 \<le> length l \<Longrightarrow> 128 \<le> length r \<Longrightarrow> jg_path_equals l r \<longleftrightarrow> path_str l = path_str r"
  by (simp add: jg_path_equals_def path_equals_from_eq path_str_def jg_consts)

lemma path_has_prefix_from_eq:
  assumes "128 \<le> length p" "128 \<le> length q" "i \<le> 128"
  shows "path_has_prefix_from i p q \<longleftrightarrow>
    prefix (c_str (take (128 - i) (drop i q))) (c_str (take (128 - i) (drop i p)))"
  using assms
proof (induction i p q rule: path_has_prefix_from.induct)
  case (1 i p q)
  show ?case
  proof (cases "i < 128")
    case True
    with "1" show ?thesis
      by (auto simp: path_has_prefix_from.simps [of i p q] c_str_take_drop jg_consts)
  next
    case False
    then show ?thesis by (simp add: path_has_prefix_from.simps [of i p q] jg_consts)
  qed
qed

lemma jg_path_has_prefix_eq:
  "128 \<le> length p \<Longrightarrow> 128 \<le> length q \<Longrightarrow>
   jg_path_has_prefix p q \<longleftrightarrow> prefix (path_str q) (path_str p)"
  by (simp add: jg_path_has_prefix_def path_has_prefix_from_eq path_str_def jg_consts)

lemma copy_name_from_eq:
  assumes "128 \<le> length path" "length s + k = 128"
  shows "copy_name_from (length s) (s @ replicate k 0) path =
    s @ nul_pad k (c_str (take k (drop (length s) path)))"
  using assms(2)
proof (induction k arbitrary: s)
  case 0
  then show ?case
    by (simp add: copy_name_from.simps jg_consts nul_pad_def c_str_def)
next
  case (Suc k)
  let ?b = "path ! length s"
  have i: "length s < 128" "length s < length path" using Suc.prems assms(1) by auto
  have upd: "(s @ replicate (Suc k) 0)[length s := ?b] = (s @ [?b]) @ replicate k 0"
    by (simp add: list_update_append)
  have str: "c_str (take (Suc k) (drop (length s) path)) =
      (if ?b = 0 then [] else ?b # c_str (take k (drop (Suc (length s)) path)))"
    using i by (simp add: Cons_nth_drop_Suc [symmetric] c_str_Cons)
  show ?case
  proof (cases "?b = 0")
    case True
    with i upd str show ?thesis
      by (simp add: copy_name_from.simps [of "length s"] jg_consts nul_pad_def)
  next
    case False
    from Suc.IH [of "s @ [?b]"] Suc.prems
    have "copy_name_from (Suc (length s)) ((s @ [?b]) @ replicate k 0) path =
        s @ ?b # nul_pad k (c_str (take k (drop (Suc (length s)) path)))"
      by simp
    with False i upd str show ?thesis
      by (simp add: copy_name_from.simps [of "length s" "s @ 0 # replicate k 0"] jg_consts nul_pad_def)
  qed
qed

text \<open>The copied name, wherever it stands in its key: the string, padded with NULs.\<close>

lemma copy_name_eq:
  "128 \<le> length path \<Longrightarrow> copy_name_from 0 (replicate 128 0) path = nul_pad 128 (path_str path)"
  using copy_name_from_eq [of path "[]" 128] by (simp add: path_str_def jg_consts)

lemma jg_copy_path_key_eq:
  "128 \<le> length path \<Longrightarrow> jg_copy_path_key path = nul_pad 128 (path_str path)"
  by (simp add: jg_copy_path_key_def copy_name_eq jg_consts)

lemma nul_free_path_str [simp]: "nul_free (path_str p)"
  by (simp add: path_str_def)

lemma length_path_str: "length (path_str p) \<le> 128"
  using length_takeWhile_le [of "\<lambda>b. b \<noteq> 0" "take 128 p"]
  by (simp add: path_str_def c_str_def jg_consts)

lemma path_str_nul_pad:
  assumes "nul_free s" "length s < n" "n \<le> 128"
  shows "path_str (nul_pad n s @ r) = s"
proof -
  obtain k where k: "n - length s = Suc k"
    using assms(2) by (metis Suc_diff_Suc)
  obtain m where m: "128 - length s = Suc m"
    using assms(2,3) by (metis Suc_diff_Suc order_less_le_trans)
  have "take 128 (nul_pad n s @ r) = s @ 0 # take m (replicate k 0 @ r)"
    using assms k m by (simp add: nul_pad_def)
  with assms(1) show ?thesis
    by (simp add: path_str_def jg_consts c_str_append_nul)
qed

lemma path_str_nul_pad_128: "nul_free s \<Longrightarrow> path_str (nul_pad 128 s) = take 128 s"
proof -
  assume s: "nul_free s"
  show ?thesis
  proof (cases "length s < 128")
    case True
    with s path_str_nul_pad [of s 128 "[]"] show ?thesis by simp
  next
    case False
    with s show ?thesis
      by (simp add: path_str_def nul_pad_def jg_consts c_str_nul_free nul_free_take)
  qed
qed

section \<open>Clearing and the last component\<close>

lemma clear_from: "n \<le> length out \<Longrightarrow> fold (\<lambda>i out. out[i := 0]) [0..<n] out = replicate n 0 @ drop n out"
proof (induction n)
  case 0
  then show ?case by simp
next
  case (Suc n)
  then show ?case
    by (simp add: list_update_append Cons_nth_drop_Suc [symmetric] replicate_append_same)
qed

lemma jg_clear_resource_eq: "length out = 128 \<Longrightarrow> jg_clear_resource out = replicate 128 0"
  by (simp add: jg_clear_resource_def clear_from jg_consts)

lemma length_clear_fold: "length (fold (\<lambda>i out. out[i := 0]) is out) = length out"
  by (induction "is" arbitrary: out) auto

lemma length_jg_clear_resource [simp]: "length (jg_clear_resource out) = length out"
  by (simp add: jg_clear_resource_def length_clear_fold)

lemma length_basename [simp]: "length (jg_read_dentry_basename env dentry out n) = length out"
  by (simp add: jg_read_dentry_basename_def Let_def)

lemma length_write_path: "length (fst (write_path k env chain out off)) = length out"
proof (induction k arbitrary: out off)
  case 0
  then show ?case by simp
next
  case (Suc i)
  then show ?case by (simp add: Let_def split: prod.splits)
qed

lemma length_jg_read_dentry_path [simp]: "length (jg_read_dentry_path env dentry out n) = length out"
  using length_write_path [of JG_PATH_MAX_DEPTH env _ "jg_clear_resource out" 0]
  by (auto simp: jg_read_dentry_path_def Let_def split: prod.splits) (metis fst_conv)+

section \<open>The path of a dentry\<close>

text \<open>\<open>name_str mem a n\<close> is what a string helper leaves of the string at \<open>a\<close> in a zeroed
  buffer of \<open>n\<close> bytes, \<open>dentry_comp\<close> the component that the second pass gets from a
  dentry. \<open>emit_path\<close> is the reference: components are appended behind slashes, empty ones
  are skipped, and nothing more is written once more than 86 bytes are in use.\<close>

definition name_str :: "kmem \<Rightarrow> addr \<Rightarrow> nat \<Rightarrow> byte list" where
  "name_str mem a n = (case str_at mem a n of None \<Rightarrow> [] | Some s \<Rightarrow> take (n - 1) s)"

definition dentry_comp :: "bpf_env \<Rightarrow> kmem \<Rightarrow> addr \<Rightarrow> byte list" where
  "dentry_comp env mem d =
     (let p = dentry_name_ptr env d in if p = 0 then [] else name_str mem p JG_PATH_COMP_LEN)"

fun emit_path :: "byte list \<Rightarrow> byte list list \<Rightarrow> byte list" where
  "emit_path s [] = s"
| "emit_path s (c # cs) =
     (if c = [] then emit_path s cs
      else if 86 < length s then s
      else emit_path (s @ 0x2F # c) cs)"

lemma nul_free_name_str [simp]: "nul_free (name_str mem a n)"
  by (auto simp: name_str_def dest: str_at_nul_free nul_free_take split: option.splits)

lemma length_name_str: "0 < n \<Longrightarrow> length (name_str mem a n) < n"
  by (auto simp: name_str_def split: option.splits)

lemma nul_free_dentry_comp [simp]: "nul_free (dentry_comp env mem d)"
  by (simp add: dentry_comp_def Let_def)

lemma length_dentry_comp: "length (dentry_comp env mem d) \<le> 39"
  using length_name_str [of 40 mem "dentry_name_ptr env d"]
  by (simp add: dentry_comp_def Let_def jg_consts)

lemma emit_path_full: "86 < length s \<Longrightarrow> emit_path s cs = s"
  by (induction cs) auto

lemma emit_path_props:
  assumes "\<forall>c\<in>set cs. nul_free c \<and> length c \<le> 39" "nul_free s" "length s \<le> 126"
  shows "nul_free (emit_path s cs) \<and> length (emit_path s cs) \<le> 126"
  using assms by (induction s cs rule: emit_path.induct) auto

lemma emit_path_ge: "length s \<le> length (emit_path s cs)"
proof (induction s cs rule: emit_path.induct)
  case (2 s c cs)
  then show ?case by (cases "c = []"; cases "86 < length s") auto
qed simp

lemma window_nul_pad:
  "length s \<le> off \<Longrightarrow> off + n \<le> k \<Longrightarrow> window off n (nul_pad k s) = replicate n 0"
  by (simp add: window_def nul_pad_def)

lemma put_zeros_nul_pad:
  assumes "length s \<le> off" "off + n \<le> k"
  shows "put off (replicate n 0) (nul_pad k s) = nul_pad k s"
proof -
  have "drop off (nul_pad k s) = replicate (k - off) 0"
    using assms by (simp add: nul_pad_def)
  moreover have "drop (off + n) (nul_pad k s) = replicate (k - off - n) 0"
    using assms by (simp add: nul_pad_def)
  moreover have "replicate n (0::byte) @ replicate (k - off - n) 0 = replicate (k - off) 0"
    using assms by (simp add: replicate_add [symmetric])
  moreover have "off + length (replicate n (0::byte)) \<le> length (nul_pad k s)"
    using assms by (simp add: length_nul_pad)
  ultimately show ?thesis
    by (metis append_take_drop_id length_replicate put_in_bounds)
qed

lemma put_component:
  assumes "length s \<le> 86" "length c \<le> 39"
  shows "(put (length s + 1) (nul_pad 40 c) (nul_pad 128 s))[length s := 0x2F] =
    nul_pad 128 (s @ 0x2F # c)"
proof -
  have len: "length (nul_pad 40 c) = 40" "length (nul_pad 128 s) = 128"
    using assms by (simp_all add: length_nul_pad)
  have "take (length s + 1) (nul_pad 128 s) = s @ [0]"
  proof -
    obtain m where "128 - length s = Suc m"
      using assms(1) by (metis Suc_diff_Suc le_less_trans numeral_less_iff semiring_norm(76,81,78))
    then show ?thesis by (simp add: nul_pad_def)
  qed
  moreover have "drop (length s + 41) (nul_pad 128 s) = replicate (87 - length s) 0"
    using assms by (simp add: nul_pad_def)
  moreover have "replicate (40 - length c) (0::byte) @ replicate (87 - length s) 0 =
      replicate (127 - length s - length c) 0"
    using assms by (simp add: replicate_add [symmetric])
  ultimately show ?thesis
    using assms len by (simp add: put_in_bounds list_update_append nul_pad_def)
qed

context probe_helpers
begin

lemma read_name:
  assumes "0 < n"
  shows "fst (probe_read_kernel_str env a (replicate n 0)) = nul_pad n (name_str mem a n)"
  using read_str_zeroed [OF assms] by (simp add: name_str_def)

lemma read_name_ret:
  assumes "0 < n"
  shows "snd (probe_read_kernel_str env a (replicate n 0)) > 1 \<longleftrightarrow> name_str mem a n \<noteq> []"
    and "name_str mem a n \<noteq> [] \<Longrightarrow>
      snd (probe_read_kernel_str env a (replicate n 0)) = int (length (name_str mem a n)) + 1"
proof -
  have *: "(snd (probe_read_kernel_str env a (replicate n 0)) > 1 \<longleftrightarrow> name_str mem a n \<noteq> []) \<and>
    (name_str mem a n \<noteq> [] \<longrightarrow>
      snd (probe_read_kernel_str env a (replicate n 0)) = int (length (name_str mem a n)) + 1)"
  proof (cases "str_at mem a n")
    case None
    with assms str_fault [of "replicate n 0" a] show ?thesis
      by (auto simp: name_str_def)
  next
    case (Some s)
    with assms str_ok [of "replicate n 0" a s] show ?thesis
      by (auto simp: name_str_def copy_str_def Let_def)
  qed
  then show "snd (probe_read_kernel_str env a (replicate n 0)) > 1 \<longleftrightarrow> name_str mem a n \<noteq> []"
    by blast
  from * show "name_str mem a n \<noteq> [] \<Longrightarrow>
      snd (probe_read_kernel_str env a (replicate n 0)) = int (length (name_str mem a n)) + 1"
    by blast
qed

text \<open>One iteration of the second pass that has a component to write.\<close>

lemma write_component:
  assumes "length s \<le> 86" "i + 1 < length chain" "dentry_name_ptr env (chain ! i) \<noteq> 0"
  shows "write_path (Suc i) env chain (nul_pad 128 s) (length s) =
    (let c = dentry_comp env mem (chain ! i)
     in if c = [] then write_path i env chain (nul_pad 128 s) (length s)
        else write_path i env chain (nul_pad 128 (s @ 0x2F # c)) (length (s @ 0x2F # c)))"
proof -
  let ?p = "dentry_name_ptr env (chain ! i)"
  let ?c = "dentry_comp env mem (chain ! i)"
  have c: "?c = name_str mem ?p 40"
    using assms(3) by (simp add: dentry_comp_def jg_consts)
  have w: "window (length s + 1) 40 (nul_pad 128 s) = replicate 40 0"
    using assms(1) by (simp add: window_nul_pad)
  obtain comp n where r: "probe_read_kernel_str env ?p (replicate 40 0) = (comp, n)"
    by (metis surj_pair)
  have comp: "comp = nul_pad 40 ?c" using read_name [of 40 ?p] r c by simp
  have ret: "n > 1 \<longleftrightarrow> ?c \<noteq> []" "?c \<noteq> [] \<Longrightarrow> n = int (length ?c) + 1"
    using read_name_ret [of 40 ?p] r c by simp_all
  have put0: "put (length s + 1) (nul_pad 40 []) (nul_pad 128 s) = nul_pad 128 s"
    using put_zeros_nul_pad [of s "length s + 1" 40 128] assms(1) by (simp add: nul_pad_def)
  have put1: "(put (length s + 1) (nul_pad 40 ?c) (nul_pad 128 s))[length s := 0x2F] =
      nul_pad 128 (s @ 0x2F # ?c)"
    by (rule put_component [OF assms(1) length_dentry_comp])
  show ?thesis
  proof (cases "?c = []")
    case True
    with assms w r comp ret put0 show ?thesis by (simp add: jg_consts Let_def)
  next
    case False
    with assms w r comp ret put1 show ?thesis by (simp add: jg_consts Let_def nat_add_distrib)
  qed
qed

lemma write_path_eq:
  assumes "chain \<noteq> []" "nul_free s" "length s \<le> 126"
  shows "write_path k env chain (nul_pad 128 s) (length s) =
    (let p = emit_path s (map (dentry_comp env mem) (rev (take k (butlast chain))))
     in (nul_pad 128 p, length p))"
  using assms(2,3)
proof (induction k arbitrary: s)
  case 0
  then show ?case by simp
next
  case (Suc i)
  show ?case
  proof (cases "length chain \<le> i + 1")
    case True
    then have "take (Suc i) (butlast chain) = take i (butlast chain)" by simp
    with True Suc show ?thesis by simp
  next
    case False
    then have i: "i < length (butlast chain)" by simp
    then have rev: "rev (take (Suc i) (butlast chain)) = chain ! i # rev (take i (butlast chain))"
      by (simp add: take_Suc_conv_app_nth nth_butlast)
    let ?c = "dentry_comp env mem (chain ! i)"
    show ?thesis
    proof (cases "dentry_name_ptr env (chain ! i) = 0")
      case True
      then have "?c = []" by (simp add: dentry_comp_def)
      with True False rev Suc show ?thesis by simp
    next
      case ptr: False
      show ?thesis
      proof (cases "length s \<le> 86")
        case True
        have "nul_free (s @ 0x2F # ?c)" "length (s @ 0x2F # ?c) \<le> 126"
          using True Suc.prems length_dentry_comp [of env mem "chain ! i"] by auto
        note IH = Suc.IH [OF Suc.prems] Suc.IH [OF this]
        from False have "i + 1 < length chain" by simp
        from write_component [OF True this ptr] IH rev True show ?thesis
          by (cases "?c = []") (simp_all add: Let_def del: write_path.simps)
      next
        case full: False
        with False ptr have "write_path (Suc i) env chain (nul_pad 128 s) (length s) = (nul_pad 128 s, length s)"
          by (simp add: jg_consts Let_def)
        with full show ?thesis by (simp add: emit_path_full)
      qed
    qed
  qed
qed

lemma basename_eq:
  assumes "length out = 128" "dentry \<noteq> 0"
  shows "jg_read_dentry_basename env dentry out 128 =
    nul_pad 128 (let p = dentry_name_ptr env dentry in if p = 0 then [] else name_str mem p 128)"
proof -
  have "put 0 xs (replicate 128 0) = xs" if "length xs = 128" for xs :: "byte list"
    using that by (simp add: put_def)
  moreover have "length (nul_pad 128 (name_str mem a 128)) = 128" for a
    using length_name_str [of 128 mem a] by (simp add: length_nul_pad)
  ultimately show ?thesis
    using assms by (simp add: jg_read_dentry_basename_def jg_clear_resource_eq read_name Let_def nul_pad_def)
qed

end

text \<open>What \<^verbatim>\<open>jg_read_dentry_path\<close> leaves in its buffer, as a string.\<close>

definition dentry_basename :: "bpf_env \<Rightarrow> kmem \<Rightarrow> addr \<Rightarrow> byte list" where
  "dentry_basename env mem d =
     (let p = dentry_name_ptr env d in if p = 0 then [] else name_str mem p JG_MAX_RESOURCE_LEN)"

definition dentry_path :: "bpf_env \<Rightarrow> kmem \<Rightarrow> addr \<Rightarrow> byte list" where
  "dentry_path env mem d =
     (let (chain, reached_root) = dentry_chain env d;
          p = emit_path [] (map (dentry_comp env mem) (rev (butlast chain)))
      in if \<not> reached_root \<or> p = [] then dentry_basename env mem d else p)"

lemma dentry_chain_from_length:
  "length chain = i \<Longrightarrow> i \<le> 12 \<Longrightarrow> length (fst (dentry_chain_from env i chain d parent)) \<le> 12"
proof (induction env i chain d parent rule: dentry_chain_from.induct)
  case (1 env i chain d parent)
  then show ?case
    by (subst dentry_chain_from.simps) (auto simp: Let_def jg_consts)
qed

lemma dentry_chain_from_nonempty:
  "i < 12 \<or> chain \<noteq> [] \<Longrightarrow> fst (dentry_chain_from env i chain d parent) \<noteq> []"
proof (induction env i chain d parent rule: dentry_chain_from.induct)
  case (1 env i chain d parent)
  then show ?case
    by (subst dentry_chain_from.simps) (auto simp: Let_def jg_consts)
qed

lemma dentry_chain_length: "length (fst (dentry_chain env d)) \<le> 12"
  by (simp add: dentry_chain_def dentry_chain_from_length)

lemma dentry_chain_nonempty: "fst (dentry_chain env d) \<noteq> []"
  by (simp add: dentry_chain_def dentry_chain_from_nonempty)

lemma nul_free_dentry_basename [simp]: "nul_free (dentry_basename env mem d)"
  by (simp add: dentry_basename_def Let_def)

lemma length_dentry_basename: "length (dentry_basename env mem d) < 128"
  using length_name_str [of 128 mem "dentry_name_ptr env d"]
  by (simp add: dentry_basename_def Let_def jg_consts)

lemma emit_comps:
  "nul_free (emit_path [] (map (dentry_comp env mem) ds)) \<and>
   length (emit_path [] (map (dentry_comp env mem) ds)) \<le> 126"
  by (rule emit_path_props) (auto simp: length_dentry_comp)

lemma dentry_path_props: "nul_free (dentry_path env mem d) \<and> length (dentry_path env mem d) < 128"
proof -
  have "length (emit_path [] (map (dentry_comp env mem) ds)) < 128" for ds
    using emit_comps [of env mem ds] by simp
  then show ?thesis
    using emit_comps [of env mem] length_dentry_basename [of env mem d]
    by (auto simp: dentry_path_def Let_def split: prod.splits)
qed

lemma nul_pad_terminated: "length s < n \<Longrightarrow> (nul_pad n s)[length s := 0] = nul_pad n s"
  by (cases "n - length s") (auto simp: nul_pad_def list_update_append)

context probe_helpers
begin

lemma basename_string:
  "length out = 128 \<Longrightarrow> dentry \<noteq> 0 \<Longrightarrow>
   jg_read_dentry_basename env dentry out 128 = nul_pad 128 (dentry_basename env mem dentry)"
  by (simp add: basename_eq dentry_basename_def jg_consts Let_def)

lemma path_string:
  assumes "length out = 128" "dentry \<noteq> 0"
  shows "jg_read_dentry_path env dentry out 128 = nul_pad 128 (dentry_path env mem dentry)"
proof -
  obtain chain root where ch: "dentry_chain env dentry = (chain, root)" by fastforce
  let ?p = "emit_path [] (map (dentry_comp env mem) (rev (butlast chain)))"
  have chain: "chain \<noteq> []" "length (butlast chain) \<le> 12"
    using dentry_chain_nonempty [of env dentry] dentry_chain_length [of env dentry] ch by auto
  have "write_path 12 env chain (replicate 128 0) 0 = (nul_pad 128 ?p, length ?p)"
    using write_path_eq [OF chain(1), of "[]" 12] chain(2) by (simp add: nul_pad_def Let_def)
  moreover have "length ?p \<le> 126"
    using emit_comps [of env mem "rev (butlast chain)"] by simp
  moreover have "length (nul_pad 128 ?p) = 128"
    using calculation(2) by (simp add: length_nul_pad)
  ultimately show ?thesis
    using assms ch
    by (auto simp: jg_read_dentry_path_def dentry_path_def jg_clear_resource_eq basename_string
        nul_pad_terminated jg_consts Let_def)
qed

end

section \<open>Resolution on a dentry tree\<close>

text \<open>\<open>is_chain env ds\<close>: the dentries \<open>ds\<close> are connected by their parent pointers from the
  leaf to a root (which is its own parent, or has none).\<close>

definition dentry_parent :: "bpf_env \<Rightarrow> addr \<Rightarrow> addr" where
  "dentry_parent env d = le_word (core_read env d struct_dentry [''d_parent''] (replicate 8 0))"

fun is_chain :: "bpf_env \<Rightarrow> addr list \<Rightarrow> bool" where
  "is_chain env [] \<longleftrightarrow> False"
| "is_chain env [d] \<longleftrightarrow> dentry_parent env d = 0 \<or> dentry_parent env d = d"
| "is_chain env (d # e # ds) \<longleftrightarrow>
     dentry_parent env d = e \<and> e \<noteq> 0 \<and> e \<noteq> d \<and> is_chain env (e # ds)"

definition join_path :: "byte list list \<Rightarrow> byte list" where
  "join_path cs = concat (map ((#) 0x2F) cs)"

lemma emit_path_join:
  assumes "[] \<notin> set cs" "length s + length (join_path (butlast cs)) \<le> 86"
  shows "emit_path s cs = s @ join_path cs"
  using assms
proof (induction cs arbitrary: s)
  case Nil
  then show ?case by (simp add: join_path_def)
next
  case (Cons c cs)
  have s: "length s \<le> 86" using Cons.prems(2) by simp
  show ?case
  proof (cases cs)
    case Nil
    with Cons.prems s show ?thesis by (auto simp: join_path_def)
  next
    case (Cons d ds)
    with Cons.prems s Cons.IH [of "s @ 0x2F # c"] show ?thesis
      by (auto simp: join_path_def)
  qed
qed

context probe_helpers
begin

lemma read_any_dst:
  "length dst = length dst' \<Longrightarrow> probe_read_kernel env a dst = probe_read_kernel env a dst'"
  by (cases "bytes_at mem a (length dst)") (auto simp: read_ok read_fault)

lemma parent_read:
  "le_word (core_read env d struct_dentry [''d_parent''] (word_bytes 8 parent)) = dentry_parent env d"
  unfolding dentry_parent_def core_read_def
  by (subst read_any_dst [of _ "replicate 8 0"]) simp_all

lemma chain_within_bound:
  "is_chain env (d # ds) \<Longrightarrow> i + length (d # ds) \<le> 12 \<Longrightarrow>
   dentry_chain_from env i acc d parent = (acc @ d # ds, True)"
proof (induction ds arbitrary: i acc d parent)
  case Nil
  then show ?case
    by (subst dentry_chain_from.simps) (simp add: parent_read jg_consts Let_def)
next
  case (Cons e ds)
  then show ?case
    by (subst dentry_chain_from.simps) (simp add: parent_read jg_consts Let_def)
qed

lemma chain_beyond_bound:
  "is_chain env (d # ds) \<Longrightarrow> i \<le> 12 \<Longrightarrow> 12 < i + length (d # ds) \<Longrightarrow>
   snd (dentry_chain_from env i acc d parent) = False"
proof (induction ds arbitrary: i acc d parent)
  case Nil
  then show ?case
    by (subst dentry_chain_from.simps) (simp add: jg_consts)
next
  case (Cons e ds)
  then show ?case
    by (subst dentry_chain_from.simps) (auto simp: parent_read jg_consts Let_def)
qed

lemma path_of_short_chain:
  assumes "is_chain env (d # ds)" "length (d # ds) \<le> 12" "d \<noteq> 0" "length out = 128"
    and comps: "cs = map (dentry_comp env mem) (rev (butlast (d # ds)))"
    and "cs \<noteq> []" "[] \<notin> set cs" "length (join_path (butlast cs)) \<le> 86"
  shows "jg_read_dentry_path env d out 128 = nul_pad 128 (join_path cs)"
proof -
  have chain: "dentry_chain env d = (d # ds, True)"
    using chain_within_bound [OF assms(1), of 0 "[]" 0] assms(2) by (simp add: dentry_chain_def)
  have "emit_path [] cs = join_path cs"
    using emit_path_join [of cs "[]"] assms(7,8) by simp
  moreover have "join_path cs \<noteq> []"
    using assms(6) by (cases cs) (auto simp: join_path_def)
  ultimately have "dentry_path env mem d = join_path cs"
    by (simp add: dentry_path_def chain comps del: butlast.simps)
  then show ?thesis using path_string [OF assms(4,3)] by simp
qed

lemma path_of_deep_chain:
  assumes "is_chain env (d # ds)" "12 < length (d # ds)" "d \<noteq> 0" "length out = 128"
  shows "jg_read_dentry_path env d out 128 = nul_pad 128 (dentry_basename env mem d)"
proof -
  have "snd (dentry_chain env d) = False"
    using chain_beyond_bound [OF assms(1), of 0 "[]" 0] assms(2) by (simp add: dentry_chain_def)
  then have "dentry_path env mem d = dentry_basename env mem d"
    by (auto simp: dentry_path_def Let_def split: prod.splits)
  then show ?thesis using path_string [OF assms(4,3)] by simp
qed

end

section \<open>Properties\<close>

text \<open>The two comparison loops decide equality of the strings in two path buffers and whether one is
  a prefix of the other, whatever follows the terminating NULs.\<close>

theorem path_comparisons:
  assumes "128 \<le> length p" "128 \<le> length q"
  shows "(jg_path_equals p q \<longleftrightarrow> path_str p = path_str q) \<and>
    (jg_path_has_prefix p q \<longleftrightarrow> prefix (path_str q) (path_str p))"
  using assms by (simp add: jg_path_equals_eq jg_path_has_prefix_eq)

theorem path_comparisons_witness:
  "jg_path_equals (0x61 # replicate 127 0) (0x61 # 0 # replicate 126 7) \<longleftrightarrow>
   path_str (0x61 # replicate 127 0) = path_str (0x61 # 0 # replicate 126 7)"
  using path_comparisons [of "0x61 # replicate 127 0" "0x61 # 0 # replicate 126 7"] by simp

text \<open>A map key made from a path has 128 bytes, and two paths have the same key exactly when they are
  the same string: bytes behind the NUL never reach a key.\<close>

theorem path_key_identifies:
  assumes "128 \<le> length p" "128 \<le> length q"
  shows "length (jg_copy_path_key p) = 128 \<and>
    (jg_copy_path_key p = jg_copy_path_key q \<longleftrightarrow> path_str p = path_str q)"
  using assms nul_pad_inj [of "path_str p" "path_str q" 128]
  by (auto simp: jg_copy_path_key_eq length_nul_pad length_path_str)

theorem path_key_identifies_witness:
  "jg_copy_path_key (0x61 # 0 # replicate 126 7) = jg_copy_path_key (0x61 # 0 # replicate 126 9)"
  using path_key_identifies [of "0x61 # 0 # replicate 126 7" "0x61 # 0 # replicate 126 9"]
  by (simp add: path_str_def c_str_def jg_consts)

text \<open>For a file at most eleven levels below the root of its mount, whose directories take at most 86
  bytes, the resolved path is the absolute path in the mount: the components from the root to the
  file, each behind a slash.\<close>

theorem dentry_path_resolved:
  assumes "probe_helpers env mem" "is_chain env (d # ds)" "length (d # ds) \<le> 12" "d \<noteq> 0"
    and "length out = 128" "cs = map (dentry_comp env mem) (rev (butlast (d # ds)))"
    and "cs \<noteq> []" "[] \<notin> set cs" "length (join_path (butlast cs)) \<le> 86"
  shows "jg_read_dentry_path env d out 128 = nul_pad 128 (join_path cs)"
  by (rule probe_helpers.path_of_short_chain [OF assms])

text \<open>A root dentry at 0x2000, which is its own parent, and its entry \<^verbatim>\<open>ab\<close> at 0x1000.\<close>

definition tree_mem :: kmem where
  "tree_mem = mem_of [
     (0x1018, [0, 0x20, 0, 0, 0, 0, 0, 0]), (0x1028, [0, 0x30, 0, 0, 0, 0, 0, 0]),
     (0x2018, [0, 0x20, 0, 0, 0, 0, 0, 0]), (0x3000, [0x61, 0x62, 0])]"

abbreviation tree_env :: bpf_env where
  "tree_env \<equiv> with_memory tree_mem quiet_env"

lemma tree_mem_fields:
  "mem_field tree_mem 0x1000 struct_dentry [''d_parent''] = [0, 0x20, 0, 0, 0, 0, 0, 0]"
  "mem_field tree_mem 0x2000 struct_dentry [''d_parent''] = [0, 0x20, 0, 0, 0, 0, 0, 0]"
  "mem_field tree_mem 0x1000 struct_dentry [''d_name'', ''name''] = [0, 0x30, 0, 0, 0, 0, 0, 0]"
  unfolding mem_field_def field_addrs kernel_field_sizes by code_simp+

lemma tree_chain: "is_chain tree_env [0x1000, 0x2000]"
proof -
  have "dentry_parent tree_env 0x1000 = 0x2000" "dentry_parent tree_env 0x2000 = 0x2000"
    unfolding dentry_parent_def
    by (subst nofault.core_read_exact; simp add: tree_mem_fields le_word_def)+
  then show ?thesis by simp
qed

lemma tree_comp: "dentry_comp tree_env tree_mem 0x1000 = [0x61, 0x62]"
proof -
  have "dentry_name_ptr tree_env 0x1000 = 0x3000"
    unfolding dentry_name_ptr_def
    by (subst nofault.core_read_exact; simp add: tree_mem_fields le_word_def)
  moreover have "name_str tree_mem 0x3000 40 = [0x61, 0x62]" by code_simp
  ultimately show ?thesis by (simp add: dentry_comp_def jg_consts)
qed

theorem dentry_path_resolved_witness:
  "jg_read_dentry_path tree_env 0x1000 (replicate 128 0) 128 = nul_pad 128 [0x2F, 0x61, 0x62]"
proof -
  have "jg_read_dentry_path tree_env 0x1000 (replicate 128 0) 128 = nul_pad 128 (join_path [[0x61, 0x62]])"
    by (rule dentry_path_resolved [OF nofault.probe_helpers_axioms tree_chain])
      (simp_all add: tree_comp join_path_def)
  then show ?thesis by (simp add: join_path_def)
qed

text \<open>For a file deeper than that, the walk gives up and the last component alone is reported.\<close>

theorem dentry_path_deep:
  assumes "probe_helpers env mem" "is_chain env (d # ds)" "12 < length (d # ds)" "d \<noteq> 0"
    and "length out = 128"
  shows "jg_read_dentry_path env d out 128 = nul_pad 128 (dentry_basename env mem d)"
  by (rule probe_helpers.path_of_deep_chain [OF assms])

text \<open>Thirteen dentries, 64 bytes apart, each the parent of the one before.\<close>

definition deep_mem :: kmem where
  "deep_mem = mem_of [
     (88, [128, 0, 0, 0, 0, 0, 0, 0]),
     (152, [192, 0, 0, 0, 0, 0, 0, 0]),
     (216, [0, 1, 0, 0, 0, 0, 0, 0]),
     (280, [64, 1, 0, 0, 0, 0, 0, 0]),
     (344, [128, 1, 0, 0, 0, 0, 0, 0]),
     (408, [192, 1, 0, 0, 0, 0, 0, 0]),
     (472, [0, 2, 0, 0, 0, 0, 0, 0]),
     (536, [64, 2, 0, 0, 0, 0, 0, 0]),
     (600, [128, 2, 0, 0, 0, 0, 0, 0]),
     (664, [192, 2, 0, 0, 0, 0, 0, 0]),
     (728, [0, 3, 0, 0, 0, 0, 0, 0]),
     (792, [64, 3, 0, 0, 0, 0, 0, 0])]"

lemma deep_mem_parents:
  "bytes_at deep_mem 88 8 = Some [128, 0, 0, 0, 0, 0, 0, 0]"
  "bytes_at deep_mem 152 8 = Some [192, 0, 0, 0, 0, 0, 0, 0]"
  "bytes_at deep_mem 216 8 = Some [0, 1, 0, 0, 0, 0, 0, 0]"
  "bytes_at deep_mem 280 8 = Some [64, 1, 0, 0, 0, 0, 0, 0]"
  "bytes_at deep_mem 344 8 = Some [128, 1, 0, 0, 0, 0, 0, 0]"
  "bytes_at deep_mem 408 8 = Some [192, 1, 0, 0, 0, 0, 0, 0]"
  "bytes_at deep_mem 472 8 = Some [0, 2, 0, 0, 0, 0, 0, 0]"
  "bytes_at deep_mem 536 8 = Some [64, 2, 0, 0, 0, 0, 0, 0]"
  "bytes_at deep_mem 600 8 = Some [128, 2, 0, 0, 0, 0, 0, 0]"
  "bytes_at deep_mem 664 8 = Some [192, 2, 0, 0, 0, 0, 0, 0]"
  "bytes_at deep_mem 728 8 = Some [0, 3, 0, 0, 0, 0, 0, 0]"
  "bytes_at deep_mem 792 8 = Some [64, 3, 0, 0, 0, 0, 0, 0]"
  "bytes_at deep_mem 856 8 = None"
  by code_simp+

theorem dentry_path_deep_witness:
  "jg_read_dentry_path (with_memory deep_mem quiet_env) 64 (replicate 128 0) 128 = nul_pad 128 []"
proof -
  let ?env = "with_memory deep_mem quiet_env"
  have parent: "dentry_parent ?env d = le_word (mem_field deep_mem d struct_dentry [''d_parent''])" for d
    unfolding dentry_parent_def by (subst nofault.core_read_exact) simp_all
  have chain: "is_chain ?env [64, 128, 192, 256, 320, 384, 448, 512, 576, 640, 704, 768, 832]"
    by (simp add: parent mem_field_def field_addrs deep_mem_parents) (simp add: le_word_def)
  have "bytes_at deep_mem 104 8 = None" by code_simp
  then have "dentry_name_ptr ?env 64 = 0"
    unfolding dentry_name_ptr_def
    by (subst nofault.core_read_exact; simp add: mem_field_def field_addrs)
  then have "dentry_basename ?env deep_mem 64 = []" by (simp add: dentry_basename_def)
  with dentry_path_deep [OF nofault.probe_helpers_axioms chain, of "replicate 128 0"] show ?thesis
    by simp
qed

text \<open>The path as kernel memory has it, without the walk of the program: the parent of a dentry, the
  number of levels up to the first dentry that is its own parent or has none, the names of the
  dentries below that root, each cut to 39 bytes, and of these, from the root down, every name before
  which at most 86 bytes are in use.\<close>

definition parent_at :: "kmem \<Rightarrow> addr \<Rightarrow> addr" where
  "parent_at mem d = le_word (mem_field mem d struct_dentry [''d_parent''])"

definition name_at :: "kmem \<Rightarrow> nat \<Rightarrow> addr \<Rightarrow> byte list" where
  "name_at mem n d =
     (let p = le_word (mem_field mem d struct_dentry [''d_name'', ''name''])
      in if p = 0 then [] else name_str mem p n)"

definition ancestor :: "kmem \<Rightarrow> addr \<Rightarrow> nat \<Rightarrow> addr" where
  "ancestor mem d n = (parent_at mem ^^ n) d"

definition mount_root :: "kmem \<Rightarrow> addr \<Rightarrow> bool" where
  "mount_root mem d \<longleftrightarrow> parent_at mem d = 0 \<or> parent_at mem d = d"

definition levels_to_root :: "kmem \<Rightarrow> addr \<Rightarrow> nat option" where
  "levels_to_root mem d = List.find (\<lambda>n. mount_root mem (ancestor mem d n)) [0..<12]"

definition fitting_path :: "byte list list \<Rightarrow> byte list" where
  "fitting_path cs =
     (let cs = filter (\<lambda>c. c \<noteq> []) cs
      in join_path (map (\<lambda>i. cs ! i) (filter (\<lambda>i. length (join_path (take i cs)) \<le> 86) [0..<length cs])))"

definition resolved_path :: "kmem \<Rightarrow> addr \<Rightarrow> byte list" where
  "resolved_path mem d =
     (case levels_to_root mem d of
        None \<Rightarrow> name_at mem 128 d
      | Some n \<Rightarrow>
          (let p = fitting_path (map (\<lambda>i. name_at mem 40 (ancestor mem d i)) (rev [0..<n]))
           in if p = [] then name_at mem 128 d else p))"

lemma join_path_simps [simp]:
  "join_path [] = []" "join_path (c # cs) = 0x2F # c @ join_path cs"
  "join_path (cs @ cs') = join_path cs @ join_path cs'"
  by (simp_all add: join_path_def)

lemma emit_path_fitting:
  assumes "[] \<notin> set cs"
  shows "emit_path s cs =
    s @ join_path (map (\<lambda>i. cs ! i) (filter (\<lambda>i. length s + length (join_path (take i cs)) \<le> 86) [0..<length cs]))"
  using assms
proof (induction s cs rule: emit_path.induct)
  case (2 s c cs)
  show ?case
  proof (cases "86 < length s")
    case True
    then have "filter (\<lambda>i. length s + length (join_path (take i (c # cs))) \<le> 86) [0..<length (c # cs)] = []"
      by (simp add: filter_empty_conv del: upt_Suc)
    then show ?thesis using True by (simp add: emit_path_full del: upt_Suc emit_path.simps)
  next
    case False
    have "[0..<length (c # cs)] = 0 # map Suc [0..<length cs]"
      by (simp add: upt_conv_Cons map_Suc_upt del: upt_Suc)
    then show ?thesis using False "2.IH"(2) "2.prems"
      by (auto simp: filter_map o_def add.assoc simp del: upt_Suc)
  qed
qed simp

lemma emit_path_skips: "emit_path s cs = emit_path s (filter (\<lambda>c. c \<noteq> []) cs)"
  by (induction s cs rule: emit_path.induct) (auto simp: emit_path_full)

lemma emit_fitting_path: "emit_path [] cs = fitting_path cs"
  by (subst emit_path_skips) (simp add: fitting_path_def emit_path_fitting Let_def)

lemma find_map: "List.find P (map f xs) = map_option f (List.find (\<lambda>x. P (f x)) xs)"
  by (induction xs) auto

lemma ancestor_simps:
  "ancestor mem d 0 = d" "ancestor mem d (Suc n) = ancestor mem (parent_at mem d) n"
  by (simp_all add: ancestor_def funpow_swap1)

context probe_helpers
begin

lemma dentry_parent_exact: "dentry_parent env d = parent_at mem d"
  unfolding dentry_parent_def parent_at_def by (subst core_read_exact) simp_all

lemma dentry_name_exact: "dentry_name_ptr env d = le_word (mem_field mem d struct_dentry [''d_name'', ''name''])"
  unfolding dentry_name_ptr_def by (subst core_read_exact) simp_all

lemma names_exact: "dentry_comp env mem d = name_at mem 40 d" "dentry_basename env mem d = name_at mem 128 d"
  by (simp_all add: dentry_comp_def dentry_basename_def name_at_def dentry_name_exact jg_consts Let_def)

lemma chain_from_ancestors:
  assumes "i \<le> 12"
  shows "dentry_chain_from env i acc d parent =
    (case List.find (\<lambda>n. mount_root mem (ancestor mem d n)) [0..<12 - i] of
       None \<Rightarrow> (acc @ map (ancestor mem d) [0..<12 - i], False)
     | Some n \<Rightarrow> (acc @ map (ancestor mem d) [0..<Suc n], True))"
  using assms
proof (induction "12 - i" arbitrary: i acc d parent)
  case 0
  then show ?case by (subst dentry_chain_from.simps) (simp add: jg_consts)
next
  case (Suc k)
  let ?p = "parent_at mem d"
  from Suc.hyps(2) have k: "12 - i = Suc (12 - Suc i)" "i < 12" by simp_all
  have range: "[0..<Suc n] = 0 # map Suc [0..<n]" for n
    by (simp add: upt_conv_Cons map_Suc_upt del: upt_Suc)
  have step: "dentry_chain_from env i acc d parent =
      (if mount_root mem d then (acc @ [d], True) else dentry_chain_from env (Suc i) (acc @ [d]) ?p ?p)"
    using k(2) by (subst dentry_chain_from.simps)
      (simp add: parent_read dentry_parent_exact mount_root_def jg_consts Let_def)
  show ?case
  proof (cases "mount_root mem d")
    case True
    then show ?thesis unfolding step k(1) range by (simp add: ancestor_simps)
  next
    case False
    have IH: "dentry_chain_from env (Suc i) (acc @ [d]) ?p ?p =
      (case List.find (\<lambda>n. mount_root mem (ancestor mem ?p n)) [0..<12 - Suc i] of
         None \<Rightarrow> ((acc @ [d]) @ map (ancestor mem ?p) [0..<12 - Suc i], False)
       | Some n \<Rightarrow> ((acc @ [d]) @ map (ancestor mem ?p) [0..<Suc n], True))"
      using Suc.hyps(2) k(2) by (intro Suc.hyps(1)) simp_all
    show ?thesis
      unfolding step k(1) range using False
      by (simp add: IH find_map ancestor_simps o_def upt_conv_Cons map_Suc_upt [symmetric]
          del: upt_Suc split: option.split)
  qed
qed

lemma dentry_path_resolved_path: "dentry_path env mem d = resolved_path mem d"
proof (cases "levels_to_root mem d")
  case None
  then show ?thesis
    using chain_from_ancestors [of 0 "[]" d 0]
    by (simp add: dentry_path_def dentry_chain_def resolved_path_def levels_to_root_def names_exact Let_def)
next
  case (Some n)
  then have "dentry_chain env d = (map (ancestor mem d) [0..<Suc n], True)"
    using chain_from_ancestors [of 0 "[]" d 0] by (simp add: dentry_chain_def levels_to_root_def)
  then show ?thesis
    by (simp add: dentry_path_def resolved_path_def Some names_exact emit_fitting_path rev_map o_def Let_def)
qed

end

text \<open>C27: whatever kernel memory holds, the buffer ends up with a NUL-terminated string padded with zeros:
  the path over the names up to the root of the mount when that is at most eleven levels away, with every
  name cut to 39 bytes and without the names behind the first 86 bytes, and the last component when
  the root is further away or no name could be read.\<close>

theorem dentry_path_reference:
  assumes "probe_helpers env mem" "length out = 128" "d \<noteq> 0"
  shows "jg_read_dentry_path env d out 128 = nul_pad 128 (resolved_path mem d) \<and>
    nul_free (resolved_path mem d) \<and> length (resolved_path mem d) < 128"
  using probe_helpers.path_string [OF assms] dentry_path_props [of env mem d]
    probe_helpers.dentry_path_resolved_path [OF assms(1), of d] by simp

theorem dentry_path_reference_witness:
  "jg_read_dentry_path tree_env 0x1000 (replicate 128 7) 128 =
     nul_pad 128 (resolved_path tree_mem 0x1000)"
  using dentry_path_reference [OF nofault.probe_helpers_axioms, of "replicate 128 7" "0x1000"] by simp

text \<open>A component of 40 bytes or more is cut to 39, so the reported path of a file directly below
  the root of its mount is then only a part of it.\<close>

theorem dentry_component_cut:
  assumes "probe_helpers env mem" "is_chain env [d, root]" "d \<noteq> 0" "length out = 128"
    and "dentry_name_ptr env d \<noteq> 0" "str_at mem (dentry_name_ptr env d) 40 = Some s" "length s = 40"
  shows "jg_read_dentry_path env d out 128 = nul_pad 128 (0x2F # take 39 s)"
proof -
  have comp: "dentry_comp env mem d = take 39 s"
    using assms(5-7) by (simp add: dentry_comp_def name_str_def jg_consts)
  have "jg_read_dentry_path env d out 128 = nul_pad 128 (join_path [take 39 s])"
    by (rule probe_helpers.path_of_short_chain [OF assms(1,2) _ assms(3,4)])
      (use assms(7) comp in \<open>auto simp: join_path_def\<close>)
  then show ?thesis by (simp add: join_path_def)
qed

text \<open>Parent pointers at 88 and 152, a name pointer at 104, and the letter \<^verbatim>\<open>a\<close> everywhere else.\<close>

definition letters_mem :: kmem where
  "letters_mem x =
     (case mem_of [(88, [128, 0, 0, 0, 0, 0, 0, 0]), (152, [128, 0, 0, 0, 0, 0, 0, 0]),
        (104, [0, 2, 0, 0, 0, 0, 0, 0])] x of None \<Rightarrow> Some 0x61 | Some b \<Rightarrow> Some b)"

theorem dentry_component_cut_witness:
  "jg_read_dentry_path (with_memory letters_mem quiet_env) 64 (replicate 128 0) 128 =
     nul_pad 128 (0x2F # replicate 39 0x61)"
proof -
  let ?env = "with_memory letters_mem quiet_env"
  have bytes: "bytes_at letters_mem 88 8 = Some [128, 0, 0, 0, 0, 0, 0, 0]"
    "bytes_at letters_mem 152 8 = Some [128, 0, 0, 0, 0, 0, 0, 0]"
    "bytes_at letters_mem 104 8 = Some [0, 2, 0, 0, 0, 0, 0, 0]"
    by code_simp+
  have parent: "dentry_parent ?env d = le_word (mem_field letters_mem d struct_dentry [''d_parent''])" for d
    unfolding dentry_parent_def by (subst nofault.core_read_exact) simp_all
  have chain: "is_chain ?env [64, 128]"
    by (simp add: parent mem_field_def field_addrs bytes) (simp add: le_word_def)
  have name: "dentry_name_ptr ?env 64 = 512"
    unfolding dentry_name_ptr_def
    by (subst nofault.core_read_exact; simp add: mem_field_def field_addrs bytes le_word_def)
  have str: "str_at letters_mem 512 40 = Some (replicate 40 0x61)" by code_simp
  show ?thesis
    using dentry_component_cut [OF nofault.probe_helpers_axioms chain, of "replicate 128 0"
        "replicate 40 0x61"] name str
    by simp
qed

end
