(* ===== verification/Bprm_Check.thy ===== *)
theory Bprm_Check
  imports Governed_Floor Jg_Paths
begin

text \<open>
  The execve hook \<^verbatim>\<open>bpf/lsm/jg_bprm_check_security.c\<close>: in governed scope only executables on
  the allowlist may run, and a request is recorded for every attempt. The lemmas give the
  decision in terms of the file name in kernel memory, including what a full ring buffer, a
  fault and an overlong name do.
\<close>

section \<open>The hook\<close>

record exec_maps = ctl_maps +
  allowed_exec_paths :: "byte list \<rightharpoonup> u8"

definition exec_map_defs :: "(string \<times> bpf_map_def) list" where
  "exec_map_defs = [
     (''verdicts'', lru_hash_map 8192 u64_t struct_jg_verdict_payload),
     (''allowed_exec_paths'', hash_map 1024 struct_jg_path_key u8_t),
     (''runtime_controls'', array_map 1 u32_t u32_t),
     (''governed_scope'', array_map 1 u32_t u64_t)]"

definition jg_bprm_check_security ::
    "bpf_env \<Rightarrow> 'x exec_maps_scheme \<Rightarrow> addr \<Rightarrow> jg_request ringbuf \<Rightarrow> int \<times> jg_request ringbuf" where
  "jg_bprm_check_security env m bprm rb =
     (if \<not> jg_in_governed_scope env (governed_scope m) then (0, rb)
      else
        let audit_only = jg_audit_only_enabled (runtime_controls m)
        in case ringbuf_reserve env request_size of
             None \<Rightarrow> (let deny = \<not> audit_only in if deny then (- JG_EPERM, rb) else (0, rb))
           | Some _ \<Rightarrow>
               let rb = rb_reserve rb;
                   req = base_request env REQ_EXECVE JG_SRC_BPRM_CHECK_SECURITY;
                   filename = le_word (core_read env bprm struct_linux_binprm [''filename'']
                                (replicate 8 0));
                   req = req\<lparr>resource_path :=
                     put 0 (fst (probe_read_kernel_str env filename (resource_path req)))
                       (resource_path req)\<rparr>;
                   path_key = jg_copy_path_key (resource_path req);
                   decision = (if map_flag (allowed_exec_paths m) path_key then 0 else - JG_EPERM);
                   rb = rb_submit req rb;
                   deny = (\<not> audit_only \<and> decision \<noteq> 0)
               in if deny then (- JG_EPERM, rb) else (0, rb))"

section \<open>Decision\<close>

definition exec_filename_ptr :: "bpf_env \<Rightarrow> addr \<Rightarrow> addr" where
  "exec_filename_ptr env bprm =
     le_word (core_read env bprm struct_linux_binprm [''filename''] (replicate 8 0))"

definition exec_request :: "bpf_env \<Rightarrow> addr \<Rightarrow> jg_request" where
  "exec_request env bprm =
     (let req = base_request env REQ_EXECVE JG_SRC_BPRM_CHECK_SECURITY
      in req\<lparr>resource_path :=
           put 0 (fst (probe_read_kernel_str env (exec_filename_ptr env bprm) (resource_path req)))
             (resource_path req)\<rparr>)"

lemma bprm_eq:
  "jg_bprm_check_security env m bprm rb =
     (if \<not> jg_in_governed_scope env (governed_scope m) then (0, rb)
      else if ringbuf_reserve env 328 = None
      then (if jg_audit_only_enabled (runtime_controls m) then 0 else - 1, rb)
      else (if jg_audit_only_enabled (runtime_controls m) \<or>
              map_flag (allowed_exec_paths m) (jg_copy_path_key (resource_path (exec_request env bprm)))
            then 0 else - 1,
            rb\<lparr>rb_records := rb_records rb @ [exec_request env bprm]\<rparr>))"
  by (auto simp: jg_bprm_check_security_def exec_request_def exec_filename_ptr_def Let_def
      rb_submit_reserve JG_EPERM_def split: option.splits)

lemma wf_exec_request: "wf_request (exec_request env bprm)"
  by (simp add: exec_request_def Let_def wf_request_def base_request_def zeroed_request_def jg_consts)

interpretation bprm: lsm_hook jg_bprm_check_security
proof unfold_locales
  show "\<exists>rs. length rs \<le> 1 \<and>
      snd (jg_bprm_check_security env m a rb) = rb\<lparr>rb_records := rb_records rb @ rs\<rparr>"
    for env and m :: "'x exec_maps_scheme" and a rb
    unfolding bprm_eq
    by (cases "jg_in_governed_scope env (governed_scope m)"; cases "ringbuf_reserve env 328")
      (auto intro: exI [of _ "[]"] exI [of _ "[exec_request env a]"])
qed (auto simp: bprm_eq JG_EPERM_def)

context probe_helpers
begin

lemma exec_path:
  "resource_path (exec_request env bprm) = nul_pad 128 (name_str mem (exec_filename_ptr env bprm) 128)"
proof -
  have "put 0 xs (replicate 128 0) = xs" if "length xs = 128" for xs :: "byte list"
    using that by (simp add: put_def)
  moreover have "length (nul_pad 128 (name_str mem a 128)) = 128" for a
    using length_name_str [of 128 mem a] by (simp add: length_nul_pad)
  ultimately show ?thesis
    by (simp add: exec_request_def base_request_def zeroed_request_def read_name jg_consts Let_def)
qed

lemma exec_key:
  "jg_copy_path_key (resource_path (exec_request env bprm)) =
   nul_pad 128 (name_str mem (exec_filename_ptr env bprm) 128)"
proof -
  let ?s = "name_str mem (exec_filename_ptr env bprm) 128"
  have "length ?s < 128" using length_name_str by simp
  then show ?thesis
    by (simp add: exec_path jg_copy_path_key_eq length_nul_pad path_str_nul_pad_128)
qed

end

section \<open>Properties\<close>

text \<open>The name of the program that is about to run, as the hook sees it: the string that the
  \<^verbatim>\<open>filename\<close> pointer leads to, cut to 127 bytes, and the empty string when it cannot be read.\<close>

definition exec_name :: "kmem \<Rightarrow> addr \<Rightarrow> byte list" where
  "exec_name mem bprm =
     name_str mem (le_word (mem_field mem bprm struct_linux_binprm [''filename''])) 128"

context probe_helpers
begin

lemma exec_filename_exact:
  "exec_filename_ptr env bprm = le_word (mem_field mem bprm struct_linux_binprm [''filename''])"
  by (simp add: exec_filename_ptr_def core_read_exact)

lemma exec_key_exact:
  "jg_copy_path_key (resource_path (exec_request env bprm)) = nul_pad 128 (exec_name mem bprm)"
  by (simp add: exec_key exec_name_def exec_filename_exact)

lemma exec_path_exact:
  "resource_path (exec_request env bprm) = nul_pad 128 (exec_name mem bprm)"
  by (simp add: exec_path exec_name_def exec_filename_exact)

end

text \<open>C3: for every behaviour of the kernel that keeps the documented contract of the read
  helpers, an execve is refused exactly when the task is governed, audit-only mode is off, and
  either the ring buffer is full or the name of the program is not on the allowlist. Exactly when
  the task is governed and there is room, one request is submitted, and it names the program.\<close>

theorem exec_decision:
  assumes "probe_helpers env mem"
  shows "(fst (jg_bprm_check_security env m bprm rb) = - JG_EPERM \<longleftrightarrow>
      jg_in_governed_scope env (governed_scope m) \<and> \<not> jg_audit_only_enabled (runtime_controls m) \<and>
      (ringbuf_reserve env request_size = None \<or>
       \<not> map_flag (allowed_exec_paths m) (nul_pad 128 (exec_name mem bprm)))) \<and>
    snd (jg_bprm_check_security env m bprm rb) =
      (if jg_in_governed_scope env (governed_scope m) \<and> ringbuf_reserve env request_size \<noteq> None
       then rb\<lparr>rb_records := rb_records rb @
              [(base_request env REQ_EXECVE JG_SRC_BPRM_CHECK_SECURITY)
                 \<lparr>resource_path := nul_pad 128 (exec_name mem bprm)\<rparr>]\<rparr>
       else rb)"
proof -
  have req: "exec_request env bprm = (base_request env REQ_EXECVE JG_SRC_BPRM_CHECK_SECURITY)
      \<lparr>resource_path := nul_pad 128 (exec_name mem bprm)\<rparr>"
    using probe_helpers.exec_path_exact [OF assms, of bprm] by (auto simp: exec_request_def Let_def)
  then show ?thesis
    using probe_helpers.exec_key_exact [OF assms, of bprm] by (simp add: bprm_eq JG_EPERM_def)
qed

text \<open>A memory with \<^verbatim>\<open>struct linux_binprm\<close> at 0x1000 whose file name is \<^verbatim>\<open>/sh\<close>.\<close>

definition sh_mem :: kmem where
  "sh_mem = mem_of [(0x1060, [0, 0x20, 0, 0, 0, 0, 0, 0]), (0x2000, [0x2F, 0x73, 0x68, 0])]"

definition only_sh :: exec_maps where
  "only_sh = \<lparr>verdicts = Map.empty, runtime_controls = Map.empty, governed_scope = Map.empty,
     allowed_exec_paths = [nul_pad 128 [0x2F, 0x73, 0x68] \<mapsto> 1]\<rparr>"

lemma sh_name: "exec_name sh_mem 0x1000 = [0x2F, 0x73, 0x68]"
  by (simp add: exec_name_def mem_field_def field_addrs sh_mem_def) code_simp

lemma only_sh_controls [simp]:
  "jg_in_governed_scope env (governed_scope only_sh)"
  "\<not> jg_audit_only_enabled (runtime_controls only_sh)"
  by (simp_all add: only_sh_def jg_in_governed_scope_def jg_audit_only_enabled_def control_bit_def)

theorem exec_decision_witness:
  "fst (jg_bprm_check_security (with_memory sh_mem quiet_env) only_sh 0x1000
      \<lparr>rb_records = [], rb_open = 0\<rparr>) \<noteq> - JG_EPERM \<and>
   fst (jg_bprm_check_security (with_memory sh_mem quiet_env) (only_sh\<lparr>allowed_exec_paths := Map.empty\<rparr>)
      0x1000 \<lparr>rb_records = [], rb_open = 0\<rparr>) = - JG_EPERM"
  using exec_decision [OF nofault.probe_helpers_axioms, of sh_mem quiet_env only_sh "0x1000"
      "\<lparr>rb_records = [], rb_open = 0\<rparr>"]
    exec_decision [OF nofault.probe_helpers_axioms, of sh_mem quiet_env
      "only_sh\<lparr>allowed_exec_paths := Map.empty\<rparr>" "0x1000" "\<lparr>rb_records = [], rb_open = 0\<rparr>"]
  by (simp add: sh_name map_flag_def) (simp add: only_sh_def)

text \<open>A file name of 128 bytes or more is matched by its first 127 bytes, so a program is allowed to
  run when another path, the allowlisted one, is a 127-byte prefix of its own.\<close>

theorem exec_overlong_name:
  assumes "probe_helpers env mem"
    and "str_at mem (le_word (mem_field mem bprm struct_linux_binprm [''filename''])) 128 = Some s"
    and "length s = 128" "ringbuf_reserve env request_size \<noteq> None"
    and "map_flag (allowed_exec_paths m) (nul_pad 128 (take 127 s))"
  shows "fst (jg_bprm_check_security env m bprm rb) = 0"
  using assms(2-) probe_helpers.exec_key_exact [OF assms(1), of bprm]
  by (auto simp: bprm_eq exec_name_def name_str_def)

lemma str_at_const: "b \<noteq> 0 \<Longrightarrow> str_at (\<lambda>_. Some b) a n = Some (replicate n b)"
  by (induction n arbitrary: a) simp_all

theorem exec_overlong_name_witness:
  "fst (jg_bprm_check_security (with_memory (\<lambda>_. Some 0x61) quiet_env)
      (only_sh\<lparr>allowed_exec_paths := [nul_pad 128 (replicate 127 0x61) \<mapsto> 1]\<rparr>) 0x1000
      \<lparr>rb_records = [], rb_open = 0\<rparr>) = 0"
  by (rule exec_overlong_name [OF nofault.probe_helpers_axioms str_at_const])
    (simp_all add: map_flag_def)

end
