(* ===== verification/Inode_Hooks.thy ===== *)
theory Inode_Hooks
  imports Governed_Floor Jg_Paths
begin

text \<open>
  The hooks on file creation and deletion, \<^verbatim>\<open>bpf/lsm/jg_inode_create.c\<close> and
  \<^verbatim>\<open>bpf/lsm/jg_inode_unlink.c\<close>: three denylists (by directory identity, by file name
  within a directory, by file name anywhere) decide, then the full path of the file is resolved for the
  request. The two objects contain copies of the same lookups; both copies are modelled and
  shown to agree.
\<close>

section \<open>Maps\<close>

record inode_maps = ctl_maps +
  denied_basenames :: "byte list \<rightharpoonup> u8"
  denied_dir_inodes :: "jg_inode_key \<rightharpoonup> u8"
  denied_files_in_dir :: "jg_dir_file_key \<rightharpoonup> u8"

definition create_map_defs :: "(string \<times> bpf_map_def) list" where
  "create_map_defs = [
     (''verdicts'', lru_hash_map 8192 u64_t struct_jg_verdict_payload),
     (''denied_basenames'', hash_map 1024 struct_jg_path_key u8_t),
     (''denied_dir_inodes'', hash_map 1024 struct_jg_inode_key u8_t),
     (''denied_files_in_dir'', hash_map 1024 struct_jg_dir_file_key u8_t),
     (''runtime_controls'', array_map 1 u32_t u32_t),
     (''governed_scope'', array_map 1 u32_t u64_t)]"

definition unlink_map_defs :: "(string \<times> bpf_map_def) list" where
  "unlink_map_defs = [
     (''verdicts'', lru_hash_map 8192 u64_t struct_jg_verdict_payload),
     (''denied_basenames'', hash_map 1024 struct_jg_path_key u8_t),
     (''denied_dir_inodes'', hash_map 1024 struct_jg_inode_key u8_t),
     (''denied_files_in_dir'', hash_map 1024 struct_jg_dir_file_key u8_t),
     (''runtime_controls'', array_map 1 u32_t u32_t),
     (''governed_scope'', array_map 1 u32_t u64_t)]"

section \<open>File creation\<close>

text \<open>\<^verbatim>\<open>BPF_CORE_READ(dir, i_sb, s_dev)\<close> follows the pointer \<^verbatim>\<open>i_sb\<close>.\<close>

definition inode_sb_dev :: "bpf_env \<Rightarrow> addr \<Rightarrow> u32" where
  "inode_sb_dev env dir =
     (let sb = core_field env dir struct_inode [''i_sb'']
      in core_field env sb struct_super_block [''s_dev''])"

definition jg_inode_basename_denied :: "'x inode_maps_scheme \<Rightarrow> byte list \<Rightarrow> bool" where
  "jg_inode_basename_denied m path =
     (let key = put 0 (take JG_MAX_RESOURCE_LEN path) (replicate JG_MAX_RESOURCE_LEN 0)
      in map_flag (denied_basenames m) key)"

definition jg_inode_dir_denied :: "bpf_env \<Rightarrow> 'x inode_maps_scheme \<Rightarrow> addr \<Rightarrow> bool" where
  "jg_inode_dir_denied env m dir =
     (if dir = 0 then False
      else let key = \<lparr>dev = ucast (inode_sb_dev env dir),
                      ino = core_field env dir struct_inode [''i_ino'']\<rparr>
           in map_flag (denied_dir_inodes m) key)"

definition jg_inode_file_in_dir_denied ::
    "bpf_env \<Rightarrow> 'x inode_maps_scheme \<Rightarrow> addr \<Rightarrow> byte list \<Rightarrow> bool" where
  "jg_inode_file_in_dir_denied env m dir name =
     (if dir = 0 then False
      else let key = \<lparr>dev = ucast (inode_sb_dev env dir),
                      ino = core_field env dir struct_inode [''i_ino''],
                      dname = copy_name_from 0 (replicate JG_MAX_RESOURCE_LEN 0) name\<rparr>
           in map_flag (denied_files_in_dir m) key)"

definition jg_inode_create ::
    "bpf_env \<Rightarrow> 'x inode_maps_scheme \<Rightarrow> addr \<times> addr \<times> u16 \<Rightarrow> jg_request ringbuf \<Rightarrow>
     int \<times> jg_request ringbuf" where
  "jg_inode_create env m a rb = (case a of (dir, dentry, mode) \<Rightarrow>
     if \<not> jg_in_governed_scope env (governed_scope m) then (0, rb)
     else
       let audit_only = jg_audit_only_enabled (runtime_controls m)
       in if \<not> JG_S_ISREG mode then (0, rb)
          else
            let path = replicate JG_MAX_RESOURCE_LEN 0;
                path = jg_read_dentry_basename env dentry path JG_MAX_RESOURCE_LEN;
                decision = (if jg_inode_dir_denied env m dir
                              \<or> jg_inode_file_in_dir_denied env m dir path
                              \<or> jg_inode_basename_denied m path
                            then - JG_EPERM else 0);
                path = jg_read_dentry_path env dentry path JG_MAX_RESOURCE_LEN
            in case ringbuf_reserve env request_size of
                 None \<Rightarrow> (let deny = \<not> audit_only in if deny then (- JG_EPERM, rb) else (0, rb))
               | Some _ \<Rightarrow>
                   let rb = rb_reserve rb;
                       req = base_request env REQ_INODE_CREATE JG_SRC_INODE_CREATE;
                       req = req\<lparr>resource_path := put 0 path (resource_path req)\<rparr>;
                       rb = rb_submit req rb;
                       deny = (\<not> audit_only \<and> decision \<noteq> 0)
                   in if deny then (- JG_EPERM, rb) else (0, rb))"

section \<open>File deletion\<close>

text \<open>The copies of the lookups in \<^verbatim>\<open>jg_inode_unlink.c\<close>, over the maps of that object.\<close>

definition unlink_basename_denied :: "'x inode_maps_scheme \<Rightarrow> byte list \<Rightarrow> bool" where
  "unlink_basename_denied m path =
     (let key = put 0 (take JG_MAX_RESOURCE_LEN path) (replicate JG_MAX_RESOURCE_LEN 0)
      in map_flag (denied_basenames m) key)"

definition unlink_dir_denied :: "bpf_env \<Rightarrow> 'x inode_maps_scheme \<Rightarrow> addr \<Rightarrow> bool" where
  "unlink_dir_denied env m dir =
     (if dir = 0 then False
      else let key = \<lparr>dev = ucast (inode_sb_dev env dir),
                      ino = core_field env dir struct_inode [''i_ino'']\<rparr>
           in map_flag (denied_dir_inodes m) key)"

definition unlink_file_in_dir_denied ::
    "bpf_env \<Rightarrow> 'x inode_maps_scheme \<Rightarrow> addr \<Rightarrow> byte list \<Rightarrow> bool" where
  "unlink_file_in_dir_denied env m dir name =
     (if dir = 0 then False
      else let key = \<lparr>dev = ucast (inode_sb_dev env dir),
                      ino = core_field env dir struct_inode [''i_ino''],
                      dname = copy_name_from 0 (replicate JG_MAX_RESOURCE_LEN 0) name\<rparr>
           in map_flag (denied_files_in_dir m) key)"

definition jg_inode_unlink ::
    "bpf_env \<Rightarrow> 'x inode_maps_scheme \<Rightarrow> addr \<times> addr \<Rightarrow> jg_request ringbuf \<Rightarrow>
     int \<times> jg_request ringbuf" where
  "jg_inode_unlink env m a rb = (case a of (dir, dentry) \<Rightarrow>
     if \<not> jg_in_governed_scope env (governed_scope m) then (0, rb)
     else
       let audit_only = jg_audit_only_enabled (runtime_controls m);
           path = replicate JG_MAX_RESOURCE_LEN 0;
           path = jg_read_dentry_basename env dentry path JG_MAX_RESOURCE_LEN;
           decision = (if unlink_dir_denied env m dir
                         \<or> unlink_file_in_dir_denied env m dir path
                         \<or> unlink_basename_denied m path
                       then - JG_EPERM else 0);
           path = jg_read_dentry_path env dentry path JG_MAX_RESOURCE_LEN
       in case ringbuf_reserve env request_size of
            None \<Rightarrow> (let deny = \<not> audit_only in if deny then (- JG_EPERM, rb) else (0, rb))
          | Some _ \<Rightarrow>
              let rb = rb_reserve rb;
                  req = base_request env REQ_INODE_UNLINK JG_SRC_INODE_UNLINK;
                  req = req\<lparr>resource_path := put 0 path (resource_path req)\<rparr>;
                  rb = rb_submit req rb;
                  deny = (\<not> audit_only \<and> decision \<noteq> 0)
              in if deny then (- JG_EPERM, rb) else (0, rb))"

section \<open>Decision\<close>

definition inode_denied :: "bpf_env \<Rightarrow> 'x inode_maps_scheme \<Rightarrow> addr \<Rightarrow> addr \<Rightarrow> bool" where
  "inode_denied env m dir dentry =
     (let path = jg_read_dentry_basename env dentry (replicate 128 0) 128
      in jg_inode_dir_denied env m dir \<or> jg_inode_file_in_dir_denied env m dir path \<or>
         jg_inode_basename_denied m path)"

definition inode_request ::
    "bpf_env \<Rightarrow> jg_request_type \<Rightarrow> jg_source_program \<Rightarrow> addr \<Rightarrow> jg_request" where
  "inode_request env rt src dentry =
     (base_request env rt src)\<lparr>resource_path :=
       jg_read_dentry_path env dentry (jg_read_dentry_basename env dentry (replicate 128 0) 128) 128\<rparr>"

lemma unlink_lookups:
  "unlink_basename_denied = jg_inode_basename_denied"
  "unlink_dir_denied = jg_inode_dir_denied"
  "unlink_file_in_dir_denied = jg_inode_file_in_dir_denied"
  by (auto simp: fun_eq_iff unlink_basename_denied_def jg_inode_basename_denied_def
      unlink_dir_denied_def jg_inode_dir_denied_def unlink_file_in_dir_denied_def
      jg_inode_file_in_dir_denied_def)

lemma put_whole: "length xs = length buf \<Longrightarrow> put 0 xs buf = xs"
  by (simp add: put_def)

lemma base_request_path [simp]: "resource_path (base_request env rt src) = replicate 128 0"
  by (simp add: base_request_def zeroed_request_def jg_consts)

lemma inode_create_eq:
  "jg_inode_create env m (dir, dentry, mode) rb =
     (if \<not> jg_in_governed_scope env (governed_scope m) \<or> \<not> JG_S_ISREG mode then (0, rb)
      else if ringbuf_reserve env 328 = None
      then (if jg_audit_only_enabled (runtime_controls m) then 0 else - 1, rb)
      else (if jg_audit_only_enabled (runtime_controls m) \<or> \<not> inode_denied env m dir dentry
            then 0 else - 1,
            rb\<lparr>rb_records := rb_records rb @
              [inode_request env REQ_INODE_CREATE JG_SRC_INODE_CREATE dentry]\<rparr>))"
  by (auto simp: jg_inode_create_def inode_denied_def inode_request_def Let_def put_whole
      rb_submit_reserve jg_consts split: option.splits)

lemma inode_unlink_eq:
  "jg_inode_unlink env m (dir, dentry) rb =
     (if \<not> jg_in_governed_scope env (governed_scope m) then (0, rb)
      else if ringbuf_reserve env 328 = None
      then (if jg_audit_only_enabled (runtime_controls m) then 0 else - 1, rb)
      else (if jg_audit_only_enabled (runtime_controls m) \<or> \<not> inode_denied env m dir dentry
            then 0 else - 1,
            rb\<lparr>rb_records := rb_records rb @
              [inode_request env REQ_INODE_UNLINK JG_SRC_INODE_UNLINK dentry]\<rparr>))"
  by (auto simp: jg_inode_unlink_def inode_denied_def inode_request_def Let_def put_whole
      unlink_lookups rb_submit_reserve jg_consts split: option.splits)

lemma wf_inode_request: "wf_request (inode_request env rt src dentry)"
  using wf_base_request [of env rt src] by (simp add: inode_request_def wf_request_def jg_consts)

lemma inode_denied_verdicts [simp]: "inode_denied env (m\<lparr>verdicts := v\<rparr>) dir dentry = inode_denied env m dir dentry"
  by (simp add: inode_denied_def jg_inode_dir_denied_def jg_inode_file_in_dir_denied_def
      jg_inode_basename_denied_def Let_def)

interpretation inode_create: lsm_hook jg_inode_create
proof unfold_locales
  show "\<exists>rs. length rs \<le> 1 \<and>
      snd (jg_inode_create env m a rb) = rb\<lparr>rb_records := rb_records rb @ rs\<rparr>"
    for env and m :: "'x inode_maps_scheme" and a rb
    by (cases a) (auto simp: inode_create_eq intro: exI [of _ "[]"] exI [of _ "[_]"])
qed (auto simp: inode_create_eq JG_EPERM_def)

interpretation inode_unlink: lsm_hook jg_inode_unlink
proof unfold_locales
  show "\<exists>rs. length rs \<le> 1 \<and>
      snd (jg_inode_unlink env m a rb) = rb\<lparr>rb_records := rb_records rb @ rs\<rparr>"
    for env and m :: "'x inode_maps_scheme" and a rb
    by (cases a) (auto simp: inode_unlink_eq intro: exI [of _ "[]"] exI [of _ "[_]"])
qed (auto simp: inode_unlink_eq JG_EPERM_def)

text \<open>The decision in terms of kernel memory: the identity of the directory and the name of the
  entry, cut to 127 bytes.\<close>

definition inode_policy ::
    "'x inode_maps_scheme \<Rightarrow> addr \<Rightarrow> jg_inode_key \<Rightarrow> byte list \<Rightarrow> bool" where
  "inode_policy m dir k nm \<longleftrightarrow>
     dir \<noteq> 0 \<and> map_flag (denied_dir_inodes m) k \<or>
     dir \<noteq> 0 \<and> map_flag (denied_files_in_dir m) (jg_inode_key.extend k \<lparr>dname = nul_pad 128 nm\<rparr>) \<or>
     map_flag (denied_basenames m) (nul_pad 128 nm)"

definition dir_key :: "bpf_env \<Rightarrow> addr \<Rightarrow> jg_inode_key" where
  "dir_key env dir =
     \<lparr>dev = ucast (inode_sb_dev env dir), ino = core_field env dir struct_inode [''i_ino'']\<rparr>"

context probe_helpers
begin

lemma inode_denied_policy:
  assumes "dentry \<noteq> 0"
  shows "inode_denied env m dir dentry \<longleftrightarrow>
    inode_policy m dir (dir_key env dir) (dentry_basename env mem dentry)"
proof -
  let ?s = "dentry_basename env mem dentry"
  have s: "length ?s < 128" by (rule length_dentry_basename)
  have path: "jg_read_dentry_basename env dentry (replicate 128 0) 128 = nul_pad 128 ?s"
    using basename_string [of "replicate 128 0" dentry] assms by simp
  have name: "copy_name_from 0 (replicate 128 0) (nul_pad 128 ?s) = nul_pad 128 ?s"
    using s by (simp add: copy_name_eq length_nul_pad path_str_nul_pad_128)
  have key: "put 0 (take 128 (nul_pad 128 ?s)) (replicate 128 0) = nul_pad 128 ?s"
    using s by (simp add: put_whole length_nul_pad)
  show ?thesis
    by (auto simp: inode_denied_def path name key inode_policy_def dir_key_def jg_consts
        jg_inode_dir_denied_def jg_inode_file_in_dir_denied_def jg_inode_basename_denied_def
        jg_inode_key.defs jg_dir_file_key.defs Let_def)
qed

lemma inode_request_path:
  "dentry \<noteq> 0 \<Longrightarrow>
   resource_path (inode_request env rt src dentry) = nul_pad 128 (dentry_path env mem dentry)"
  by (simp add: inode_request_def path_string)

end

section \<open>Properties\<close>

text \<open>The identity of a directory and the name of an entry, as they are in memory.\<close>

definition dir_key_of :: "kmem \<Rightarrow> addr \<Rightarrow> jg_inode_key" where
  "dir_key_of mem dir =
     (let sb = le_word (mem_field mem dir struct_inode [''i_sb'']);
          s_dev = le_word (mem_field mem sb struct_super_block [''s_dev'']) :: u32
      in \<lparr>dev = ucast s_dev, ino = le_word (mem_field mem dir struct_inode [''i_ino''])\<rparr>)"

definition entry_name :: "kmem \<Rightarrow> addr \<Rightarrow> byte list" where
  "entry_name mem dentry =
     (let p = le_word (mem_field mem dentry struct_dentry [''d_name'', ''name''])
      in if p = 0 then [] else name_str mem p 128)"

context probe_helpers
begin

lemma dir_key_exact: "dir_key env dir = dir_key_of mem dir"
  by (simp add: dir_key_def dir_key_of_def inode_sb_dev_def core_field_exact)

lemma dentry_name_ptr_exact:
  "dentry_name_ptr env d = le_word (mem_field mem d struct_dentry [''d_name'', ''name''])"
  by (simp add: dentry_name_ptr_def core_read_exact)

lemma entry_name_exact: "dentry_basename env mem d = entry_name mem d"
  by (simp add: dentry_basename_def entry_name_def dentry_name_ptr_exact jg_consts Let_def)

lemma inode_denied_exact:
  "dentry \<noteq> 0 \<Longrightarrow>
   inode_denied env m dir dentry \<longleftrightarrow> inode_policy m dir (dir_key_of mem dir) (entry_name mem dentry)"
  by (simp add: inode_denied_policy dir_key_exact entry_name_exact)

lemma inode_request_exact:
  "dentry \<noteq> 0 \<Longrightarrow>
   inode_request env rt src dentry =
     (base_request env rt src)\<lparr>resource_path := nul_pad 128 (dentry_path env mem dentry)\<rparr>"
  using inode_request_path [of dentry rt src] by (simp add: inode_request_def)

end

text \<open>C26: a governed task is refused to create a regular file exactly when audit-only mode is off and
  either the ring buffer is full, or the directory (by device and inode number), or the name
  in that directory, or the name anywhere is denied. A request with the path of the file is
  submitted exactly when the task is governed, the file is regular and there is room.\<close>

theorem inode_create_decision:
  assumes "probe_helpers env mem" "dentry \<noteq> 0"
  shows "(fst (jg_inode_create env m (dir, dentry, mode) rb) = - JG_EPERM \<longleftrightarrow>
      jg_in_governed_scope env (governed_scope m) \<and> \<not> jg_audit_only_enabled (runtime_controls m) \<and>
      JG_S_ISREG mode \<and>
      (ringbuf_reserve env request_size = None \<or>
       inode_policy m dir (dir_key_of mem dir) (entry_name mem dentry))) \<and>
    snd (jg_inode_create env m (dir, dentry, mode) rb) =
      (if jg_in_governed_scope env (governed_scope m) \<and> JG_S_ISREG mode \<and>
         ringbuf_reserve env request_size \<noteq> None
       then rb\<lparr>rb_records := rb_records rb @
              [(base_request env REQ_INODE_CREATE JG_SRC_INODE_CREATE)
                 \<lparr>resource_path := nul_pad 128 (dentry_path env mem dentry)\<rparr>]\<rparr>
       else rb)"
  using probe_helpers.inode_denied_exact [OF assms, of m dir]
    probe_helpers.inode_request_exact [OF assms, of REQ_INODE_CREATE JG_SRC_INODE_CREATE]
  by (auto simp: inode_create_eq JG_EPERM_def)

text \<open>The same for deleting a file, whatever its type.\<close>

theorem inode_unlink_decision:
  assumes "probe_helpers env mem" "dentry \<noteq> 0"
  shows "(fst (jg_inode_unlink env m (dir, dentry) rb) = - JG_EPERM \<longleftrightarrow>
      jg_in_governed_scope env (governed_scope m) \<and> \<not> jg_audit_only_enabled (runtime_controls m) \<and>
      (ringbuf_reserve env request_size = None \<or>
       inode_policy m dir (dir_key_of mem dir) (entry_name mem dentry))) \<and>
    snd (jg_inode_unlink env m (dir, dentry) rb) =
      (if jg_in_governed_scope env (governed_scope m) \<and> ringbuf_reserve env request_size \<noteq> None
       then rb\<lparr>rb_records := rb_records rb @
              [(base_request env REQ_INODE_UNLINK JG_SRC_INODE_UNLINK)
                 \<lparr>resource_path := nul_pad 128 (dentry_path env mem dentry)\<rparr>]\<rparr>
       else rb)"
  using probe_helpers.inode_denied_exact [OF assms, of m dir]
    probe_helpers.inode_request_exact [OF assms, of REQ_INODE_UNLINK JG_SRC_INODE_UNLINK]
  by (simp add: inode_unlink_eq JG_EPERM_def)

text \<open>A directory inode at 0x1000 with number 5 on the superblock at 0x3000, whose device is
  8:1, and a dentry at 0x4000 with the name \<^verbatim>\<open>ab\<close>.\<close>

definition dir_mem :: kmem where
  "dir_mem = mem_of [
     (0x1028, [0, 0x30, 0, 0, 0, 0, 0, 0]), (0x1040, [5, 0, 0, 0, 0, 0, 0, 0]),
     (0x3010, [1, 0, 0x80, 0]), (0x4028, [0, 0x50, 0, 0, 0, 0, 0, 0]), (0x5000, [0x61, 0x62, 0])]"

definition dir5 :: inode_maps where
  "dir5 = \<lparr>verdicts = Map.empty, runtime_controls = Map.empty, governed_scope = Map.empty,
     denied_basenames = Map.empty, denied_dir_inodes = [\<lparr>dev = 0x800001, ino = 5\<rparr> \<mapsto> 1],
     denied_files_in_dir = Map.empty\<rparr>"

lemma dir_mem_fields:
  "mem_field dir_mem 0x1000 struct_inode [''i_sb''] = [0, 0x30, 0, 0, 0, 0, 0, 0]"
  "mem_field dir_mem 0x3000 struct_super_block [''s_dev''] = [1, 0, 0x80, 0]"
  "mem_field dir_mem 0x1000 struct_inode [''i_ino''] = [5, 0, 0, 0, 0, 0, 0, 0]"
  unfolding mem_field_def field_addrs kernel_field_sizes by code_simp+

lemma dir5_key: "dir_key_of dir_mem 0x1000 = \<lparr>dev = 0x800001, ino = 5\<rparr>"
proof -
  have "le_word [0, 0x30, 0, 0, 0, 0, 0, 0] = (0x3000 :: addr)" by (simp add: le_word_def)
  moreover have "le_word [1, 0, 0x80, 0] = (0x800001 :: u32)" by (simp add: le_word_def)
  moreover have "le_word [5, 0, 0, 0, 0, 0, 0, 0] = (5 :: u64)" by (simp add: le_word_def)
  ultimately show ?thesis by (simp add: dir_key_of_def dir_mem_fields)
qed

lemma dir5_controls [simp]:
  "jg_in_governed_scope env (governed_scope dir5)"
  "\<not> jg_audit_only_enabled (runtime_controls dir5)"
  by (simp_all add: dir5_def jg_in_governed_scope_def jg_audit_only_enabled_def control_bit_def)

lemma dir5_denies: "inode_policy dir5 0x1000 \<lparr>dev = 0x800001, ino = 5\<rparr> nm"
  by (simp add: inode_policy_def dir5_def map_flag_def)

theorem inode_create_decision_witness:
  "fst (jg_inode_create (with_memory dir_mem quiet_env) dir5 (0x1000, 0x4000, 0x81A4)
      \<lparr>rb_records = [], rb_open = 0\<rparr>) = - JG_EPERM"
proof -
  have "JG_S_ISREG 0x81A4" by (simp add: JG_S_ISREG_def S_IFMT_def S_IFREG_def)
  with inode_create_decision [OF nofault.probe_helpers_axioms, of "0x4000" dir_mem quiet_env dir5
      "0x1000" "0x81A4"] show ?thesis
    by (simp add: dir5_key dir5_denies)
qed

theorem inode_unlink_decision_witness:
  "fst (jg_inode_unlink (with_memory dir_mem quiet_env) dir5 (0x1000, 0x4000)
      \<lparr>rb_records = [], rb_open = 0\<rparr>) = - JG_EPERM"
  using inode_unlink_decision [OF nofault.probe_helpers_axioms, of "0x4000" dir_mem quiet_env dir5
      "0x1000"]
  by (simp add: dir5_key dir5_denies)

text \<open>The copies of the lookups in the two objects agree: on equal maps, deleting an entry and
  creating a regular file under the same name get the same answer.\<close>

theorem create_unlink_agree:
  "JG_S_ISREG mode \<Longrightarrow>
   fst (jg_inode_create env m (dir, dentry, mode) rb) = fst (jg_inode_unlink env m (dir, dentry) rb')"
  by (simp add: inode_create_eq inode_unlink_eq)

theorem create_unlink_agree_witness:
  "fst (jg_inode_create quiet_env dir5 (0x1000, 0x4000, 0x81A4) \<lparr>rb_records = [], rb_open = 0\<rparr>) =
   fst (jg_inode_unlink quiet_env dir5 (0x1000, 0x4000) \<lparr>rb_records = [], rb_open = 0\<rparr>)"
  by (rule create_unlink_agree) (simp add: JG_S_ISREG_def S_IFMT_def S_IFREG_def)

end
