(* ===== verification/Socket_Connect.thy ===== *)
theory Socket_Connect
  imports Governed_Floor Jg_Paths
begin

text \<open>
  The hook \<^verbatim>\<open>bpf/lsm/jg_socket_connect.c\<close>: outgoing connections of governed tasks are checked
  by address family against a denylist and, under default-deny, against an allowlist. The policy
  of one family is the locale \<open>egress_policy\<close>, interpreted for IPv4, IPv6 and AF_UNIX; the
  decision is then given in terms of the bytes of the socket address in kernel memory.
\<close>

section \<open>Maps\<close>

record egress_maps = ctl_maps +
  ipv4_denylist :: "u32 \<rightharpoonup> u8"
  ipv4_allowlist :: "u32 \<rightharpoonup> u8"
  ipv6_denylist :: "byte list \<rightharpoonup> u8"
  ipv6_allowlist :: "byte list \<rightharpoonup> u8"

record connect_maps = egress_maps +
  unix_denylist :: "byte list \<rightharpoonup> u8"
  unix_allowlist :: "byte list \<rightharpoonup> u8"

definition connect_map_defs :: "(string \<times> bpf_map_def) list" where
  "connect_map_defs = [
     (''verdicts'', lru_hash_map 8192 u64_t struct_jg_verdict_payload),
     (''ipv4_denylist'', hash_map 1024 u32_t u8_t),
     (''ipv4_allowlist'', hash_map 1024 u32_t u8_t),
     (''ipv6_denylist'', hash_map 1024 struct_jg_ipv6_key u8_t),
     (''ipv6_allowlist'', hash_map 1024 struct_jg_ipv6_key u8_t),
     (''unix_denylist'', hash_map 256 struct_jg_path_key u8_t),
     (''unix_allowlist'', hash_map 256 struct_jg_path_key u8_t),
     (''runtime_controls'', array_map 1 u32_t u32_t),
     (''governed_scope'', array_map 1 u32_t u64_t)]"

section \<open>The views of the destination union\<close>

text \<open>Offsets of the members of \<^verbatim>\<open>req->dest\<close>: an IPv4 address is followed by its port at 4, an
  IPv6 address by its port at 16; a path has all 108 bytes.\<close>

definition v4_addr :: "jg_request \<Rightarrow> u32" where
  "v4_addr req = le_word (window 0 4 (dest req))"

definition v6_addr :: "jg_request \<Rightarrow> byte list" where
  "v6_addr req = window 0 16 (dest req)"

text \<open>A read into a part of the union, \<^verbatim>\<open>bpf_core_read(&req->dest.f, sizeof(req->dest.f), src)\<close>.\<close>

definition read_dest ::
    "bpf_env \<Rightarrow> addr \<Rightarrow> ctype \<Rightarrow> string list \<Rightarrow> nat \<Rightarrow> nat \<Rightarrow> jg_request \<Rightarrow> jg_request" where
  "read_dest env base t path off n req =
     req\<lparr>dest := put off (core_read env base t path (window off n (dest req))) (dest req)\<rparr>"

section \<open>The hook\<close>

text \<open>The cases of the \<^verbatim>\<open>switch\<close>: each fills in the destination and sets \<^verbatim>\<open>denied\<close>.\<close>

definition connect_v4_denied :: "'x connect_maps_scheme \<Rightarrow> bool \<Rightarrow> u32 \<Rightarrow> bool" where
  "connect_v4_denied m default_deny a =
     (if map_flag (ipv4_denylist m) a then True
      else if default_deny \<and> \<not> jg_ipv4_is_loopback a
      then (if \<not> map_flag (ipv4_allowlist m) a then True else False)
      else False)"

definition connect_v6_denied :: "'x connect_maps_scheme \<Rightarrow> bool \<Rightarrow> byte list \<Rightarrow> bool" where
  "connect_v6_denied m default_deny a =
     (if map_flag (ipv6_denylist m) a then True
      else if default_deny \<and> \<not> jg_ipv6_is_loopback a
      then (if \<not> map_flag (ipv6_allowlist m) a then True else False)
      else False)"

definition connect_unix_denied :: "'x connect_maps_scheme \<Rightarrow> bool \<Rightarrow> byte list \<Rightarrow> bool" where
  "connect_unix_denied m default_deny key =
     (if map_flag (unix_denylist m) key then True
      else if default_deny
      then (if \<not> map_flag (unix_allowlist m) key then True else False)
      else False)"

definition connect_inet ::
    "bpf_env \<Rightarrow> 'x connect_maps_scheme \<Rightarrow> addr \<Rightarrow> jg_request \<Rightarrow> jg_request \<times> bool" where
  "connect_inet env m sa req =
     (let req = read_dest env sa struct_sockaddr_in [''sin_addr'', ''s_addr''] 0 4 req;
          req = read_dest env sa struct_sockaddr_in [''sin_port''] 4 2 req
      in (req, connect_v4_denied m (jg_connect_default_deny_enabled (runtime_controls m)) (v4_addr req)))"

definition connect_inet6 ::
    "bpf_env \<Rightarrow> 'x connect_maps_scheme \<Rightarrow> addr \<Rightarrow> jg_request \<Rightarrow> jg_request \<times> bool" where
  "connect_inet6 env m sa req =
     (let req = read_dest env sa struct_sockaddr_in6 [''sin6_addr''] 0 16 req;
          req = read_dest env sa struct_sockaddr_in6 [''sin6_port''] 16 2 req
      in (req, connect_v6_denied m (jg_connect_default_deny_enabled (runtime_controls m)) (v6_addr req)))"

text \<open>The key is copied from \<^verbatim>\<open>req->dest.path\<close> by a loop of up to 128 steps, which may look beyond
  the 108 bytes of the union at the payload preview behind it.\<close>

definition connect_unix ::
    "bpf_env \<Rightarrow> 'x connect_maps_scheme \<Rightarrow> addr \<Rightarrow> jg_request \<Rightarrow> jg_request \<times> bool" where
  "connect_unix env m sa req =
     (let req = req\<lparr>dest := put 0 (fst (probe_read_kernel_str env
                    (field_addr sa struct_sockaddr_un [''sun_path'']) (dest req))) (dest req)\<rparr>;
          unix_key = jg_copy_path_key (dest req @ payload_preview req)
      in (req, connect_unix_denied m (jg_unix_default_deny_enabled (runtime_controls m)) unix_key))"

definition jg_socket_connect ::
    "bpf_env \<Rightarrow> 'x connect_maps_scheme \<Rightarrow> addr \<times> addr \<times> int \<Rightarrow> jg_request ringbuf \<Rightarrow>
     int \<times> jg_request ringbuf" where
  "jg_socket_connect env m a rb = (case a of (sock, address, addrlen) \<Rightarrow>
     if \<not> jg_in_governed_scope env (governed_scope m) then (0, rb)
     else
       let audit_only = jg_audit_only_enabled (runtime_controls m);
           sock_type = (le_word (core_read env sock struct_socket [''type''] (replicate 2 0)) :: u16);
           fam = (le_word (core_read env address struct_sockaddr [''sa_family''] (replicate 2 0)) :: u16)
       in if sock_type \<noteq> SOCK_STREAM \<and> sock_type \<noteq> SOCK_DGRAM then (0, rb)
          else case ringbuf_reserve env request_size of
            None \<Rightarrow> (let deny = \<not> audit_only in if deny then (- JG_EPERM, rb) else (0, rb))
          | Some _ \<Rightarrow>
              let rb = rb_reserve rb;
                  req = (base_request env REQ_CONNECT JG_SRC_SOCKET_CONNECT)\<lparr>family := fam\<rparr>;
                  res = (if fam = AF_INET then Some (connect_inet env m address req)
                         else if fam = AF_INET6 then Some (connect_inet6 env m address req)
                         else if fam = AF_UNIX then Some (connect_unix env m address req)
                         else None)
              in case res of
                   None \<Rightarrow> (0, rb_discard rb)
                 | Some (req, denied) \<Rightarrow>
                     let rb = rb_submit req rb;
                         deny = (\<not> audit_only \<and> denied)
                     in if deny then (- JG_EPERM, rb) else (0, rb))"

section \<open>The policy of one address family\<close>

locale egress_policy =
  fixes denied :: "'m \<Rightarrow> bool \<Rightarrow> 'k \<Rightarrow> bool"
    and denylist allowlist :: "'m \<Rightarrow> 'k \<rightharpoonup> u8"
    and exempt :: "'k \<Rightarrow> bool"
  assumes denied_iff: "denied m dd k \<longleftrightarrow>
    map_flag (denylist m) k \<or> dd \<and> \<not> exempt k \<and> \<not> map_flag (allowlist m) k"
begin

lemma denylist_wins: "map_flag (denylist m) k \<Longrightarrow> denied m dd k"
  by (simp add: denied_iff)

lemma default_deny_tightens: "denied m False k \<Longrightarrow> denied m True k"
  by (simp add: denied_iff)

lemma allowlist_ignored_by_default: "denied m False k \<longleftrightarrow> map_flag (denylist m) k"
  by (simp add: denied_iff)

lemma permitted_under_default_deny:
  "\<not> denied m True k \<longleftrightarrow> \<not> map_flag (denylist m) k \<and> (exempt k \<or> map_flag (allowlist m) k)"
  by (auto simp: denied_iff)

text \<open>Updating the lists moves the decision in one direction only.\<close>

lemma denied_mono:
  "\<forall>k. map_flag (denylist m) k \<longrightarrow> map_flag (denylist m') k \<Longrightarrow>
   \<forall>k. map_flag (allowlist m') k \<longrightarrow> map_flag (allowlist m) k \<Longrightarrow>
   denied m dd k \<Longrightarrow> denied m' dd k"
  by (auto simp: denied_iff)

end

interpretation connect_v4: egress_policy
  connect_v4_denied ipv4_denylist ipv4_allowlist jg_ipv4_is_loopback
  by unfold_locales (auto simp: connect_v4_denied_def)

interpretation connect_v6: egress_policy
  connect_v6_denied ipv6_denylist ipv6_allowlist jg_ipv6_is_loopback
  by unfold_locales (auto simp: connect_v6_denied_def)

interpretation connect_unix: egress_policy
  connect_unix_denied unix_denylist unix_allowlist "\<lambda>_. False"
  by unfold_locales (auto simp: connect_unix_denied_def)

section \<open>Normal form and contract\<close>

definition socket_type_of :: "bpf_env \<Rightarrow> addr \<Rightarrow> u16" where
  "socket_type_of env sock = le_word (core_read env sock struct_socket [''type''] (replicate 2 0))"

definition address_family :: "bpf_env \<Rightarrow> addr \<Rightarrow> u16" where
  "address_family env address =
     le_word (core_read env address struct_sockaddr [''sa_family''] (replicate 2 0))"

definition connect_case ::
    "bpf_env \<Rightarrow> 'x connect_maps_scheme \<Rightarrow> addr \<Rightarrow> (jg_request \<times> bool) option" where
  "connect_case env m address =
     (let fam = address_family env address;
          req = (base_request env REQ_CONNECT JG_SRC_SOCKET_CONNECT)\<lparr>family := fam\<rparr>
      in if fam = 2 then Some (connect_inet env m address req)
         else if fam = 10 then Some (connect_inet6 env m address req)
         else if fam = 1 then Some (connect_unix env m address req)
         else None)"

lemma connect_eq:
  "jg_socket_connect env m (sock, address, addrlen) rb =
     (if \<not> jg_in_governed_scope env (governed_scope m) \<or> socket_type_of env sock \<notin> {1, 2} then (0, rb)
      else if ringbuf_reserve env 328 = None
      then (if jg_audit_only_enabled (runtime_controls m) then 0 else - 1, rb)
      else case connect_case env m address of
        None \<Rightarrow> (0, rb)
      | Some (req, denied) \<Rightarrow>
          (if jg_audit_only_enabled (runtime_controls m) \<or> \<not> denied then 0 else - 1,
           rb\<lparr>rb_records := rb_records rb @ [req]\<rparr>))"
  by (auto simp: jg_socket_connect_def connect_case_def socket_type_of_def address_family_def Let_def
      rb_submit_reserve rb_discard_reserve JG_EPERM_def SOCK_STREAM_def SOCK_DGRAM_def
      AF_INET_def AF_INET6_def AF_UNIX_def split: option.splits prod.splits if_splits)

lemma connect_case_verdicts [simp]:
  "connect_case env (m\<lparr>verdicts := v\<rparr>) address = connect_case env m address"
  by (simp add: connect_case_def connect_inet_def connect_inet6_def connect_unix_def
      connect_v4_denied_def connect_v6_denied_def connect_unix_denied_def Let_def)

interpretation socket_connect: lsm_hook jg_socket_connect
proof unfold_locales
  show "\<exists>rs. length rs \<le> 1 \<and>
      snd (jg_socket_connect env m a rb) = rb\<lparr>rb_records := rb_records rb @ rs\<rparr>"
    for env and m :: "'x connect_maps_scheme" and a rb
    by (cases a)
      (auto simp: connect_eq intro: exI [of _ "[]"] exI [of _ "[_]"] split: option.splits)
qed (auto simp: connect_eq JG_EPERM_def split: option.splits)

section \<open>The decision in terms of kernel memory\<close>

text \<open>The addresses of the three families as they are in memory.\<close>

abbreviation sin_addr_of :: "kmem \<Rightarrow> addr \<Rightarrow> byte list" where
  "sin_addr_of mem a \<equiv> mem_field mem a struct_sockaddr_in [''sin_addr'', ''s_addr'']"

abbreviation sin6_addr_of :: "kmem \<Rightarrow> addr \<Rightarrow> byte list" where
  "sin6_addr_of mem a \<equiv> mem_field mem a struct_sockaddr_in6 [''sin6_addr'']"

abbreviation sun_path_of :: "kmem \<Rightarrow> addr \<Rightarrow> byte list" where
  "sun_path_of mem a \<equiv> name_str mem (a + 2) 108"

abbreviation family_of :: "kmem \<Rightarrow> addr \<Rightarrow> u16" where
  "family_of mem a \<equiv> le_word (mem_field mem a struct_sockaddr [''sa_family''])"

abbreviation sock_type_of :: "kmem \<Rightarrow> addr \<Rightarrow> u16" where
  "sock_type_of mem s \<equiv> le_word (mem_field mem s struct_socket [''type''])"

definition connect_policy :: "'x connect_maps_scheme \<Rightarrow> kmem \<Rightarrow> addr \<Rightarrow> bool" where
  "connect_policy m mem a =
     (let dd = jg_connect_default_deny_enabled (runtime_controls m)
      in if family_of mem a = 2 then connect_v4_denied m dd (le_word (sin_addr_of mem a))
         else if family_of mem a = 10 then connect_v6_denied m dd (sin6_addr_of mem a)
         else if family_of mem a = 1
         then connect_unix_denied m (jg_unix_default_deny_enabled (runtime_controls m))
                (nul_pad 128 (sun_path_of mem a))
         else False)"

text \<open>What the three cases write into the destination union.\<close>

definition dest_of :: "kmem \<Rightarrow> addr \<Rightarrow> byte list" where
  "dest_of mem a =
     (if family_of mem a = 2
      then sin_addr_of mem a @ mem_field mem a struct_sockaddr_in [''sin_port''] @ replicate 102 0
      else if family_of mem a = 10
      then sin6_addr_of mem a @ mem_field mem a struct_sockaddr_in6 [''sin6_port''] @ replicate 90 0
      else nul_pad 108 (sun_path_of mem a))"

lemma put_put_zeros:
  assumes "length xs = i" "length ys = j" "i + j \<le> n"
  shows "put i ys (put 0 xs (replicate n 0)) = xs @ ys @ replicate (n - i - j) 0"
proof -
  have "put 0 xs (replicate n 0) = xs @ replicate (n - i) 0"
    using assms put_in_bounds [of 0 xs "replicate n 0"] by simp
  moreover have "put i ys (xs @ replicate (n - i) 0) = xs @ ys @ replicate (n - i - j) 0"
    using assms put_in_bounds [of i ys "xs @ replicate (n - i) 0"] by simp
  ultimately show ?thesis by simp
qed

lemma window_prefix: "length xs = n \<Longrightarrow> window 0 n (xs @ ys) = xs"
  by (simp add: window_def)

lemma base_request_dest [simp]: "dest (base_request env rt src) = replicate 108 0"
  and base_request_preview [simp]: "payload_preview (base_request env rt src) = replicate 64 0"
  by (simp_all add: base_request_def zeroed_request_def jg_consts)

context probe_helpers
begin

lemma read_dest_exact:
  "off + field_size t path \<le> length (dest req) \<Longrightarrow> n = field_size t path \<Longrightarrow>
   read_dest env base t path off n req =
     req\<lparr>dest := put off (mem_field mem base t path) (dest req)\<rparr>"
  by (simp add: read_dest_def core_read_exact length_window)

lemma socket_type_exact: "socket_type_of env sock = sock_type_of mem sock"
  by (simp add: socket_type_of_def core_read_exact)

lemma address_family_exact: "address_family env address = family_of mem address"
  by (simp add: address_family_def core_read_exact)

lemma inet_dest:
  assumes "dest req = replicate 108 0"
  shows "read_dest env sa struct_sockaddr_in [''sin_port''] 4 2
      (read_dest env sa struct_sockaddr_in [''sin_addr'', ''s_addr''] 0 4 req) =
    req\<lparr>dest := sin_addr_of mem sa @ mem_field mem sa struct_sockaddr_in [''sin_port''] @ replicate 102 0\<rparr>"
  using assms by (simp add: read_dest_exact put_put_zeros)

lemma inet6_dest:
  assumes "dest req = replicate 108 0"
  shows "read_dest env sa struct_sockaddr_in6 [''sin6_port''] 16 2
      (read_dest env sa struct_sockaddr_in6 [''sin6_addr''] 0 16 req) =
    req\<lparr>dest := sin6_addr_of mem sa @ mem_field mem sa struct_sockaddr_in6 [''sin6_port''] @ replicate 90 0\<rparr>"
  using assms by (simp add: read_dest_exact put_put_zeros)

lemma connect_inet_exact:
  assumes "dest req = replicate 108 0"
  shows "connect_inet env m sa req =
    (req\<lparr>dest := sin_addr_of mem sa @ mem_field mem sa struct_sockaddr_in [''sin_port''] @ replicate 102 0\<rparr>,
     connect_v4_denied m (jg_connect_default_deny_enabled (runtime_controls m))
       (le_word (sin_addr_of mem sa)))"
  using assms by (simp add: connect_inet_def inet_dest v4_addr_def window_prefix Let_def)

lemma connect_inet6_exact:
  assumes "dest req = replicate 108 0"
  shows "connect_inet6 env m sa req =
    (req\<lparr>dest := sin6_addr_of mem sa @ mem_field mem sa struct_sockaddr_in6 [''sin6_port''] @ replicate 90 0\<rparr>,
     connect_v6_denied m (jg_connect_default_deny_enabled (runtime_controls m)) (sin6_addr_of mem sa))"
  using assms by (simp add: connect_inet6_def inet6_dest v6_addr_def window_prefix Let_def)

lemma connect_unix_exact:
  assumes "dest req = replicate 108 0" "payload_preview req = replicate 64 0"
  shows "connect_unix env m sa req =
    (req\<lparr>dest := nul_pad 108 (sun_path_of mem sa)\<rparr>,
     connect_unix_denied m (jg_unix_default_deny_enabled (runtime_controls m))
       (nul_pad 128 (sun_path_of mem sa)))"
proof -
  have len: "length (sun_path_of mem sa) < 108" by (simp add: length_name_str)
  have "put 0 (nul_pad 108 (sun_path_of mem sa)) (replicate 108 0) = nul_pad 108 (sun_path_of mem sa)"
    using len by (simp add: put_def length_nul_pad)
  moreover have "path_str (nul_pad 108 (sun_path_of mem sa) @ replicate 64 0) = sun_path_of mem sa"
    using len by (simp add: path_str_nul_pad)
  moreover have "128 \<le> length (nul_pad 108 (sun_path_of mem sa) @ replicate 64 (0::byte))"
    using len by (simp add: length_nul_pad)
  ultimately show ?thesis
    using assms by (simp add: connect_unix_def read_name field_addrs jg_copy_path_key_eq Let_def)
qed

lemma connect_case_exact:
  "connect_case env m a =
     (if family_of mem a \<in> {1, 2, 10}
      then Some ((base_request env REQ_CONNECT JG_SRC_SOCKET_CONNECT)
             \<lparr>family := family_of mem a, dest := dest_of mem a\<rparr>, connect_policy m mem a)
      else None)"
  by (simp add: connect_case_def address_family_exact connect_inet_exact connect_inet6_exact
      connect_unix_exact dest_of_def connect_policy_def Let_def)

end

section \<open>Properties\<close>

text \<open>C4: a connect is refused exactly when the task is governed, audit-only mode is off, the socket is a
  stream or datagram socket, and either the ring buffer is full or the policy of the address
  family denies the address. A request with the destination is submitted exactly when a
  governed task connects such a socket to an IPv4, IPv6 or UNIX address and there is room.\<close>

theorem connect_decision:
  assumes "probe_helpers env mem"
  shows "(fst (jg_socket_connect env m (sock, address, addrlen) rb) = - JG_EPERM \<longleftrightarrow>
      jg_in_governed_scope env (governed_scope m) \<and> \<not> jg_audit_only_enabled (runtime_controls m) \<and>
      sock_type_of mem sock \<in> {1, 2} \<and>
      (ringbuf_reserve env request_size = None \<or> connect_policy m mem address)) \<and>
    snd (jg_socket_connect env m (sock, address, addrlen) rb) =
      (if jg_in_governed_scope env (governed_scope m) \<and> sock_type_of mem sock \<in> {1, 2} \<and>
         family_of mem address \<in> {1, 2, 10} \<and> ringbuf_reserve env request_size \<noteq> None
       then rb\<lparr>rb_records := rb_records rb @
              [(base_request env REQ_CONNECT JG_SRC_SOCKET_CONNECT)
                 \<lparr>family := family_of mem address, dest := dest_of mem address\<rparr>]\<rparr>
       else rb)"
  using probe_helpers.connect_case_exact [OF assms, of m address]
    probe_helpers.socket_type_exact [OF assms, of sock]
  by (auto simp: connect_eq connect_policy_def JG_EPERM_def Let_def)

text \<open>A stream socket at 0x1000 and the IPv4 address 10.0.0.1:80 at 0x2000.\<close>

definition inet_mem :: kmem where
  "inet_mem = mem_of [(0x1004, [1, 0]), (0x2000, [2, 0, 0, 80, 10, 0, 0, 1])]"

definition open_egress :: connect_maps where
  "open_egress = \<lparr>verdicts = Map.empty, runtime_controls = Map.empty, governed_scope = Map.empty,
     ipv4_denylist = Map.empty, ipv4_allowlist = Map.empty, ipv6_denylist = Map.empty,
     ipv6_allowlist = Map.empty, unix_denylist = Map.empty, unix_allowlist = Map.empty\<rparr>"

lemma open_egress_controls [simp]:
  "governed_scope open_egress = Map.empty" "runtime_controls open_egress = Map.empty"
  by (simp_all add: open_egress_def)

lemma empty_scope [simp]: "jg_in_governed_scope env Map.empty"
  by (simp add: jg_in_governed_scope_def)

lemma empty_controls [simp]:
  "\<not> jg_audit_only_enabled Map.empty" "\<not> jg_connect_default_deny_enabled Map.empty"
  "\<not> jg_unix_default_deny_enabled Map.empty"
  by (simp_all add: jg_audit_only_enabled_def jg_connect_default_deny_enabled_def
      jg_unix_default_deny_enabled_def control_bit_def)

lemma inet_mem_fields:
  "mem_field inet_mem 0x1000 struct_socket [''type''] = [1, 0]"
  "mem_field inet_mem 0x2000 struct_sockaddr [''sa_family''] = [2, 0]"
  "sin_addr_of inet_mem 0x2000 = [10, 0, 0, 1]"
  unfolding mem_field_def field_addrs kernel_field_sizes by code_simp+

lemma inet_words:
  "le_word [1, 0] = (1 :: u16)" "le_word [2, 0] = (2 :: u16)"
  "le_word [10, 0, 0, 1] = (0x100000A :: u32)"
  by (simp_all add: le_word_def)

theorem connect_decision_witness:
  "fst (jg_socket_connect (with_memory inet_mem quiet_env)
      (open_egress\<lparr>ipv4_denylist := [0x100000A \<mapsto> 1]\<rparr>) (0x1000, 0x2000, 16)
      \<lparr>rb_records = [], rb_open = 0\<rparr>) = - JG_EPERM"
  using connect_decision [OF nofault.probe_helpers_axioms, of inet_mem quiet_env
      "open_egress\<lparr>ipv4_denylist := [0x100000A \<mapsto> 1]\<rparr>" "0x1000" "0x2000" 16
      "\<lparr>rb_records = [], rb_open = 0\<rparr>"]
  by (simp add: inet_mem_fields inet_words connect_policy_def connect_v4_denied_def map_flag_def)

lemma unat_le_word4: "length bs = 4 \<Longrightarrow> unat (le_word bs :: u32) = le_nat bs"
  using le_nat_bound [of bs] by (simp add: le_word_def unat_of_nat)

lemma loopback_octets: "length bs = 4 \<Longrightarrow> jg_ipv4_is_loopback (le_word bs) \<longleftrightarrow> hd bs = 127"
proof -
  assume len: "length bs = 4"
  then obtain b r where bs: "bs = b # r" by (cases bs) auto
  from len have "unat (le_word bs :: u32) = le_nat bs" by (rule unat_le_word4)
  then have "unat (le_word bs :: u32) mod 256 = unat b"
    using bs unsigned_less [of b, where 'a = nat] by simp
  then show ?thesis by (simp add: ipv4_is_loopback_iff bs word_unat_eq_iff)
qed

text \<open>Under egress default-deny an IPv4 connect of a governed task passes exactly when the address is
  not denylisted and is either a loopback address (first octet 127) or allowlisted.\<close>

theorem inet_default_deny:
  assumes "probe_helpers env mem" "jg_in_governed_scope env (governed_scope m)"
    and "\<not> jg_audit_only_enabled (runtime_controls m)" "ringbuf_reserve env request_size \<noteq> None"
    and "jg_connect_default_deny_enabled (runtime_controls m)"
    and "sock_type_of mem sock \<in> {1, 2}" "family_of mem address = 2"
  shows "fst (jg_socket_connect env m (sock, address, addrlen) rb) = 0 \<longleftrightarrow>
    \<not> map_flag (ipv4_denylist m) (le_word (sin_addr_of mem address)) \<and>
    (hd (sin_addr_of mem address) = 127 \<or>
     map_flag (ipv4_allowlist m) (le_word (sin_addr_of mem address)))"
  using probe_helpers.connect_case_exact [OF assms(1), of m address]
    probe_helpers.socket_type_exact [OF assms(1), of sock] assms(2-)
    loopback_octets [of "sin_addr_of mem address"]
    connect_v4.permitted_under_default_deny [of m "le_word (sin_addr_of mem address)"]
  by (auto simp: connect_eq connect_policy_def Let_def)

theorem inet_default_deny_witness:
  "fst (jg_socket_connect (with_memory inet_mem quiet_env)
      (open_egress\<lparr>runtime_controls := [0 \<mapsto> 2], ipv4_allowlist := [0x100000A \<mapsto> 1]\<rparr>) (0x1000, 0x2000, 16)
      \<lparr>rb_records = [], rb_open = 0\<rparr>) = 0"
proof -
  let ?m = "open_egress\<lparr>runtime_controls := [0 \<mapsto> 2], ipv4_allowlist := [0x100000A \<mapsto> 1]\<rparr>"
  have "\<not> jg_audit_only_enabled (runtime_controls ?m)" "jg_connect_default_deny_enabled (runtime_controls ?m)"
    by (simp_all add: jg_audit_only_enabled_def jg_connect_default_deny_enabled_def control_bit_def
        JG_CONTROL_AUDIT_ONLY_def JG_CONTROL_CONNECT_DEFAULT_DENY_def)
  then show ?thesis
    by (subst inet_default_deny [OF nofault.probe_helpers_axioms])
      (simp_all add: inet_mem_fields inet_words map_flag_def open_egress_def)
qed

text \<open>The type of the socket is read at the width of the field. For a stream socket with a non-zero
  byte in the padding behind the type, the hook still sees a stream socket, while a read of four
  bytes would see another number and let the connect pass.\<close>

theorem socket_type_width:
  assumes "probe_helpers env mem" "bytes_at mem (sock + 4) 4 = Some [1, 0, p, q]" "p \<noteq> 0"
  shows "socket_type_of env sock = SOCK_STREAM \<and>
    le_word (core_read env sock struct_socket [''type''] (replicate 4 0)) \<noteq> (1 :: u32)"
proof
  have "bytes_at mem (sock + 4) 2 = Some [1, 0]"
    using assms(2) by (auto simp: eval_nat_numeral add.assoc split: option.splits)
  then have "mem_field mem sock struct_socket [''type''] = [1, 0]"
    by (simp add: mem_field_def field_addrs)
  then show "socket_type_of env sock = SOCK_STREAM"
    using probe_helpers.socket_type_exact [OF assms(1), of sock] by (simp add: inet_words SOCK_STREAM_def)
  have "core_read env sock struct_socket [''type''] (replicate 4 0) = [1, 0, p, q]"
    using probe_helpers.read_ok [OF assms(1), of "sock + 4" "replicate 4 0"] assms(2)
    by (simp add: core_read_def field_addrs)
  moreover have "le_word [1, 0, p, q] \<noteq> (1 :: u32)"
  proof
    assume "le_word [1, 0, p, q] = (1 :: u32)"
    moreover have "unat (le_word [1, 0, p, q] :: u32) = le_nat [1, 0, p, q]"
      by (rule unat_le_word4) simp
    ultimately have "le_nat [1, 0, p, q] = 1" by simp
    then show False using assms(3) by (simp add: unat_eq_zero)
  qed
  ultimately show "le_word (core_read env sock struct_socket [''type''] (replicate 4 0)) \<noteq> (1 :: u32)"
    by simp
qed

theorem socket_type_width_witness:
  "socket_type_of (with_memory (mem_of [(0x1004, [1, 0, 7, 7])]) quiet_env) 0x1000 = SOCK_STREAM"
proof -
  have "bytes_at (mem_of [(0x1004, [1, 0, 7, 7])]) (0x1000 + 4) 4 = Some [1, 0, 7, 7]" by code_simp
  from socket_type_width [OF nofault.probe_helpers_axioms this] show ?thesis by simp
qed

text \<open>The path of a UNIX address is read up to a NUL byte, whatever length the caller passed. When
  the caller's path \<open>p\<close> is not terminated and the byte behind it is not NUL, the lookup misses a
  denylist entry for \<open>p\<close> and the connect passes.\<close>

theorem unix_path_beyond_addrlen:
  assumes "probe_helpers env mem" "ringbuf_reserve env request_size \<noteq> None"
    and "family_of mem address = 1" "\<not> jg_unix_default_deny_enabled (runtime_controls m)"
    and "str_at mem (address + 2) 108 = Some (p @ g)" "g \<noteq> []" "length (p @ g) < 108"
    and "unix_denylist m = [nul_pad 128 p \<mapsto> 1]"
  shows "fst (jg_socket_connect env m (sock, address, 2 + int (length p)) rb) = 0"
proof -
  have "sun_path_of mem address = p @ g"
    using assms(5,7) by (simp add: name_str_def)
  moreover have "nul_pad 128 (p @ g) \<noteq> nul_pad 128 p"
  proof -
    have "nul_free (p @ g)" using assms(5) by (rule str_at_nul_free)
    with assms(6,7) show ?thesis
      using nul_pad_inj [of "p @ g" p 128] by auto
  qed
  ultimately have "\<not> connect_policy m mem address"
    using assms(3,4,8) by (simp add: connect_policy_def connect_unix_denied_def map_flag_def Let_def)
  then show ?thesis
    using probe_helpers.connect_case_exact [OF assms(1), of m address] assms(2)
    by (auto simp: connect_eq)
qed

definition sun_mem :: kmem where
  "sun_mem = mem_of [(0x2000, [1, 0, 0x2F, 0x78, 0x21, 0])]"

theorem unix_path_beyond_addrlen_witness:
  "fst (jg_socket_connect (with_memory sun_mem quiet_env)
      (open_egress\<lparr>unix_denylist := [nul_pad 128 [0x2F, 0x78] \<mapsto> 1]\<rparr>) (0x1000, 0x2000, 2 + int 2)
      \<lparr>rb_records = [], rb_open = 0\<rparr>) = 0"
proof -
  have fam: "mem_field sun_mem 0x2000 struct_sockaddr [''sa_family''] = [1, 0]"
    unfolding mem_field_def field_addrs kernel_field_sizes by code_simp
  have str: "str_at sun_mem (0x2000 + 2) 108 = Some ([0x2F, 0x78] @ [0x21])" by code_simp
  have "length [0x2F :: byte, 0x78] = 2" by simp
  then show ?thesis
    using unix_path_beyond_addrlen [OF nofault.probe_helpers_axioms _ _ _ str,
        of quiet_env "open_egress\<lparr>unix_denylist := [nul_pad 128 [0x2F, 0x78] \<mapsto> 1]\<rparr>" "0x1000"
        "\<lparr>rb_records = [], rb_open = 0\<rparr>"] fam
    by (simp add: inet_words)
qed

end
