(* ===== verification/Socket_Sendmsg.thy ===== *)
theory Socket_Sendmsg
  imports Socket_Connect
begin

text \<open>
  The hook \<^verbatim>\<open>bpf/lsm/jg_socket_sendmsg.c\<close>: datagrams that carry a destination address are
  checked like connections, over the IPv4 and IPv6 lists of this object. Connected sends, stream
  sockets and other address families pass.
\<close>

section \<open>The hook\<close>

definition sendmsg_map_defs :: "(string \<times> bpf_map_def) list" where
  "sendmsg_map_defs = [
     (''verdicts'', lru_hash_map 8192 u64_t struct_jg_verdict_payload),
     (''ipv4_denylist'', hash_map 1024 u32_t u8_t),
     (''ipv6_denylist'', hash_map 1024 struct_jg_ipv6_key u8_t),
     (''ipv4_allowlist'', hash_map 1024 u32_t u8_t),
     (''ipv6_allowlist'', hash_map 1024 struct_jg_ipv6_key u8_t),
     (''runtime_controls'', array_map 1 u32_t u32_t),
     (''governed_scope'', array_map 1 u32_t u64_t)]"

definition sendmsg_v4_denied :: "'x egress_maps_scheme \<Rightarrow> bool \<Rightarrow> u32 \<Rightarrow> bool" where
  "sendmsg_v4_denied m default_deny a =
     (if map_flag (ipv4_denylist m) a then True
      else if default_deny \<and> \<not> jg_ipv4_is_loopback a
      then (if \<not> map_flag (ipv4_allowlist m) a then True else False)
      else False)"

definition sendmsg_v6_denied :: "'x egress_maps_scheme \<Rightarrow> bool \<Rightarrow> byte list \<Rightarrow> bool" where
  "sendmsg_v6_denied m default_deny a =
     (if map_flag (ipv6_denylist m) a then True
      else if default_deny \<and> \<not> jg_ipv6_is_loopback a
      then (if \<not> map_flag (ipv6_allowlist m) a then True else False)
      else False)"

definition sendmsg_inet ::
    "bpf_env \<Rightarrow> 'x egress_maps_scheme \<Rightarrow> addr \<Rightarrow> jg_request \<Rightarrow> jg_request \<times> bool" where
  "sendmsg_inet env m sa req =
     (let req = read_dest env sa struct_sockaddr_in [''sin_addr'', ''s_addr''] 0 4 req;
          req = read_dest env sa struct_sockaddr_in [''sin_port''] 4 2 req
      in (req, sendmsg_v4_denied m (jg_connect_default_deny_enabled (runtime_controls m)) (v4_addr req)))"

definition sendmsg_inet6 ::
    "bpf_env \<Rightarrow> 'x egress_maps_scheme \<Rightarrow> addr \<Rightarrow> jg_request \<Rightarrow> jg_request \<times> bool" where
  "sendmsg_inet6 env m sa req =
     (let req = read_dest env sa struct_sockaddr_in6 [''sin6_addr''] 0 16 req;
          req = read_dest env sa struct_sockaddr_in6 [''sin6_port''] 16 2 req
      in (req, sendmsg_v6_denied m (jg_connect_default_deny_enabled (runtime_controls m)) (v6_addr req)))"

definition jg_socket_sendmsg ::
    "bpf_env \<Rightarrow> 'x egress_maps_scheme \<Rightarrow> addr \<times> addr \<times> int \<Rightarrow> jg_request ringbuf \<Rightarrow>
     int \<times> jg_request ringbuf" where
  "jg_socket_sendmsg env m a rb = (case a of (sock, msg, sz) \<Rightarrow>
     if \<not> jg_in_governed_scope env (governed_scope m) then (0, rb)
     else
       let audit_only = jg_audit_only_enabled (runtime_controls m);
           sock_type = (le_word (core_read env sock struct_socket [''type''] (replicate 2 0)) :: u16)
       in if sock_type \<noteq> SOCK_DGRAM then (0, rb)
          else
            let address = (le_word (core_read env msg struct_msghdr [''msg_name''] (replicate 8 0)) :: addr)
            in if address = 0 then (0, rb)
               else
                 let fam = (le_word (core_read env address struct_sockaddr [''sa_family'']
                              (replicate 2 0)) :: u16)
                 in case ringbuf_reserve env request_size of
                      None \<Rightarrow> (let deny = \<not> audit_only in if deny then (- JG_EPERM, rb) else (0, rb))
                    | Some _ \<Rightarrow>
                        let rb = rb_reserve rb;
                            req = (base_request env REQ_SENDMSG JG_SRC_SOCKET_SENDMSG)\<lparr>family := fam\<rparr>;
                            res = (if fam = AF_INET then Some (sendmsg_inet env m address req)
                                   else if fam = AF_INET6 then Some (sendmsg_inet6 env m address req)
                                   else None)
                        in case res of
                             None \<Rightarrow> (0, rb_discard rb)
                           | Some (req, denied) \<Rightarrow>
                               let rb = rb_submit req rb;
                                   deny = (\<not> audit_only \<and> denied)
                               in if deny then (- JG_EPERM, rb) else (0, rb))"

section \<open>Policy, normal form and contract\<close>

interpretation sendmsg_v4: egress_policy
  sendmsg_v4_denied ipv4_denylist ipv4_allowlist jg_ipv4_is_loopback
  by unfold_locales (auto simp: sendmsg_v4_denied_def)

interpretation sendmsg_v6: egress_policy
  sendmsg_v6_denied ipv6_denylist ipv6_allowlist jg_ipv6_is_loopback
  by unfold_locales (auto simp: sendmsg_v6_denied_def)

definition msg_address :: "bpf_env \<Rightarrow> addr \<Rightarrow> addr" where
  "msg_address env msg = le_word (core_read env msg struct_msghdr [''msg_name''] (replicate 8 0))"

definition sendmsg_case ::
    "bpf_env \<Rightarrow> 'x egress_maps_scheme \<Rightarrow> addr \<Rightarrow> (jg_request \<times> bool) option" where
  "sendmsg_case env m address =
     (let fam = address_family env address;
          req = (base_request env REQ_SENDMSG JG_SRC_SOCKET_SENDMSG)\<lparr>family := fam\<rparr>
      in if fam = 2 then Some (sendmsg_inet env m address req)
         else if fam = 10 then Some (sendmsg_inet6 env m address req)
         else None)"

lemma sendmsg_eq:
  "jg_socket_sendmsg env m (sock, msg, sz) rb =
     (if \<not> jg_in_governed_scope env (governed_scope m) \<or> socket_type_of env sock \<noteq> 2 \<or>
        msg_address env msg = 0 then (0, rb)
      else if ringbuf_reserve env 328 = None
      then (if jg_audit_only_enabled (runtime_controls m) then 0 else - 1, rb)
      else case sendmsg_case env m (msg_address env msg) of
        None \<Rightarrow> (0, rb)
      | Some (req, denied) \<Rightarrow>
          (if jg_audit_only_enabled (runtime_controls m) \<or> \<not> denied then 0 else - 1,
           rb\<lparr>rb_records := rb_records rb @ [req]\<rparr>))"
  by (auto simp: jg_socket_sendmsg_def sendmsg_case_def socket_type_of_def address_family_def
      msg_address_def Let_def rb_submit_reserve rb_discard_reserve JG_EPERM_def SOCK_DGRAM_def
      AF_INET_def AF_INET6_def split: option.splits prod.splits if_splits)

lemma sendmsg_case_verdicts [simp]:
  "sendmsg_case env (m\<lparr>verdicts := v\<rparr>) address = sendmsg_case env m address"
  by (simp add: sendmsg_case_def sendmsg_inet_def sendmsg_inet6_def sendmsg_v4_denied_def
      sendmsg_v6_denied_def Let_def)

interpretation socket_sendmsg: lsm_hook jg_socket_sendmsg
proof unfold_locales
  show "\<exists>rs. length rs \<le> 1 \<and>
      snd (jg_socket_sendmsg env m a rb) = rb\<lparr>rb_records := rb_records rb @ rs\<rparr>"
    for env and m :: "'x egress_maps_scheme" and a rb
    by (cases a)
      (auto simp: sendmsg_eq intro: exI [of _ "[]"] exI [of _ "[_]"] split: option.splits)
qed (auto simp: sendmsg_eq JG_EPERM_def split: option.splits if_splits)

section \<open>The decision in terms of kernel memory\<close>

abbreviation msg_name_of :: "kmem \<Rightarrow> addr \<Rightarrow> addr" where
  "msg_name_of mem msg \<equiv> le_word (mem_field mem msg struct_msghdr [''msg_name''])"

definition sendmsg_policy :: "'x egress_maps_scheme \<Rightarrow> kmem \<Rightarrow> addr \<Rightarrow> bool" where
  "sendmsg_policy m mem a =
     (let dd = jg_connect_default_deny_enabled (runtime_controls m)
      in if family_of mem a = 2 then sendmsg_v4_denied m dd (le_word (sin_addr_of mem a))
         else if family_of mem a = 10 then sendmsg_v6_denied m dd (sin6_addr_of mem a)
         else False)"

context probe_helpers
begin

lemma msg_address_exact: "msg_address env msg = msg_name_of mem msg"
  by (simp add: msg_address_def core_read_exact)

lemma sendmsg_inet_exact:
  assumes "dest req = replicate 108 0"
  shows "sendmsg_inet env m sa req =
    (req\<lparr>dest := sin_addr_of mem sa @ mem_field mem sa struct_sockaddr_in [''sin_port''] @ replicate 102 0\<rparr>,
     sendmsg_v4_denied m (jg_connect_default_deny_enabled (runtime_controls m))
       (le_word (sin_addr_of mem sa)))"
  using assms by (simp add: sendmsg_inet_def inet_dest v4_addr_def window_prefix Let_def)

lemma sendmsg_inet6_exact:
  assumes "dest req = replicate 108 0"
  shows "sendmsg_inet6 env m sa req =
    (req\<lparr>dest := sin6_addr_of mem sa @ mem_field mem sa struct_sockaddr_in6 [''sin6_port''] @ replicate 90 0\<rparr>,
     sendmsg_v6_denied m (jg_connect_default_deny_enabled (runtime_controls m)) (sin6_addr_of mem sa))"
  using assms by (simp add: sendmsg_inet6_def inet6_dest v6_addr_def window_prefix Let_def)

lemma sendmsg_case_exact:
  "sendmsg_case env m a =
     (if family_of mem a \<in> {2, 10}
      then Some ((base_request env REQ_SENDMSG JG_SRC_SOCKET_SENDMSG)
             \<lparr>family := family_of mem a, dest := dest_of mem a\<rparr>, sendmsg_policy m mem a)
      else None)"
  by (simp add: sendmsg_case_def address_family_exact sendmsg_inet_exact sendmsg_inet6_exact
      dest_of_def sendmsg_policy_def Let_def)

end

section \<open>Properties\<close>

text \<open>C40: a datagram is refused exactly when the task is governed, audit-only mode is off, the socket is
  a datagram socket, the message carries a destination address, and either the ring buffer is full
  or the IPv4 or IPv6 policy denies it. All other messages pass, and only the checked ones with an
  IPv4 or IPv6 destination submit a request.\<close>

theorem sendmsg_decision:
  assumes "probe_helpers env mem"
  shows "(fst (jg_socket_sendmsg env m (sock, msg, sz) rb) = - JG_EPERM \<longleftrightarrow>
      jg_in_governed_scope env (governed_scope m) \<and> \<not> jg_audit_only_enabled (runtime_controls m) \<and>
      sock_type_of mem sock = 2 \<and> msg_name_of mem msg \<noteq> 0 \<and>
      (ringbuf_reserve env request_size = None \<or> sendmsg_policy m mem (msg_name_of mem msg))) \<and>
    snd (jg_socket_sendmsg env m (sock, msg, sz) rb) =
      (if jg_in_governed_scope env (governed_scope m) \<and> sock_type_of mem sock = 2 \<and>
         msg_name_of mem msg \<noteq> 0 \<and> family_of mem (msg_name_of mem msg) \<in> {2, 10} \<and>
         ringbuf_reserve env request_size \<noteq> None
       then rb\<lparr>rb_records := rb_records rb @
              [(base_request env REQ_SENDMSG JG_SRC_SOCKET_SENDMSG)
                 \<lparr>family := family_of mem (msg_name_of mem msg), dest := dest_of mem (msg_name_of mem msg)\<rparr>]\<rparr>
       else rb)"
  using probe_helpers.sendmsg_case_exact [OF assms, of m "msg_name_of mem msg"]
    probe_helpers.socket_type_exact [OF assms, of sock] probe_helpers.msg_address_exact [OF assms, of msg]
  by (auto simp: sendmsg_eq sendmsg_policy_def JG_EPERM_def Let_def)

text \<open>A datagram socket at 0x1000, a message at 0x3000 and the IPv4 address 10.0.0.1:80 at 0x2000.\<close>

definition dgram_mem :: kmem where
  "dgram_mem = mem_of [(0x1004, [2, 0]), (0x3000, [0, 0x20, 0, 0, 0, 0, 0, 0]),
     (0x2000, [2, 0, 0, 80, 10, 0, 0, 1])]"

definition deny_10_0_0_1 :: egress_maps where
  "deny_10_0_0_1 = \<lparr>verdicts = Map.empty, runtime_controls = Map.empty, governed_scope = Map.empty,
     ipv4_denylist = [0x100000A \<mapsto> 1], ipv4_allowlist = Map.empty, ipv6_denylist = Map.empty,
     ipv6_allowlist = Map.empty\<rparr>"

lemma dgram_mem_fields:
  "mem_field dgram_mem 0x1000 struct_socket [''type''] = [2, 0]"
  "mem_field dgram_mem 0x3000 struct_msghdr [''msg_name''] = [0, 0x20, 0, 0, 0, 0, 0, 0]"
  "mem_field dgram_mem 0x2000 struct_sockaddr [''sa_family''] = [2, 0]"
  "sin_addr_of dgram_mem 0x2000 = [10, 0, 0, 1]"
  unfolding mem_field_def field_addrs kernel_field_sizes by code_simp+

theorem sendmsg_decision_witness:
  "fst (jg_socket_sendmsg (with_memory dgram_mem quiet_env) deny_10_0_0_1 (0x1000, 0x3000, 16)
      \<lparr>rb_records = [], rb_open = 0\<rparr>) = - JG_EPERM"
proof -
  have "le_word [0, 0x20, 0, 0, 0, 0, 0, 0] = (0x2000 :: addr)" by (simp add: le_word_def)
  then show ?thesis
    using sendmsg_decision [OF nofault.probe_helpers_axioms, of dgram_mem quiet_env
        deny_10_0_0_1 "0x1000" "0x3000" 16 "\<lparr>rb_records = [], rb_open = 0\<rparr>"]
    by (simp add: dgram_mem_fields inet_words sendmsg_policy_def sendmsg_v4_denied_def map_flag_def)
      (simp add: deny_10_0_0_1_def)
qed

text \<open>On the same lists and controls, connecting a datagram socket to an IPv4 or IPv6 address and
  sending a datagram to it are decided alike, so neither call is a way around the other.\<close>

theorem connect_sendmsg_agree:
  assumes "probe_helpers env mem" "family_of mem (msg_name_of mem msg) \<in> {2, 10}"
    and "sock_type_of mem sock = 2" "msg_name_of mem msg \<noteq> 0"
    and "egress_maps.truncate m = egress_maps.truncate m'"
  shows "fst (jg_socket_sendmsg env m (sock, msg, sz) rb) =
    fst (jg_socket_connect env (m' :: 'x connect_maps_scheme) (sock, msg_name_of mem msg, addrlen) rb')"
proof -
  have maps: "governed_scope m = governed_scope m'" "runtime_controls m = runtime_controls m'"
    "ipv4_denylist m = ipv4_denylist m'" "ipv4_allowlist m = ipv4_allowlist m'"
    "ipv6_denylist m = ipv6_denylist m'" "ipv6_allowlist m = ipv6_allowlist m'"
    using assms(5) by (simp_all add: egress_maps.truncate_def)
  have "sendmsg_policy m mem a = connect_policy m' mem a" if "family_of mem a \<in> {2, 10}" for a
    using that maps by (auto simp: sendmsg_policy_def connect_policy_def sendmsg_v4_denied_def
        connect_v4_denied_def sendmsg_v6_denied_def connect_v6_denied_def Let_def)
  with assms(2-4) maps show ?thesis
    using probe_helpers.sendmsg_case_exact [OF assms(1), of m "msg_name_of mem msg"]
      probe_helpers.connect_case_exact [OF assms(1), of m' "msg_name_of mem msg"]
      probe_helpers.socket_type_exact [OF assms(1), of sock]
      probe_helpers.msg_address_exact [OF assms(1), of msg]
    by (auto simp: sendmsg_eq connect_eq)
qed

theorem connect_sendmsg_agree_witness:
  "fst (jg_socket_sendmsg (with_memory dgram_mem quiet_env) deny_10_0_0_1 (0x1000, 0x3000, 16)
      \<lparr>rb_records = [], rb_open = 0\<rparr>) =
   fst (jg_socket_connect (with_memory dgram_mem quiet_env)
      (open_egress\<lparr>ipv4_denylist := [0x100000A \<mapsto> 1]\<rparr>) (0x1000, 0x2000, 16)
      \<lparr>rb_records = [], rb_open = 0\<rparr>)"
proof -
  have ptr: "le_word [0, 0x20, 0, 0, 0, 0, 0, 0] = (0x2000 :: addr)" by (simp add: le_word_def)
  then have name: "msg_name_of dgram_mem 0x3000 = 0x2000" by (simp add: dgram_mem_fields)
  have "fst (jg_socket_sendmsg (with_memory dgram_mem quiet_env) deny_10_0_0_1 (0x1000, 0x3000, 16)
      \<lparr>rb_records = [], rb_open = 0\<rparr>) =
    fst (jg_socket_connect (with_memory dgram_mem quiet_env)
      (open_egress\<lparr>ipv4_denylist := [0x100000A \<mapsto> 1]\<rparr>) (0x1000, msg_name_of dgram_mem 0x3000, 16)
      \<lparr>rb_records = [], rb_open = 0\<rparr>)"
    by (rule connect_sendmsg_agree [OF nofault.probe_helpers_axioms])
      (simp_all add: ptr dgram_mem_fields inet_words deny_10_0_0_1_def open_egress_def
        egress_maps.truncate_def)
  then show ?thesis by (simp add: name)
qed

end
