(* ===== verification/Rust_Net.thy ===== *)
theory Rust_Net
  imports Rust_Str
begin

text \<open>
  The addresses of \<^verbatim>\<open>std::net\<close> as the daemon uses them: parsing and printing of IPv4 and IPv6
  addresses. A parser takes the remaining input and gives the value with what is left, or
  \<^const>\<open>None\<close> and leaves the input alone, as the library's \<^verbatim>\<open>read_atomically\<close> does. An IPv6 address is
  its eight groups. The theorems of this theory say that a printed address parses to itself.
\<close>

type_synonym 'a parser = "byte list \<Rightarrow> ('a \<times> byte list) option"

section \<open>Numbers\<close>

definition hex_digit :: "byte \<Rightarrow> nat option" where
  "hex_digit b =
     (if 0x30 \<le> b \<and> b \<le> 0x39 then Some (unat b - 48)
      else if 0x41 \<le> b \<and> b \<le> 0x46 then Some (unat b - 55)
      else if 0x61 \<le> b \<and> b \<le> 0x66 then Some (unat b - 87)
      else None)"

definition hexadecimal :: "byte list \<Rightarrow> nat" where
  "hexadecimal s = foldl (\<lambda>n b. 16 * n + the (hex_digit b)) 0 s"

text \<open>\<^verbatim>\<open>read_number\<close> for an octet (at most three digits, no leading zero) and for a group (at most
  four hexadecimal digits). All digits are read before they are counted.\<close>

definition read_octet :: "byte parser" where
  "read_octet s =
     (let ds = takeWhile digit s
      in if ds = [] \<or> 3 < length ds \<or> (hd ds = 0x30 \<and> 1 < length ds) \<or> 255 < decimal ds then None
         else Some (of_nat (decimal ds), drop (length ds) s))"

definition read_group :: "nat parser" where
  "read_group s =
     (let ds = takeWhile (\<lambda>b. hex_digit b \<noteq> None) s
      in if ds = [] \<or> 4 < length ds then None else Some (hexadecimal ds, drop (length ds) s))"

section \<open>Addresses\<close>

definition read_given_char :: "byte \<Rightarrow> unit parser" where
  "read_given_char c s = (case s of [] \<Rightarrow> None | b # s' \<Rightarrow> if b = c then Some ((), s') else None)"

definition read_separator :: "byte \<Rightarrow> nat \<Rightarrow> 'a parser \<Rightarrow> 'a parser" where
  "read_separator c i p s =
     (if i > 0 then (case read_given_char c s of None \<Rightarrow> None | Some (u, s') \<Rightarrow> p s') else p s)"

fun read_octets :: "nat \<Rightarrow> nat \<Rightarrow> byte list parser" where
  "read_octets i 0 s = Some ([], s)"
| "read_octets i (Suc n) s =
     (case read_separator 0x2E i read_octet s of
        None \<Rightarrow> None
      | Some (b, s') \<Rightarrow> map_option (\<lambda>(bs, s''). (b # bs, s'')) (read_octets (Suc i) n s'))"

definition read_ipv4 :: "byte list parser" where
  "read_ipv4 s = read_octets 0 4 s"

definition pair_group :: "byte \<Rightarrow> byte \<Rightarrow> nat" where
  "pair_group a b = 256 * unat a + unat b"

text \<open>\<^verbatim>\<open>read_groups\<close> at index \<open>i\<close> with \<open>n\<close> slots left: an embedded IPv4 address takes two slots and
  ends the reading.\<close>

fun read_groups :: "nat \<Rightarrow> nat \<Rightarrow> byte list \<Rightarrow> nat list \<times> bool \<times> byte list" where
  "read_groups i 0 s = ([], False, s)"
| "read_groups i (Suc n) s =
     (case if n > 0 then read_separator 0x3A i read_ipv4 s else None of
        Some (bs, s') \<Rightarrow> ([pair_group (bs ! 0) (bs ! 1), pair_group (bs ! 2) (bs ! 3)], True, s')
      | None \<Rightarrow>
          (case read_separator 0x3A i read_group s of
             None \<Rightarrow> ([], False, s)
           | Some (g, s') \<Rightarrow>
               let (gs, v4, s'') = read_groups (Suc i) n s' in (g # gs, v4, s'')))"

definition read_ipv6 :: "nat list parser" where
  "read_ipv6 s =
     (let (front, v4, s1) = read_groups 0 8 s
      in if length front = 8 then Some (front, s1)
         else if v4 then None
         else case read_given_char 0x3A s1 of
                None \<Rightarrow> None
              | Some (u, s2) \<Rightarrow>
                  (case read_given_char 0x3A s2 of
                     None \<Rightarrow> None
                   | Some (u, s3) \<Rightarrow>
                       let (undo, v4', s4) = read_groups 0 (8 - (length front + 1)) s3
                       in Some (front @ replicate (8 - length front - length undo) 0 @ undo, s4)))"

definition octets_of_groups :: "nat list \<Rightarrow> byte list" where
  "octets_of_groups gs = concat (map (\<lambda>g. [of_nat (g div 256), of_nat (g mod 256)]) gs)"

text \<open>\<^verbatim>\<open>str::parse\<close>: the whole input has to be read.\<close>

definition parse_all :: "'a parser \<Rightarrow> byte list \<Rightarrow> 'a option" where
  "parse_all p s = (case p s of Some (x, []) \<Rightarrow> Some x | _ \<Rightarrow> None)"

definition parse_ipv4 :: "byte list \<Rightarrow> byte list option" where
  "parse_ipv4 s = parse_all read_ipv4 s"

definition parse_ipv6 :: "byte list \<Rightarrow> byte list option" where
  "parse_ipv6 s = map_option octets_of_groups (parse_all read_ipv6 s)"

section \<open>Printing\<close>

fun hex_string :: "nat \<Rightarrow> byte list" where
  "hex_string n =
     (if n < 16 then [if n < 10 then 0x30 + of_nat n else 0x57 + of_nat n]
      else hex_string (n div 16) @ hex_string (n mod 16))"

declare hex_string.simps [simp del]

fun join_with :: "byte \<Rightarrow> byte list list \<Rightarrow> byte list" where
  "join_with c [] = []"
| "join_with c [p] = p"
| "join_with c (p # q # ps) = p @ c # join_with c (q # ps)"

definition format_ipv4 :: "byte list \<Rightarrow> byte list" where
  "format_ipv4 os = join_with 0x2E (map (\<lambda>b. decimal_string (unat b)) os)"

text \<open>The first longest run of zero groups, as the loop over the groups finds it: the run that ends
  here and the longest one so far, each a start and a length.\<close>

definition zero_step :: "nat \<times> nat \<Rightarrow> (nat \<times> nat) \<times> (nat \<times> nat) \<Rightarrow> (nat \<times> nat) \<times> (nat \<times> nat)" where
  "zero_step ig cl =
     (let (i, g) = ig; (current, longest) = cl
      in if g = 0
         then let current = (if snd current = 0 then i else fst current, snd current + 1)
              in (current, if snd longest < snd current then current else longest)
         else ((0, 0), longest))"

definition zero_span :: "nat list \<Rightarrow> nat \<times> nat" where
  "zero_span gs = snd (fold zero_step (enumerate 0 gs) ((0, 0), (0, 0)))"

definition fmt_subslice :: "nat list \<Rightarrow> byte list" where
  "fmt_subslice gs = join_with 0x3A (map hex_string gs)"

definition groups_of_octets :: "byte list \<Rightarrow> nat list" where
  "groups_of_octets os = map (\<lambda>i. pair_group (os ! (2 * i)) (os ! (2 * i + 1))) [0..<8]"

definition format_groups :: "nat list \<Rightarrow> byte list" where
  "format_groups gs =
     (let (start, len) = zero_span gs
      in if len > 1
         then fmt_subslice (take start gs) @ [0x3A, 0x3A] @ fmt_subslice (drop (start + len) gs)
         else fmt_subslice gs)"

definition format_ipv6 :: "byte list \<Rightarrow> byte list" where
  "format_ipv6 os =
     (if take 12 os = replicate 10 0 @ [0xFF, 0xFF]
      then byte_string ''::ffff:'' @ format_ipv4 (drop 12 os)
      else format_groups (groups_of_octets os))"

section \<open>Printed numbers parse\<close>

definition hex_char :: "nat \<Rightarrow> byte" where
  "hex_char n = (if n < 10 then 0x30 + of_nat n else 0x57 + of_nat n)"

lemma hex_string_small: "n < 16 \<Longrightarrow> hex_string n = [hex_char n]"
  by (subst hex_string.simps) (simp add: hex_char_def)

lemma hex_string_step: "\<not> n < 16 \<Longrightarrow> hex_string n = hex_string (n div 16) @ [hex_char (n mod 16)]"
  by (subst hex_string.simps) (simp add: hex_string_small)

lemma hex_digit_char: "n < 16 \<Longrightarrow> hex_digit (hex_char n) = Some n"
proof -
  have "list_all (\<lambda>n. hex_digit (hex_char n) = Some n) [0..<16]" by code_simp
  then show "n < 16 \<Longrightarrow> ?thesis" by (simp add: list_all_iff)
qed

lemma hexadecimal_snoc: "hexadecimal (s @ [b]) = 16 * hexadecimal s + the (hex_digit b)"
  by (simp add: hexadecimal_def)

lemma hex_string_digits: "list_all (\<lambda>b. hex_digit b \<noteq> None) (hex_string n) \<and> hexadecimal (hex_string n) = n"
proof (induction n rule: less_induct)
  case (less n)
  show ?case
  proof (cases "n < 16")
    case True
    then show ?thesis by (simp add: hex_string_small hex_digit_char hexadecimal_def)
  next
    case False
    with less [of "n div 16"] show ?thesis
      by (simp add: hex_string_step hex_digit_char hexadecimal_snoc)
  qed
qed

lemma hex_string_length: "n < 16 ^ Suc k \<Longrightarrow> length (hex_string n) \<le> Suc k"
proof (induction k arbitrary: n)
  case 0
  then show ?case by (simp add: hex_string_small)
next
  case (Suc k)
  show ?case
  proof (cases "n < 16")
    case False
    have "n div 16 < 16 ^ Suc k" using Suc.prems by (simp add: less_mult_imp_div_less)
    with Suc.IH [of "n div 16"] False show ?thesis by (simp add: hex_string_step)
  qed (simp add: hex_string_small)
qed

lemma hex_string_ne [simp]: "hex_string n \<noteq> []"
  by (subst hex_string.simps) (simp add: hex_string_small)

lemma decimal_char: "n < 10 \<Longrightarrow> digit (0x30 + of_nat n) \<and> unat (0x30 + of_nat n :: byte) = 48 + n"
proof -
  have "list_all (\<lambda>n. digit (0x30 + of_nat n) \<and> unat (0x30 + of_nat n :: byte) = 48 + n) [0..<10]" by code_simp
  then show "n < 10 \<Longrightarrow> ?thesis" by (simp add: list_all_iff)
qed

lemma decimal_snoc: "decimal (s @ [b]) = 10 * decimal s + (unat b - 48)"
  by (simp add: decimal_def)

lemma decimal_string_small: "n < 10 \<Longrightarrow> decimal_string n = [0x30 + of_nat n]"
  by (subst decimal_string.simps) simp

lemma decimal_string_step:
  "\<not> n < 10 \<Longrightarrow> decimal_string n = decimal_string (n div 10) @ [0x30 + of_nat (n mod 10)]"
  by (subst decimal_string.simps) simp

lemma decimal_string_ne [simp]: "decimal_string n \<noteq> []"
  by (subst decimal_string.simps) simp

lemma decimal_string_digits: "list_all digit (decimal_string n) \<and> decimal (decimal_string n) = n"
proof (induction n rule: less_induct)
  case (less n)
  show ?case
  proof (cases "n < 10")
    case True
    then show ?thesis by (simp add: decimal_string_small decimal_char decimal_def)
  next
    case False
    with less [of "n div 10"] show ?thesis
      by (simp add: decimal_string_step decimal_char decimal_snoc)
  qed
qed

lemma decimal_string_length: "n < 10 ^ Suc k \<Longrightarrow> length (decimal_string n) \<le> Suc k"
proof (induction k arbitrary: n)
  case 0
  then show ?case by (simp add: decimal_string_small)
next
  case (Suc k)
  show ?case
  proof (cases "n < 10")
    case False
    have "n div 10 < 10 ^ Suc k" using Suc.prems by (simp add: less_mult_imp_div_less)
    with Suc.IH [of "n div 10"] False show ?thesis by (simp add: decimal_string_step)
  qed (simp add: decimal_string_small)
qed

lemma decimal_string_head: "0 < n \<Longrightarrow> hd (decimal_string n) \<noteq> 0x30"
proof (induction n rule: less_induct)
  case (less n)
  show ?case
  proof (cases "n < 10")
    case True
    with less.prems decimal_char [of n] show ?thesis by (auto simp: decimal_string_small)
  next
    case False
    with less.IH [of "n div 10"] show ?thesis by (simp add: decimal_string_step)
  qed
qed

lemma takeWhile_stop:
  "list_all P a \<Longrightarrow> (case s of [] \<Rightarrow> True | b # _ \<Rightarrow> \<not> P b) \<Longrightarrow> takeWhile P (a @ s) = a"
  by (induction a) (auto split: list.splits)

lemma read_group_hex:
  assumes "n < 65536" "case s of [] \<Rightarrow> True | b # _ \<Rightarrow> hex_digit b = None"
  shows "read_group (hex_string n @ s) = Some (n, s)"
proof -
  have "takeWhile (\<lambda>b. hex_digit b \<noteq> None) (hex_string n @ s) = hex_string n"
    using assms(2) hex_string_digits [of n] by (intro takeWhile_stop) (simp_all split: list.splits)
  moreover have "length (hex_string n) \<le> 4"
    using hex_string_length [of n 3] assms(1) by simp
  ultimately show ?thesis using hex_string_digits [of n] by (simp add: read_group_def)
qed

lemma read_octet_decimal:
  assumes "case s of [] \<Rightarrow> True | b # _ \<Rightarrow> \<not> digit b"
  shows "read_octet (decimal_string (unat b) @ s) = Some (b, s)"
proof -
  define n where "n = unat b"
  have n: "n < 256" "of_nat n = b" using unsigned_less [of b, where 'a = nat] by (simp_all add: n_def)
  have "takeWhile digit (decimal_string n @ s) = decimal_string n"
    using assms decimal_string_digits [of n] by (intro takeWhile_stop) simp_all
  moreover have "length (decimal_string n) \<le> 3"
    using decimal_string_length [of n 2] n by simp
  moreover have "n = 0 \<Longrightarrow> length (decimal_string n) = 1" by (simp add: decimal_string_small)
  moreover have "hd (decimal_string n) \<noteq> 0x30 \<or> n = 0" using decimal_string_head by blast
  ultimately show ?thesis
    using decimal_string_digits [of n] n unfolding n_def [symmetric] by (auto simp: read_octet_def)
qed

section \<open>Printed addresses parse\<close>

lemma join_with_Cons: "join_with c (p # ps) = p @ concat (map (\<lambda>q. c # q) ps)"
  by (induction ps arbitrary: p) simp_all

lemma read_octets_rest:
  assumes "case s of [] \<Rightarrow> True | b # _ \<Rightarrow> \<not> digit b"
  shows "read_octets (Suc i) (length os) (concat (map (\<lambda>b. 0x2E # decimal_string (unat b)) os) @ s) =
    Some (os, s)"
proof (induction os arbitrary: i)
  case (Cons b os)
  let ?rest = "concat (map (\<lambda>b. 0x2E # decimal_string (unat b)) os) @ s"
  have "case ?rest of [] \<Rightarrow> True | b # _ \<Rightarrow> \<not> digit b"
    using assms by (cases os) (simp_all add: digit_def split: list.splits)
  then have "read_octet (decimal_string (unat b) @ ?rest) = Some (b, ?rest)"
    by (rule read_octet_decimal)
  with Cons [of "Suc i"] show ?case by (simp add: read_separator_def read_given_char_def)
qed simp

lemma read_ipv4_printed:
  assumes "length os = 4" "case s of [] \<Rightarrow> True | b # _ \<Rightarrow> \<not> digit b"
  shows "read_ipv4 (format_ipv4 os @ s) = Some (os, s)"
proof -
  from assms(1) obtain b bs where os: "os = b # bs" "length bs = 3"
    by (cases os) simp_all
  let ?rest = "concat (map (\<lambda>b. 0x2E # decimal_string (unat b)) bs) @ s"
  have "case ?rest of [] \<Rightarrow> True | b # _ \<Rightarrow> \<not> digit b"
    using os(2) by (cases bs) (simp_all add: digit_def)
  then have "read_octet (decimal_string (unat b) @ ?rest) = Some (b, ?rest)"
    by (rule read_octet_decimal)
  moreover have "format_ipv4 os @ s = decimal_string (unat b) @ ?rest"
    by (simp add: os format_ipv4_def join_with_Cons comp_def del: join_with.simps)
  ultimately have "read_octets 0 (Suc (length bs)) (format_ipv4 os @ s) = Some (os, s)"
    using read_octets_rest [OF assms(2), of 0 bs] os(1) by (simp add: read_separator_def)
  then show ?thesis by (simp add: read_ipv4_def os(2))
qed

lemma parse_printed_ipv4: "length os = 4 \<Longrightarrow> parse_ipv4 (format_ipv4 os) = Some os"
  using read_ipv4_printed [of os "[]"] by (simp add: parse_ipv4_def parse_all_def)

text \<open>A run of digits that no dot follows is no IPv4 address.\<close>

lemma read_octet_drop: "read_octet s = Some (b, s') \<Longrightarrow> s' = dropWhile digit s"
  by (auto simp: read_octet_def Let_def dropWhile_eq_drop split: if_splits)

lemma read_ipv4_no_dot:
  assumes "case dropWhile digit s of [] \<Rightarrow> True | b # _ \<Rightarrow> b \<noteq> 0x2E"
  shows "read_ipv4 s = None"
proof (cases "read_octet s")
  case None
  then show ?thesis by (simp add: read_ipv4_def numeral_eq_Suc read_separator_def)
next
  case (Some r)
  obtain b s' where r: "r = (b, s')" by force
  with Some assms have "case s' of [] \<Rightarrow> True | b # _ \<Rightarrow> b \<noteq> 0x2E" by (metis read_octet_drop)
  with Some r show ?thesis
    by (cases s') (simp_all add: read_ipv4_def numeral_eq_Suc read_separator_def read_given_char_def)
qed

lemma dropWhile_hex:
  assumes "list_all (\<lambda>b. hex_digit b \<noteq> None) a" "case s of [] \<Rightarrow> True | b # _ \<Rightarrow> b = 0x3A"
  shows "case dropWhile digit (a @ s) of [] \<Rightarrow> True | b # _ \<Rightarrow> b \<noteq> 0x2E"
  using assms
proof (induction a)
  case Nil
  then show ?case by (cases s) (simp_all add: digit_def)
next
  case (Cons b a)
  then show ?case by (cases "b = 0x2E") (simp_all add: hex_digit_def)
qed

text \<open>What ends a run of groups: the end of the input or two colons.\<close>

definition stops :: "byte list \<Rightarrow> bool" where
  "stops s \<longleftrightarrow> s = [] \<or> (\<exists>t. s = 0x3A # 0x3A # t)"

lemma colon_facts [simp]: "hex_digit 0x3A = None" "\<not> digit 0x3A"
  by (simp_all add: hex_digit_def digit_def)

lemma read_ipv4_colon [simp]: "read_ipv4 (0x3A # s) = None" "read_ipv4 [] = None"
  by (rule read_ipv4_no_dot, simp)+

lemma read_group_colon [simp]: "read_group (0x3A # s) = None" "read_group [] = None"
  by (simp_all add: read_group_def)

lemma read_groups_stop: "stops s \<Longrightarrow> read_groups i n s = ([], False, s)"
  by (cases n) (auto simp: stops_def read_separator_def read_given_char_def)

abbreviation colon_groups :: "nat list \<Rightarrow> byte list" where
  "colon_groups gs \<equiv> concat (map (\<lambda>g. 0x3A # hex_string g) gs)"

lemma colon_groups_head:
  "stops s \<Longrightarrow> case colon_groups gs @ s of [] \<Rightarrow> True | b # _ \<Rightarrow> b = 0x3A"
  by (cases gs) (auto simp: stops_def)

lemma read_one:
  assumes "g < 65536" "stops s"
  shows "read_ipv4 (hex_string g @ colon_groups gs @ s) = None"
    and "read_group (hex_string g @ colon_groups gs @ s) = Some (g, colon_groups gs @ s)"
proof -
  have h: "case colon_groups gs @ s of [] \<Rightarrow> True | b # _ \<Rightarrow> b = 0x3A"
    using assms(2) by (rule colon_groups_head)
  show "read_ipv4 (hex_string g @ colon_groups gs @ s) = None"
    using hex_string_digits [of g] by (intro read_ipv4_no_dot dropWhile_hex [OF _ h]) simp
  have "case colon_groups gs @ s of [] \<Rightarrow> True | b # _ \<Rightarrow> hex_digit b = None"
    using h by (simp split: list.splits)
  then show "read_group (hex_string g @ colon_groups gs @ s) = Some (g, colon_groups gs @ s)"
    by (rule read_group_hex [OF assms(1)])
qed

lemma read_groups_colon:
  "list_all (\<lambda>g. g < 65536) gs \<Longrightarrow> length gs \<le> n \<Longrightarrow> stops s \<Longrightarrow>
   read_groups (Suc i) n (colon_groups gs @ s) = (gs, False, s)"
proof (induction gs arbitrary: i n)
  case Nil
  then show ?case by (simp add: read_groups_stop)
next
  case (Cons g gs)
  then obtain n' where n: "n = Suc n'" by (cases n) simp_all
  show ?case
    using Cons.prems Cons.IH [of n' "Suc i"] read_one [of g s gs] n
    by (auto simp add: read_separator_def read_given_char_def)
qed

lemma read_groups_printed:
  assumes "list_all (\<lambda>g. g < 65536) gs" "length gs \<le> n" "stops s"
  shows "read_groups 0 n (fmt_subslice gs @ s) = (gs, False, s)"
proof (cases gs)
  case Nil
  with assms(3) show ?thesis by (simp add: fmt_subslice_def read_groups_stop)
next
  case (Cons g gs')
  with assms(2) obtain n' where n: "n = Suc n'" by (cases n) simp_all
  show ?thesis
    using assms Cons n read_groups_colon [of gs' n' s 0] read_one [of g s gs']
    by (auto simp add: fmt_subslice_def join_with_Cons comp_def read_separator_def simp del: join_with.simps)
qed

text \<open>The run of zeros that the printer leaves out.\<close>

definition zero_run :: "nat list \<Rightarrow> nat \<times> nat \<Rightarrow> bool" where
  "zero_run gs r \<longleftrightarrow> fst r + snd r \<le> length gs \<and> (\<forall>i. fst r \<le> i \<and> i < fst r + snd r \<longrightarrow> gs ! i = 0)"

lemma zero_run_snoc: "zero_run gs r \<Longrightarrow> zero_run (gs @ [g]) r"
  by (auto simp: zero_run_def nth_append)

lemma zero_scan:
  "case fold zero_step (enumerate 0 gs) ((0, 0), (0, 0)) of (c, l) \<Rightarrow>
     zero_run gs c \<and> zero_run gs l \<and> (snd c = 0 \<or> fst c + snd c = length gs)"
proof (induction gs rule: rev_induct)
  case Nil
  then show ?case by (simp add: zero_run_def)
next
  case (snoc g gs)
  obtain c l where cl: "fold zero_step (enumerate 0 gs) ((0, 0), (0, 0)) = (c, l)" by (rule prod.exhaust)
  with snoc have run: "zero_run gs c" "zero_run gs l" "snd c = 0 \<or> fst c + snd c = length gs" by simp_all
  define c' where "c' = (if snd c = 0 then length gs else fst c, snd c + 1)"
  have "zero_run (gs @ [0]) c' \<and> fst c' + snd c' = length (gs @ [0])"
    using run(1,3) by (auto simp: c'_def zero_run_def nth_append less_Suc_eq)
  moreover have "zero_run (gs @ [g]) l" using run(2) by (rule zero_run_snoc)
  moreover have "zero_run (gs @ [g]) (0, 0)" by (simp add: zero_run_def)
  moreover have "fold zero_step (enumerate 0 (gs @ [g])) ((0, 0), (0, 0)) = zero_step (length gs, g) (c, l)"
    by (simp add: enumerate_append_eq cl)
  moreover have "zero_step (length gs, g) (c, l) =
      (if g = 0 then (c', if snd l < snd c' then c' else l) else ((0, 0), l))"
    by (simp add: zero_step_def c'_def Let_def)
  ultimately show ?case by auto
qed

lemma zero_span_split:
  assumes "zero_span gs = (st, len)"
  shows "gs = take st gs @ replicate len 0 @ drop (st + len) gs" "st + len \<le> length gs"
proof -
  have run: "zero_run gs (st, len)"
    using zero_scan [of gs] assms by (auto simp: zero_span_def split: prod.splits)
  then show "st + len \<le> length gs" by (simp add: zero_run_def)
  have "take len (drop st gs) = replicate len 0"
    using run by (intro nth_equalityI) (auto simp: zero_run_def)
  then have "drop st gs = replicate len 0 @ drop (st + len) gs"
    by (metis append_take_drop_id drop_drop add.commute)
  then show "gs = take st gs @ replicate len 0 @ drop (st + len) gs"
    by (metis append_take_drop_id)
qed

lemma read_printed_groups:
  assumes "length gs = 8" "list_all (\<lambda>g. g < 65536) gs"
  shows "read_ipv6 (format_groups gs) = Some (gs, [])"
proof -
  obtain st len where span: "zero_span gs = (st, len)" by force
  show ?thesis
  proof (cases "1 < len")
    case False
    have "read_groups 0 8 (fmt_subslice gs) = (gs, False, [])"
      using read_groups_printed [of gs 8 "[]"] assms by (simp add: stops_def)
    with False span assms(1) show ?thesis by (simp add: format_groups_def read_ipv6_def)
  next
    case True
    note split = zero_span_split [OF span]
    let ?front = "take st gs" and ?undo = "drop (st + len) gs"
    let ?rest = "0x3A # 0x3A # fmt_subslice ?undo"
    have wf: "list_all (\<lambda>g. g < 65536) ?front" "list_all (\<lambda>g. g < 65536) ?undo"
      using assms(2) by (auto simp: list_all_iff dest: in_set_takeD in_set_dropD)
    have "read_groups 0 8 (fmt_subslice ?front @ ?rest) = (?front, False, ?rest)"
      using wf assms(1) by (intro read_groups_printed) (simp_all add: stops_def)
    moreover have "read_groups 0 (8 - (length ?front + 1)) (fmt_subslice ?undo) = (?undo, False, [])"
      using read_groups_printed [of ?undo "8 - (length ?front + 1)" "[]"] wf assms(1) True split(2)
      by (simp add: stops_def)
    moreover have "8 - length ?front - length ?undo = len" "length ?front \<noteq> 8"
      using split(2) assms(1) True by simp_all
    ultimately show ?thesis
      using True span split(1) by (simp add: format_groups_def read_ipv6_def read_given_char_def Let_def)
  qed
qed

lemma pair_group_bytes [simp]:
  "pair_group a b < 65536" "of_nat (pair_group a b div 256) = a" "of_nat (pair_group a b mod 256) = b"
proof -
  have "unat a < 256" "unat b < 256"
    using unsigned_less [of a, where 'a = nat] unsigned_less [of b, where 'a = nat] by simp_all
  then show "pair_group a b < 65536" "of_nat (pair_group a b div 256) = a" "of_nat (pair_group a b mod 256) = b"
    by (simp_all add: pair_group_def)
qed

lemma pair_octets:
  "length os = 2 * n \<Longrightarrow> concat (map (\<lambda>i. [os ! (2 * i), os ! (2 * i + 1)]) [0..<n]) = os"
proof (induction n arbitrary: os)
  case (Suc n)
  define os' where "os' = take (2 * n) os"
  have "take (Suc (Suc (2 * n))) os = take (Suc (2 * n)) os @ [os ! Suc (2 * n)]"
    using Suc.prems by (intro take_Suc_conv_app_nth) simp
  moreover have "take (Suc (2 * n)) os = os' @ [os ! (2 * n)]"
    using Suc.prems by (simp add: os'_def take_Suc_conv_app_nth)
  moreover have "take (Suc (Suc (2 * n))) os = os" "length os' = 2 * n"
    using Suc.prems by (simp_all add: os'_def)
  ultimately have os: "os = os' @ [os ! (2 * n), os ! (2 * n + 1)]" "length os' = 2 * n"
    by simp_all
  have "concat (map (\<lambda>i. [os ! (2 * i), os ! (2 * i + 1)]) [0..<n]) =
      concat (map (\<lambda>i. [os' ! (2 * i), os' ! (2 * i + 1)]) [0..<n])"
    using Suc.prems by (intro arg_cong [where f = concat] map_cong) (auto simp: os'_def)
  with Suc.IH [OF os(2)] os(1) show ?case by simp
qed simp

lemma octets_of_groups_of_octets: "length os = 16 \<Longrightarrow> octets_of_groups (groups_of_octets os) = os"
  using pair_octets [of os 8] by (simp add: octets_of_groups_def groups_of_octets_def comp_def)

lemma groups_of_octets_wf: "length (groups_of_octets os) = 8" "list_all (\<lambda>g. g < 65536) (groups_of_octets os)"
  by (simp_all add: groups_of_octets_def list_all_iff)

text \<open>An address prints to a text that parses to the address, in the compressed, the full and the
  IPv4-mapped form.\<close>

lemma read_groups_numeral:
  "read_groups i (numeral k) s =
     (case if 0 < (pred_numeral k :: nat) then read_separator 0x3A i read_ipv4 s else None of
        Some (bs, s') \<Rightarrow> ([pair_group (bs ! 0) (bs ! 1), pair_group (bs ! 2) (bs ! 3)], True, s')
      | None \<Rightarrow>
          (case read_separator 0x3A i read_group s of
             None \<Rightarrow> ([], False, s)
           | Some (g, s') \<Rightarrow>
               let (gs, v4, s'') = read_groups (Suc i) (pred_numeral k) s' in (g # gs, v4, s'')))"
  by (simp add: numeral_eq_Suc)

lemma four_octets: "length os = 4 \<Longrightarrow> os = [os ! 0, os ! 1, os ! 2, os ! 3]"
  by (intro nth_equalityI) (auto simp: less_Suc_eq numeral_eq_Suc)

lemma mapped_octets:
  assumes "length os = 16" "take 12 os = replicate 10 0 @ [0xFF, 0xFF]"
  shows "octets_of_groups (replicate 5 0 @ [0xFFFF, pair_group (os ! 12) (os ! 13), pair_group (os ! 14) (os ! 15)]) = os"
proof -
  have "drop 12 os = [os ! 12, os ! 13, os ! 14, os ! 15]"
    using four_octets [of "drop 12 os"] assms(1) by simp
  then have os: "os = replicate 10 0 @ [0xFF, 0xFF] @ [os ! 12, os ! 13, os ! 14, os ! 15]"
    by (metis append_take_drop_id append_assoc assms(2))
  have "octets_of_groups (replicate 5 0) = replicate 10 0"
    by code_simp
  moreover have "octets_of_groups [0xFFFF] = [0xFF, 0xFF]"
    by (simp add: octets_of_groups_def)
  moreover have "octets_of_groups (xs @ ys) = octets_of_groups xs @ octets_of_groups ys" for xs ys
    by (simp add: octets_of_groups_def)
  moreover have "octets_of_groups [pair_group a b, pair_group c d] = [a, b, c, d]" for a b c d
    by (simp add: octets_of_groups_def)
  moreover have "gs @ [0xFFFF, g, g'] = gs @ [0xFFFF] @ [g, g']" for gs :: "nat list" and g g' by simp
  ultimately have "octets_of_groups (replicate 5 0 @ [0xFFFF, pair_group a b, pair_group c d]) =
      replicate 10 0 @ [0xFF, 0xFF] @ [a, b, c, d]" for a b c d
    by (simp only:)
  then show ?thesis using os by (rule trans [OF _ sym])
qed

lemma parse_printed_ipv6:
  assumes "length os = 16"
  shows "parse_ipv6 (format_ipv6 os) = Some os"
proof (cases "take 12 os = replicate 10 0 @ [0xFF, 0xFF]")
  case False
  then show ?thesis
    using read_printed_groups [OF groups_of_octets_wf, of os] octets_of_groups_of_octets [OF assms]
    by (simp add: format_ipv6_def parse_ipv6_def parse_all_def)
next
  case True
  let ?v4 = "format_ipv4 (drop 12 os)"
  have "read_ipv4 ?v4 = Some (drop 12 os, [])"
    using read_ipv4_printed [of "drop 12 os" "[]"] assms by simp
  then have "read_groups (Suc 0) 6 (0x3A # ?v4) =
      ([pair_group (os ! 12) (os ! 13), pair_group (os ! 14) (os ! 15)], True, [])"
    using assms by (simp add: read_groups_numeral read_separator_def read_given_char_def)
  moreover have "read_group (byte_string ''ffff'' @ 0x3A # ?v4) = Some (0xFFFF, 0x3A # ?v4)"
    by (simp add: byte_string_def read_group_def hexadecimal_def hex_digit_def)
  moreover have "read_ipv4 (byte_string ''ffff'' @ 0x3A # ?v4) = None"
    by (rule read_ipv4_no_dot) (simp add: byte_string_def digit_def)
  ultimately have "read_groups 0 7 (byte_string ''ffff'' @ 0x3A # ?v4) =
      ([0xFFFF, pair_group (os ! 12) (os ! 13), pair_group (os ! 14) (os ! 15)], True, [])"
    by (simp add: read_groups_numeral [of 0] read_separator_def)
  moreover have "format_ipv6 os = 0x3A # 0x3A # byte_string ''ffff'' @ 0x3A # ?v4"
    using True by (simp add: format_ipv6_def byte_string_def)
  ultimately have "read_ipv6 (format_ipv6 os) =
      Some (replicate 5 0 @ [0xFFFF, pair_group (os ! 12) (os ! 13), pair_group (os ! 14) (os ! 15)], [])"
    by (simp add: read_ipv6_def read_groups_stop stops_def read_given_char_def)
  with mapped_octets [OF assms True] show ?thesis by (simp add: parse_ipv6_def parse_all_def)
qed

end
