(* ===== verification/Lsm_Daemon.thy ===== *)
theory Lsm_Daemon
  imports Jg_Common Jg_Paths Rust_Net
begin

text \<open>
  The user-space end of the kernel interface, module \<^verbatim>\<open>aya_backend\<close> of
  \<^verbatim>\<open>ts_cli/src/ebpf_monitor.rs\<close>: decoding the raw requests of the ring buffer, routing them,
  sending verdicts, building the keys of the policy maps and filling the maps. A Rust string
  is the list of its UTF-8 bytes, a \<^verbatim>\<open>Result\<close> is a sum whose left part is the error. The
  map operations of the aya crate are the argument \<open>ins\<close>; what they promise is the locale
  \<open>hash_map_api\<close>. The theorems say that the keys the daemon inserts are the keys the
  hooks look up, and that a request survives the trip through the ring buffer.
\<close>

section \<open>Errors and records\<close>

datatype daemon_error =
    Invalid_LsmRequestType u32
  | From_utf8_error
  | Key_too_long nat
  | Map_error
  | No_route_recorded u64
  | Invalid_route_index nat
  | Runtime_controls_missing

datatype LsmRequestType = Connect | SendMsg | Execve | InodeCreate | InodeUnlink

datatype Verdict = Unknown | Allow | Deny

fun verdict_as_u32 :: "Verdict \<Rightarrow> u32" where
  "verdict_as_u32 Unknown = 0"
| "verdict_as_u32 Allow = 1"
| "verdict_as_u32 Deny = 2"

record VerdictPayload =
  vp_cookie :: u64
  vp_verdict :: u32

record RawLsmRequest =
  r_cookie :: u64
  r_pid :: u32
  r_req_type :: u32
  r_family :: u16
  r_resource_path :: "byte list"
  r_pad_after_resource :: "byte list"
  r_dest :: "byte list"
  r_payload_preview :: "byte list"
  r_source_program :: u32
  r_ppid :: u32

text \<open>The resource of a request: a string, or an endpoint with its octets and port as numbers before
  \<^verbatim>\<open>format!\<close> prints them.\<close>

datatype resource =
    Text "byte list"
  | Endpoint4 "byte list" nat
  | Endpoint6 "byte list" nat
  | Family u16

text \<open>The fields that \<^verbatim>\<open>resolve_path\<close> and \<^verbatim>\<open>populate_origin\<close> take from \<^verbatim>\<open>/proc\<close> are left out.\<close>

record LsmRequest =
  l_cookie :: u64
  l_pid :: u32
  l_ppid :: u32
  l_req_type :: LsmRequestType
  l_source_program :: u32
  l_family :: u16
  l_resource :: resource
  l_payload_preview :: "byte list"

section \<open>Decoding\<close>

text \<open>\<^verbatim>\<open>std::ptr::read_unaligned\<close> at the offsets that the source asserts for \<^verbatim>\<open>RawLsmRequest\<close>.\<close>

definition raw_of_bytes :: "byte list \<Rightarrow> RawLsmRequest" where
  "raw_of_bytes bs =
     \<lparr>r_cookie = le_word (window 0 8 bs), r_pid = le_word (window 8 4 bs),
      r_req_type = le_word (window 12 4 bs), r_family = le_word (window 16 2 bs),
      r_resource_path = window 18 128 bs, r_pad_after_resource = window 146 2 bs,
      r_dest = window 148 108 bs, r_payload_preview = window 256 64 bs,
      r_source_program = le_word (window 320 4 bs), r_ppid = le_word (window 324 4 bs)\<rparr>"

definition nul_terminated_string :: "byte list \<Rightarrow> daemon_error + byte list" where
  "nul_terminated_string bytes =
     (let s = takeWhile (\<lambda>b. b \<noteq> 0) bytes in if utf8_valid s then Inr s else Inl From_utf8_error)"

definition from_be_bytes :: "byte \<Rightarrow> byte \<Rightarrow> nat" where
  "from_be_bytes a b = 256 * unat a + unat b"

definition format_resource :: "RawLsmRequest \<Rightarrow> LsmRequestType \<Rightarrow> daemon_error + resource" where
  "format_resource raw rt =
     (if rt \<in> {Execve, InodeCreate, InodeUnlink}
      then map_sum id Text (nul_terminated_string (r_resource_path raw))
      else if r_family raw = AF_INET
      then Inr (Endpoint4 (take 4 (r_dest raw)) (from_be_bytes (r_dest raw ! 4) (r_dest raw ! 5)))
      else if r_family raw = AF_INET6
      then Inr (Endpoint6 (take 16 (r_dest raw)) (from_be_bytes (r_dest raw ! 16) (r_dest raw ! 17)))
      else if r_family raw = AF_UNIX then map_sum id Text (nul_terminated_string (r_dest raw))
      else Inr (Family (r_family raw)))"

definition req_type_of :: "u32 \<Rightarrow> daemon_error + LsmRequestType" where
  "req_type_of n =
     (if n = 0 then Inr Connect else if n = 1 then Inr SendMsg else if n = 2 then Inr Execve
      else if n = 3 then Inr InodeCreate else if n = 4 then Inr InodeUnlink
      else Inl (Invalid_LsmRequestType n))"

definition try_from :: "RawLsmRequest \<Rightarrow> daemon_error + LsmRequest" where
  "try_from raw =
     (case req_type_of (r_req_type raw) of
        Inl e \<Rightarrow> Inl e
      | Inr rt \<Rightarrow>
          (case format_resource raw rt of
             Inl e \<Rightarrow> Inl e
           | Inr res \<Rightarrow>
               Inr \<lparr>l_cookie = r_cookie raw, l_pid = r_pid raw, l_ppid = r_ppid raw, l_req_type = rt,
                    l_source_program = r_source_program raw, l_family = r_family raw,
                    l_resource = res,
                    l_payload_preview = takeWhile (\<lambda>b. b \<noteq> 0) (r_payload_preview raw)\<rparr>))"

section \<open>Polling and verdicts\<close>

definition JG_SRC_CAPABLE :: u32 where "JG_SRC_CAPABLE = 7"
definition JG_SRC_SB_MOUNT :: u32 where "JG_SRC_SB_MOUNT = 8"
definition JG_SRC_SB_PIVOTROOT :: u32 where "JG_SRC_SB_PIVOTROOT = 9"
definition JG_SRC_MOVE_MOUNT :: u32 where "JG_SRC_MOVE_MOUNT = 10"
definition JG_SRC_FILE_OPEN :: u32 where "JG_SRC_FILE_OPEN = 11"

text \<open>The objects in the order of loading, with the hook each attaches to.\<close>

definition lsm_objects :: "(u32 \<times> string) list" where
  "lsm_objects = [
     (jg_source_program_val JG_SRC_SOCKET_CONNECT, ''socket_connect''),
     (jg_source_program_val JG_SRC_SOCKET_SENDMSG, ''socket_sendmsg''),
     (jg_source_program_val JG_SRC_BPRM_CHECK_SECURITY, ''bprm_check_security''),
     (jg_source_program_val JG_SRC_INODE_CREATE, ''inode_create''),
     (jg_source_program_val JG_SRC_INODE_UNLINK, ''inode_unlink''),
     (JG_SRC_CAPABLE, ''capable''),
     (JG_SRC_SB_MOUNT, ''sb_mount''),
     (JG_SRC_SB_PIVOTROOT, ''sb_pivotroot''),
     (JG_SRC_MOVE_MOUNT, ''move_mount''),
     (JG_SRC_FILE_OPEN, ''file_open'')]"

text \<open>The state of \<^verbatim>\<open>AyaLsmMonitor\<close>: the raw records waiting in the ring buffer, the verdict map
  of each object, and the two routing tables.\<close>

record monitor =
  ring :: "byte list list"
  verdict_maps :: "(u64 \<rightharpoonup> VerdictPayload) list"
  program_routes :: "u32 \<rightharpoonup> nat"
  pending_routes :: "u64 \<rightharpoonup> nat"

text \<open>\<^verbatim>\<open>collect\<close> into a map inserts the pairs in order.\<close>

definition load_routes :: "(u32 \<times> string) list \<Rightarrow> u32 \<rightharpoonup> nat" where
  "load_routes os = fold (\<lambda>(i, src) r. r(src \<mapsto> i)) (enumerate 0 (map fst os)) Map.empty"

definition source_program_for_request_type :: "LsmRequestType \<Rightarrow> u32" where
  "source_program_for_request_type rt =
     (case rt of Connect \<Rightarrow> jg_source_program_val JG_SRC_SOCKET_CONNECT
      | SendMsg \<Rightarrow> jg_source_program_val JG_SRC_SOCKET_SENDMSG
      | Execve \<Rightarrow> jg_source_program_val JG_SRC_BPRM_CHECK_SECURITY
      | InodeCreate \<Rightarrow> jg_source_program_val JG_SRC_INODE_CREATE
      | InodeUnlink \<Rightarrow> jg_source_program_val JG_SRC_INODE_UNLINK)"

definition route_of :: "(u32 \<rightharpoonup> nat) \<Rightarrow> LsmRequest \<Rightarrow> nat option" where
  "route_of routes req =
     (case routes (l_source_program req) of
        Some i \<Rightarrow> Some i
      | None \<Rightarrow> routes (source_program_for_request_type (l_req_type req)))"

text \<open>The loop body for one record, and the loop until the ring buffer is empty.\<close>

definition poll_one :: "(u32 \<rightharpoonup> nat) \<Rightarrow> byte list \<Rightarrow> (u64 \<rightharpoonup> nat) \<Rightarrow> (u64 \<rightharpoonup> nat) \<times> LsmRequest list" where
  "poll_one routes bytes pending =
     (if length bytes \<ge> 328
      then (case try_from (raw_of_bytes bytes) of
              Inl e \<Rightarrow> (pending, [])
            | Inr req \<Rightarrow>
                (case route_of routes req of
                   None \<Rightarrow> (pending, [])
                 | Some route \<Rightarrow> (pending(l_cookie req \<mapsto> route), [req])))
      else (pending, []))"

fun poll_loop ::
    "(u32 \<rightharpoonup> nat) \<Rightarrow> byte list list \<Rightarrow> (u64 \<rightharpoonup> nat) \<Rightarrow> (u64 \<rightharpoonup> nat) \<times> LsmRequest list" where
  "poll_loop routes [] pending = (pending, [])"
| "poll_loop routes (bytes # rest) pending =
     (let (pending, reqs) = poll_one routes bytes pending;
          (pending, reqs') = poll_loop routes rest pending
      in (pending, reqs @ reqs'))"

definition poll_requests :: "monitor \<Rightarrow> LsmRequest list \<times> monitor" where
  "poll_requests mon =
     (let (pending, reqs) = poll_loop (program_routes mon) (ring mon) (pending_routes mon)
      in (reqs, mon\<lparr>ring := [], pending_routes := pending\<rparr>))"

text \<open>The insertion into the verdict map is aya's; on a failure the route is gone all the same.\<close>

definition send_verdict ::
    "((u64 \<rightharpoonup> VerdictPayload) \<Rightarrow> u64 \<Rightarrow> VerdictPayload \<Rightarrow> daemon_error + (u64 \<rightharpoonup> VerdictPayload)) \<Rightarrow>
     u64 \<Rightarrow> Verdict \<Rightarrow> monitor \<Rightarrow> (daemon_error + unit) \<times> monitor" where
  "send_verdict ins ck v mon =
     (case pending_routes mon ck of
        None \<Rightarrow> (Inl (No_route_recorded ck), mon)
      | Some i \<Rightarrow>
          let mon = mon\<lparr>pending_routes := (pending_routes mon)(ck := None)\<rparr>;
              payload = \<lparr>vp_cookie = ck, vp_verdict = verdict_as_u32 v\<rparr>
          in if i < length (verdict_maps mon)
             then (case ins (verdict_maps mon ! i) ck payload of
                     Inl e \<Rightarrow> (Inl e, mon)
                   | Inr vm \<Rightarrow> (Inr (), mon\<lparr>verdict_maps := (verdict_maps mon)[i := vm]\<rparr>))
             else (Inl (Invalid_route_index i), mon))"

section \<open>Keys of the policy maps\<close>

definition path_key :: "byte list \<Rightarrow> byte list" where
  "path_key path =
     (let bytes = trim path;
          len = min (length bytes) (JG_MAX_RESOURCE_LEN - 1)
      in put 0 (take len bytes) (replicate JG_MAX_RESOURCE_LEN 0))"

definition path_key_checked :: "byte list \<Rightarrow> daemon_error + byte list option" where
  "path_key_checked path =
     (let trimmed = trim path
      in if trimmed = [] then Inr None
         else if length trimmed \<ge> JG_MAX_RESOURCE_LEN then Inl (Key_too_long (length trimmed))
         else Inr (Some (path_key trimmed)))"

definition name_key_bytes_checked :: "byte list \<Rightarrow> daemon_error + byte list" where
  "name_key_bytes_checked name =
     (let trimmed = trim name
      in if length trimmed \<ge> JG_MAX_RESOURCE_LEN then Inl (Key_too_long (length trimmed))
         else Inr (put 0 trimmed (replicate JG_MAX_RESOURCE_LEN 0)))"

definition name_key_checked :: "byte list \<Rightarrow> daemon_error + byte list option" where
  "name_key_checked name =
     (let trimmed = trim name
      in if trimmed = [] then Inr None
         else map_sum id Some (name_key_bytes_checked trimmed))"

text \<open>\<^verbatim>\<open>libc::major\<close> and \<^verbatim>\<open>libc::minor\<close> are arguments.\<close>

definition kernel_dev_from_stat :: "(u64 \<Rightarrow> u32) \<Rightarrow> (u64 \<Rightarrow> u32) \<Rightarrow> u64 \<Rightarrow> u64" where
  "kernel_dev_from_stat c_major c_minor st_dev =
     (let major = ucast (c_major st_dev); minor = ucast (c_minor st_dev)
      in push_bit 20 major OR (minor AND 0xfffff))"

text \<open>The result of \<^verbatim>\<open>std::fs::metadata\<close>: whether the path is a directory, its device and inode.\<close>

record file_metadata =
  is_dir :: bool
  st_dev :: u64
  st_ino :: u64

definition denied_dir_inode ::
    "(u64 \<Rightarrow> u32) \<Rightarrow> (u64 \<Rightarrow> u32) \<Rightarrow> (byte list \<Rightarrow> file_metadata option) \<Rightarrow> byte list \<Rightarrow>
     daemon_error + jg_inode_key option" where
  "denied_dir_inode c_major c_minor metadata path =
     (let trimmed = trim path
      in if trimmed = [] \<or> 0x2F \<notin> set trimmed then Inr None
         else case metadata trimmed of
                None \<Rightarrow> Inr None
              | Some md \<Rightarrow>
                  if \<not> is_dir md then Inr None
                  else Inr (Some \<lparr>dev = kernel_dev_from_stat c_major c_minor (st_dev md),
                                  ino = st_ino md\<rparr>))"

definition ipv4_policy_key :: "byte list \<Rightarrow> u32 option" where
  "ipv4_policy_key entry =
     (let trimmed = trim entry
      in if trimmed = [] then None
         else map_option le_word (parse_ipv4 (hd (split_on 0x3A trimmed))))"

text \<open>Brackets around an IPv6 address are removed; a port is accepted behind them only.\<close>

definition ipv6_policy_key :: "byte list \<Rightarrow> byte list option" where
  "ipv6_policy_key entry =
     (let trimmed = trim entry
      in if trimmed = [] then None
         else let host = (case strip_prefix trimmed [0x5B] of
                            Some stripped \<Rightarrow>
                              (case split_once 0x5D stripped of Some (h, u) \<Rightarrow> h | None \<Rightarrow> trimmed)
                          | None \<Rightarrow> trimmed)
              in parse_ipv6 host)"

section \<open>Filling the maps\<close>

text \<open>The loop shared by the \<^verbatim>\<open>configure_\<close> functions: an entry without a key is skipped, an error
  ends the loop.\<close>

type_synonym 'k map_insert = "('k \<rightharpoonup> u8) \<Rightarrow> 'k \<Rightarrow> u8 \<Rightarrow> daemon_error + ('k \<rightharpoonup> u8)"

fun insert_entries ::
    "'k map_insert \<Rightarrow> ('e \<Rightarrow> daemon_error + 'k option) \<Rightarrow> 'e list \<Rightarrow> ('k \<rightharpoonup> u8) \<Rightarrow>
     daemon_error + ('k \<rightharpoonup> u8)" where
  "insert_entries ins key [] m = Inr m"
| "insert_entries ins key (e # es) m =
     (case key e of
        Inl err \<Rightarrow> Inl err
      | Inr None \<Rightarrow> insert_entries ins key es m
      | Inr (Some k) \<Rightarrow>
          (case ins m k 1 of
             Inl err \<Rightarrow> Inl err
           | Inr m' \<Rightarrow> insert_entries ins key es m'))"

definition ORCHESTRATOR_CONTROL_SOCKETS :: "byte list list" where
  "ORCHESTRATOR_CONTROL_SOCKETS = map byte_string [
     ''/run/docker.sock'',
     ''/var/run/docker.sock'',
     ''/run/containerd/containerd.sock'',
     ''/var/run/containerd/containerd.sock'',
     ''/run/podman/podman.sock'',
     ''/var/run/podman/podman.sock'',
     ''/run/crio/crio.sock'',
     ''/var/run/crio/crio.sock'',
     ''/run/libvirt/libvirt-sock'',
     ''/var/run/libvirt/libvirt-sock'',
     ''/run/libvirt/libvirt-sock-ro'',
     ''/var/run/libvirt/libvirt-sock-ro'',
     ''/run/dbus/system_bus_socket'',
     ''/var/run/dbus/system_bus_socket'',
     ''/run/systemd/private'',
     ''/var/run/systemd/private'']"

definition configure_unix_denylist ::
    "byte list map_insert \<Rightarrow> (byte list \<rightharpoonup> u8) \<Rightarrow> daemon_error + (byte list \<rightharpoonup> u8)" where
  "configure_unix_denylist ins m = insert_entries ins path_key_checked ORCHESTRATOR_CONTROL_SOCKETS m"

definition configure_unix_allowlist ::
    "byte list map_insert \<Rightarrow> byte list list \<Rightarrow> byte list \<Rightarrow> (byte list \<rightharpoonup> u8) \<Rightarrow>
     daemon_error + (byte list \<rightharpoonup> u8)" where
  "configure_unix_allowlist ins allowed_unix_sockets daemon_socket_path m =
     insert_entries ins path_key_checked (daemon_socket_path # allowed_unix_sockets) m"

text \<open>The entries are the immune paths, then the allowed executables of all agent nodes.\<close>

definition configure_allowed_exec_paths ::
    "byte list map_insert \<Rightarrow> byte list list \<Rightarrow> byte list list \<Rightarrow> (byte list \<rightharpoonup> u8) \<Rightarrow>
     daemon_error + (byte list \<rightharpoonup> u8)" where
  "configure_allowed_exec_paths ins immune allowed m =
     (case insert_entries ins path_key_checked immune m of
        Inl e \<Rightarrow> Inl e
      | Inr m \<Rightarrow> insert_entries ins path_key_checked allowed m)"

definition configure_ipv4_denylist ::
    "u32 map_insert \<Rightarrow> byte list list \<Rightarrow> (u32 \<rightharpoonup> u8) \<Rightarrow> daemon_error + (u32 \<rightharpoonup> u8)" where
  "configure_ipv4_denylist ins denied_ips m = insert_entries ins (Inr \<circ> ipv4_policy_key) denied_ips m"

definition configure_ipv4_allowlist ::
    "u32 map_insert \<Rightarrow> byte list list \<Rightarrow> (u32 \<rightharpoonup> u8) \<Rightarrow> daemon_error + (u32 \<rightharpoonup> u8)" where
  "configure_ipv4_allowlist ins allowed_ips m = insert_entries ins (Inr \<circ> ipv4_policy_key) allowed_ips m"

definition configure_ipv6_denylist ::
    "byte list map_insert \<Rightarrow> byte list list \<Rightarrow> (byte list \<rightharpoonup> u8) \<Rightarrow> daemon_error + (byte list \<rightharpoonup> u8)" where
  "configure_ipv6_denylist ins denied_ips m = insert_entries ins (Inr \<circ> ipv6_policy_key) denied_ips m"

definition configure_ipv6_allowlist ::
    "byte list map_insert \<Rightarrow> byte list list \<Rightarrow> (byte list \<rightharpoonup> u8) \<Rightarrow> daemon_error + (byte list \<rightharpoonup> u8)" where
  "configure_ipv6_allowlist ins allowed_ips m = insert_entries ins (Inr \<circ> ipv6_policy_key) allowed_ips m"

definition configure_denied_dir_inodes ::
    "(u64 \<Rightarrow> u32) \<Rightarrow> (u64 \<Rightarrow> u32) \<Rightarrow> (byte list \<Rightarrow> file_metadata option) \<Rightarrow>
     jg_inode_key map_insert \<Rightarrow> byte list list \<Rightarrow> (jg_inode_key \<rightharpoonup> u8) \<Rightarrow>
     daemon_error + (jg_inode_key \<rightharpoonup> u8)" where
  "configure_denied_dir_inodes c_major c_minor metadata ins paths m =
     insert_entries ins (denied_dir_inode c_major c_minor metadata) paths m"

text \<open>\<^verbatim>\<open>configure_runtime_controls\<close> for one object, whose map may be missing.\<close>

definition control_value :: "bool \<Rightarrow> bool \<Rightarrow> bool \<Rightarrow> u32" where
  "control_value safe_mode default_deny unix_default_deny =
     (let v = 0;
          v = (if safe_mode then v OR JG_CONTROL_AUDIT_ONLY else v);
          v = (if default_deny then v OR JG_CONTROL_CONNECT_DEFAULT_DENY else v)
      in if unix_default_deny then v OR JG_CONTROL_UNIX_DEFAULT_DENY else v)"

definition configure_runtime_controls ::
    "bool \<Rightarrow> bool \<Rightarrow> bool \<Rightarrow> (u32 \<rightharpoonup> u32) option \<Rightarrow> daemon_error + (u32 \<rightharpoonup> u32) option" where
  "configure_runtime_controls safe_mode default_deny unix_default_deny controls =
     (case controls of
        None \<Rightarrow> if safe_mode then Inl Runtime_controls_missing else Inr None
      | Some m \<Rightarrow> Inr (Some (m(0 \<mapsto> control_value safe_mode default_deny unix_default_deny))))"

section \<open>Trimming and keys\<close>

lemma put_nul_pad: "length s \<le> n \<Longrightarrow> put 0 s (replicate n 0) = nul_pad n s"
  by (simp add: put_def nul_pad_def)

lemma path_key_checked_eq:
  "path_key_checked p =
     (if trim p = [] then Inr None
      else if 128 \<le> length (trim p) then Inl (Key_too_long (length (trim p)))
      else Inr (Some (nul_pad 128 (trim p))))"
  by (auto simp: path_key_checked_def path_key_def put_nul_pad jg_consts Let_def min_def)

lemma name_key_checked_eq: "name_key_checked p = path_key_checked p"
  by (auto simp: name_key_checked_def name_key_bytes_checked_def path_key_checked_eq put_nul_pad
      jg_consts Let_def)

section \<open>The map interface\<close>

text \<open>What the daemon relies on: a successful insertion stores the value under the key and
  changes nothing else; it succeeds while the map has room.\<close>

locale hash_map_api =
  fixes ins :: "'k map_insert"
  assumes ins_result: "ins m k v = Inr m' \<Longrightarrow> m' = m(k \<mapsto> v)"
begin

lemma map_flag_upd: "map_flag (m(k' \<mapsto> 1)) k \<longleftrightarrow> k = k' \<or> map_flag m k"
  by (simp add: map_flag_def)

lemma insert_entries_flag:
  "insert_entries ins key es m = Inr m' \<Longrightarrow>
   map_flag m' k \<longleftrightarrow> map_flag m k \<or> (\<exists>e\<in>set es. key e = Inr (Some k))"
proof (induction es arbitrary: m)
  case Nil
  then show ?case by simp
next
  case (Cons e es)
  show ?case
  proof (cases "key e")
    case (Inl err)
    with Cons.prems show ?thesis by simp
  next
    case (Inr ko)
    show ?thesis
    proof (cases ko)
      case None
      with Inr Cons.prems Cons.IH [of m] show ?thesis by simp
    next
      case (Some k')
      with Inr Cons.prems obtain m1 where m1: "ins m k' 1 = Inr m1" "insert_entries ins key es m1 = Inr m'"
        by (auto split: sum.splits)
      then have "m1 = m(k' \<mapsto> 1)" by (auto dest: ins_result)
      with Cons.IH [OF m1(2)] Inr Some show ?thesis
        by (simp add: map_flag_upd eq_commute [of k k'] del: fun_upd_apply) blast
    qed
  qed
qed

end

locale bounded_map_api = hash_map_api ins for ins :: "'k map_insert" +
  fixes cap :: nat
  assumes ins_room: "finite (dom m) \<Longrightarrow> k \<in> dom m \<or> card (dom m) < cap \<Longrightarrow> \<exists>m'. ins m k v = Inr m'"
begin

lemma insert_entries_succeeds:
  "\<forall>e\<in>set es. \<exists>k. key e = Inr k \<Longrightarrow> finite (dom m) \<Longrightarrow> card (dom m) + length es \<le> cap \<Longrightarrow>
   \<exists>m'. insert_entries ins key es m = Inr m'"
proof (induction es arbitrary: m)
  case Nil
  then show ?case by simp
next
  case (Cons e es)
  from Cons.prems(1) obtain ko where ko: "key e = Inr ko" by auto
  show ?case
  proof (cases ko)
    case None
    with ko Cons show ?thesis by simp
  next
    case (Some k)
    have "card (dom m) < cap" using Cons.prems(3) by simp
    then obtain m' where ins: "ins m k 1 = Inr m'"
      using ins_room [OF Cons.prems(2)] by blast
    then have m': "m' = m(k \<mapsto> 1)" by (rule ins_result)
    have "card (dom m') \<le> Suc (card (dom m))" "finite (dom m')"
      using Cons.prems(2) by (auto simp: m' card_insert_if)
    with Cons.IH [of m'] Cons.prems(1,3) ko Some ins show ?thesis by simp
  qed
qed

end

text \<open>A hash map of the kernel with \<open>cap\<close> entries.\<close>

definition bounded_insert :: "nat \<Rightarrow> 'k map_insert" where
  "bounded_insert cap m k v =
     (if k \<in> dom m \<or> card (dom m) < cap then Inr (m(k \<mapsto> v)) else Inl Map_error)"

interpretation bounded: bounded_map_api "bounded_insert cap" cap for cap
  by unfold_locales (auto simp: bounded_insert_def split: if_splits)

section \<open>Requests on the wire\<close>

text \<open>The memory image of a \<^verbatim>\<open>struct jg_request\<close>: its members without gaps. The layout lemma
  below shows that these are the offsets of the C structure.\<close>

definition encode_request :: "jg_request \<Rightarrow> byte list" where
  "encode_request r =
     word_bytes 8 (cookie r) @ word_bytes 4 (pid r) @ word_bytes 4 (jg_request_type_val (req_type r)) @
     word_bytes 2 (family r) @ resource_path r @ pad_after_resource r @ dest r @ payload_preview r @
     word_bytes 4 (source_program r) @ word_bytes 4 (ppid r)"

lemma request_fields:
  "field_at [''cookie''] struct_jg_request = Some (0, CInt C_ullong)"
  "field_at [''pid''] struct_jg_request = Some (8, CInt C_uint)"
  "field_at [''type''] struct_jg_request = Some (12, CEnum 4)"
  "field_at [''family''] struct_jg_request = Some (16, CInt C_ushort)"
  "field_at [''resource_path''] struct_jg_request = Some (18, CArr (CInt C_char) 128)"
  "field_at [''__pad_after_resource''] struct_jg_request = Some (146, CArr (CInt C_uchar) 2)"
  "field_at [''dest'', ''v4'', ''addr''] struct_jg_request = Some (148, CInt C_uint)"
  "field_at [''dest'', ''v4'', ''port''] struct_jg_request = Some (152, CInt C_ushort)"
  "field_at [''dest'', ''v6'', ''addr''] struct_jg_request = Some (148, CArr (CInt C_uchar) 16)"
  "field_at [''dest'', ''v6'', ''port''] struct_jg_request = Some (164, CInt C_ushort)"
  "field_at [''dest'', ''path''] struct_jg_request = Some (148, CArr (CInt C_char) 108)"
  "field_at [''payload_preview''] struct_jg_request = Some (256, CArr (CInt C_uchar) 64)"
  "field_at [''source_program''] struct_jg_request = Some (320, CInt C_uint)"
  "field_at [''ppid''] struct_jg_request = Some (324, CInt C_uint)"
  by (simp_all add: struct_jg_request_def jg_consts placement layout cong: layout_cong)

lemma length_encode_request: "wf_request r \<Longrightarrow> length (encode_request r) = 328"
  by (simp add: encode_request_def wf_request_def jg_consts)

lemma raw_of_encoded:
  assumes "wf_request r"
  shows "raw_of_bytes (encode_request r) =
    \<lparr>r_cookie = cookie r, r_pid = pid r, r_req_type = jg_request_type_val (req_type r),
     r_family = family r, r_resource_path = resource_path r,
     r_pad_after_resource = pad_after_resource r, r_dest = dest r,
     r_payload_preview = payload_preview r, r_source_program = source_program r, r_ppid = ppid r\<rparr>"
  using assms
  by (simp add: raw_of_bytes_def encode_request_def wf_request_def jg_consts window_def
      le_word_word_bytes)

fun req_type_view :: "jg_request_type \<Rightarrow> LsmRequestType" where
  "req_type_view REQ_CONNECT = Connect"
| "req_type_view REQ_SENDMSG = SendMsg"
| "req_type_view REQ_EXECVE = Execve"
| "req_type_view REQ_INODE_CREATE = InodeCreate"
| "req_type_view REQ_INODE_UNLINK = InodeUnlink"

lemma req_type_of_val: "req_type_of (jg_request_type_val rt) = Inr (req_type_view rt)"
  by (cases rt) (simp_all add: req_type_of_def)

text \<open>What user space gets to see of a request.\<close>

definition resource_view :: "jg_request \<Rightarrow> daemon_error + resource" where
  "resource_view r =
     (let text = (\<lambda>s. if utf8_valid s then Inr (Text s) else Inl From_utf8_error)
      in if req_type r \<in> {REQ_EXECVE, REQ_INODE_CREATE, REQ_INODE_UNLINK}
         then text (c_str (resource_path r))
         else if family r = 2
         then Inr (Endpoint4 (take 4 (dest r)) (from_be_bytes (dest r ! 4) (dest r ! 5)))
         else if family r = 10
         then Inr (Endpoint6 (take 16 (dest r)) (from_be_bytes (dest r ! 16) (dest r ! 17)))
         else if family r = 1 then text (c_str (dest r))
         else Inr (Family (family r)))"

definition request_view :: "jg_request \<Rightarrow> resource \<Rightarrow> LsmRequest" where
  "request_view r res =
     \<lparr>l_cookie = cookie r, l_pid = pid r, l_ppid = ppid r, l_req_type = req_type_view (req_type r),
      l_source_program = source_program r, l_family = family r, l_resource = res,
      l_payload_preview = c_str (payload_preview r)\<rparr>"

lemma format_resource_view:
  "r_family raw = family r \<Longrightarrow> r_dest raw = dest r \<Longrightarrow> r_resource_path raw = resource_path r \<Longrightarrow>
   format_resource raw (req_type_view (req_type r)) = resource_view r"
  by (cases "req_type r")
    (auto simp: format_resource_def resource_view_def nul_terminated_string_def c_str_def Let_def
      AF_INET_def AF_INET6_def AF_UNIX_def)

lemma decode_encoded:
  assumes "wf_request r"
  shows "try_from (raw_of_bytes (encode_request r)) = map_sum id (request_view r) (resource_view r)"
  by (simp add: raw_of_encoded [OF assms] try_from_def req_type_of_val format_resource_view
      request_view_def c_str_def split: sum.splits)

section \<open>Routing\<close>

lemma load_routes_eq:
  "load_routes lsm_objects (jg_source_program_val JG_SRC_SOCKET_CONNECT) = Some 0"
  "load_routes lsm_objects (jg_source_program_val JG_SRC_SOCKET_SENDMSG) = Some 1"
  "load_routes lsm_objects (jg_source_program_val JG_SRC_BPRM_CHECK_SECURITY) = Some 2"
  "load_routes lsm_objects (jg_source_program_val JG_SRC_INODE_CREATE) = Some 3"
  "load_routes lsm_objects (jg_source_program_val JG_SRC_INODE_UNLINK) = Some 4"
  by (simp_all add: load_routes_def lsm_objects_def JG_SRC_CAPABLE_def JG_SRC_SB_MOUNT_def
      JG_SRC_SB_PIVOTROOT_def JG_SRC_MOVE_MOUNT_def JG_SRC_FILE_OPEN_def enumerate_eq_zip)

fun object_index :: "jg_source_program \<Rightarrow> nat" where
  "object_index JG_SRC_SOCKET_CONNECT = 0"
| "object_index JG_SRC_SOCKET_SENDMSG = 1"
| "object_index JG_SRC_BPRM_CHECK_SECURITY = 2"
| "object_index JG_SRC_INODE_CREATE = 3"
| "object_index JG_SRC_INODE_UNLINK = 4"

lemma load_routes_source: "load_routes lsm_objects (jg_source_program_val src) = Some (object_index src)"
  by (cases src) (simp_all only: load_routes_eq object_index.simps)

text \<open>A record that user space accepts: a well-formed request of a requesting hook with a readable
  resource.\<close>

definition readable :: "jg_request \<Rightarrow> bool" where
  "readable r \<longleftrightarrow> (\<exists>res. resource_view r = Inr res)"

definition issued_by :: "jg_request \<Rightarrow> jg_source_program \<Rightarrow> bool" where
  "issued_by r src \<longleftrightarrow> source_program r = jg_source_program_val src"

lemma poll_one_encoded:
  assumes "wf_request r" "issued_by r src"
  shows "poll_one (load_routes lsm_objects) (encode_request r) pending =
    (case resource_view r of
       Inl e \<Rightarrow> (pending, [])
     | Inr res \<Rightarrow> (pending(cookie r \<mapsto> object_index src), [request_view r res]))"
  using assms
  by (auto simp: poll_one_def length_encode_request decode_encoded route_of_def request_view_def
      issued_by_def load_routes_source split: sum.splits)

fun deliveries :: "jg_request list \<Rightarrow> LsmRequest list" where
  "deliveries [] = []"
| "deliveries (r # rs) =
     (case resource_view r of Inl e \<Rightarrow> deliveries rs | Inr res \<Rightarrow> request_view r res # deliveries rs)"

lemma poll_loop_encoded:
  assumes "\<forall>r\<in>set rs. wf_request r \<and> (\<exists>src. issued_by r src)"
  shows "snd (poll_loop (load_routes lsm_objects) (map encode_request rs) pending) = deliveries rs"
  using assms
proof (induction rs arbitrary: pending)
  case Nil
  then show ?case by simp
next
  case (Cons r rs)
  then obtain src where "wf_request r" "issued_by r src" by auto
  note one = poll_one_encoded [OF this, of pending]
  from Cons have "\<And>p. snd (poll_loop (load_routes lsm_objects) (map encode_request rs) p) = deliveries rs"
    by simp
  then show ?case
    by (cases "resource_view r") (simp_all add: one split_beta Let_def)
qed

lemma poll_loop_other:
  assumes "\<forall>r\<in>set rs. wf_request r \<and> (\<exists>src. issued_by r src)" "ck \<notin> cookie ` set rs"
  shows "fst (poll_loop (load_routes lsm_objects) (map encode_request rs) pending) ck = pending ck"
  using assms
proof (induction rs arbitrary: pending)
  case Nil
  then show ?case by simp
next
  case (Cons r rs)
  then obtain src where src: "wf_request r" "issued_by r src" by auto
  let ?p = "fst (poll_one (load_routes lsm_objects) (encode_request r) pending)"
  have "?p ck = pending ck"
    using Cons.prems(2) poll_one_encoded [OF src, of pending] by (auto split: sum.splits)
  with Cons.IH [of ?p] Cons.prems show ?case by (simp add: split_beta Let_def)
qed

text \<open>Every readable request gets a route to the object that issued it, unless a later record has the
  same cookie.\<close>

lemma poll_loop_route:
  assumes "\<forall>r\<in>set rs. wf_request r \<and> (\<exists>src. issued_by r src)" "distinct (map cookie rs)"
    and "r \<in> set rs" "readable r" "issued_by r src"
  shows "fst (poll_loop (load_routes lsm_objects) (map encode_request rs) pending) (cookie r) =
    Some (object_index src)"
  using assms
proof (induction rs arbitrary: pending)
  case Nil
  then show ?case by simp
next
  case (Cons q rs)
  let ?p = "fst (poll_one (load_routes lsm_objects) (encode_request q) pending)"
  show ?case
  proof (cases "q = r")
    case True
    then have "?p (cookie r) = Some (object_index src)"
      using Cons.prems poll_one_encoded [of r src pending] by (auto simp: readable_def)
    moreover have "cookie r \<notin> cookie ` set rs" using True Cons.prems(2) by auto
    ultimately show ?thesis
      using Cons.prems(1) poll_loop_other [of rs "cookie r" ?p] by (simp add: split_beta Let_def)
  next
    case False
    with Cons.IH [of ?p] Cons.prems show ?thesis by (simp add: split_beta Let_def)
  qed
qed

section \<open>Properties\<close>

text \<open>C28: a request survives the trip through the ring buffer. Its image has the size of the C structure,
  distinct requests have distinct images, and decoding one gives every field of the request, with
  the resource that its type and family call for, or the error that the string is not UTF-8.\<close>

theorem request_roundtrip:
  assumes "wf_request r" "wf_request r'"
  shows "length (encode_request r) = ct_size struct_jg_request \<and>
    (encode_request r = encode_request r' \<longleftrightarrow> r = r') \<and>
    try_from (raw_of_bytes (encode_request r)) = map_sum id (request_view r) (resource_view r)"
proof -
  have inj: "jg_request_type_val a = jg_request_type_val b \<Longrightarrow> a = b" for a b
    by (cases a; cases b) simp_all
  have "r = r'" if "encode_request r = encode_request r'"
  proof -
    from that have "raw_of_bytes (encode_request r) = raw_of_bytes (encode_request r')" by simp
    then show ?thesis
      unfolding raw_of_encoded [OF assms(1)] raw_of_encoded [OF assms(2)]
      by (auto intro: jg_request.equality dest: inj)
  qed
  then show ?thesis
    using assms(1) by (auto simp: length_encode_request decode_encoded layout)
qed

theorem request_roundtrip_witness:
  "try_from (raw_of_bytes (encode_request (zeroed_request\<lparr>req_type := REQ_EXECVE\<rparr>))) =
   Inr (request_view (zeroed_request\<lparr>req_type := REQ_EXECVE\<rparr>) (Text []))"
proof -
  have "wf_request (zeroed_request\<lparr>req_type := REQ_EXECVE\<rparr>)"
    by (simp add: wf_request_def zeroed_request_def)
  from request_roundtrip [OF this this] show ?thesis
    by (simp add: resource_view_def zeroed_request_def jg_consts Let_def)
qed

text \<open>The hooks read back exactly the three switches that the daemon packs into the control word, so
  that setting one never turns on another. Without the map, safe mode is an error.\<close>

theorem control_bits_agree:
  "(case configure_runtime_controls safe dd udd (Some controls) of
      Inr (Some c) \<Rightarrow>
        (jg_audit_only_enabled c \<longleftrightarrow> safe) \<and> (jg_connect_default_deny_enabled c \<longleftrightarrow> dd) \<and>
        (jg_unix_default_deny_enabled c \<longleftrightarrow> udd)
    | _ \<Rightarrow> False) \<and>
   isl (configure_runtime_controls safe dd udd None) = safe"
  by (cases safe; cases dd; cases udd)
    (simp_all add: configure_runtime_controls_def control_value_def jg_audit_only_enabled_def
      jg_connect_default_deny_enabled_def jg_unix_default_deny_enabled_def control_bit_def
      JG_CONTROL_AUDIT_ONLY_def JG_CONTROL_CONNECT_DEFAULT_DENY_def JG_CONTROL_UNIX_DEFAULT_DENY_def
      Let_def)

end
