(* ===== verification/Jg_System.thy ===== *)
theory Jg_System
  imports Bprm_Check Inode_Hooks Socket_Sendmsg Lsm_Daemon
begin

text \<open>
  The hooks and the daemon together. Every object has its own maps; the requesting hooks share
  the pinned ring buffer of \<^verbatim>\<open>bpf/common/maps.h\<close>. \<open>dispatch\<close> runs the hook that the kernel calls;
  the step relation interleaves hook calls with polling, verdicts and changes of the policy
  maps by the daemon. Invariants of the reachable states are proved by rule induction from the
  contracts of the hooks.
\<close>

section \<open>State\<close>

record kernel =
  k_exec :: exec_maps
  k_create :: inode_maps
  k_unlink :: inode_maps
  k_connect :: connect_maps
  k_sendmsg :: egress_maps
  k_capable :: ctl_maps
  k_sb_mount :: ctl_maps
  k_sb_pivotroot :: ctl_maps
  k_move_mount :: ctl_maps
  k_file_open :: ctl_maps
  k_requests :: "jg_request ringbuf"

text \<open>The calls of the LSM framework, with the arguments of the hooks.\<close>

datatype lsm_call =
    Bprm_check addr
  | Inode_create addr addr u16
  | Inode_unlink addr addr
  | Socket_connect addr addr int
  | Socket_sendmsg addr addr int
  | Capable addr addr int u32
  | Sb_mount addr addr addr u64 addr
  | Sb_pivotroot addr addr
  | Move_mount addr addr
  | File_open addr

fun call_hook :: "bpf_env \<Rightarrow> lsm_call \<Rightarrow> kernel \<Rightarrow> int \<times> jg_request ringbuf" where
  "call_hook env (Bprm_check bprm) k = jg_bprm_check_security env (k_exec k) bprm (k_requests k)"
| "call_hook env (Inode_create dir dentry mode) k =
     jg_inode_create env (k_create k) (dir, dentry, mode) (k_requests k)"
| "call_hook env (Inode_unlink dir dentry) k =
     jg_inode_unlink env (k_unlink k) (dir, dentry) (k_requests k)"
| "call_hook env (Socket_connect sock address addrlen) k =
     jg_socket_connect env (k_connect k) (sock, address, addrlen) (k_requests k)"
| "call_hook env (Socket_sendmsg sock msg sz) k =
     jg_socket_sendmsg env (k_sendmsg k) (sock, msg, sz) (k_requests k)"
| "call_hook env (Capable cred ns cap opts) k =
     ringless jg_capable env (k_capable k) (cred, ns, cap, opts) (k_requests k)"
| "call_hook env (Sb_mount dev_name path fstype flags data) k =
     ringless jg_sb_mount env (k_sb_mount k) (dev_name, path, fstype, flags, data) (k_requests k)"
| "call_hook env (Sb_pivotroot old_path new_path) k =
     ringless jg_sb_pivotroot env (k_sb_pivotroot k) (old_path, new_path) (k_requests k)"
| "call_hook env (Move_mount from_path to_path) k =
     ringless jg_move_mount env (k_move_mount k) (from_path, to_path) (k_requests k)"
| "call_hook env (File_open file) k =
     ringless jg_file_open env (k_file_open k) file (k_requests k)"

definition dispatch :: "bpf_env \<Rightarrow> lsm_call \<Rightarrow> kernel \<Rightarrow> int \<times> kernel" where
  "dispatch env c k = (let (r, rb) = call_hook env c k in (r, k\<lparr>k_requests := rb\<rparr>))"

text \<open>The control maps of the object that a call reaches.\<close>

fun controls_of :: "lsm_call \<Rightarrow> kernel \<Rightarrow> ctl_maps" where
  "controls_of (Bprm_check _) k = ctl_maps.truncate (k_exec k)"
| "controls_of (Inode_create _ _ _) k = ctl_maps.truncate (k_create k)"
| "controls_of (Inode_unlink _ _) k = ctl_maps.truncate (k_unlink k)"
| "controls_of (Socket_connect _ _ _) k = ctl_maps.truncate (k_connect k)"
| "controls_of (Socket_sendmsg _ _ _) k = ctl_maps.truncate (k_sendmsg k)"
| "controls_of (Capable _ _ _ _) k = k_capable k"
| "controls_of (Sb_mount _ _ _ _ _) k = k_sb_mount k"
| "controls_of (Sb_pivotroot _ _) k = k_sb_pivotroot k"
| "controls_of (Move_mount _ _) k = k_move_mount k"
| "controls_of (File_open _) k = k_file_open k"

definition governed :: "bpf_env \<Rightarrow> lsm_call \<Rightarrow> kernel \<Rightarrow> bool" where
  "governed env c k = jg_in_governed_scope env (governed_scope (controls_of c k))"

definition audited :: "lsm_call \<Rightarrow> kernel \<Rightarrow> bool" where
  "audited c k = jg_audit_only_enabled (runtime_controls (controls_of c k))"

lemma truncate_controls [simp]:
  "governed_scope (ctl_maps.truncate m) = governed_scope m"
  "runtime_controls (ctl_maps.truncate m) = runtime_controls m"
  by (simp_all add: ctl_maps.truncate_def)

section \<open>Calls\<close>

text \<open>The facts of the ten interpretations of the hook contract, for a dispatched call.\<close>

lemma call_ret: "fst (call_hook env c k) = 0 \<or> fst (call_hook env c k) = - 1"
  by (cases c)
    (use bprm.hook_ret inode_create.hook_ret inode_unlink.hook_ret socket_connect.hook_ret
       socket_sendmsg.hook_ret capable.hook_ret sb_mount.hook_ret sb_pivotroot.hook_ret
       move_mount.hook_ret file_open.hook_ret in \<open>simp_all add: JG_EPERM_def\<close>)

lemma call_ungoverned: "\<not> governed env c k \<Longrightarrow> call_hook env c k = (0, k_requests k)"
  by (cases c)
    (simp_all add: governed_def bprm.hook_ungoverned inode_create.hook_ungoverned
       inode_unlink.hook_ungoverned socket_connect.hook_ungoverned socket_sendmsg.hook_ungoverned
       capable.hook_ungoverned sb_mount.hook_ungoverned sb_pivotroot.hook_ungoverned
       move_mount.hook_ungoverned file_open.hook_ungoverned)

lemma call_audited: "audited c k \<Longrightarrow> fst (call_hook env c k) = 0"
  by (cases c)
    (simp_all add: audited_def bprm.hook_audit inode_create.hook_audit inode_unlink.hook_audit
       socket_connect.hook_audit socket_sendmsg.hook_audit capable.hook_audit sb_mount.hook_audit
       sb_pivotroot.hook_audit move_mount.hook_audit file_open.hook_audit)

text \<open>What a call may append to the ring buffer: a well-formed request whose type and source belong
  together and whose payload preview is empty.\<close>

definition source_of_type :: "jg_request_type \<Rightarrow> jg_source_program" where
  "source_of_type rt =
     (case rt of REQ_CONNECT \<Rightarrow> JG_SRC_SOCKET_CONNECT | REQ_SENDMSG \<Rightarrow> JG_SRC_SOCKET_SENDMSG
      | REQ_EXECVE \<Rightarrow> JG_SRC_BPRM_CHECK_SECURITY | REQ_INODE_CREATE \<Rightarrow> JG_SRC_INODE_CREATE
      | REQ_INODE_UNLINK \<Rightarrow> JG_SRC_INODE_UNLINK)"

definition good_request :: "jg_request \<Rightarrow> bool" where
  "good_request r \<longleftrightarrow>
     wf_request r \<and> issued_by r (source_of_type (req_type r)) \<and>
     pad_after_resource r = replicate 2 0 \<and> payload_preview r = replicate 64 0"

lemma good_base:
  "source_of_type rt = src \<Longrightarrow>
   length path = 128 \<Longrightarrow> length d = 108 \<Longrightarrow>
   good_request ((base_request env rt src)\<lparr>resource_path := path, family := fam, dest := d\<rparr>)"
  by (simp add: good_request_def wf_request_def base_request_def zeroed_request_def jg_consts issued_by_def)

lemma good_exec_request: "good_request (exec_request env bprm)"
  by (simp add: exec_request_def good_request_def wf_request_def base_request_def zeroed_request_def
      jg_consts issued_by_def source_of_type_def Let_def)

lemma good_inode_request:
  "source_of_type rt = src \<Longrightarrow> good_request (inode_request env rt src dentry)"
  by (simp add: inode_request_def good_request_def wf_request_def base_request_def zeroed_request_def
      jg_consts issued_by_def)

lemma read_dest_fields [simp]:
  "length (dest (read_dest env a t p off n req)) = length (dest req)"
  "payload_preview (read_dest env a t p off n req) = payload_preview req"
  "pad_after_resource (read_dest env a t p off n req) = pad_after_resource req"
  "resource_path (read_dest env a t p off n req) = resource_path req"
  "source_program (read_dest env a t p off n req) = source_program req"
  "req_type (read_dest env a t p off n req) = req_type req"
  by (simp_all add: read_dest_def)

lemma good_connect_case: "connect_case env m a = Some (req, d) \<Longrightarrow> good_request req"
  by (auto simp: connect_case_def connect_inet_def connect_inet6_def connect_unix_def Let_def
      good_request_def wf_request_def base_request_def zeroed_request_def jg_consts issued_by_def
      source_of_type_def split: if_splits)

lemma good_sendmsg_case: "sendmsg_case env m a = Some (req, d) \<Longrightarrow> good_request req"
  by (auto simp: sendmsg_case_def sendmsg_inet_def sendmsg_inet6_def Let_def
      good_request_def wf_request_def base_request_def zeroed_request_def jg_consts issued_by_def
      source_of_type_def split: if_splits)

definition appends :: "jg_request ringbuf \<Rightarrow> jg_request ringbuf \<Rightarrow> bool" where
  "appends rb rb' \<longleftrightarrow>
     (\<exists>rs. length rs \<le> 1 \<and> (\<forall>r\<in>set rs. good_request r) \<and>
        rb' = rb\<lparr>rb_records := rb_records rb @ rs\<rparr>)"

lemma appends_none [simp, intro]: "appends rb rb"
  by (auto simp: appends_def intro: exI [of _ "[]"])

lemma appends_one: "good_request r \<Longrightarrow> appends rb (rb\<lparr>rb_records := rb_records rb @ [r]\<rparr>)"
  by (auto simp: appends_def intro: exI [of _ "[r]"])

lemma call_ring: "appends (k_requests k) (snd (call_hook env c k))"
  by (cases c)
    (auto simp: bprm_eq inode_create_eq inode_unlink_eq connect_eq sendmsg_eq ringless_def
      good_exec_request good_inode_request good_connect_case good_sendmsg_case source_of_type_def
      intro!: appends_one split: option.splits)

section \<open>Verdicts\<close>

text \<open>A verdict reaches the \<^verbatim>\<open>verdicts\<close> map of one object, by its index in the daemon's list.\<close>

definition verdict_of_u32 :: "u32 \<Rightarrow> jg_verdict" where
  "verdict_of_u32 n = (if n = 1 then VERDICT_ALLOW else if n = 2 then VERDICT_DENY else VERDICT_UNKNOWN)"

definition payload_view :: "VerdictPayload \<Rightarrow> jg_verdict_payload" where
  "payload_view p = \<lparr>v_cookie = vp_cookie p, v_verdict = verdict_of_u32 (vp_verdict p)\<rparr>"

definition kernel_verdicts :: "(u64 \<rightharpoonup> VerdictPayload) \<Rightarrow> u64 \<rightharpoonup> jg_verdict_payload" where
  "kernel_verdicts vm = (\<lambda>ck. map_option payload_view (vm ck))"

definition set_verdicts :: "(u64 \<rightharpoonup> VerdictPayload) list \<Rightarrow> kernel \<Rightarrow> kernel" where
  "set_verdicts vms k =
     (if length vms = 10
      then k\<lparr>k_connect := (k_connect k)\<lparr>verdicts := kernel_verdicts (vms ! 0)\<rparr>,
             k_sendmsg := (k_sendmsg k)\<lparr>verdicts := kernel_verdicts (vms ! 1)\<rparr>,
             k_exec := (k_exec k)\<lparr>verdicts := kernel_verdicts (vms ! 2)\<rparr>,
             k_create := (k_create k)\<lparr>verdicts := kernel_verdicts (vms ! 3)\<rparr>,
             k_unlink := (k_unlink k)\<lparr>verdicts := kernel_verdicts (vms ! 4)\<rparr>,
             k_capable := (k_capable k)\<lparr>verdicts := kernel_verdicts (vms ! 5)\<rparr>,
             k_sb_mount := (k_sb_mount k)\<lparr>verdicts := kernel_verdicts (vms ! 6)\<rparr>,
             k_sb_pivotroot := (k_sb_pivotroot k)\<lparr>verdicts := kernel_verdicts (vms ! 7)\<rparr>,
             k_move_mount := (k_move_mount k)\<lparr>verdicts := kernel_verdicts (vms ! 8)\<rparr>,
             k_file_open := (k_file_open k)\<lparr>verdicts := kernel_verdicts (vms ! 9)\<rparr>\<rparr>
      else k)"

text \<open>Two kernels with the same policy: they agree except for the verdict maps.\<close>

definition same_policy :: "kernel \<Rightarrow> kernel \<Rightarrow> bool" where
  "same_policy k k' \<longleftrightarrow>
     k_requests k' = k_requests k \<and>
     (\<exists>v. k_exec k' = (k_exec k)\<lparr>verdicts := v\<rparr>) \<and>
     (\<exists>v. k_create k' = (k_create k)\<lparr>verdicts := v\<rparr>) \<and>
     (\<exists>v. k_unlink k' = (k_unlink k)\<lparr>verdicts := v\<rparr>) \<and>
     (\<exists>v. k_connect k' = (k_connect k)\<lparr>verdicts := v\<rparr>) \<and>
     (\<exists>v. k_sendmsg k' = (k_sendmsg k)\<lparr>verdicts := v\<rparr>) \<and>
     (\<exists>v. k_capable k' = (k_capable k)\<lparr>verdicts := v\<rparr>) \<and>
     (\<exists>v. k_sb_mount k' = (k_sb_mount k)\<lparr>verdicts := v\<rparr>) \<and>
     (\<exists>v. k_sb_pivotroot k' = (k_sb_pivotroot k)\<lparr>verdicts := v\<rparr>) \<and>
     (\<exists>v. k_move_mount k' = (k_move_mount k)\<lparr>verdicts := v\<rparr>) \<and>
     (\<exists>v. k_file_open k' = (k_file_open k)\<lparr>verdicts := v\<rparr>)"

lemma call_same_policy: "same_policy k k' \<Longrightarrow> call_hook env c k' = call_hook env c k"
  by (cases c)
    (auto simp: same_policy_def bprm.hook_verdicts inode_create.hook_verdicts
      inode_unlink.hook_verdicts socket_connect.hook_verdicts socket_sendmsg.hook_verdicts
      capable.hook_verdicts sb_mount.hook_verdicts sb_pivotroot.hook_verdicts
      move_mount.hook_verdicts file_open.hook_verdicts)

lemma dispatch_same_policy:
  "same_policy k k' \<Longrightarrow>
   fst (dispatch env c k') = fst (dispatch env c k) \<and>
   same_policy (snd (dispatch env c k)) (snd (dispatch env c k'))"
  by (simp add: dispatch_def call_same_policy split_beta Let_def)
    (simp add: same_policy_def)

lemma verdict_self [simp]: "\<exists>v. m = m\<lparr>verdicts := v\<rparr>"
  by (rule exI [of _ "verdicts m"]) simp

lemma same_policy_refl [simp]: "same_policy k k"
  by (simp add: same_policy_def)

lemma same_policy_set_verdicts: "same_policy k k' \<Longrightarrow> same_policy k (set_verdicts vms k')"
  by (auto simp: same_policy_def set_verdicts_def)

section \<open>Steps\<close>

record system =
  kern :: kernel
  mon :: monitor

datatype event =
    Called bpf_env lsm_call int "jg_request list"
  | Polled "LsmRequest list"
  | Verdict_sent u64 Verdict bool
  | Reconfigured

text \<open>The daemon sees the ring buffer as the encoded records, and drains it.\<close>

definition poll_system :: "system \<Rightarrow> LsmRequest list \<times> system" where
  "poll_system s =
     (let rb = k_requests (kern s);
          (reqs, mon') = poll_requests ((mon s)\<lparr>ring := map encode_request (rb_records rb)\<rparr>)
      in (reqs, s\<lparr>kern := (kern s)\<lparr>k_requests := rb\<lparr>rb_records := []\<rparr>\<rparr>, mon := mon'\<rparr>))"

text \<open>The records that a call added to the ring buffer.\<close>

definition new_records :: "jg_request ringbuf \<Rightarrow> jg_request ringbuf \<Rightarrow> jg_request list" where
  "new_records rb rb' = drop (length (rb_records rb)) (rb_records rb')"

text \<open>Reconfiguration replaces the maps of the objects but leaves the ring buffer alone.\<close>

inductive step :: "system \<Rightarrow> event \<Rightarrow> system \<Rightarrow> bool" where
  call: "dispatch env c (kern s) = (r, k') \<Longrightarrow>
    step s (Called env c r (new_records (k_requests (kern s)) (k_requests k'))) (s\<lparr>kern := k'\<rparr>)"
| poll: "poll_system s = (reqs, s') \<Longrightarrow> step s (Polled reqs) s'"
| verdict: "send_verdict ins ck v (mon s) = (res, mon') \<Longrightarrow>
    step s (Verdict_sent ck v (\<not> isl res))
      (s\<lparr>mon := mon', kern := set_verdicts (verdict_maps mon') (kern s)\<rparr>)"
| reconfigure: "k_requests k' = k_requests (kern s) \<Longrightarrow> step s Reconfigured (s\<lparr>kern := k'\<rparr>)"

inductive_cases step_callE: "step s (Called env c r rs) s'"
inductive_cases step_pollE: "step s (Polled reqs) s'"
inductive_simps step_reconfigured: "step s Reconfigured s'"

inductive steps :: "system \<Rightarrow> event list \<Rightarrow> system \<Rightarrow> bool" where
  steps_nil: "steps s [] s"
| steps_snoc: "steps s es s' \<Longrightarrow> step s' e s'' \<Longrightarrow> steps s (es @ [e]) s''"

text \<open>A freshly loaded system: nothing in the ring buffer, no pending routes.\<close>

definition initial :: "system \<Rightarrow> bool" where
  "initial s \<longleftrightarrow>
     rb_records (k_requests (kern s)) = [] \<and> rb_open (k_requests (kern s)) = 0 \<and>
     program_routes (mon s) = load_routes lsm_objects \<and> pending_routes (mon s) = Map.empty"

section \<open>Invariant of the reachable states\<close>

definition inv :: "system \<Rightarrow> bool" where
  "inv s \<longleftrightarrow>
     rb_open (k_requests (kern s)) = 0 \<and> (\<forall>r\<in>set (rb_records (k_requests (kern s))). good_request r) \<and>
     program_routes (mon s) = load_routes lsm_objects"

lemma inv_initial: "initial s \<Longrightarrow> inv s"
  by (simp add: initial_def inv_def)

lemma poll_requests_routes: "program_routes (snd (poll_requests m)) = program_routes m"
  by (simp add: poll_requests_def split_beta Let_def)

lemma send_verdict_routes: "program_routes (snd (send_verdict ins ck v m)) = program_routes m"
  by (simp add: send_verdict_def Let_def split: option.splits sum.splits)

lemma set_verdicts_requests [simp]: "k_requests (set_verdicts vms k) = k_requests k"
  by (simp add: set_verdicts_def)

lemma dispatch_ring: "appends (k_requests k) (k_requests (snd (dispatch env c k)))"
  using call_ring [of k env c] by (simp add: dispatch_def split_beta Let_def)

lemma inv_step: "step s e s' \<Longrightarrow> inv s \<Longrightarrow> inv s'"
proof (induction rule: step.induct)
  case (call env c s r k')
  with dispatch_ring [of "kern s" env c] show ?case by (auto simp: inv_def appends_def)
next
  case (poll s reqs s')
  then show ?case
    using poll_requests_routes [of "(mon s)\<lparr>ring := map encode_request (rb_records (k_requests (kern s)))\<rparr>"]
    by (auto simp: poll_system_def inv_def Let_def split: prod.splits)
next
  case (verdict ins ck v s res mon')
  then show ?case using send_verdict_routes [of ins ck v "mon s"] by (simp add: inv_def)
next
  case (reconfigure k' s)
  then show ?case by (simp add: inv_def)
qed

lemma inv_steps: "steps s es s' \<Longrightarrow> inv s \<Longrightarrow> inv s'"
  by (induction rule: steps.induct) (auto intro: inv_step)

section \<open>Requests are neither lost nor reordered\<close>

fun polled :: "event \<Rightarrow> LsmRequest list" where
  "polled (Polled reqs) = reqs"
| "polled e = []"

fun submitted :: "event \<Rightarrow> jg_request list" where
  "submitted (Called env c r rs) = rs"
| "submitted e = []"

lemma deliveries_append [simp]: "deliveries (xs @ ys) = deliveries xs @ deliveries ys"
  by (induction xs) (auto split: sum.splits)

lemma good_issued: "\<forall>r\<in>set rs. good_request r \<Longrightarrow> \<forall>r\<in>set rs. wf_request r \<and> (\<exists>src. issued_by r src)"
  by (auto simp: good_request_def)

lemma poll_system_deliveries:
  assumes "inv s"
  shows "fst (poll_system s) = deliveries (rb_records (k_requests (kern s)))"
proof -
  have "\<forall>r\<in>set (rb_records (k_requests (kern s))). wf_request r \<and> (\<exists>src. issued_by r src)"
    using assms by (intro good_issued) (simp add: inv_def)
  from poll_loop_encoded [OF this, of "pending_routes (mon s)"] assms show ?thesis
    by (simp add: poll_system_def poll_requests_def inv_def split_beta Let_def)
qed

lemma step_accounting:
  "step s e s' \<Longrightarrow> inv s \<Longrightarrow>
   deliveries (rb_records (k_requests (kern s))) @ deliveries (submitted e) =
   polled e @ deliveries (rb_records (k_requests (kern s')))"
proof (induction rule: step.induct)
  case (call env c s r k')
  with dispatch_ring [of "kern s" env c] show ?case by (auto simp: new_records_def appends_def)
next
  case (poll s reqs s')
  then show ?case using poll_system_deliveries [of s]
    by (auto simp: poll_system_def Let_def split: prod.splits)
qed simp_all

lemma steps_accounting:
  "steps s es s' \<Longrightarrow> inv s \<Longrightarrow>
   deliveries (rb_records (k_requests (kern s))) @ deliveries (concat (map submitted es)) =
   concat (map polled es) @ deliveries (rb_records (k_requests (kern s')))"
proof (induction rule: steps.induct)
  case (steps_nil s)
  then show ?case by simp
next
  case (steps_snoc s es s' e s'')
  with step_accounting [OF steps_snoc.hyps(2)] inv_steps [OF steps_snoc.hyps(1)] show ?case
    by (metis (no_types, lifting) append.assoc append_Nil2 concat.simps concat_append
        deliveries_append list.map map_append)
qed

section \<open>Sequences of calls\<close>

fun run_calls :: "(bpf_env \<times> lsm_call) list \<Rightarrow> kernel \<Rightarrow> int list \<times> kernel" where
  "run_calls [] k = ([], k)"
| "run_calls ((env, c) # cs) k =
     (let (r, k) = dispatch env c k; (rs, k) = run_calls cs k in (r # rs, k))"

lemma controls_of_dispatch [simp]: "controls_of c' (snd (dispatch env c k)) = controls_of c' k"
  by (cases c') (simp_all add: dispatch_def split_beta Let_def)

lemma governed_dispatch [simp]: "governed env' c' (snd (dispatch env c k)) = governed env' c' k"
  by (simp add: governed_def)

lemma dispatch_ungoverned: "\<not> governed env c k \<Longrightarrow> dispatch env c k = (0, k)"
  by (simp add: dispatch_def call_ungoverned)

lemma run_calls_governed:
  "snd (run_calls cs k) = snd (run_calls (filter (\<lambda>(env, c). governed env c k) cs) k) \<and>
   fst (run_calls (filter (\<lambda>(env, c). governed env c k) cs) k) =
     map snd (filter (\<lambda>((env, c), r). governed env c k) (zip cs (fst (run_calls cs k)))) \<and>
   (\<forall>((env, c), r)\<in>set (zip cs (fst (run_calls cs k))). \<not> governed env c k \<longrightarrow> r = 0)"
proof (induction cs arbitrary: k)
  case Nil
  then show ?case by simp
next
  case (Cons ec cs)
  obtain env c where ec: "ec = (env, c)" by (cases ec)
  show ?case
  proof (cases "governed env c k")
    case True
    with Cons.IH [of "snd (dispatch env c k)"] show ?thesis
      by (simp add: ec split_beta Let_def)
  next
    case False
    with Cons.IH [of k] show ?thesis
      by (simp add: ec split_beta Let_def dispatch_ungoverned)
  qed
qed

text \<open>Calls interleaved with arbitrary verdicts.\<close>

datatype action = Do bpf_env lsm_call | Write_verdicts "(u64 \<rightharpoonup> VerdictPayload) list"

fun run_actions :: "action list \<Rightarrow> kernel \<Rightarrow> int list \<times> kernel" where
  "run_actions [] k = ([], k)"
| "run_actions (Do env c # as) k =
     (let (r, k) = dispatch env c k; (rs, k) = run_actions as k in (r # rs, k))"
| "run_actions (Write_verdicts vms # as) k = run_actions as (set_verdicts vms k)"

fun calls_of :: "action list \<Rightarrow> (bpf_env \<times> lsm_call) list" where
  "calls_of [] = []"
| "calls_of (Do env c # as) = (env, c) # calls_of as"
| "calls_of (Write_verdicts vms # as) = calls_of as"

lemma run_actions_calls:
  "same_policy k k' \<Longrightarrow>
   fst (run_actions as k') = fst (run_calls (calls_of as) k) \<and>
   same_policy (snd (run_calls (calls_of as) k)) (snd (run_actions as k'))"
proof (induction as arbitrary: k k')
  case Nil
  then show ?case by simp
next
  case (Cons a as)
  show ?case
  proof (cases a)
    case (Do env c)
    with Cons.IH dispatch_same_policy [OF Cons.prems, of env c] show ?thesis
      by (simp add: split_beta Let_def)
  next
    case (Write_verdicts vms)
    with Cons.IH [OF same_policy_set_verdicts [OF Cons.prems]] show ?thesis by simp
  qed
qed

section \<open>Which calls ask for a reservation\<close>

fun gated :: "bpf_env \<Rightarrow> lsm_call \<Rightarrow> bool" where
  "gated env (Bprm_check bprm) = True"
| "gated env (Inode_create dir dentry mode) = JG_S_ISREG mode"
| "gated env (Inode_unlink dir dentry) = True"
| "gated env (Socket_connect sock address addrlen) = (socket_type_of env sock \<in> {1, 2})"
| "gated env (Socket_sendmsg sock msg sz) = (socket_type_of env sock = 2 \<and> msg_address env msg \<noteq> 0)"
| "gated env _ = False"

lemma call_full_ring:
  "ringbuf_reserve env 328 = None \<Longrightarrow> gated env c \<Longrightarrow> governed env c k \<Longrightarrow>
   call_hook env c k = (if audited c k then 0 else - 1, k_requests k)"
  by (cases c)
    (auto simp: governed_def audited_def bprm_eq inode_create_eq inode_unlink_eq connect_eq sendmsg_eq)

fun requesting :: "lsm_call \<Rightarrow> bool" where
  "requesting (Bprm_check bprm) = True"
| "requesting (Inode_create dir dentry mode) = True"
| "requesting (Inode_unlink dir dentry) = True"
| "requesting (Socket_connect sock address addrlen) = True"
| "requesting (Socket_sendmsg sock msg sz) = True"
| "requesting _ = False"

lemma appended: "rb' = rb\<lparr>rb_records := rb_records rb @ [r]\<rparr> \<Longrightarrow> \<exists>r. rb' = rb\<lparr>rb_records := rb_records rb @ [r]\<rparr>"
  by blast

lemma call_denial_recorded:
  "requesting c \<Longrightarrow> ringbuf_reserve env 328 \<noteq> None \<Longrightarrow> fst (call_hook env c k) \<noteq> 0 \<Longrightarrow>
   \<exists>r. snd (call_hook env c k) = (k_requests k)\<lparr>rb_records := rb_records (k_requests k) @ [r]\<rparr>"
  by (cases c)
    (auto simp: bprm_eq inode_create_eq inode_unlink_eq connect_eq sendmsg_eq
      intro: appended split: if_splits option.splits)

section \<open>Properties\<close>

text \<open>A system in which no policy is configured, for the examples.\<close>

definition bare_kernel :: kernel where
  "bare_kernel =
     \<lparr>k_exec = only_sh, k_create = dir5, k_unlink = dir5, k_connect = open_egress,
      k_sendmsg = deny_10_0_0_1, k_capable = no_controls, k_sb_mount = no_controls,
      k_sb_pivotroot = no_controls, k_move_mount = no_controls, k_file_open = no_controls,
      k_requests = \<lparr>rb_records = [], rb_open = 0\<rparr>\<rparr>"

definition bare_system :: system where
  "bare_system =
     \<lparr>kern = bare_kernel,
      mon = \<lparr>ring = [], verdict_maps = replicate 10 Map.empty,
        program_routes = load_routes lsm_objects, pending_routes = Map.empty\<rparr>\<rparr>"

lemma initial_bare: "initial bare_system"
  by (simp add: initial_def bare_system_def bare_kernel_def)

definition mount_call :: lsm_call where
  "mount_call = Sb_mount 0 0 0 0 0"

definition exec_call :: lsm_call where
  "exec_call = Bprm_check 0x1000"

definition sh_env :: bpf_env where
  "sh_env = with_memory sh_mem quiet_env"

lemma exec_steps:
  "steps bare_system
     [Called sh_env exec_call (fst (dispatch sh_env exec_call bare_kernel))
       (new_records (k_requests bare_kernel) (k_requests (snd (dispatch sh_env exec_call bare_kernel))))]
     (bare_system\<lparr>kern := snd (dispatch sh_env exec_call bare_kernel)\<rparr>)"
proof -
  have "kern bare_system = bare_kernel" by (simp add: bare_system_def)
  then have "step bare_system
     (Called sh_env exec_call (fst (dispatch sh_env exec_call bare_kernel))
       (new_records (k_requests bare_kernel) (k_requests (snd (dispatch sh_env exec_call bare_kernel)))))
     (bare_system\<lparr>kern := snd (dispatch sh_env exec_call bare_kernel)\<rparr>)"
    using step.call [of sh_env exec_call bare_system] by simp
  from steps_snoc [OF steps_nil this] show ?thesis by simp
qed

text \<open>C7: in every reachable state of the system, no reservation of the ring buffer is open, and every
  record waiting in it is well-formed, names the program that issued it in agreement with its type,
  and has zero padding and an empty payload preview (no hook ever fills it).\<close>

theorem reachable_requests_good:
  assumes "initial s" "steps s es s'"
  shows "rb_open (k_requests (kern s')) = 0 \<and>
    list_all good_request (rb_records (k_requests (kern s')))"
  using inv_steps [OF assms(2) inv_initial [OF assms(1)]] by (simp add: inv_def list_all_iff)

theorem reachable_requests_good_witness:
  "list_all good_request (rb_records (k_requests (snd (dispatch sh_env exec_call bare_kernel))))"
  using reachable_requests_good [OF initial_bare exec_steps] by simp

text \<open>C8: a call is answered with 0 or \<^verbatim>\<open>-EPERM\<close>, and it is refused only if the task is in the
  governed scope of the object and the object is not in audit-only mode. This holds in every state,
  however the daemon has changed the maps.\<close>

theorem denial_is_governed_and_armed:
  assumes "step s (Called env c r rs) s'"
  shows "r \<in> {0, - JG_EPERM} \<and> (r \<noteq> 0 \<longrightarrow> governed env c (kern s) \<and> \<not> audited c (kern s))"
proof -
  from assms obtain k' where "dispatch env c (kern s) = (r, k')" by (rule step_callE)
  then have r: "r = fst (call_hook env c (kern s))"
    by (auto simp: dispatch_def split: prod.splits)
  show ?thesis
    using call_ret [of env c "kern s"] call_ungoverned [of env c "kern s"]
      call_audited [of c "kern s" env]
    by (cases "governed env c (kern s)") (auto simp: r JG_EPERM_def)
qed

theorem denial_is_governed_and_armed_witness:
  "fst (dispatch sh_env mount_call bare_kernel) \<in> {0, - JG_EPERM}"
proof -
  have "dispatch sh_env mount_call (kern bare_system) =
      (fst (dispatch sh_env mount_call bare_kernel), snd (dispatch sh_env mount_call bare_kernel))"
    by (simp add: bare_system_def)
  from denial_is_governed_and_armed [OF step.call [OF this]] show ?thesis by blast
qed

text \<open>C9: tasks outside the governed scope are invisible. In any sequence of calls, dropping those of
  ungoverned tasks leaves the final state and the answers to the others as they are, and the
  dropped ones were all answered with 0.\<close>

theorem ungoverned_calls_invisible:
  "snd (run_calls cs k) = snd (run_calls (filter (\<lambda>(env, c). governed env c k) cs) k) \<and>
   fst (run_calls (filter (\<lambda>(env, c). governed env c k) cs) k) =
     map snd (filter (\<lambda>((env, c), r). governed env c k) (zip cs (fst (run_calls cs k)))) \<and>
   list_all (\<lambda>((env, c), r). governed env c k \<or> r = 0) (zip cs (fst (run_calls cs k)))"
  using run_calls_governed [of cs k] by (auto simp: list_all_iff)

text \<open>C10: verdicts do not influence the hooks. However verdicts are written between the calls, the
  answers are those of the calls alone, and the resulting policy and ring buffer are the same.\<close>

theorem verdicts_do_not_matter:
  "fst (run_actions as k) = fst (run_calls (calls_of as) k) \<and>
   same_policy (snd (run_calls (calls_of as) k)) (snd (run_actions as k))"
  by (rule run_actions_calls) simp

text \<open>C11: the requesting hooks fail closed: when no request can be recorded because the ring buffer is
  full, every governed call that reaches its gate is refused unless in audit-only mode, and the
  state is unchanged.\<close>

theorem full_ring_fails_closed:
  assumes "ringbuf_reserve env request_size = None" "gated env c" "governed env c k" "\<not> audited c k"
  shows "dispatch env c k = (- JG_EPERM, k)"
  using assms by (simp add: dispatch_def call_full_ring JG_EPERM_def)

theorem full_ring_fails_closed_witness:
  "dispatch (quiet_env\<lparr>ringbuf_reserve := (\<lambda>_. None)\<rparr>) exec_call bare_kernel = (- JG_EPERM, bare_kernel)"
  by (rule full_ring_fails_closed)
    (simp_all add: exec_call_def bare_kernel_def governed_def audited_def)

text \<open>C12: every refusal by a requesting hook leaves a record, unless the ring buffer was full: exactly one
  well-formed request is appended.\<close>

theorem denial_is_recorded:
  assumes "requesting c" "ringbuf_reserve env request_size \<noteq> None" "fst (dispatch env c k) \<noteq> 0"
  shows "\<exists>r. good_request r \<and>
    snd (dispatch env c k) =
      k\<lparr>k_requests := (k_requests k)\<lparr>rb_records := rb_records (k_requests k) @ [r]\<rparr>\<rparr>"
proof -
  have d: "fst (call_hook env c k) \<noteq> 0" using assms(3) by (simp add: dispatch_def split_beta Let_def)
  obtain r where r: "snd (call_hook env c k) =
      (k_requests k)\<lparr>rb_records := rb_records (k_requests k) @ [r]\<rparr>"
    using call_denial_recorded [OF assms(1) _ d] assms(2) by auto
  moreover have "good_request r"
  proof -
    obtain rs where rs: "\<forall>r\<in>set rs. good_request r"
      "snd (call_hook env c k) = (k_requests k)\<lparr>rb_records := rb_records (k_requests k) @ rs\<rparr>"
      using call_ring [of k env c] by (auto simp: appends_def)
    have "rb_records (snd (call_hook env c k)) = rb_records (k_requests k) @ rs" by (simp add: rs(2))
    then have "rs = [r]" by (simp add: r)
    with rs(1) show ?thesis by simp
  qed
  ultimately show ?thesis by (auto simp: dispatch_def split_beta Let_def)
qed

theorem denial_is_recorded_witness:
  "\<exists>r. good_request r \<and>
     snd (dispatch (with_memory dir_mem quiet_env) (Inode_unlink 0x1000 0x4000) bare_kernel) =
       bare_kernel\<lparr>k_requests := (k_requests bare_kernel)\<lparr>rb_records := rb_records (k_requests bare_kernel) @ [r]\<rparr>\<rparr>"
proof (rule denial_is_recorded)
  have "inode_denied (with_memory dir_mem quiet_env) dir5 0x1000 0x4000"
    using nofault.inode_denied_exact [of "0x4000" dir_mem quiet_env dir5 "0x1000"]
    by (simp add: dir5_key dir5_denies)
  then show "fst (dispatch (with_memory dir_mem quiet_env) (Inode_unlink 0x1000 0x4000) bare_kernel) \<noteq> 0"
    by (simp add: dispatch_def bare_kernel_def inode_unlink_eq)
qed simp_all

text \<open>C6: requests are neither lost, duplicated nor reordered. Over any run from a fresh system, what the
  daemon has polled, followed by what is still waiting, is the sequence of all submitted requests
  as user space sees them (without those whose string is not UTF-8).\<close>

theorem requests_accounted:
  assumes "initial s" "steps s es s'"
  shows "concat (map polled es) @ deliveries (rb_records (k_requests (kern s'))) =
    deliveries (concat (map submitted es))"
  using steps_accounting [OF assms(2) inv_initial [OF assms(1)]] assms(1) by (simp add: initial_def)

theorem requests_accounted_witness:
  "deliveries (rb_records (k_requests (snd (dispatch sh_env exec_call bare_kernel)))) =
   deliveries (new_records (k_requests bare_kernel) (k_requests (snd (dispatch sh_env exec_call bare_kernel))))"
  using requests_accounted [OF initial_bare exec_steps] by simp

text \<open>After a poll, every readable request that was waiting has a pending route to the object that
  issued it, provided the cookies of the waiting requests are distinct.\<close>

theorem polled_requests_routed:
  assumes "initial s" "steps s es s'" "step s' (Polled reqs) s''"
    and "distinct (map cookie (rb_records (k_requests (kern s'))))"
    and "r \<in> set (rb_records (k_requests (kern s')))" "readable r"
  shows "pending_routes (mon s'') (cookie r) = Some (object_index (source_of_type (req_type r)))"
proof -
  have inv: "inv s'" using inv_steps [OF assms(2) inv_initial [OF assms(1)]] .
  then have good: "\<forall>r\<in>set (rb_records (k_requests (kern s'))). good_request r"
    by (simp add: inv_def)
  from assms(3) have s'': "s'' = snd (poll_system s')" by (auto elim: step_pollE)
  have "issued_by r (source_of_type (req_type r))" using good assms(5) by (simp add: good_request_def)
  from poll_loop_route [OF good_issued [OF good] assms(4,5,6) this] show ?thesis
    using inv by (simp add: s'' poll_system_def poll_requests_def inv_def split_beta Let_def)
qed

text \<open>The exec request of the example, waiting in the ring buffer.\<close>

abbreviation after_exec :: system where
  "after_exec \<equiv> bare_system\<lparr>kern := snd (dispatch sh_env exec_call bare_kernel)\<rparr>"

lemma after_exec_records:
  "rb_records (k_requests (kern after_exec)) = [exec_request sh_env 0x1000]"
  by (simp add: dispatch_def exec_call_def bare_kernel_def bprm_eq sh_env_def)

lemma sh_request_readable: "readable (exec_request sh_env 0x1000)"
proof -
  have "resource_path (exec_request sh_env 0x1000) = nul_pad 128 [0x2F, 0x73, 0x68]"
    by (simp add: sh_env_def nofault.exec_path_exact sh_name)
  moreover have "c_str (nul_pad 128 [0x2F, 0x73, 0x68]) = [0x2F, 0x73, 0x68]"
    by (simp add: c_str_nul_pad)
  moreover have "utf8_valid [0x2F, 0x73, 0x68]" by code_simp
  moreover have "req_type (exec_request sh_env 0x1000) = REQ_EXECVE"
    by (simp add: exec_request_def base_request_def Let_def)
  ultimately show ?thesis by (simp add: readable_def resource_view_def Let_def)
qed

theorem polled_requests_routed_witness:
  "pending_routes (mon (snd (poll_system after_exec))) (cookie (exec_request sh_env 0x1000)) = Some 2"
proof -
  have "step after_exec (Polled (fst (poll_system after_exec))) (snd (poll_system after_exec))"
    by (rule step.poll) simp
  from polled_requests_routed [OF initial_bare exec_steps this, unfolded after_exec_records,
      of "exec_request sh_env 0x1000"] sh_request_readable show ?thesis
    by (simp add: exec_request_def base_request_def source_of_type_def Let_def)
qed

end
