(* ===== verification/Policy_Maps.thy ===== *)
theory Policy_Maps
  imports Jg_System
begin

text \<open>
  The keys the daemon puts into the policy maps against the keys the hooks look up: which strings,
  addresses and directories a configured map stands for. The end-to-end properties of the root
  theory follow from these lemmas and the decisions of the hooks.
\<close>

section \<open>Path keys\<close>

lemma path_entry_iff:
  assumes "nul_free s" "length s < 128" "list_all (\<lambda>e. nul_free (trim e)) es"
  shows "(\<exists>e\<in>set es. path_key_checked e = Inr (Some (nul_pad 128 s))) \<longleftrightarrow> s \<noteq> [] \<and> s \<in> trim ` set es"
proof
  assume "\<exists>e\<in>set es. path_key_checked e = Inr (Some (nul_pad 128 s))"
  then obtain e where "e \<in> set es" "trim e \<noteq> []" "nul_pad 128 (trim e) = nul_pad 128 s"
    by (auto simp: path_key_checked_eq split: if_splits)
  moreover from this assms have "trim e = s"
    by (simp add: nul_pad_inj list_all_iff)
  ultimately show "s \<noteq> [] \<and> s \<in> trim ` set es" by auto
next
  assume "s \<noteq> [] \<and> s \<in> trim ` set es"
  then obtain e where "e \<in> set es" "trim e = s" "s \<noteq> []" by auto
  with assms(2) have "path_key_checked e = Inr (Some (nul_pad 128 s))"
    by (simp add: path_key_checked_eq)
  with \<open>e \<in> set es\<close> show "\<exists>e\<in>set es. path_key_checked e = Inr (Some (nul_pad 128 s))" by blast
qed

lemma map_flag_empty [simp]: "\<not> map_flag Map.empty k"
  by (simp add: map_flag_def)

context hash_map_api
begin

lemma configured_keys:
  "insert_entries ins key es Map.empty = Inr m \<Longrightarrow>
   map_flag m k \<longleftrightarrow> (\<exists>e\<in>set es. key e = Inr (Some k))"
  using insert_entries_flag [of key es Map.empty m k] by simp

end

lemma orchestrator_entries:
  "list_all (\<lambda>p. trim p = p \<and> p \<noteq> [] \<and> length p < 128 \<and> nul_free p) ORCHESTRATOR_CONTROL_SOCKETS"
  by code_simp

lemma unix_denylist_configured:
  assumes "hash_map_api ins" "configure_unix_denylist ins Map.empty = Inr m"
    and "nul_free s" "length s < 128"
  shows "map_flag m (nul_pad 128 s) \<longleftrightarrow> s \<in> set ORCHESTRATOR_CONTROL_SOCKETS"
proof -
  let ?es = ORCHESTRATOR_CONTROL_SOCKETS
  have es: "\<And>p. p \<in> set ?es \<Longrightarrow> trim p = p \<and> p \<noteq> [] \<and> nul_free p"
    using orchestrator_entries by (simp add: list_all_iff)
  then have "trim ` set ?es = set ?es" by force
  moreover have "[] \<notin> set ?es" using es by blast
  moreover have "list_all (\<lambda>e. nul_free (trim e)) ?es" using es by (simp add: list_all_iff)
  ultimately show ?thesis
    using hash_map_api.configured_keys [OF assms(1), of path_key_checked ?es m "nul_pad 128 s"]
      assms(2) path_entry_iff [OF assms(3,4), of ?es]
    by (auto simp: configure_unix_denylist_def)
qed

lemma unix_allowlist_configured:
  assumes "hash_map_api ins" "configure_unix_allowlist ins allowed sock Map.empty = Inr m"
    and "nul_free s" "length s < 128" "list_all (\<lambda>e. nul_free (trim e)) (sock # allowed)"
  shows "map_flag m (nul_pad 128 s) \<longleftrightarrow> s \<noteq> [] \<and> s \<in> trim ` set (sock # allowed)"
  using hash_map_api.configured_keys [OF assms(1), of path_key_checked "sock # allowed" m "nul_pad 128 s"]
    assms(2) path_entry_iff [OF assms(3-5)]
  by (simp add: configure_unix_allowlist_def del: insert_entries.simps set_simps)

lemma exec_paths_configured:
  assumes "hash_map_api ins" "configure_allowed_exec_paths ins immune allowed Map.empty = Inr m"
    and "nul_free s" "length s < 128" "list_all (\<lambda>e. nul_free (trim e)) (immune @ allowed)"
  shows "map_flag m (nul_pad 128 s) \<longleftrightarrow> s \<noteq> [] \<and> s \<in> trim ` set (immune @ allowed)"
proof -
  from assms(2) obtain m1 where m1: "insert_entries ins path_key_checked immune Map.empty = Inr m1"
    "insert_entries ins path_key_checked allowed m1 = Inr m"
    by (auto simp: configure_allowed_exec_paths_def split: sum.splits)
  have "map_flag m (nul_pad 128 s) \<longleftrightarrow>
      (\<exists>e\<in>set (immune @ allowed). path_key_checked e = Inr (Some (nul_pad 128 s)))"
    using hash_map_api.configured_keys [OF assms(1) m1(1), of "nul_pad 128 s"]
      hash_map_api.insert_entries_flag [OF assms(1) m1(2), of "nul_pad 128 s"]
    by (auto simp: bex_Un)
  then show ?thesis using path_entry_iff [OF assms(3-5)] by simp
qed

lemma str_at_nul: "mem a = Some 0 \<Longrightarrow> 0 < n \<Longrightarrow> str_at mem a n = Some []"
  by (cases n) simp_all

section \<open>IPv4 keys\<close>

lemma read_octets_length: "read_octets i n s = Some (os, s') \<Longrightarrow> length os = n"
  by (induction i n s arbitrary: os s' rule: read_octets.induct) (auto split: option.splits)

lemma parse_ipv4_length: "parse_ipv4 s = Some os \<Longrightarrow> length os = 4"
  by (auto simp: parse_ipv4_def parse_all_def read_ipv4_def dest: read_octets_length
      split: option.splits list.splits)

lemma le_word_inj4: "length xs = 4 \<Longrightarrow> length ys = 4 \<Longrightarrow> (le_word xs :: u32) = le_word ys \<Longrightarrow> xs = ys"
  by (metis le_nat_inj unat_le_word4)

lemma ipv4_configured:
  assumes "hash_map_api ins" "configure_ipv4_denylist ins denied_ips Map.empty = Inr m" "length os = 4"
  shows "map_flag m (le_word os) \<longleftrightarrow>
    (\<exists>e\<in>set denied_ips. trim e \<noteq> [] \<and> parse_ipv4 (hd (split_on 0x3A (trim e))) = Some os)"
proof -
  have "ipv4_policy_key e = Some (le_word os) \<longleftrightarrow>
      trim e \<noteq> [] \<and> parse_ipv4 (hd (split_on 0x3A (trim e))) = Some os" for e
    using assms(3) by (auto simp: ipv4_policy_key_def Let_def dest: parse_ipv4_length le_word_inj4)
  then show ?thesis
    using hash_map_api.configured_keys [OF assms(1), of "Inr \<circ> ipv4_policy_key" denied_ips m "le_word os"]
      assms(2)
    by (simp add: configure_ipv4_denylist_def)
qed

section \<open>Directory keys\<close>

text \<open>The device number that the daemon builds from the major and minor numbers is the one in the
  superblock.\<close>

lemma kernel_dev_agrees:
  fixes d :: u32
  assumes "c_major st = drop_bit 20 d" "c_minor st = take_bit 20 d"
  shows "kernel_dev_from_stat c_major c_minor st = ucast d"
proof -
  have mask: "(0xfffff :: u64) = mask 20" by (simp add: mask_eq_exp_minus_1)
  show ?thesis
    unfolding kernel_dev_from_stat_def Let_def assms mask
    by (rule bit_word_eqI) (auto simp: bit_simps)
qed

lemma dir_configured:
  assumes "hash_map_api ins"
    and "configure_denied_dir_inodes c_major c_minor metadata ins paths Map.empty = Inr m"
    and "p \<in> set paths" "0x2F \<in> set (trim p)" "metadata (trim p) = Some md" "is_dir md"
  shows "map_flag m \<lparr>dev = kernel_dev_from_stat c_major c_minor (st_dev md), ino = st_ino md\<rparr>"
proof -
  have "denied_dir_inode c_major c_minor metadata p =
      Inr (Some \<lparr>dev = kernel_dev_from_stat c_major c_minor (st_dev md), ino = st_ino md\<rparr>)"
    using assms(4-6) by (auto simp: denied_dir_inode_def Let_def)
  with assms(2,3) show ?thesis
    using hash_map_api.configured_keys [OF assms(1), of "denied_dir_inode c_major c_minor metadata" paths m]
    by (auto simp: configure_denied_dir_inodes_def)
qed

end
