(* ===== verification/Daemon_Startup.thy ===== *)
theory Daemon_Startup
  imports Policy_Maps Policy_Types Governed_Scope "HOL-Library.List_Lexorder"
begin

text \<open>
  Starting the kernel side, \<^verbatim>\<open>AyaLsmMonitor\<close> of \<^verbatim>\<open>ts_cli/src/ebpf_monitor.rs\<close> and
  \<^verbatim>\<open>start_lsm_verdict_loop\<close> of \<^verbatim>\<open>ts_cli/src/main.rs\<close>: loading the ten objects, filling their policy maps
  and attaching the programs, in this order. The file system, the environment variables and the
  aya crate are arguments: the records \<open>host\<close> and \<open>aya\<close>; what the daemon relies on is the locale
  \<open>aya_maps\<close>. An error ends the start; the objects loaded so far are dropped with the monitor.
\<close>

section \<open>Parameters\<close>

text \<open>The operator \<^verbatim>\<open>?\<close>.\<close>

definition and_then :: "'e + 'a \<Rightarrow> ('a \<Rightarrow> 'e + 'b) \<Rightarrow> 'e + 'b" where
  "and_then r f = (case r of Inl e \<Rightarrow> Inl e | Inr x \<Rightarrow> f x)"

text \<open>What the start reads from the system: \<^verbatim>\<open>fs::metadata\<close>, \<^verbatim>\<open>fs::canonicalize\<close>, \<^verbatim>\<open>Path::exists\<close>,
  \<^verbatim>\<open>fs::read_dir\<close> (the paths of the entries, \<^const>\<open>None\<close> for an entry that cannot be read),
  \<^verbatim>\<open>Path::is_file\<close>, the device numbers of the C library, environment variables, and
  \<^verbatim>\<open>name_to_handle_at\<close> (the size and the bytes of the handle).\<close>

record host =
  fs_metadata :: "byte list \<Rightarrow> file_metadata option"
  fs_canonicalize :: "byte list \<Rightarrow> byte list option"
  fs_exists :: "byte list \<Rightarrow> bool"
  fs_read_dir :: "byte list \<Rightarrow> byte list option list option"
  fs_is_file :: "byte list \<Rightarrow> bool"
  libc_major :: "u64 \<Rightarrow> u32"
  libc_minor :: "u64 \<Rightarrow> u32"
  env_var :: "string \<Rightarrow> byte list option"
  name_to_handle :: "byte list \<Rightarrow> (nat \<times> byte list) option"

text \<open>A map of a loaded object: it may be missing, or have another type than the daemon expects.\<close>

datatype 'm map_slot = Missing | Wrong_type | Open_map 'm

record ebpf =
  eb_requests :: "unit map_slot"
  eb_verdicts :: "(u64 \<rightharpoonup> VerdictPayload) map_slot"
  eb_runtime_controls :: "(u32 \<rightharpoonup> u32) map_slot"
  eb_governed_scope :: "(u32 \<rightharpoonup> u64) map_slot"
  eb_ipv4_denylist :: "(u32 \<rightharpoonup> u8) map_slot"
  eb_ipv6_denylist :: "(byte list \<rightharpoonup> u8) map_slot"
  eb_ipv4_allowlist :: "(u32 \<rightharpoonup> u8) map_slot"
  eb_ipv6_allowlist :: "(byte list \<rightharpoonup> u8) map_slot"
  eb_unix_denylist :: "(byte list \<rightharpoonup> u8) map_slot"
  eb_unix_allowlist :: "(byte list \<rightharpoonup> u8) map_slot"
  eb_allowed_exec_paths :: "(byte list \<rightharpoonup> u8) map_slot"
  eb_denied_basenames :: "(byte list \<rightharpoonup> u8) map_slot"
  eb_denied_dir_inodes :: "(jg_inode_key \<rightharpoonup> u8) map_slot"
  eb_denied_files_in_dir :: "(jg_dir_file_key \<rightharpoonup> u8) map_slot"

datatype startup_error =
    Aya_error
  | Map_open_error string
  | Map_not_found string
  | Safe_mode_without_controls
  | Scope_without_map
  | Invalid_cgroup_path
  | Cgroup_unresolved
  | Handle_too_small nat
  | Config_error daemon_error

text \<open>The calls of aya: reading the BTF, reading and loading an object file, loading one of its
  programs for a hook, attaching it, and the updates of hash maps and arrays. A hash map update
  is told the name of the map, since the capacity belongs to the map.\<close>

record aya =
  btf_from_sys_fs :: bool
  ebpf_load :: "byte list \<Rightarrow> ebpf option"
  prog_load :: "byte list \<Rightarrow> byte list \<Rightarrow> byte list \<Rightarrow> bool"
  prog_attach :: "byte list \<Rightarrow> byte list \<Rightarrow> bool"
  insert_ip4 :: "string \<Rightarrow> u32 map_insert"
  insert_bytes :: "string \<Rightarrow> byte list map_insert"
  insert_inode :: "string \<Rightarrow> jg_inode_key map_insert"
  insert_dir_file :: "string \<Rightarrow> jg_dir_file_key map_insert"
  set_controls :: "(u32 \<rightharpoonup> u32) \<Rightarrow> u32 \<Rightarrow> u32 \<Rightarrow> daemon_error + (u32 \<rightharpoonup> u32)"
  set_scope :: "(u32 \<rightharpoonup> u64) \<Rightarrow> u32 \<Rightarrow> u64 \<Rightarrow> daemon_error + (u32 \<rightharpoonup> u64)"

definition config_err :: "daemon_error + 'a \<Rightarrow> startup_error + 'a" where
  "config_err r = map_sum Config_error id r"

section \<open>Loaded objects\<close>

record LoadedLsmObject =
  object_path :: "byte list"
  prog_name :: "byte list"
  hook_name :: "byte list"
  o_source_program :: u32
  o_verdicts :: "u64 \<rightharpoonup> VerdictPayload"
  o_runtime_controls :: "(u32 \<rightharpoonup> u32) option"
  o_governed_scope :: "(u32 \<rightharpoonup> u64) option"
  o_ipv4_denylist :: "(u32 \<rightharpoonup> u8) option"
  o_ipv6_denylist :: "(byte list \<rightharpoonup> u8) option"
  o_ipv4_allowlist :: "(u32 \<rightharpoonup> u8) option"
  o_ipv6_allowlist :: "(byte list \<rightharpoonup> u8) option"
  o_unix_denylist :: "(byte list \<rightharpoonup> u8) option"
  o_unix_allowlist :: "(byte list \<rightharpoonup> u8) option"
  o_allowed_exec_paths :: "(byte list \<rightharpoonup> u8) option"
  o_denied_basenames :: "(byte list \<rightharpoonup> u8) option"
  o_denied_dir_inodes :: "(jg_inode_key \<rightharpoonup> u8) option"
  o_denied_files_in_dir :: "(jg_dir_file_key \<rightharpoonup> u8) option"
  attached :: bool

text \<open>The table of \<^verbatim>\<open>AyaLsmMonitor::load\<close>: source program, object file, program and hook.\<close>

definition object_file :: "string \<Rightarrow> byte list" where
  "object_file name = byte_string (''/usr/lib/jinnguard/lsm/'' @ name @ ''.o'')"

definition lsm_object_table :: "(u32 \<times> byte list \<times> byte list \<times> byte list) list" where
  "lsm_object_table = map (\<lambda>(src, prog, hook). (src, object_file prog, byte_string prog, byte_string hook)) [
     (jg_source_program_val JG_SRC_SOCKET_CONNECT, ''jg_socket_connect'', ''socket_connect''),
     (jg_source_program_val JG_SRC_SOCKET_SENDMSG, ''jg_socket_sendmsg'', ''socket_sendmsg''),
     (jg_source_program_val JG_SRC_BPRM_CHECK_SECURITY, ''jg_bprm_check_security'', ''bprm_check_security''),
     (jg_source_program_val JG_SRC_INODE_CREATE, ''jg_inode_create'', ''inode_create''),
     (jg_source_program_val JG_SRC_INODE_UNLINK, ''jg_inode_unlink'', ''inode_unlink''),
     (JG_SRC_CAPABLE, ''jg_capable'', ''capable''),
     (JG_SRC_SB_MOUNT, ''jg_sb_mount'', ''sb_mount''),
     (JG_SRC_SB_PIVOTROOT, ''jg_sb_pivotroot'', ''sb_pivotroot''),
     (JG_SRC_MOVE_MOUNT, ''jg_move_mount'', ''move_mount''),
     (JG_SRC_FILE_OPEN, ''jg_file_open'', ''file_open'')]"

text \<open>\<^verbatim>\<open>optional_array_map\<close> and \<^verbatim>\<open>optional_hash_map\<close>, and the maps that have to be there.\<close>

definition optional_map :: "string \<Rightarrow> 'm map_slot \<Rightarrow> startup_error + 'm option" where
  "optional_map name slot =
     (case slot of Missing \<Rightarrow> Inr None | Wrong_type \<Rightarrow> Inl (Map_open_error name) | Open_map m \<Rightarrow> Inr (Some m))"

definition required_map :: "string \<Rightarrow> 'm map_slot \<Rightarrow> startup_error + 'm" where
  "required_map name slot =
     (case slot of Missing \<Rightarrow> Inl (Map_not_found name) | Wrong_type \<Rightarrow> Inl Aya_error | Open_map m \<Rightarrow> Inr m)"

section \<open>Enforcement scope\<close>

text \<open>\<^verbatim>\<open>std::env::var\<close>: only a UTF-8 value counts.\<close>

definition env_string :: "host \<Rightarrow> string \<Rightarrow> byte list option" where
  "env_string h name = (case env_var h name of None \<Rightarrow> None | Some v \<Rightarrow> if utf8_valid v then Some v else None)"

definition resolve_cgroup_id :: "host \<Rightarrow> byte list \<Rightarrow> startup_error + u64" where
  "resolve_cgroup_id h path =
     (if 0 \<in> set path then Inl Invalid_cgroup_path
      else case name_to_handle h path of
             None \<Rightarrow> Inl Cgroup_unresolved
           | Some (handle_bytes, f_handle) \<Rightarrow>
               if handle_bytes < 8 then Inl (Handle_too_small handle_bytes)
               else Inr (le_word (take 8 f_handle)))"

definition resolve_governed_scope :: "host \<Rightarrow> startup_error + u64" where
  "resolve_governed_scope h =
     (case env_string h ''JINNGUARD_GOVERN_CGROUP'' of
        Some path \<Rightarrow> if path \<noteq> [] then resolve_cgroup_id h path else Inr JG_SCOPE_GLOBAL
      | None \<Rightarrow> Inr JG_SCOPE_GLOBAL)"

section \<open>Loading\<close>

text \<open>The two array maps that are written while the object is loaded.\<close>

definition safe_mode_controls ::
    "aya \<Rightarrow> bool \<Rightarrow> (u32 \<rightharpoonup> u32) option \<Rightarrow> startup_error + (u32 \<rightharpoonup> u32) option" where
  "safe_mode_controls api safe_mode controls =
     (if safe_mode
      then (case controls of
              None \<Rightarrow> Inl Safe_mode_without_controls
            | Some m \<Rightarrow> config_err (map_sum id Some (set_controls api m 0 JG_CONTROL_AUDIT_ONLY)))
      else Inr controls)"

definition confine_scope ::
    "aya \<Rightarrow> u64 \<Rightarrow> (u32 \<rightharpoonup> u64) option \<Rightarrow> startup_error + (u32 \<rightharpoonup> u64) option" where
  "confine_scope api governed_cgroup_id scope =
     (case scope of
        Some m \<Rightarrow> config_err (map_sum id Some (set_scope api m 0 governed_cgroup_id))
      | None \<Rightarrow> if governed_cgroup_id \<noteq> JG_SCOPE_GLOBAL then Inl Scope_without_map else Inr None)"

text \<open>The object is read, verified and loaded, but not attached.\<close>

definition load_lsm_object ::
    "aya \<Rightarrow> bool \<Rightarrow> u64 \<Rightarrow> bool \<Rightarrow> u32 \<times> byte list \<times> byte list \<times> byte list \<Rightarrow>
     startup_error + LoadedLsmObject \<times> bool" where
  "load_lsm_object api safe_mode governed_cgroup_id take_requests entry = (case entry of (src, path, prog, hook) \<Rightarrow>
     (case ebpf_load api path of
        None \<Rightarrow> Inl Aya_error
      | Some bpf \<Rightarrow>
          if \<not> prog_load api path prog hook then Inl Aya_error
          else
            and_then (optional_map ''runtime_controls'' (eb_runtime_controls bpf)) (\<lambda>controls.
            and_then (safe_mode_controls api safe_mode controls) (\<lambda>controls.
            and_then (optional_map ''governed_scope'' (eb_governed_scope bpf)) (\<lambda>scope.
            and_then (confine_scope api governed_cgroup_id scope) (\<lambda>scope.
            and_then (if take_requests then required_map ''requests'' (eb_requests bpf) else Inr ()) (\<lambda>_.
            and_then (required_map ''verdicts'' (eb_verdicts bpf)) (\<lambda>vm.
            and_then (optional_map ''ipv4_denylist'' (eb_ipv4_denylist bpf)) (\<lambda>v4d.
            and_then (optional_map ''ipv6_denylist'' (eb_ipv6_denylist bpf)) (\<lambda>v6d.
            and_then (optional_map ''ipv4_allowlist'' (eb_ipv4_allowlist bpf)) (\<lambda>v4a.
            and_then (optional_map ''ipv6_allowlist'' (eb_ipv6_allowlist bpf)) (\<lambda>v6a.
            and_then (optional_map ''unix_denylist'' (eb_unix_denylist bpf)) (\<lambda>ud.
            and_then (optional_map ''unix_allowlist'' (eb_unix_allowlist bpf)) (\<lambda>ua.
            and_then (optional_map ''allowed_exec_paths'' (eb_allowed_exec_paths bpf)) (\<lambda>execs.
            and_then (optional_map ''denied_basenames'' (eb_denied_basenames bpf)) (\<lambda>names.
            and_then (optional_map ''denied_dir_inodes'' (eb_denied_dir_inodes bpf)) (\<lambda>dirs.
            and_then (optional_map ''denied_files_in_dir'' (eb_denied_files_in_dir bpf)) (\<lambda>files.
              Inr (\<lparr>object_path = path, prog_name = prog, hook_name = hook, o_source_program = src,
                    o_verdicts = vm, o_runtime_controls = controls, o_governed_scope = scope,
                    o_ipv4_denylist = v4d, o_ipv6_denylist = v6d, o_ipv4_allowlist = v4a,
                    o_ipv6_allowlist = v6a, o_unix_denylist = ud, o_unix_allowlist = ua,
                    o_allowed_exec_paths = execs, o_denied_basenames = names,
                    o_denied_dir_inodes = dirs, o_denied_files_in_dir = files, attached = False\<rparr>,
                   take_requests)))))))))))))))))))"

text \<open>The loop of \<^verbatim>\<open>load\<close>: only the object with index 0 takes the ring buffer.\<close>

fun load_objects ::
    "aya \<Rightarrow> bool \<Rightarrow> u64 \<Rightarrow> nat \<Rightarrow> (u32 \<times> byte list \<times> byte list \<times> byte list) list \<Rightarrow>
     startup_error + LoadedLsmObject list" where
  "load_objects api safe_mode cgroup i [] = Inr []"
| "load_objects api safe_mode cgroup i (e # es) =
     and_then (load_lsm_object api safe_mode cgroup (i = 0) e) (\<lambda>(object, _).
     and_then (load_objects api safe_mode cgroup (Suc i) es) (\<lambda>objects. Inr (object # objects)))"

definition load_monitor :: "host \<Rightarrow> aya \<Rightarrow> bool \<Rightarrow> startup_error + LoadedLsmObject list" where
  "load_monitor h api safe_mode =
     (if \<not> btf_from_sys_fs api then Inl Aya_error
      else and_then (resolve_governed_scope h) (\<lambda>governed_cgroup_id.
             load_objects api safe_mode governed_cgroup_id 0 lsm_object_table))"

section \<open>Immune executables\<close>

text \<open>\<^verbatim>\<open>insert_immune_path_candidate\<close>. The candidates are a list of what the program has put into its
  hash set.\<close>

definition insert_immune_path_candidate :: "host \<Rightarrow> byte list \<Rightarrow> byte list list \<Rightarrow> byte list list" where
  "insert_immune_path_candidate h path cs =
     (let cs = path # cs
      in case fs_canonicalize h path of
           None \<Rightarrow> cs
         | Some canonical \<Rightarrow> if utf8_valid canonical then canonical # cs else cs)"

definition collect_path_candidates :: "host \<Rightarrow> byte list list \<Rightarrow> byte list list" where
  "collect_path_candidates h cs =
     (case env_var h ''PATH'' of
        None \<Rightarrow> cs
      | Some path_var \<Rightarrow>
          fold (\<lambda>dir. fold (\<lambda>name cs.
            let candidate = path_join dir name
            in if fs_exists h candidate \<and> utf8_valid candidate
               then insert_immune_path_candidate h candidate cs else cs) IMMUNE_PROCESS_NAMES)
          (split_on 0x3A path_var) cs)"

definition collect_systemd_prefix_candidates :: "host \<Rightarrow> byte list list \<Rightarrow> byte list list" where
  "collect_systemd_prefix_candidates h cs =
     fold (\<lambda>prefix cs.
       case fs_read_dir h (trim_end_matches slash prefix) of
         None \<Rightarrow> cs
       | Some entries \<Rightarrow>
           fold (\<lambda>path cs. if fs_is_file h path \<and> utf8_valid path
                            then insert_immune_path_candidate h path cs else cs)
             (take 256 (map the (filter (\<lambda>e. e \<noteq> None) entries))) cs)
       IMMUNE_PATH_PREFIXES cs"

definition immune_exec_path_candidates :: "host \<Rightarrow> byte list list" where
  "immune_exec_path_candidates h =
     (let cs = fold (insert_immune_path_candidate h) IMMUNE_EXACT_PATHS [];
          cs = collect_path_candidates h cs;
          cs = collect_systemd_prefix_candidates h cs
      in sort (remdups cs))"

section \<open>Denied files\<close>

definition denied_entry_is_existing_dir :: "host \<Rightarrow> byte list \<Rightarrow> bool" where
  "denied_entry_is_existing_dir h path =
     (let trimmed = trim path
      in trimmed \<noteq> [] \<and> slash \<in> set trimmed \<and>
         (case fs_metadata h trimmed of None \<Rightarrow> False | Some md \<Rightarrow> is_dir md))"

definition filesystem_policy_leaf :: "byte list \<Rightarrow> byte list" where
  "filesystem_policy_leaf path =
     (let trimmed = trim_end_matches slash (trim path)
      in if trimmed = [] then []
         else case file_name trimmed of None \<Rightarrow> trimmed | Some name \<Rightarrow> name)"

text \<open>\<^verbatim>\<open>Path::parent\<close> of an absolute path: the text before the last component, without the slashes
  and \<^verbatim>\<open>.\<close> components at its end.\<close>

definition no_component :: "byte list \<Rightarrow> bool" where
  "no_component c \<longleftrightarrow> c = [] \<or> c = byte_string ''.''"

definition path_parent :: "byte list \<Rightarrow> byte list option" where
  "path_parent path =
     (case dropWhile no_component (rev (split_on slash (drop 1 path))) of
        [] \<Rightarrow> None
      | _ # cs \<Rightarrow> Some (slash # join_with slash (rev (dropWhile no_component cs))))"

definition denied_file_parent_key :: "host \<Rightarrow> byte list \<Rightarrow> daemon_error + jg_dir_file_key option" where
  "denied_file_parent_key h path =
     (let trimmed = trim_end_matches slash (trim path)
      in if \<not> starts_with trimmed [slash] \<or> denied_entry_is_existing_dir h trimmed then Inr None
         else let leaf = filesystem_policy_leaf trimmed
              in if leaf = [] then Inr None
                 else case path_parent trimmed of
                        None \<Rightarrow> Inr None
                      | Some parent \<Rightarrow>
                          (case fs_metadata h parent of
                             None \<Rightarrow> Inr None
                           | Some md \<Rightarrow>
                               if \<not> is_dir md then Inr None
                               else map_sum id
                                      (\<lambda>name. Some \<lparr>dev = kernel_dev_from_stat (libc_major h) (libc_minor h) (st_dev md),
                                                    ino = st_ino md, dname = name\<rparr>)
                                      (name_key_bytes_checked leaf)))"

text \<open>The key of an entry for the map of basenames: entries that one of the other maps covers are
  left out.\<close>

definition denied_basename_key :: "host \<Rightarrow> byte list \<Rightarrow> daemon_error + byte list option" where
  "denied_basename_key h path =
     (if denied_entry_is_existing_dir h path then Inr None
      else case denied_file_parent_key h path of
             Inl e \<Rightarrow> Inl e
           | Inr (Some k) \<Rightarrow> Inr None
           | Inr None \<Rightarrow> name_key_checked (filesystem_policy_leaf path))"

definition configure_denied_files_in_dir ::
    "host \<Rightarrow> jg_dir_file_key map_insert \<Rightarrow> byte list list \<Rightarrow> (jg_dir_file_key \<rightharpoonup> u8) \<Rightarrow>
     daemon_error + (jg_dir_file_key \<rightharpoonup> u8)" where
  "configure_denied_files_in_dir h ins paths m = insert_entries ins (denied_file_parent_key h) paths m"

definition configure_denied_basenames ::
    "host \<Rightarrow> byte list map_insert \<Rightarrow> byte list list \<Rightarrow> (byte list \<rightharpoonup> u8) \<Rightarrow> daemon_error + (byte list \<rightharpoonup> u8)" where
  "configure_denied_basenames h ins paths m = insert_entries ins (denied_basename_key h) paths m"

definition denied_paths_for_object :: "PolicyConfig \<Rightarrow> byte list \<Rightarrow> byte list list" where
  "denied_paths_for_object policy path =
     (if str_contains path (byte_string ''jg_inode_create'')
      then concat (map denied_write_paths (node_values policy))
      else if str_contains path (byte_string ''jg_inode_unlink'')
      then concat (map denied_unlink_paths (node_values policy))
      else [])"

section \<open>Configuring\<close>

text \<open>\<^verbatim>\<open>if let Some(map) = ... .as_mut()\<close>.\<close>

definition on_map :: "'m option \<Rightarrow> ('m \<Rightarrow> daemon_error + 'm) \<Rightarrow> startup_error + 'm option" where
  "on_map mo f = (case mo of None \<Rightarrow> Inr None | Some m \<Rightarrow> config_err (map_sum id Some (f m)))"

fun for_each_object ::
    "(LoadedLsmObject \<Rightarrow> startup_error + LoadedLsmObject) \<Rightarrow> LoadedLsmObject list \<Rightarrow>
     startup_error + LoadedLsmObject list" where
  "for_each_object f [] = Inr []"
| "for_each_object f (x # xs) =
     and_then (f x) (\<lambda>y. and_then (for_each_object f xs) (\<lambda>ys. Inr (y # ys)))"

definition set_object_controls ::
    "aya \<Rightarrow> bool \<Rightarrow> bool \<Rightarrow> bool \<Rightarrow> LoadedLsmObject \<Rightarrow> startup_error + LoadedLsmObject" where
  "set_object_controls api safe_mode dd udd x =
     (case o_runtime_controls x of
        None \<Rightarrow> if safe_mode then Inl Safe_mode_without_controls else Inr x
      | Some m \<Rightarrow>
          config_err (map_sum id (\<lambda>m. x\<lparr>o_runtime_controls := Some m\<rparr>)
            (set_controls api m 0 (control_value safe_mode dd udd))))"

definition allowed_programs :: "PolicyConfig \<Rightarrow> byte list list" where
  "allowed_programs policy = concat (map allowed_executables (node_values policy))"

text \<open>The part of the loop that fills the maps of denied paths.\<close>

definition configure_denied_paths ::
    "host \<Rightarrow> aya \<Rightarrow> PolicyConfig \<Rightarrow> LoadedLsmObject \<Rightarrow> startup_error + LoadedLsmObject" where
  "configure_denied_paths h api policy x =
     (let denied_paths = denied_paths_for_object policy (object_path x)
      in if denied_paths = [] then Inr x
         else
           and_then (on_map (o_denied_dir_inodes x)
             (configure_denied_dir_inodes (libc_major h) (libc_minor h) (fs_metadata h)
               (insert_inode api ''denied_dir_inodes'') denied_paths)) (\<lambda>dirs.
           and_then (on_map (o_denied_files_in_dir x)
             (configure_denied_files_in_dir h (insert_dir_file api ''denied_files_in_dir'') denied_paths)) (\<lambda>files.
           and_then (on_map (o_denied_basenames x)
             (configure_denied_basenames h (insert_bytes api ''denied_basenames'') denied_paths)) (\<lambda>names.
             Inr (x\<lparr>o_denied_dir_inodes := dirs, o_denied_files_in_dir := files,
                     o_denied_basenames := names\<rparr>)))))"

definition configure_object ::
    "host \<Rightarrow> aya \<Rightarrow> PolicyConfig \<Rightarrow> byte list \<Rightarrow> LoadedLsmObject \<Rightarrow> startup_error + LoadedLsmObject" where
  "configure_object h api policy daemon_socket_path x =
     (let net = network_policy policy
      in and_then (on_map (o_ipv4_denylist x)
           (configure_ipv4_denylist (insert_ip4 api ''ipv4_denylist'') (denied_ips net))) (\<lambda>v4d.
         and_then (on_map (o_ipv6_denylist x)
           (configure_ipv6_denylist (insert_bytes api ''ipv6_denylist'') (denied_ips net))) (\<lambda>v6d.
         and_then (on_map (o_ipv4_allowlist x)
           (configure_ipv4_allowlist (insert_ip4 api ''ipv4_allowlist'') (allowed_ips net))) (\<lambda>v4a.
         and_then (on_map (o_ipv6_allowlist x)
           (configure_ipv6_allowlist (insert_bytes api ''ipv6_allowlist'') (allowed_ips net))) (\<lambda>v6a.
         and_then (on_map (o_unix_denylist x)
           (configure_unix_denylist (insert_bytes api ''unix_denylist''))) (\<lambda>ud.
         and_then (on_map (o_unix_allowlist x)
           (configure_unix_allowlist (insert_bytes api ''unix_allowlist'') (allowed_unix_sockets net)
             daemon_socket_path)) (\<lambda>ua.
         and_then (on_map (o_allowed_exec_paths x)
           (configure_allowed_exec_paths (insert_bytes api ''allowed_exec_paths'')
             (immune_exec_path_candidates h) (allowed_programs policy))) (\<lambda>execs.
           configure_denied_paths h api policy
             (x\<lparr>o_ipv4_denylist := v4d, o_ipv6_denylist := v6d, o_ipv4_allowlist := v4a,
                o_ipv6_allowlist := v6a, o_unix_denylist := ud, o_unix_allowlist := ua,
                o_allowed_exec_paths := execs\<rparr>)))))))))"

definition configure_policy ::
    "host \<Rightarrow> aya \<Rightarrow> PolicyConfig \<Rightarrow> bool \<Rightarrow> byte list \<Rightarrow> LoadedLsmObject list \<Rightarrow>
     startup_error + LoadedLsmObject list" where
  "configure_policy h api policy safe_mode daemon_socket_path objects =
     and_then
       (for_each_object
         (set_object_controls api safe_mode (default_deny (network_policy policy))
           (unix_default_deny (network_policy policy))) objects)
       (for_each_object (configure_object h api policy daemon_socket_path))"

section \<open>Attaching\<close>

text \<open>A failure leaves the hooks attached that came before.\<close>

fun attach_all :: "aya \<Rightarrow> LoadedLsmObject list \<Rightarrow> (startup_error + unit) \<times> LoadedLsmObject list" where
  "attach_all api [] = (Inr (), [])"
| "attach_all api (x # xs) =
     (if \<not> prog_attach api (object_path x) (prog_name x) then (Inl Aya_error, x # xs)
      else let (r, ys) = attach_all api xs in (r, x\<lparr>attached := True\<rparr> # ys))"

section \<open>Starting\<close>

definition truthy :: "byte list \<Rightarrow> bool" where
  "truthy value =
     (let value = trim value
      in value = byte_string ''1'' \<or> to_ascii_lowercase value = byte_string ''true'' \<or>
         to_ascii_lowercase value = byte_string ''yes'' \<or> to_ascii_lowercase value = byte_string ''on'')"

definition env_flag_value :: "host \<Rightarrow> string \<Rightarrow> bool option" where
  "env_flag_value h name = map_option truthy (env_string h name)"

definition env_flag_enabled :: "host \<Rightarrow> string \<Rightarrow> bool" where
  "env_flag_enabled h name = (case env_flag_value h name of None \<Rightarrow> False | Some b \<Rightarrow> b)"

definition enterprise_kernel_telemetry_required :: "host \<Rightarrow> bool" where
  "enterprise_kernel_telemetry_required h = env_flag_enabled h ''JINNGUARD_ENTERPRISE''"

definition jinnguard_safe_mode_enabled :: "host \<Rightarrow> bool" where
  "jinnguard_safe_mode_enabled h =
     (case env_flag_value h ''JINNGUARD_SAFE_MODE'' of
        Some b \<Rightarrow> b
      | None \<Rightarrow> if enterprise_kernel_telemetry_required h then False else True)"

text \<open>How the start ends: the verdict loop runs over the attached objects, the daemon goes on without
  the kernel, or it refuses to start. A refusal keeps the state of the objects at that moment.\<close>

datatype startup =
    Verdict_loop "LoadedLsmObject list"
  | Userspace_only
  | Refused startup_error "LoadedLsmObject list"

definition start_lsm_verdict_loop :: "host \<Rightarrow> aya \<Rightarrow> PolicyConfig \<Rightarrow> byte list \<Rightarrow> startup" where
  "start_lsm_verdict_loop h api policy socket_path =
     (let enterprise_required = enterprise_kernel_telemetry_required h;
          safe_mode = jinnguard_safe_mode_enabled h
      in case load_monitor h api safe_mode of
           Inl err \<Rightarrow> if enterprise_required then Refused err [] else Userspace_only
         | Inr objects \<Rightarrow>
             (case configure_policy h api policy safe_mode socket_path objects of
                Inl err \<Rightarrow> Refused err objects
              | Inr objects \<Rightarrow>
                  (case attach_all api objects of
                     (Inl err, objects) \<Rightarrow> Refused err objects
                   | (Inr _, objects) \<Rightarrow> Verdict_loop objects)))"

section \<open>The map interface\<close>

lemma and_then_Inr [simp]: "and_then r f = Inr y \<longleftrightarrow> (\<exists>x. r = Inr x \<and> f x = Inr y)"
  by (auto simp: and_then_def split: sum.splits)

lemma map_sum_Inr [simp]: "map_sum f g r = Inr y \<longleftrightarrow> (\<exists>x. r = Inr x \<and> y = g x)"
  by (cases r) auto

lemma config_err_Inr [simp]: "config_err r = Inr y \<longleftrightarrow> r = Inr y"
  by (auto simp: config_err_def)

lemma on_map_Inr: "on_map mo f = Inr mo' \<longleftrightarrow> rel_option (\<lambda>m m'. f m = Inr m') mo mo'"
  by (cases mo; cases mo') (auto simp: on_map_def)

lemma optional_map_Inr:
  "optional_map name slot = Inr mo \<longleftrightarrow> (slot = Missing \<and> mo = None \<or> (\<exists>m. slot = Open_map m \<and> mo = Some m))"
  by (cases slot) (auto simp: optional_map_def)

text \<open>A map of a freshly loaded object is empty.\<close>

definition fresh_slot :: "('k \<rightharpoonup> u8) map_slot \<Rightarrow> bool" where
  "fresh_slot slot \<longleftrightarrow> slot = Missing \<or> slot = Wrong_type \<or> slot = Open_map Map.empty"

definition fresh_object :: "ebpf \<Rightarrow> bool" where
  "fresh_object bpf \<longleftrightarrow>
     fresh_slot (eb_ipv4_denylist bpf) \<and> fresh_slot (eb_ipv4_allowlist bpf) \<and>
     fresh_slot (eb_ipv6_denylist bpf) \<and> fresh_slot (eb_ipv6_allowlist bpf) \<and>
     fresh_slot (eb_unix_denylist bpf) \<and> fresh_slot (eb_unix_allowlist bpf) \<and>
     fresh_slot (eb_allowed_exec_paths bpf) \<and> fresh_slot (eb_denied_basenames bpf) \<and>
     fresh_slot (eb_denied_dir_inodes bpf) \<and> fresh_slot (eb_denied_files_in_dir bpf)"

locale aya_maps =
  fixes api :: aya
  assumes load_fresh: "ebpf_load api path = Some bpf \<Longrightarrow> fresh_object bpf"
    and ip4_map: "hash_map_api (insert_ip4 api name)"
    and bytes_map: "hash_map_api (insert_bytes api name)"
    and inode_map: "hash_map_api (insert_inode api name)"
    and dir_file_map: "hash_map_api (insert_dir_file api name)"
    and controls_array: "set_controls api cm key v = Inr cm' \<Longrightarrow> cm' = cm(key \<mapsto> v)"
    and scope_array: "set_scope api sm key w = Inr sm' \<Longrightarrow> sm' = sm(key \<mapsto> w)"

text \<open>What the maps of an object hold after the configuration: the flagged keys are those of the
  policy's entries.\<close>

definition flag_set :: "('k \<rightharpoonup> u8) option \<Rightarrow> ('k \<Rightarrow> bool) \<Rightarrow> bool" where
  "flag_set mo P \<longleftrightarrow> (case mo of None \<Rightarrow> True | Some m \<Rightarrow> \<forall>k. map_flag m k \<longleftrightarrow> P k)"

definition has_key :: "('e \<Rightarrow> daemon_error + 'k option) \<Rightarrow> 'e list \<Rightarrow> 'k \<Rightarrow> bool" where
  "has_key key es k \<longleftrightarrow> (\<exists>e\<in>set es. key e = Inr (Some k))"

definition egress_loaded :: "PolicyConfig \<Rightarrow> byte list \<Rightarrow> LoadedLsmObject \<Rightarrow> bool" where
  "egress_loaded policy daemon_socket_path x \<longleftrightarrow>
     (let net = network_policy policy
      in flag_set (o_ipv4_denylist x) (has_key (Inr \<circ> ipv4_policy_key) (denied_ips net)) \<and>
         flag_set (o_ipv6_denylist x) (has_key (Inr \<circ> ipv6_policy_key) (denied_ips net)) \<and>
         flag_set (o_ipv4_allowlist x) (has_key (Inr \<circ> ipv4_policy_key) (allowed_ips net)) \<and>
         flag_set (o_ipv6_allowlist x) (has_key (Inr \<circ> ipv6_policy_key) (allowed_ips net)) \<and>
         flag_set (o_unix_denylist x) (has_key path_key_checked ORCHESTRATOR_CONTROL_SOCKETS) \<and>
         flag_set (o_unix_allowlist x) (has_key path_key_checked (daemon_socket_path # allowed_unix_sockets net)))"

definition paths_loaded :: "host \<Rightarrow> PolicyConfig \<Rightarrow> LoadedLsmObject \<Rightarrow> bool" where
  "paths_loaded h policy x \<longleftrightarrow>
     (let denied = denied_paths_for_object policy (object_path x)
      in flag_set (o_denied_dir_inodes x)
           (has_key (denied_dir_inode (libc_major h) (libc_minor h) (fs_metadata h)) denied) \<and>
         flag_set (o_denied_files_in_dir x) (has_key (denied_file_parent_key h) denied) \<and>
         flag_set (o_denied_basenames x) (has_key (denied_basename_key h) denied))"

definition policy_loaded :: "host \<Rightarrow> PolicyConfig \<Rightarrow> byte list \<Rightarrow> LoadedLsmObject \<Rightarrow> bool" where
  "policy_loaded h policy daemon_socket_path x \<longleftrightarrow>
     (case o_runtime_controls x of
        None \<Rightarrow> \<not> jinnguard_safe_mode_enabled h
      | Some m \<Rightarrow> m 0 = Some (control_value (jinnguard_safe_mode_enabled h)
                     (default_deny (network_policy policy)) (unix_default_deny (network_policy policy)))) \<and>
     (case o_governed_scope x of
        None \<Rightarrow> resolve_governed_scope h = Inr JG_SCOPE_GLOBAL
      | Some m \<Rightarrow> (case m 0 of None \<Rightarrow> False | Some w \<Rightarrow> resolve_governed_scope h = Inr w)) \<and>
     egress_loaded policy daemon_socket_path x \<and>
     flag_set (o_allowed_exec_paths x) (has_key path_key_checked (immune_exec_path_candidates h @ allowed_programs policy)) \<and>
     paths_loaded h policy x"

section \<open>The order of the start\<close>

definition fresh_map :: "('k \<rightharpoonup> u8) option \<Rightarrow> bool" where
  "fresh_map mo \<longleftrightarrow> mo = None \<or> mo = Some Map.empty"

definition unfilled :: "LoadedLsmObject \<Rightarrow> bool" where
  "unfilled x \<longleftrightarrow>
     fresh_map (o_ipv4_denylist x) \<and> fresh_map (o_ipv4_allowlist x) \<and>
     fresh_map (o_ipv6_denylist x) \<and> fresh_map (o_ipv6_allowlist x) \<and>
     fresh_map (o_unix_denylist x) \<and> fresh_map (o_unix_allowlist x) \<and>
     fresh_map (o_allowed_exec_paths x) \<and> fresh_map (o_denied_basenames x) \<and>
     fresh_map (o_denied_dir_inodes x) \<and> fresh_map (o_denied_files_in_dir x)"

definition scope_set :: "u64 \<Rightarrow> LoadedLsmObject \<Rightarrow> bool" where
  "scope_set w x \<longleftrightarrow>
     (case o_governed_scope x of None \<Rightarrow> w = JG_SCOPE_GLOBAL | Some m \<Rightarrow> m 0 = Some w)"

definition entry_of :: "LoadedLsmObject \<Rightarrow> u32 \<times> byte list \<times> byte list \<times> byte list" where
  "entry_of x = (o_source_program x, object_path x, prog_name x, hook_name x)"

lemma fresh_optional: "fresh_slot s \<Longrightarrow> optional_map n s = Inr mo \<Longrightarrow> fresh_map mo"
  by (auto simp: fresh_slot_def optional_map_Inr fresh_map_def)

lemma fresh_map_flags: "fresh_map mo \<Longrightarrow> flag_set mo (\<lambda>_. False)"
  by (auto simp: fresh_map_def flag_set_def)

lemma insert_entries_append:
  "insert_entries ins key (a @ b) m =
     (case insert_entries ins key a m of Inl e \<Rightarrow> Inl e | Inr m \<Rightarrow> insert_entries ins key b m)"
  by (induction a arbitrary: m) (auto split: sum.splits option.splits)

lemma configure_as_entries:
  "configure_allowed_exec_paths ins immune allowed = insert_entries ins path_key_checked (immune @ allowed)"
  "configure_ipv4_denylist ins4 ips = insert_entries ins4 (Inr \<circ> ipv4_policy_key) ips"
  "configure_ipv4_allowlist ins4 ips = insert_entries ins4 (Inr \<circ> ipv4_policy_key) ips"
  "configure_ipv6_denylist ins ips = insert_entries ins (Inr \<circ> ipv6_policy_key) ips"
  "configure_ipv6_allowlist ins ips = insert_entries ins (Inr \<circ> ipv6_policy_key) ips"
  "configure_unix_denylist ins = insert_entries ins path_key_checked ORCHESTRATOR_CONTROL_SOCKETS"
  "configure_unix_allowlist ins allowed sock = insert_entries ins path_key_checked (sock # allowed)"
  "configure_denied_dir_inodes mj mn md insi paths = insert_entries insi (denied_dir_inode mj mn md) paths"
  "configure_denied_files_in_dir h insf paths = insert_entries insf (denied_file_parent_key h) paths"
  "configure_denied_basenames h ins paths = insert_entries ins (denied_basename_key h) paths"
  by (simp_all add: fun_eq_iff configure_allowed_exec_paths_def insert_entries_append
      configure_ipv4_denylist_def configure_ipv4_allowlist_def configure_ipv6_denylist_def
      configure_ipv6_allowlist_def configure_unix_denylist_def configure_unix_allowlist_def
      configure_denied_dir_inodes_def configure_denied_files_in_dir_def configure_denied_basenames_def)

lemma filled_flags:
  assumes "hash_map_api ins" "fresh_map mo" "on_map mo (insert_entries ins key es) = Inr mo'"
  shows "flag_set mo' (has_key key es)"
proof (cases mo)
  case None
  with assms(3) show ?thesis by (simp add: on_map_def flag_set_def)
next
  case (Some m)
  with assms(3) obtain m' where m': "mo' = Some m'" "insert_entries ins key es m = Inr m'"
    by (auto simp: on_map_def)
  show ?thesis
    using hash_map_api.insert_entries_flag [OF assms(1) m'(2)] fresh_map_flags [OF assms(2)] Some m'(1)
    by (simp add: flag_set_def has_key_def)
qed

lemma attach_all_objects:
  "attach_all api xs = (r, ys) \<Longrightarrow>
   map (\<lambda>x. x\<lparr>attached := False\<rparr>) ys = map (\<lambda>x. x\<lparr>attached := False\<rparr>) xs \<and>
   (r = Inr () \<longrightarrow> list_all attached ys)"
  by (induction xs arbitrary: r ys) (auto split: if_splits prod.splits)

lemma policy_loaded_attached [simp]:
  "policy_loaded h policy sock (x\<lparr>attached := b\<rparr>) = policy_loaded h policy sock x"
  by (simp add: policy_loaded_def egress_loaded_def paths_loaded_def)

context aya_maps
begin

lemma loaded_object:
  assumes "load_lsm_object api safe_mode w take_requests e = Inr (x, r)"
  shows "entry_of x = e \<and> \<not> attached x \<and> scope_set w x \<and> unfilled x"
proof -
  obtain src path prog hook where e: "e = (src, path, prog, hook)" by (metis prod.exhaust)
  from assms e obtain bpf where bpf: "ebpf_load api path = Some bpf"
    by (auto simp: load_lsm_object_def split: option.splits if_splits)
  then have fresh: "fresh_object bpf" by (rule load_fresh)
  note x = assms [unfolded load_lsm_object_def e prod.case bpf option.case, simplified]
  have "unfilled x"
    using x fresh by (auto simp: unfilled_def fresh_object_def intro: fresh_optional split: if_splits)
  moreover have "entry_of x = e \<and> \<not> attached x" using x e by (auto simp: entry_of_def split: if_splits)
  moreover have "scope_set w x"
    using x by (auto simp: scope_set_def confine_scope_def dest!: scope_array split: if_splits option.splits)
  ultimately show ?thesis by blast
qed

lemma loaded_objects:
  "load_objects api safe_mode w i es = Inr xs \<Longrightarrow>
   map entry_of xs = es \<and> list_all (\<lambda>x. \<not> attached x \<and> scope_set w x \<and> unfilled x) xs"
  by (induction es arbitrary: i xs) (auto dest: loaded_object)

lemma controls_set:
  assumes "set_object_controls api safe dd udd x = Inr y"
  shows "y = x\<lparr>o_runtime_controls := o_runtime_controls y\<rparr> \<and>
    (case o_runtime_controls y of None \<Rightarrow> \<not> safe | Some m \<Rightarrow> m 0 = Some (control_value safe dd udd))"
  using assms
  by (cases "o_runtime_controls x") (auto simp: set_object_controls_def dest!: controls_array split: if_splits)

lemma denied_paths_configured:
  assumes "configure_denied_paths h api policy x = Inr y" "fresh_map (o_denied_dir_inodes x)"
    "fresh_map (o_denied_files_in_dir x)" "fresh_map (o_denied_basenames x)"
  shows "paths_loaded h policy y \<and>
    (\<exists>dirs files names. y = x\<lparr>o_denied_dir_inodes := dirs, o_denied_files_in_dir := files,
       o_denied_basenames := names\<rparr>)"
proof (cases "denied_paths_for_object policy (object_path x) = []")
  case True
  have "x = x\<lparr>o_denied_dir_inodes := o_denied_dir_inodes x, o_denied_files_in_dir := o_denied_files_in_dir x,
      o_denied_basenames := o_denied_basenames x\<rparr>" by simp
  moreover from True assms have "y = x" by (simp add: configure_denied_paths_def)
  moreover have "paths_loaded h policy x"
    using True assms(2-) [THEN fresh_map_flags] by (simp add: paths_loaded_def has_key_def [abs_def])
  ultimately show ?thesis by metis
next
  case False
  with assms show ?thesis
    by (auto simp: configure_denied_paths_def paths_loaded_def Let_def configure_as_entries
        intro: filled_flags [OF inode_map] filled_flags [OF dir_file_map] filled_flags [OF bytes_map])
qed

end

context aya_maps
begin

lemma object_configured:
  assumes "configure_object h api policy sock x = Inr y" "unfilled x"
  shows "egress_loaded policy sock y \<and> paths_loaded h policy y \<and>
    flag_set (o_allowed_exec_paths y) (has_key path_key_checked (immune_exec_path_candidates h @ allowed_programs policy)) \<and>
    o_runtime_controls y = o_runtime_controls x \<and> o_governed_scope y = o_governed_scope x \<and>
    attached y = attached x \<and> entry_of y = entry_of x"
proof -
  let ?net = "network_policy policy"
  from assms(1) obtain v4d v6d v4a v6a ud ua execs where maps:
    "on_map (o_ipv4_denylist x) (insert_entries (insert_ip4 api ''ipv4_denylist'') (Inr \<circ> ipv4_policy_key) (denied_ips ?net)) = Inr v4d"
    "on_map (o_ipv6_denylist x) (insert_entries (insert_bytes api ''ipv6_denylist'') (Inr \<circ> ipv6_policy_key) (denied_ips ?net)) = Inr v6d"
    "on_map (o_ipv4_allowlist x) (insert_entries (insert_ip4 api ''ipv4_allowlist'') (Inr \<circ> ipv4_policy_key) (allowed_ips ?net)) = Inr v4a"
    "on_map (o_ipv6_allowlist x) (insert_entries (insert_bytes api ''ipv6_allowlist'') (Inr \<circ> ipv6_policy_key) (allowed_ips ?net)) = Inr v6a"
    "on_map (o_unix_denylist x) (insert_entries (insert_bytes api ''unix_denylist'') path_key_checked ORCHESTRATOR_CONTROL_SOCKETS) = Inr ud"
    "on_map (o_unix_allowlist x) (insert_entries (insert_bytes api ''unix_allowlist'') path_key_checked (sock # allowed_unix_sockets ?net)) = Inr ua"
    "on_map (o_allowed_exec_paths x) (insert_entries (insert_bytes api ''allowed_exec_paths'') path_key_checked
       (immune_exec_path_candidates h @ allowed_programs policy)) = Inr execs"
    and last: "configure_denied_paths h api policy
      (x\<lparr>o_ipv4_denylist := v4d, o_ipv6_denylist := v6d, o_ipv4_allowlist := v4a, o_ipv6_allowlist := v6a,
         o_unix_denylist := ud, o_unix_allowlist := ua, o_allowed_exec_paths := execs\<rparr>) = Inr y"
    by (auto simp: configure_object_def Let_def configure_as_entries)
  note f = assms(2) [unfolded unfilled_def]
  have filled: "flag_set v4d (has_key (Inr \<circ> ipv4_policy_key) (denied_ips ?net))"
    "flag_set v6d (has_key (Inr \<circ> ipv6_policy_key) (denied_ips ?net))"
    "flag_set v4a (has_key (Inr \<circ> ipv4_policy_key) (allowed_ips ?net))"
    "flag_set v6a (has_key (Inr \<circ> ipv6_policy_key) (allowed_ips ?net))"
    "flag_set ud (has_key path_key_checked ORCHESTRATOR_CONTROL_SOCKETS)"
    "flag_set ua (has_key path_key_checked (sock # allowed_unix_sockets ?net))"
    "flag_set execs (has_key path_key_checked (immune_exec_path_candidates h @ allowed_programs policy))"
    using f filled_flags [OF ip4_map _ maps(1)] filled_flags [OF bytes_map _ maps(2)]
      filled_flags [OF ip4_map _ maps(3)] filled_flags [OF bytes_map _ maps(4)]
      filled_flags [OF bytes_map _ maps(5)] filled_flags [OF bytes_map _ maps(6)]
      filled_flags [OF bytes_map _ maps(7)]
    by blast+
  obtain dirs files names where y: "paths_loaded h policy y"
    "y = x\<lparr>o_ipv4_denylist := v4d, o_ipv6_denylist := v6d, o_ipv4_allowlist := v4a, o_ipv6_allowlist := v6a,
       o_unix_denylist := ud, o_unix_allowlist := ua, o_allowed_exec_paths := execs,
       o_denied_dir_inodes := dirs, o_denied_files_in_dir := files, o_denied_basenames := names\<rparr>"
    using denied_paths_configured [OF last] f by (simp del: ex_simps) metis
  have "egress_loaded policy sock y" using filled by (simp add: egress_loaded_def y(2) Let_def)
  with y filled(7) show ?thesis by (simp add: entry_of_def)
qed

lemma each_object:
  "for_each_object f xs = Inr ys \<Longrightarrow> (\<And>x y. f x = Inr y \<Longrightarrow> P x \<Longrightarrow> Q y \<and> entry_of y = entry_of x) \<Longrightarrow>
   list_all P xs \<Longrightarrow> list_all Q ys \<and> map entry_of ys = map entry_of xs"
  by (induction xs arbitrary: ys) auto

lemma policy_configured:
  assumes "configure_policy h api policy (jinnguard_safe_mode_enabled h) sock xs = Inr ys"
    and "resolve_governed_scope h = Inr w"
    and "list_all (\<lambda>x. \<not> attached x \<and> scope_set w x \<and> unfilled x) xs"
  shows "list_all (\<lambda>y. \<not> attached y \<and> policy_loaded h policy sock y) ys \<and> map entry_of ys = map entry_of xs"
proof -
  let ?safe = "jinnguard_safe_mode_enabled h" and ?dd = "default_deny (network_policy policy)"
    and ?udd = "unix_default_deny (network_policy policy)"
  let ?ctl = "\<lambda>x. case o_runtime_controls x of None \<Rightarrow> \<not> ?safe | Some m \<Rightarrow> m 0 = Some (control_value ?safe ?dd ?udd)"
  from assms(1) obtain zs where zs: "for_each_object (set_object_controls api ?safe ?dd ?udd) xs = Inr zs"
    "for_each_object (configure_object h api policy sock) zs = Inr ys"
    by (auto simp: configure_policy_def)
  have step1: "set_object_controls api ?safe ?dd ?udd x = Inr y \<Longrightarrow> \<not> attached x \<and> scope_set w x \<and> unfilled x \<Longrightarrow>
      (\<not> attached y \<and> scope_set w y \<and> unfilled y \<and> ?ctl y) \<and> entry_of y = entry_of x" for x y
    using controls_set [of ?safe ?dd ?udd x y]
    by (cases x; cases y) (auto simp: unfilled_def entry_of_def scope_set_def)
  have step2: "configure_object h api policy sock x = Inr y \<Longrightarrow>
      \<not> attached x \<and> scope_set w x \<and> unfilled x \<and> ?ctl x \<Longrightarrow>
      (\<not> attached y \<and> policy_loaded h policy sock y) \<and> entry_of y = entry_of x" for x y
    using object_configured [of h policy sock x y] assms(2)
    by (auto simp: policy_loaded_def scope_set_def split: option.splits)
  show ?thesis
    using each_object [OF zs(1) step1 assms(3)] each_object [OF zs(2) step2] by simp
qed

end

text \<open>The maps an object has stay the same from loading on.\<close>

definition present :: "LoadedLsmObject \<Rightarrow> bool list" where
  "present x = [o_runtime_controls x \<noteq> None, o_governed_scope x \<noteq> None,
     o_ipv4_denylist x \<noteq> None, o_ipv6_denylist x \<noteq> None, o_ipv4_allowlist x \<noteq> None,
     o_ipv6_allowlist x \<noteq> None, o_unix_denylist x \<noteq> None, o_unix_allowlist x \<noteq> None,
     o_allowed_exec_paths x \<noteq> None, o_denied_basenames x \<noteq> None, o_denied_dir_inodes x \<noteq> None,
     o_denied_files_in_dir x \<noteq> None]"

fun slot_map :: "'m map_slot \<Rightarrow> 'm option" where
  "slot_map (Open_map m) = Some m"
| "slot_map _ = None"

definition declared :: "ebpf \<Rightarrow> bool list" where
  "declared b = [slot_map (eb_runtime_controls b) \<noteq> None, slot_map (eb_governed_scope b) \<noteq> None,
     slot_map (eb_ipv4_denylist b) \<noteq> None, slot_map (eb_ipv6_denylist b) \<noteq> None, slot_map (eb_ipv4_allowlist b) \<noteq> None,
     slot_map (eb_ipv6_allowlist b) \<noteq> None, slot_map (eb_unix_denylist b) \<noteq> None, slot_map (eb_unix_allowlist b) \<noteq> None,
     slot_map (eb_allowed_exec_paths b) \<noteq> None, slot_map (eb_denied_basenames b) \<noteq> None, slot_map (eb_denied_dir_inodes b) \<noteq> None,
     slot_map (eb_denied_files_in_dir b) \<noteq> None]"

definition shaped :: "aya \<Rightarrow> LoadedLsmObject \<Rightarrow> bool" where
  "shaped api x \<longleftrightarrow> (\<exists>b. ebpf_load api (object_path x) = Some b \<and> present x = declared b)"

lemma on_map_present: "on_map mo f = Inr mo' \<Longrightarrow> (mo' = None) = (mo = None)"
  by (cases mo) (auto simp: on_map_def)

lemma optional_slot: "optional_map n slot = Inr mo \<Longrightarrow> mo = slot_map slot"
  by (cases slot) (auto simp: optional_map_def)

lemma safe_mode_present: "safe_mode_controls api safe c = Inr c' \<Longrightarrow> (c' = None) = (c = None)"
  by (cases c) (auto simp: safe_mode_controls_def split: if_splits)

lemma confine_present: "confine_scope api w c = Inr c' \<Longrightarrow> (c' = None) = (c = None)"
  by (cases c) (auto simp: confine_scope_def split: if_splits)

lemma loaded_shaped:
  assumes "load_lsm_object api safe w t e = Inr (x, r)"
  shows "shaped api x"
proof -
  obtain src path prog hook where e: "e = (src, path, prog, hook)" by (metis prod.exhaust)
  from assms e obtain bpf where bpf: "ebpf_load api path = Some bpf"
    by (auto simp: load_lsm_object_def split: option.splits if_splits)
  note x = assms [unfolded load_lsm_object_def e prod.case bpf option.case, simplified]
  have path: "object_path x = path" using x by (auto split: if_splits)
  obtain controls scope where c: "safe_mode_controls api safe (slot_map (eb_runtime_controls bpf)) = Inr controls"
      "confine_scope api w (slot_map (eb_governed_scope bpf)) = Inr scope"
    and present: "present x = [controls \<noteq> None, scope \<noteq> None] @ drop 2 (declared bpf)"
    using x by (auto simp: present_def declared_def dest!: optional_slot split: if_splits)
  have "present x = declared bpf"
    using present safe_mode_present [OF c(1)] confine_present [OF c(2)] by (simp only: declared_def) simp
  with bpf path show ?thesis by (simp add: shaped_def)
qed

lemma shaped_attached [simp]: "shaped api (x\<lparr>attached := b\<rparr>) = shaped api x"
  by (simp add: shaped_def present_def)

lemma controls_shaped: "set_object_controls api safe dd udd x = Inr y \<Longrightarrow> shaped api x \<Longrightarrow> shaped api y"
  by (auto simp: set_object_controls_def shaped_def present_def split: option.splits if_splits)

lemma denied_paths_shaped: "configure_denied_paths h api policy x = Inr y \<Longrightarrow> shaped api x \<Longrightarrow> shaped api y"
  by (auto simp: configure_denied_paths_def shaped_def present_def Let_def dest!: on_map_present split: if_splits)

lemma configured_shaped: "configure_object h api policy sock x = Inr y \<Longrightarrow> shaped api x \<Longrightarrow> shaped api y"
  by (auto simp: configure_object_def Let_def dest!: on_map_present elim!: denied_paths_shaped)
    (auto simp: shaped_def present_def)

lemma each_shaped:
  "for_each_object f xs = Inr ys \<Longrightarrow> (\<And>x y. f x = Inr y \<Longrightarrow> P x \<Longrightarrow> P y) \<Longrightarrow> list_all P xs \<Longrightarrow> list_all P ys"
  by (induction xs arbitrary: ys) auto

lemma load_objects_shaped: "load_objects api safe w i es = Inr xs \<Longrightarrow> list_all (shaped api) xs"
  by (induction es arbitrary: i xs) (auto dest: loaded_shaped)

lemma start_shaped:
  assumes "start_lsm_verdict_loop h api policy sock = Verdict_loop zs"
  shows "list_all (shaped api) zs"
proof -
  from assms obtain xs ys w where
    "load_objects api (jinnguard_safe_mode_enabled h) w 0 lsm_object_table = Inr xs"
    and conf: "configure_policy h api policy (jinnguard_safe_mode_enabled h) sock xs = Inr ys"
    and att: "attach_all api ys = (Inr (), zs)"
    by (auto simp: start_lsm_verdict_loop_def load_monitor_def Let_def split: sum.splits if_splits prod.splits)
  then have "list_all (shaped api) xs" by (auto dest: load_objects_shaped)
  with conf have "list_all (shaped api) ys"
    by (auto simp: configure_policy_def intro: each_shaped controls_shaped configured_shaped)
  then have "list_all (shaped api) (map (\<lambda>x. x\<lparr>attached := False\<rparr>) ys)"
    by (simp add: list.pred_map comp_def)
  then have "list_all (shaped api) (map (\<lambda>x. x\<lparr>attached := False\<rparr>) zs)"
    using attach_all_objects [OF att] by simp
  then show ?thesis by (simp add: list.pred_map comp_def)
qed

section \<open>The installed objects\<close>

text \<open>The object files compiled from \<^verbatim>\<open>bpf/lsm\<close>, with the maps their sources declare, and a kernel whose
  maps have the declared capacities. The five requesting hooks also declare the ring buffer.\<close>

definition declared_slot :: "(string \<times> bpf_map_def) list \<Rightarrow> string \<Rightarrow> 'm \<Rightarrow> 'm map_slot" where
  "declared_slot defs name m = (if name \<in> fst ` set defs then Open_map m else Missing)"

definition compiled_object :: "bool \<Rightarrow> (string \<times> bpf_map_def) list \<Rightarrow> ebpf" where
  "compiled_object rq defs =
     \<lparr>eb_requests = (if rq then Open_map () else Missing),
      eb_verdicts = declared_slot defs ''verdicts'' Map.empty,
      eb_runtime_controls = declared_slot defs ''runtime_controls'' [0 \<mapsto> 0],
      eb_governed_scope = declared_slot defs ''governed_scope'' [0 \<mapsto> 0],
      eb_ipv4_denylist = declared_slot defs ''ipv4_denylist'' Map.empty,
      eb_ipv6_denylist = declared_slot defs ''ipv6_denylist'' Map.empty,
      eb_ipv4_allowlist = declared_slot defs ''ipv4_allowlist'' Map.empty,
      eb_ipv6_allowlist = declared_slot defs ''ipv6_allowlist'' Map.empty,
      eb_unix_denylist = declared_slot defs ''unix_denylist'' Map.empty,
      eb_unix_allowlist = declared_slot defs ''unix_allowlist'' Map.empty,
      eb_allowed_exec_paths = declared_slot defs ''allowed_exec_paths'' Map.empty,
      eb_denied_basenames = declared_slot defs ''denied_basenames'' Map.empty,
      eb_denied_dir_inodes = declared_slot defs ''denied_dir_inodes'' Map.empty,
      eb_denied_files_in_dir = declared_slot defs ''denied_files_in_dir'' Map.empty\<rparr>"

definition object_maps :: "(string \<times> bool \<times> (string \<times> bpf_map_def) list) list" where
  "object_maps = [
     (''jg_socket_connect'', True, connect_map_defs),
     (''jg_socket_sendmsg'', True, sendmsg_map_defs),
     (''jg_bprm_check_security'', True, exec_map_defs),
     (''jg_inode_create'', True, create_map_defs),
     (''jg_inode_unlink'', True, unlink_map_defs),
     (''jg_capable'', False, capable_map_defs),
     (''jg_sb_mount'', False, floor_map_defs),
     (''jg_sb_pivotroot'', False, floor_map_defs),
     (''jg_move_mount'', False, floor_map_defs),
     (''jg_file_open'', False, floor_map_defs)]"

definition installed_objects :: "byte list \<rightharpoonup> ebpf" where
  "installed_objects =
     map_of (map (\<lambda>(name, rq, defs). (object_file name, compiled_object rq defs)) object_maps)"

definition hash_capacity :: "string \<Rightarrow> nat" where
  "hash_capacity name =
     fold (\<lambda>d. max (max_entries (snd d)))
       (filter (\<lambda>d. fst d = name) (concat (map (snd \<circ> snd) object_maps))) 0"

definition array_set :: "(u32 \<rightharpoonup> 'v) \<Rightarrow> u32 \<Rightarrow> 'v \<Rightarrow> daemon_error + (u32 \<rightharpoonup> 'v)" where
  "array_set m k v = (if k < 1 then Inr (m(k \<mapsto> v)) else Inl Map_error)"

definition kernel_aya :: aya where
  "kernel_aya =
     \<lparr>btf_from_sys_fs = True, ebpf_load = installed_objects, prog_load = (\<lambda>_ _ _. True),
      prog_attach = (\<lambda>_ _. True), insert_ip4 = bounded_insert \<circ> hash_capacity,
      insert_bytes = bounded_insert \<circ> hash_capacity, insert_inode = bounded_insert \<circ> hash_capacity,
      insert_dir_file = bounded_insert \<circ> hash_capacity, set_controls = array_set, set_scope = array_set\<rparr>"

lemma compiled_fresh: "fresh_object (compiled_object rq defs)"
  by (simp add: fresh_object_def compiled_object_def fresh_slot_def declared_slot_def)

interpretation kernel_maps: aya_maps kernel_aya
proof unfold_locales
  show "fresh_object bpf" if "ebpf_load kernel_aya path = Some bpf" for path bpf
    using map_of_SomeD [OF that [unfolded kernel_aya_def installed_objects_def, simplified]] compiled_fresh
    by auto
  show "m' = m(k \<mapsto> v)" if "insert_ip4 kernel_aya name m k v = Inr m'" for name m k v m'
    using that by (auto simp: kernel_aya_def dest: bounded.ins_result)
  show "m' = m(k \<mapsto> v)" if "insert_bytes kernel_aya name m k v = Inr m'" for name m k v m'
    using that by (auto simp: kernel_aya_def dest: bounded.ins_result)
  show "m' = m(k \<mapsto> v)" if "insert_inode kernel_aya name m k v = Inr m'" for name m k v m'
    using that by (auto simp: kernel_aya_def dest: bounded.ins_result)
  show "m' = m(k \<mapsto> v)" if "insert_dir_file kernel_aya name m k v = Inr m'" for name m k v m'
    using that by (auto simp: kernel_aya_def dest: bounded.ins_result)
qed (auto simp: kernel_aya_def array_set_def split: if_splits)

text \<open>The same maps on other hosts: with or without BTF, with some of the object files installed, and with
  a verifier and an attach call that may refuse.\<close>

definition kernel_with ::
    "bool \<Rightarrow> byte list set \<Rightarrow> (byte list \<Rightarrow> byte list \<Rightarrow> byte list \<Rightarrow> bool) \<Rightarrow> (byte list \<Rightarrow> byte list \<Rightarrow> bool) \<Rightarrow> aya" where
  "kernel_with btf inst verifies att =
     kernel_aya\<lparr>btf_from_sys_fs := btf, ebpf_load := installed_objects |` inst, prog_load := verifies,
       prog_attach := att\<rparr>"

lemma hash_capacities:
  "hash_capacity ''ipv4_denylist'' = 1024" "hash_capacity ''ipv6_denylist'' = 1024"
  "hash_capacity ''ipv4_allowlist'' = 1024" "hash_capacity ''ipv6_allowlist'' = 1024"
  "hash_capacity ''unix_denylist'' = 256" "hash_capacity ''unix_allowlist'' = 256"
  "hash_capacity ''allowed_exec_paths'' = 1024" "hash_capacity ''denied_basenames'' = 1024"
  "hash_capacity ''denied_dir_inodes'' = 1024" "hash_capacity ''denied_files_in_dir'' = 1024"
  by (simp_all add: hash_capacity_def object_maps_def connect_map_defs_def sendmsg_map_defs_def
      exec_map_defs_def create_map_defs_def unlink_map_defs_def capable_map_defs_def floor_map_defs_def
      hash_map_def lru_hash_map_def array_map_def)

section \<open>Entries that fit\<close>

lemma length_trim: "length (trim s) \<le> length s"
proof -
  have "length (trim_start s) \<le> length s" for s
  proof (induction s rule: trim_start.induct)
    case (1 s)
    then show ?case by (subst trim_start.simps) auto
  qed
  moreover obtain n where "trim_end (trim_start s) = take n (trim_start s)" using trim_end_take by blast
  ultimately show ?thesis by (simp add: trim_def min.coboundedI1)
qed

lemma length_trim_end_matches: "length (trim_end_matches c s) \<le> length s"
  by (simp add: trim_end_matches_def length_dropWhile_le [of _ "rev s", simplified])

lemma split_on_piece: "p \<in> set (split_on c s) \<Longrightarrow> length p \<le> length s"
  by (induction c s arbitrary: p rule: split_on.induct) (fastforce split: if_splits list.splits)+

lemma file_name_piece: "file_name p = Some name \<Longrightarrow> name \<in> set (split_on slash p)"
proof -
  assume "file_name p = Some name"
  then have "name \<in> set (path_components p)"
    by (auto simp: file_name_def split: list.splits if_splits dest!: arg_cong [of "rev (path_components p)" _ set])
  moreover have "set (path_components p) \<subseteq> set (filter (\<lambda>c. c \<noteq> []) (split_on slash p))"
    by (cases "filter (\<lambda>c. c \<noteq> []) (split_on slash p)") (auto simp: path_components_def Let_def split: if_splits)
  ultimately show ?thesis by auto
qed

lemma length_file_name: "file_name p = Some name \<Longrightarrow> length name \<le> length p"
  by (drule file_name_piece) (rule split_on_piece)

lemma length_leaf: "length (filesystem_policy_leaf p) \<le> length p"
proof -
  let ?t = "trim_end_matches slash (trim p)"
  have "length ?t \<le> length p" using length_trim_end_matches length_trim le_trans by blast
  moreover have "length (filesystem_policy_leaf p) \<le> length ?t"
    using length_file_name [of ?t] by (auto simp: filesystem_policy_leaf_def Let_def split: option.splits)
  ultimately show ?thesis by simp
qed

lemma path_key_fits: "length (trim e) < 128 \<Longrightarrow> \<exists>k. path_key_checked e = Inr k"
  by (simp add: path_key_checked_eq)

lemma file_key_fits: "length e < 128 \<Longrightarrow> \<exists>k. denied_file_parent_key h e = Inr k"
proof -
  assume e: "length e < 128"
  let ?t = "trim_end_matches slash (trim e)"
  have "length ?t < 128" using e length_trim_end_matches [of slash "trim e"] length_trim [of e] by linarith
  then have "length (trim (filesystem_policy_leaf ?t)) < 128"
    using length_leaf [of ?t] length_trim [of "filesystem_policy_leaf ?t"] by linarith
  then show ?thesis
    by (auto simp: denied_file_parent_key_def Let_def name_key_bytes_checked_def jg_consts split: option.splits)
qed

lemma basename_key_fits: "length e < 128 \<Longrightarrow> \<exists>k. denied_basename_key h e = Inr k"
proof -
  assume e: "length e < 128"
  have "length (trim (filesystem_policy_leaf e)) < 128"
    using e length_leaf [of e] length_trim [of "filesystem_policy_leaf e"] by linarith
  then show ?thesis
    using file_key_fits [OF e, of h]
    by (auto simp: denied_basename_key_def name_key_checked_eq path_key_checked_eq split: sum.splits option.splits)
qed

text \<open>The policies whose entries have room in the maps and in the keys.\<close>

definition policy_fits :: "host \<Rightarrow> PolicyConfig \<Rightarrow> byte list \<Rightarrow> bool" where
  "policy_fits h policy sock \<longleftrightarrow>
     (let net = network_policy policy;
          execs = immune_exec_path_candidates h @ allowed_programs policy;
          writes = concat (map denied_write_paths (node_values policy));
          unlinks = concat (map denied_unlink_paths (node_values policy))
      in length (denied_ips net) \<le> 1024 \<and> length (allowed_ips net) \<le> 1024 \<and>
         length (allowed_unix_sockets net) < 256 \<and> length execs \<le> 1024 \<and>
         length writes \<le> 1024 \<and> length unlinks \<le> 1024 \<and>
         list_all (\<lambda>e. length (trim e) < 128) (sock # allowed_unix_sockets net @ execs) \<and>
         list_all (\<lambda>e. length e < 128) (writes @ unlinks))"

lemma on_map_succeeds:
  assumes "fresh_map mo" "\<And>e. e \<in> set es \<Longrightarrow> \<exists>k. key e = Inr k" "length es \<le> cap"
  shows "\<exists>mo'. on_map mo (insert_entries (bounded_insert cap) key es) = Inr mo'"
proof (cases mo)
  case None
  then show ?thesis by (simp add: on_map_def)
next
  case (Some m)
  with assms(1) have "m = Map.empty" by (simp add: fresh_map_def)
  with bounded.insert_entries_succeeds [of es key m cap] assms(2,3) Some show ?thesis
    by (auto simp: on_map_def)
qed

lemma kernel_with_maps: "aya_maps (kernel_with btf inst verifies att)"
proof unfold_locales
  note kernel = kernel_maps.aya_maps_axioms [unfolded aya_maps_def]
  show "fresh_object bpf" if "ebpf_load (kernel_with btf inst verifies att) path = Some bpf" for path bpf
    using that kernel_maps.load_fresh [of path bpf]
    by (auto simp: kernel_with_def kernel_aya_def restrict_map_def split: if_splits)
qed (auto simp: kernel_with_def array_set_def kernel_aya_def dest: bounded.ins_result split: if_splits)

lemma kernel_with_inserts:
  "insert_ip4 (kernel_with btf inst verifies att) name = bounded_insert (hash_capacity name)"
  "insert_bytes (kernel_with btf inst verifies att) name = bounded_insert (hash_capacity name)"
  "insert_inode (kernel_with btf inst verifies att) name = bounded_insert (hash_capacity name)"
  "insert_dir_file (kernel_with btf inst verifies att) name = bounded_insert (hash_capacity name)"
  by (simp_all add: kernel_with_def kernel_aya_def)

lemma denied_paths_fit:
  assumes "policy_fits h policy sock"
  shows "length (denied_paths_for_object policy p) \<le> 1024"
    "e \<in> set (denied_paths_for_object policy p) \<Longrightarrow> length e < 128"
  using assms by (auto simp: policy_fits_def denied_paths_for_object_def Let_def list_all_iff split: if_splits)

lemma configure_denied_paths_succeeds:
  assumes "fresh_map (o_denied_dir_inodes x)" "fresh_map (o_denied_files_in_dir x)"
    "fresh_map (o_denied_basenames x)" "policy_fits h policy sock"
  shows "\<exists>y. configure_denied_paths h (kernel_with btf inst verifies att) policy x = Inr y"
proof -
  let ?es = "denied_paths_for_object policy (object_path x)"
  note fit = denied_paths_fit [OF assms(4), where p = "object_path x"]
  have dir_key: "\<exists>k. denied_dir_inode mj mn md e = Inr k" for mj mn md e
    by (simp add: denied_dir_inode_def Let_def split: option.splits)
  have "\<exists>d. on_map (o_denied_dir_inodes x) (insert_entries (bounded_insert 1024)
      (denied_dir_inode (libc_major h) (libc_minor h) (fs_metadata h)) ?es) = Inr d"
    by (rule on_map_succeeds [OF assms(1) dir_key fit(1)])
  moreover have "\<exists>f. on_map (o_denied_files_in_dir x) (insert_entries (bounded_insert 1024)
      (denied_file_parent_key h) ?es) = Inr f"
    by (intro on_map_succeeds assms(2) file_key_fits fit)
  moreover have "\<exists>n. on_map (o_denied_basenames x) (insert_entries (bounded_insert 1024)
      (denied_basename_key h) ?es) = Inr n"
    by (intro on_map_succeeds assms(3) basename_key_fits fit)
  ultimately show ?thesis
    by (auto simp: configure_denied_paths_def Let_def configure_as_entries kernel_with_inserts hash_capacities)
qed

lemma configure_object_succeeds:
  assumes "unfilled x" "policy_fits h policy sock"
  shows "\<exists>y. configure_object h (kernel_with btf inst verifies att) policy sock x = Inr y"
proof -
  let ?net = "network_policy policy"
  note fresh = assms(1) [unfolded unfilled_def]
  note fits = assms(2) [unfolded policy_fits_def Let_def list_all_iff]
  let ?ins = "\<lambda>cap mo key es. on_map mo (insert_entries (bounded_insert cap) key es)"
  have ip: "\<exists>k. (Inr \<circ> f) e = Inr k" for f :: "byte list \<Rightarrow> 'k option" and e by simp
  have paths: "\<exists>mo. ?ins 256 (o_unix_denylist x) path_key_checked ORCHESTRATOR_CONTROL_SOCKETS = Inr mo"
    "\<exists>mo. ?ins 256 (o_unix_allowlist x) path_key_checked (sock # allowed_unix_sockets ?net) = Inr mo"
    "\<exists>mo. ?ins 1024 (o_allowed_exec_paths x) path_key_checked
       (immune_exec_path_candidates h @ allowed_programs policy) = Inr mo"
  proof -
    show "\<exists>mo. ?ins 256 (o_unix_denylist x) path_key_checked ORCHESTRATOR_CONTROL_SOCKETS = Inr mo"
      using orchestrator_entries fresh
      by (intro on_map_succeeds path_key_fits) (auto simp: list_all_iff, simp add: ORCHESTRATOR_CONTROL_SOCKETS_def)
    show "\<exists>mo. ?ins 256 (o_unix_allowlist x) path_key_checked (sock # allowed_unix_sockets ?net) = Inr mo"
      using fits fresh by (intro on_map_succeeds path_key_fits) auto
    show "\<exists>mo. ?ins 1024 (o_allowed_exec_paths x) path_key_checked
       (immune_exec_path_candidates h @ allowed_programs policy) = Inr mo"
      using fits fresh by (intro on_map_succeeds path_key_fits) auto
  qed
  have ips: "\<exists>mo. ?ins 1024 (o_ipv4_denylist x) (Inr \<circ> ipv4_policy_key) (denied_ips ?net) = Inr mo"
    "\<exists>mo. ?ins 1024 (o_ipv6_denylist x) (Inr \<circ> ipv6_policy_key) (denied_ips ?net) = Inr mo"
    "\<exists>mo. ?ins 1024 (o_ipv4_allowlist x) (Inr \<circ> ipv4_policy_key) (allowed_ips ?net) = Inr mo"
    "\<exists>mo. ?ins 1024 (o_ipv6_allowlist x) (Inr \<circ> ipv6_policy_key) (allowed_ips ?net) = Inr mo"
    using fits fresh by (blast intro: on_map_succeeds ip)+
  have last: "\<exists>y. configure_denied_paths h (kernel_with btf inst verifies att) policy
      (x\<lparr>o_ipv4_denylist := v4d, o_ipv6_denylist := v6d, o_ipv4_allowlist := v4a, o_ipv6_allowlist := v6a,
         o_unix_denylist := ud, o_unix_allowlist := ua, o_allowed_exec_paths := execs\<rparr>) = Inr y"
    for v4d v6d v4a v6a ud ua execs
    using fresh by (intro configure_denied_paths_succeeds [OF _ _ _ assms(2)]) simp_all
  show ?thesis
    using ips paths last
    by (auto simp: configure_object_def Let_def configure_as_entries kernel_with_inserts hash_capacities)
qed

lemma each_object_succeeds: "list_all (\<lambda>x. \<exists>y. f x = Inr y) xs \<Longrightarrow> \<exists>ys. for_each_object f xs = Inr ys"
  by (induction xs) auto

lemma set_controls_succeeds:
  "o_runtime_controls x = Some m \<Longrightarrow>
   set_object_controls (kernel_with btf inst verifies att) safe dd udd x = Inr (x\<lparr>o_runtime_controls := Some (m(0 \<mapsto> control_value safe dd udd))\<rparr>)"
  by (simp add: set_object_controls_def kernel_with_def kernel_aya_def array_set_def config_err_def)

lemma attach_all_Inr:
  "(\<exists>ys. attach_all api xs = (Inr (), ys)) \<longleftrightarrow> list_all (\<lambda>x. prog_attach api (object_path x) (prog_name x)) xs"
  by (induction xs) (auto simp: Let_def case_prod_beta prod_eq_iff)

lemma entry_attaches:
  "map entry_of xs = es \<Longrightarrow> list_all (\<lambda>x. P (object_path x) (prog_name x)) xs \<longleftrightarrow> list_all (\<lambda>(src, path, prog, hook). P path prog) es"
  by (auto simp: list_all_iff entry_of_def)

lemma optional_declared:
  "optional_map n (declared_slot defs name m) = Inr (if name \<in> fst ` set defs then Some m else None)"
  by (simp add: optional_map_def declared_slot_def)

definition loadable :: "bool \<Rightarrow> u32 \<times> byte list \<times> byte list \<times> byte list \<Rightarrow> bool" where
  "loadable take_requests e \<longleftrightarrow>
     (\<exists>rq defs. installed_objects (fst (snd e)) = Some (compiled_object rq defs) \<and> (take_requests \<longrightarrow> rq) \<and>
        {''verdicts'', ''runtime_controls'', ''governed_scope''} \<subseteq> fst ` set defs)"

definition loads :: "byte list set \<Rightarrow> (byte list \<Rightarrow> byte list \<Rightarrow> byte list \<Rightarrow> bool) \<Rightarrow>
    u32 \<times> byte list \<times> byte list \<times> byte list \<Rightarrow> bool" where
  "loads inst verifies e \<longleftrightarrow> (case e of (src, path, prog, hook) \<Rightarrow> path \<in> inst \<and> verifies path prog hook)"

lemma load_succeeds:
  assumes "loadable take_requests e" "loads inst verifies e"
  shows "\<exists>x. load_lsm_object (kernel_with btf inst verifies att) safe w take_requests e = Inr (x, take_requests) \<and>
    o_runtime_controls x \<noteq> None"
proof -
  obtain src path prog hook where e: "e = (src, path, prog, hook)" by (metis prod.exhaust)
  with assms(1) obtain rq defs where bpf: "installed_objects path = Some (compiled_object rq defs)"
    and rq: "take_requests \<longrightarrow> rq"
    and ctl: "''verdicts'' \<in> fst ` set defs" "''runtime_controls'' \<in> fst ` set defs"
      "''governed_scope'' \<in> fst ` set defs"
    by (auto simp: loadable_def)
  have vm: "required_map ''verdicts'' (declared_slot defs ''verdicts'' m) = Inr m" for m :: "u64 \<rightharpoonup> VerdictPayload"
    using ctl(1) by (simp add: required_map_def declared_slot_def)
  have ring: "(if take_requests then required_map ''requests'' (if rq then Open_map () else Missing) else Inr ()) = Inr ()"
    using rq by (simp add: required_map_def)
  obtain cm where controls: "safe_mode_controls (kernel_with btf inst verifies att) safe (Some [0 \<mapsto> 0]) = Inr (Some cm)"
    by (cases safe) (auto simp: safe_mode_controls_def kernel_with_def kernel_aya_def array_set_def config_err_def)
  obtain sm where scope: "confine_scope (kernel_with btf inst verifies att) w (Some [0 \<mapsto> 0]) = Inr sm"
    by (auto simp: confine_scope_def kernel_with_def kernel_aya_def array_set_def config_err_def)
  have bpf: "ebpf_load (kernel_with btf inst verifies att) path = Some (compiled_object rq defs)" "prog_load (kernel_with btf inst verifies att) path prog hook"
    using bpf assms(2) e by (simp_all add: kernel_with_def kernel_aya_def loads_def)
  have next_step: "and_then (Inr y) f = f y" for y and f :: "'a \<Rightarrow> 'e + 'b" by (simp add: and_then_def)
  show ?thesis
    unfolding load_lsm_object_def e prod.case bpf option.case
    by (simp add: bpf compiled_object_def optional_declared vm ring controls scope ctl next_step
        del: and_then_Inr cong: if_cong)
qed

lemma load_rest_succeeds:
  "list_all (loadable False) es \<Longrightarrow> list_all (loads inst verifies) es \<Longrightarrow>
   \<exists>xs. load_objects (kernel_with btf inst verifies att) safe w (Suc i) es = Inr xs \<and> list_all (\<lambda>x. o_runtime_controls x \<noteq> None) xs"
proof (induction es arbitrary: i)
  case (Cons e es)
  with load_succeeds [where take_requests = False and e = e and safe = safe and w = w] Cons.IH [of "Suc i"] show ?case by fastforce
qed simp

lemma installed_object:
  assumes "(name, rq, defs) \<in> set object_maps"
  shows "installed_objects (object_file name) = Some (compiled_object rq defs)"
proof -
  have "distinct (map (\<lambda>(name, rq, defs). object_file name) object_maps)"
    by (simp add: object_maps_def object_file_def byte_string_def)
  with assms show ?thesis
    unfolding installed_objects_def by (auto intro!: map_of_is_SomeI simp: comp_def split_beta' image_iff Bex_def)
qed

lemma object_maps_length: "length object_maps = 10"
  by (simp add: object_maps_def)

lemma control_maps_declared:
  "list_all (\<lambda>(name, rq, defs). {''verdicts'', ''runtime_controls'', ''governed_scope''} \<subseteq> fst ` set defs) object_maps"
  by (simp add: object_maps_def connect_map_defs_def sendmsg_map_defs_def exec_map_defs_def create_map_defs_def
      unlink_map_defs_def capable_map_defs_def floor_map_defs_def)

lemma table_loadable: "loadable True (hd lsm_object_table)" "list_all (loadable False) (tl lsm_object_table)"
proof -
  have ld: "(name, rq, defs) \<in> set object_maps \<Longrightarrow> fst (snd e) = object_file name \<Longrightarrow> (b \<longrightarrow> rq) \<Longrightarrow>
      {''verdicts'', ''runtime_controls'', ''governed_scope''} \<subseteq> fst ` set defs \<Longrightarrow> loadable b e"
    for name rq defs b e by (auto simp: loadable_def installed_object)
  note defs = connect_map_defs_def sendmsg_map_defs_def exec_map_defs_def create_map_defs_def
    unlink_map_defs_def capable_map_defs_def floor_map_defs_def
  show "loadable True (hd lsm_object_table)"
    by (rule ld [of "''jg_socket_connect''" True connect_map_defs])
      (simp_all add: lsm_object_table_def object_maps_def defs)
  have "name \<in> fst ` set object_maps \<Longrightarrow> loadable False (src, object_file name, prog, hook)"
    for name src prog hook
    using ld [where b = False] control_maps_declared by (fastforce simp: list_all_iff)
  then show "list_all (loadable False) (tl lsm_object_table)"
    by (simp add: lsm_object_table_def object_maps_def)
qed

section \<open>Properties\<close>

lemma start_loads:
  assumes "resolve_governed_scope h = Inr w" "list_all (loads inst verifies) lsm_object_table" "btf"
  shows "\<exists>xs. load_monitor h (kernel_with btf inst verifies att) safe = Inr xs \<and> list_all (\<lambda>x. o_runtime_controls x \<noteq> None) xs"
proof -
  have split: "lsm_object_table = hd lsm_object_table # tl lsm_object_table" by (simp add: lsm_object_table_def)
  have lds: "loads inst verifies (hd lsm_object_table)" "list_all (loads inst verifies) (tl lsm_object_table)"
    using assms(2) by (subst (asm) split, simp)+
  obtain x where x: "load_lsm_object (kernel_with btf inst verifies att) safe w True (hd lsm_object_table) = Inr (x, True)"
    "o_runtime_controls x \<noteq> None"
    using load_succeeds [OF table_loadable(1) lds(1)] by blast
  obtain xs where xs: "load_objects (kernel_with btf inst verifies att) safe w (Suc 0) (tl lsm_object_table) = Inr xs"
    "list_all (\<lambda>x. o_runtime_controls x \<noteq> None) xs"
    using load_rest_succeeds [OF table_loadable(2) lds(2)] by blast
  have "load_objects (kernel_with btf inst verifies att) safe w 0 lsm_object_table = Inr (x # xs)"
    using load_objects.simps(2) [of "kernel_with btf inst verifies att" safe w 0 "hd lsm_object_table" "tl lsm_object_table"] x xs split
    by simp
  then show ?thesis using assms x xs by (simp add: load_monitor_def) (simp add: kernel_with_def kernel_aya_def)
qed

lemma startup_live:
  assumes "resolve_governed_scope h = Inr w" "policy_fits h policy sock" "btf"
    "list_all (\<lambda>(src, path, prog, hook). path \<in> inst \<and> verifies path prog hook \<and> att path prog) lsm_object_table"
  shows "\<exists>xs. start_lsm_verdict_loop h (kernel_with btf inst verifies att) policy sock = Verdict_loop xs"
proof -
  have loads: "list_all (loads inst verifies) lsm_object_table"
    using assms(4) by (auto simp: loads_def list_all_iff)
  let ?safe = "jinnguard_safe_mode_enabled h"
  obtain xs where xs: "load_monitor h (kernel_with btf inst verifies att) ?safe = Inr xs" "list_all (\<lambda>x. o_runtime_controls x \<noteq> None) xs"
    using start_loads [OF assms(1) loads assms(3)] by blast
  then have "load_objects (kernel_with btf inst verifies att) ?safe w 0 lsm_object_table = Inr xs"
    using assms(1,3) by (simp add: load_monitor_def kernel_with_def kernel_aya_def)
  note objs = this
  from aya_maps.loaded_objects [OF kernel_with_maps this] have unfilled: "list_all unfilled xs"
    by (simp add: list_all_iff)
  let ?ctl = "set_object_controls (kernel_with btf inst verifies att) ?safe (default_deny (network_policy policy))
    (unix_default_deny (network_policy policy))"
  obtain ys where ys: "for_each_object ?ctl xs = Inr ys"
    using each_object_succeeds [of ?ctl xs] xs(2) set_controls_succeeds by (fastforce simp: list_all_iff)
  have step: "unfilled y \<and> entry_of y = entry_of x" if "?ctl x = Inr y" "unfilled x" for x y
    using aya_maps.controls_set [OF kernel_with_maps that(1)] that(2)
    by (cases x; cases y) (auto simp: unfilled_def entry_of_def)
  have "list_all unfilled ys" using aya_maps.each_object [OF kernel_with_maps ys step unfilled] by blast
  then obtain zs where "for_each_object (configure_object h (kernel_with btf inst verifies att) policy sock) ys = Inr zs"
    using each_object_succeeds [of "configure_object h (kernel_with btf inst verifies att) policy sock" ys]
      configure_object_succeeds [OF _ assms(2)] by (fastforce simp: list_all_iff)
  with ys have conf: "configure_policy h (kernel_with btf inst verifies att) policy ?safe sock xs = Inr zs"
    by (simp add: configure_policy_def)
  then have "map entry_of zs = lsm_object_table"
    using aya_maps.policy_configured [OF kernel_with_maps conf assms(1)]
      aya_maps.loaded_objects [OF kernel_with_maps objs] by simp
  from entry_attaches [OF this, of att] assms(4)
  have "list_all (\<lambda>x. prog_attach (kernel_with btf inst verifies att) (object_path x) (prog_name x)) zs"
    by (auto simp: kernel_with_def list_all_iff)
  with attach_all_Inr [of "kernel_with btf inst verifies att" zs] obtain us where
    "attach_all (kernel_with btf inst verifies att) zs = (Inr (), us)" by blast
  with xs(1) conf show ?thesis by (simp add: start_lsm_verdict_loop_def Let_def)
qed

lemma load_objects_needs:
  "load_objects api safe w i es = Inr xs \<Longrightarrow>
   list_all (\<lambda>(src, path, prog, hook). ebpf_load api path \<noteq> None \<and> prog_load api path prog hook) es"
  by (induction es arbitrary: i xs) (auto simp: load_lsm_object_def split: option.splits if_splits)

lemma startup_needs:
  assumes "start_lsm_verdict_loop h (kernel_with btf inst verifies att) policy sock = Verdict_loop us"
  shows "btf \<and> (\<exists>w. resolve_governed_scope h = Inr w) \<and>
    list_all (\<lambda>(src, path, prog, hook). path \<in> inst \<and> verifies path prog hook \<and> att path prog) lsm_object_table"
proof -
  let ?api = "kernel_with btf inst verifies att" and ?safe = "jinnguard_safe_mode_enabled h"
  obtain xs zs where run: "load_monitor h ?api ?safe = Inr xs" "configure_policy h ?api policy ?safe sock xs = Inr zs"
    "attach_all ?api zs = (Inr (), us)"
    using assms by (auto simp: start_lsm_verdict_loop_def Let_def split: sum.splits prod.splits if_splits)
  then obtain w where w: "btf" "resolve_governed_scope h = Inr w" "load_objects ?api ?safe w 0 lsm_object_table = Inr xs"
    by (auto simp: load_monitor_def kernel_with_def split: if_splits)
  have "map entry_of zs = lsm_object_table"
    using aya_maps.policy_configured [OF kernel_with_maps run(2) w(2)]
      aya_maps.loaded_objects [OF kernel_with_maps w(3)] by simp
  from entry_attaches [OF this, of att] attach_all_Inr [of ?api zs] run(3)
  have "list_all (\<lambda>(src, path, prog, hook). att path prog) lsm_object_table"
    by (auto simp: kernel_with_def)
  with load_objects_needs [OF w(3)] w(1,2) show ?thesis
    by (auto simp: list_all_iff kernel_with_def restrict_map_def split: if_splits)
qed


text \<open>A host with no files and the variables of an enterprise deployment, and a policy that denies one
  address.\<close>

definition bare_host :: host where
  "bare_host = \<lparr>fs_metadata = (\<lambda>_. None), fs_canonicalize = (\<lambda>_. None), fs_exists = (\<lambda>_. False),
     fs_read_dir = (\<lambda>_. None), fs_is_file = (\<lambda>_. False), libc_major = (\<lambda>_. 0), libc_minor = (\<lambda>_. 0),
     env_var = [''JINNGUARD_ENTERPRISE'' \<mapsto> byte_string ''1''], name_to_handle = (\<lambda>_. None)\<rparr>"

definition sample_lsm_policy :: PolicyConfig where
  "sample_lsm_policy = \<lparr>upper_safety_boundary = Fin 95, minimum_trust_score = Fin 5, agent_nodes = [],
     deny_anonymous_agents = True, allow_anonymous_override = False,
     network_policy = \<lparr>default_deny = False, allowed_ips = [], denied_ips = [byte_string ''10.0.0.1''],
       allowed_unix_sockets = [], unix_default_deny = False\<rparr>,
     runtime_policy = \<lparr>deny_root_peers = False, runtime_peer_uids = [], require_brokered_execution = False,
       require_sandbox_namespace = False\<rparr>,
     fleet_policy_min_version = 0, accept_cross_machine_lineage = False, canary_resources = []\<rparr>"

definition daemon_socket_file :: "byte list" where
  "daemon_socket_file = byte_string ''/run/jinnguard/jinnguard.sock''"

lemma bare_candidates:
  "set (immune_exec_path_candidates bare_host) = set IMMUNE_EXACT_PATHS"
  "length (immune_exec_path_candidates bare_host) \<le> length IMMUNE_EXACT_PATHS"
proof -
  have "fold (insert_immune_path_candidate bare_host) ps cs = rev ps @ cs" for ps cs
    by (induction ps arbitrary: cs) (simp_all add: insert_immune_path_candidate_def bare_host_def)
  moreover have "collect_path_candidates bare_host cs = cs" for cs
    by (simp add: collect_path_candidates_def bare_host_def)
  moreover have "collect_systemd_prefix_candidates bare_host cs = cs" for cs
    by (simp add: collect_systemd_prefix_candidates_def bare_host_def IMMUNE_PATH_PREFIXES_def)
  ultimately have "immune_exec_path_candidates bare_host = sort (remdups (rev IMMUNE_EXACT_PATHS))"
    by (simp add: immune_exec_path_candidates_def Let_def)
  then show "set (immune_exec_path_candidates bare_host) = set IMMUNE_EXACT_PATHS"
    "length (immune_exec_path_candidates bare_host) \<le> length IMMUNE_EXACT_PATHS"
    using length_remdups_leq [of "rev IMMUNE_EXACT_PATHS"] by simp_all
qed

lemma bare_scope: "resolve_governed_scope bare_host = Inr 0"
  by (simp add: resolve_governed_scope_def env_string_def bare_host_def JG_SCOPE_GLOBAL_def)

lemma sample_fits: "policy_fits bare_host sample_lsm_policy daemon_socket_file"
proof -
  have "list_all (\<lambda>e. length e < 128) IMMUNE_EXACT_PATHS" "length daemon_socket_file < 128"
    by (simp_all add: IMMUNE_EXACT_PATHS_def daemon_socket_file_def byte_string_def)
  then have short: "e \<in> set IMMUNE_EXACT_PATHS \<Longrightarrow> length (trim e) < 128" "length (trim daemon_socket_file) < 128" for e
    using length_trim le_less_trans by (auto simp: list_all_iff) blast+
  have "length (immune_exec_path_candidates bare_host) \<le> 1024"
    using bare_candidates(2) by (simp add: IMMUNE_EXACT_PATHS_def)
  with short show ?thesis
    by (simp add: policy_fits_def bare_candidates(1) sample_lsm_policy_def allowed_programs_def node_values_def list_all_iff)
qed

lemma kernel_with_everything: "kernel_with True UNIV (\<lambda>_ _ _. True) (\<lambda>_ _. True) = kernel_aya"
  by (simp add: kernel_with_def kernel_aya_def restrict_map_def)

lemma sample_starts:
  "\<exists>xs. start_lsm_verdict_loop bare_host kernel_aya sample_lsm_policy daemon_socket_file = Verdict_loop xs"
  using startup_live [OF bare_scope sample_fits, of True UNIV "\<lambda>_ _ _. True" "\<lambda>_ _. True"]
  by (simp add: kernel_with_everything list_all_iff)


lemma start_outcome:
  assumes "aya_maps api"
  shows "case start_lsm_verdict_loop h api policy sock of
      Verdict_loop xs \<Rightarrow> map entry_of xs = lsm_object_table \<and>
        list_all (\<lambda>x. attached x \<and> policy_loaded h policy sock x) xs
    | Userspace_only \<Rightarrow> \<not> enterprise_kernel_telemetry_required h
    | Refused e xs \<Rightarrow> list_ex attached xs \<longrightarrow>
        map entry_of xs = lsm_object_table \<and> list_all (policy_loaded h policy sock) xs"
proof (cases "load_monitor h api (jinnguard_safe_mode_enabled h)")
  case (Inl err)
  then show ?thesis by (simp add: start_lsm_verdict_loop_def Let_def)
next
  case (Inr xs)
  then obtain w where w: "resolve_governed_scope h = Inr w"
    "load_objects api (jinnguard_safe_mode_enabled h) w 0 lsm_object_table = Inr xs"
    by (auto simp: load_monitor_def split: if_splits)
  note loaded = aya_maps.loaded_objects [OF assms w(2)]
  show ?thesis
  proof (cases "configure_policy h api policy (jinnguard_safe_mode_enabled h) sock xs")
    case (Inl err)
    with Inr loaded show ?thesis
      by (auto simp: start_lsm_verdict_loop_def Let_def list_all_iff list_ex_iff)
  next
    case conf: (Inr ys)
    obtain r zs where att: "attach_all api ys = (r, zs)" by force
    have ok: "list_all (\<lambda>y. policy_loaded h policy sock y) ys \<and> map entry_of ys = lsm_object_table"
      using aya_maps.policy_configured [OF assms conf w(1)] loaded by (simp add: list_all_iff)
    have same: "map (\<lambda>x. x\<lparr>attached := False\<rparr>) zs = map (\<lambda>x. x\<lparr>attached := False\<rparr>) ys"
      and all: "r = Inr () \<Longrightarrow> list_all attached zs"
      using attach_all_objects [OF att] by auto
    have "list_all (policy_loaded h policy sock) (map (\<lambda>x. x\<lparr>attached := False\<rparr>) ys)"
      using ok by (simp add: list.pred_map comp_def)
    then have "list_all (policy_loaded h policy sock) zs"
      unfolding same [symmetric] by (simp add: list.pred_map comp_def)
    moreover have "map entry_of (map (\<lambda>x. x\<lparr>attached := False\<rparr>) zs) = map entry_of (map (\<lambda>x. x\<lparr>attached := False\<rparr>) ys)"
      by (simp only: same)
    then have "map entry_of zs = map entry_of ys" by (simp add: entry_of_def [abs_def] comp_def)
    ultimately show ?thesis
      using Inr conf att ok all by (auto simp: start_lsm_verdict_loop_def Let_def list_all_iff split: sum.splits)
  qed
qed

text \<open>C2: with maps that keep what is inserted, the start either ends with all ten programs attached and
  the policy in the maps of every one, or goes on without the kernel, which it never does in an
  enterprise deployment, or refuses. At a refusal, too, a single attached program means that the maps of
  all ten objects, those not yet attached included, hold the policy: whatever loads, inserts and
  attachments fail, no hook goes live before the last map is filled.\<close>

theorem attached_hooks_loaded:
  assumes "aya_maps api"
  shows "case start_lsm_verdict_loop h api policy sock of
      Verdict_loop xs \<Rightarrow> map entry_of xs = lsm_object_table \<and>
        list_all (\<lambda>x. attached x \<and> policy_loaded h policy sock x) xs
    | Userspace_only \<Rightarrow> \<not> enterprise_kernel_telemetry_required h
    | Refused e xs \<Rightarrow> list_ex attached xs \<longrightarrow>
        map entry_of xs = lsm_object_table \<and> list_all (policy_loaded h policy sock) xs"
  using assms by (rule start_outcome)

theorem attached_hooks_loaded_witness:
  "\<exists>xs. start_lsm_verdict_loop bare_host kernel_aya sample_lsm_policy daemon_socket_file = Verdict_loop xs \<and>
     length xs = 10 \<and> list_all attached xs"
proof -
  obtain xs where "start_lsm_verdict_loop bare_host kernel_aya sample_lsm_policy daemon_socket_file = Verdict_loop xs"
    using sample_starts by blast
  moreover from this have "map entry_of xs = lsm_object_table \<and> list_all attached xs"
    using attached_hooks_loaded [OF kernel_maps.aya_maps_axioms, of bare_host sample_lsm_policy daemon_socket_file]
    by (simp add: list_all_iff)
  moreover from this have "length (map entry_of xs) = length lsm_object_table" by simp
  then have "length xs = 10" by (simp add: lsm_object_table_def)
  ultimately show ?thesis by blast
qed

end
