(* ===== verification/Reference_Monitor.thy ===== *)
theory Reference_Monitor
  imports Daemon_Startup
begin

text \<open>
  What the whole kernel side promises: a reference monitor that decides every LSM call from the
  policy's strings, the host and kernel memory alone, with no maps, keys or objects. The
  refinement theorem says that the ten hooks, over the maps that the daemon filled at its start, answer
  every sequence of calls as this monitor does.
\<close>

section \<open>What the entries of a policy mean\<close>

definition listed4 :: "byte list list \<Rightarrow> byte list \<Rightarrow> bool" where
  "listed4 entries os \<longleftrightarrow>
     list_ex (\<lambda>e. trim e \<noteq> [] \<and> parse_ipv4 (hd (split_on 0x3A (trim e))) = Some os) entries"

definition listed6 :: "byte list list \<Rightarrow> byte list \<Rightarrow> bool" where
  "listed6 entries os \<longleftrightarrow> list_ex (\<lambda>e. ipv6_policy_key e = Some os) entries"

definition listed_path :: "byte list list \<Rightarrow> byte list \<Rightarrow> bool" where
  "listed_path entries p \<longleftrightarrow> p \<noteq> [] \<and> p \<in> trim ` set entries"

text \<open>A denied path stands for a directory, for one name in one directory, or, when neither the
  path nor its parent is a directory at the start of the daemon, for a name in every directory.\<close>

datatype denied_target =
    Whole_dir jg_inode_key
  | File_in_dir jg_inode_key "byte list"
  | Any_name "byte list"

definition existing_dir :: "host \<Rightarrow> byte list \<Rightarrow> jg_inode_key option" where
  "existing_dir h p =
     (case fs_metadata h p of
        None \<Rightarrow> None
      | Some md \<Rightarrow>
          if is_dir md
          then Some \<lparr>dev = kernel_dev_from_stat (libc_major h) (libc_minor h) (st_dev md), ino = st_ino md\<rparr>
          else None)"

definition entry_dir :: "host \<Rightarrow> byte list \<Rightarrow> jg_inode_key option" where
  "entry_dir h e = (if slash \<in> set (trim e) then existing_dir h (trim e) else None)"

definition entry_leaf :: "byte list \<Rightarrow> byte list" where
  "entry_leaf e = trim (filesystem_policy_leaf e)"

definition entry_file :: "host \<Rightarrow> byte list \<Rightarrow> (jg_inode_key \<times> byte list) option" where
  "entry_file h e =
     (let path = trim_end_matches slash (trim e)
      in if starts_with path [slash] \<and> entry_dir h path = None \<and> filesystem_policy_leaf path \<noteq> []
         then (case path_parent path of
                 None \<Rightarrow> None
               | Some parent \<Rightarrow> map_option (\<lambda>k. (k, entry_leaf path)) (existing_dir h parent))
         else None)"

definition entry_targets :: "host \<Rightarrow> byte list \<Rightarrow> denied_target list" where
  "entry_targets h e =
     (case entry_dir h e of None \<Rightarrow> [] | Some k \<Rightarrow> [Whole_dir k]) @
     (case entry_file h e of None \<Rightarrow> [] | Some (k, name) \<Rightarrow> [File_in_dir k name]) @
     (if entry_dir h e = None \<and> entry_file h e = None \<and> entry_leaf e \<noteq> [] then [Any_name (entry_leaf e)] else [])"

fun target_hits :: "jg_inode_key \<Rightarrow> byte list \<Rightarrow> denied_target \<Rightarrow> bool" where
  "target_hits k name (Whole_dir k') \<longleftrightarrow> k' = k"
| "target_hits k name (File_in_dir k' name') \<longleftrightarrow> k' = k \<and> name' = name"
| "target_hits k name (Any_name name') \<longleftrightarrow> name' = name"

definition path_refused :: "host \<Rightarrow> byte list list \<Rightarrow> jg_inode_key \<Rightarrow> byte list \<Rightarrow> bool" where
  "path_refused h entries k name \<longleftrightarrow> list_ex (\<lambda>e. list_ex (target_hits k name) (entry_targets h e)) entries"

section \<open>The monitor\<close>

definition refused4 :: "NetworkPolicy \<Rightarrow> byte list \<Rightarrow> bool" where
  "refused4 net os \<longleftrightarrow>
     listed4 (denied_ips net) os \<or> default_deny net \<and> hd os \<noteq> 127 \<and> \<not> listed4 (allowed_ips net) os"

definition refused6 :: "NetworkPolicy \<Rightarrow> byte list \<Rightarrow> bool" where
  "refused6 net os \<longleftrightarrow>
     listed6 (denied_ips net) os \<or>
     default_deny net \<and> os \<noteq> replicate 15 0 @ [1] \<and> \<not> listed6 (allowed_ips net) os"

definition refused_unix :: "NetworkPolicy \<Rightarrow> byte list \<Rightarrow> byte list \<Rightarrow> bool" where
  "refused_unix net sock p \<longleftrightarrow>
     p \<in> set ORCHESTRATOR_CONTROL_SOCKETS \<or>
     unix_default_deny net \<and> \<not> listed_path (sock # allowed_unix_sockets net) p"

definition denied_writes :: "PolicyConfig \<Rightarrow> byte list list" where
  "denied_writes policy = concat (map denied_write_paths (node_values policy))"

definition denied_unlinks :: "PolicyConfig \<Rightarrow> byte list list" where
  "denied_unlinks policy = concat (map denied_unlink_paths (node_values policy))"

definition refused_inet :: "NetworkPolicy \<Rightarrow> kmem \<Rightarrow> addr \<Rightarrow> bool" where
  "refused_inet net mem a \<longleftrightarrow>
     family_of mem a = 2 \<and> refused4 net (sin_addr_of mem a) \<or>
     family_of mem a = 10 \<and> refused6 net (sin6_addr_of mem a)"

text \<open>The calls that the policy refuses to a governed task, and the calls for which a full ring buffer is
  a refusal too.\<close>

fun policy_refuses :: "host \<Rightarrow> PolicyConfig \<Rightarrow> byte list \<Rightarrow> kmem \<Rightarrow> lsm_call \<Rightarrow> bool" where
  "policy_refuses h policy sock mem (Bprm_check bprm) \<longleftrightarrow>
     \<not> listed_path (immune_exec_path_candidates h @ allowed_programs policy) (exec_name mem bprm)"
| "policy_refuses h policy sock mem (Inode_create dir dentry mode) \<longleftrightarrow>
     JG_S_ISREG mode \<and> path_refused h (denied_writes policy) (dir_key_of mem dir) (entry_name mem dentry)"
| "policy_refuses h policy sock mem (Inode_unlink dir dentry) \<longleftrightarrow>
     path_refused h (denied_unlinks policy) (dir_key_of mem dir) (entry_name mem dentry)"
| "policy_refuses h policy sock mem (Socket_connect s address addrlen) \<longleftrightarrow>
     sock_type_of mem s \<in> {1, 2} \<and>
     (refused_inet (network_policy policy) mem address \<or>
      family_of mem address = 1 \<and> refused_unix (network_policy policy) sock (sun_path_of mem address))"
| "policy_refuses h policy sock mem (Socket_sendmsg s msg sz) \<longleftrightarrow>
     sock_type_of mem s = 2 \<and> msg_name_of mem msg \<noteq> 0 \<and>
     refused_inet (network_policy policy) mem (msg_name_of mem msg)"
| "policy_refuses h policy sock mem (Capable cred ns cap opts) \<longleftrightarrow>
     ns \<noteq> 0 \<and> le_word (mem_field mem ns struct_user_namespace [''level'']) \<noteq> (0 :: u32) \<and>
     cap \<in> {16, 17, 19, 21, 22, 27}"
| "policy_refuses h policy sock mem (Sb_mount dev_name path fstype flags data) \<longleftrightarrow> True"
| "policy_refuses h policy sock mem (Sb_pivotroot old_path new_path) \<longleftrightarrow> True"
| "policy_refuses h policy sock mem (Move_mount from_path to_path) \<longleftrightarrow> True"
| "policy_refuses h policy sock mem (File_open file) \<longleftrightarrow>
     (let inode = le_word (mem_field mem file struct_file [''f_inode''])
      in inode \<noteq> 0 \<and> le_word (mem_field mem inode struct_inode [''i_rdev'']) = (0xA000E8 :: u32))"

fun recorded :: "kmem \<Rightarrow> lsm_call \<Rightarrow> bool" where
  "recorded mem (Bprm_check bprm) \<longleftrightarrow> True"
| "recorded mem (Inode_create dir dentry mode) \<longleftrightarrow> JG_S_ISREG mode"
| "recorded mem (Inode_unlink dir dentry) \<longleftrightarrow> True"
| "recorded mem (Socket_connect s address addrlen) \<longleftrightarrow> sock_type_of mem s \<in> {1, 2}"
| "recorded mem (Socket_sendmsg s msg sz) \<longleftrightarrow> sock_type_of mem s = 2 \<and> msg_name_of mem msg \<noteq> 0"
| "recorded mem _ \<longleftrightarrow> False"

definition reference_monitor ::
    "host \<Rightarrow> PolicyConfig \<Rightarrow> byte list \<Rightarrow> u64 \<Rightarrow> bpf_env \<Rightarrow> kmem \<Rightarrow> lsm_call \<Rightarrow> int" where
  "reference_monitor h policy sock scope env mem c =
     (if jg_in_governed_scope env [0 \<mapsto> scope] \<and> \<not> jinnguard_safe_mode_enabled h \<and>
         (policy_refuses h policy sock mem c \<or>
          recorded mem c \<and> ringbuf_reserve env request_size = None)
      then - JG_EPERM else 0)"

section \<open>The kernel after the start\<close>

definition map_or_empty :: "('k \<rightharpoonup> 'v) option \<Rightarrow> 'k \<rightharpoonup> 'v" where
  "map_or_empty mo = (case mo of None \<Rightarrow> Map.empty | Some m \<Rightarrow> m)"

definition ctl_maps_of :: "LoadedLsmObject \<Rightarrow> ctl_maps" where
  "ctl_maps_of x = \<lparr>verdicts = kernel_verdicts (o_verdicts x),
     runtime_controls = map_or_empty (o_runtime_controls x), governed_scope = map_or_empty (o_governed_scope x)\<rparr>"

definition exec_maps_of :: "LoadedLsmObject \<Rightarrow> exec_maps" where
  "exec_maps_of x = ctl_maps.extend (ctl_maps_of x) (exec_maps.fields (map_or_empty (o_allowed_exec_paths x)))"

definition inode_maps_of :: "LoadedLsmObject \<Rightarrow> inode_maps" where
  "inode_maps_of x = ctl_maps.extend (ctl_maps_of x)
     (inode_maps.fields (map_or_empty (o_denied_basenames x)) (map_or_empty (o_denied_dir_inodes x))
       (map_or_empty (o_denied_files_in_dir x)))"

definition egress_maps_of :: "LoadedLsmObject \<Rightarrow> egress_maps" where
  "egress_maps_of x = ctl_maps.extend (ctl_maps_of x)
     (egress_maps.fields (map_or_empty (o_ipv4_denylist x)) (map_or_empty (o_ipv4_allowlist x))
       (map_or_empty (o_ipv6_denylist x)) (map_or_empty (o_ipv6_allowlist x)))"

definition connect_maps_of :: "LoadedLsmObject \<Rightarrow> connect_maps" where
  "connect_maps_of x = egress_maps.extend (egress_maps_of x)
     (connect_maps.fields (map_or_empty (o_unix_denylist x)) (map_or_empty (o_unix_allowlist x)))"

text \<open>The objects are in the order of the table.\<close>

definition kernel_of :: "LoadedLsmObject list \<Rightarrow> jg_request ringbuf \<Rightarrow> kernel" where
  "kernel_of xs rb =
     \<lparr>k_exec = exec_maps_of (xs ! 2), k_create = inode_maps_of (xs ! 3), k_unlink = inode_maps_of (xs ! 4),
      k_connect = connect_maps_of (xs ! 0), k_sendmsg = egress_maps_of (xs ! 1),
      k_capable = ctl_maps_of (xs ! 5), k_sb_mount = ctl_maps_of (xs ! 6),
      k_sb_pivotroot = ctl_maps_of (xs ! 7), k_move_mount = ctl_maps_of (xs ! 8),
      k_file_open = ctl_maps_of (xs ! 9), k_requests = rb\<rparr>"

section \<open>Entries and keys\<close>

lemma existing_dir_iff: "denied_entry_is_existing_dir h e \<longleftrightarrow> entry_dir h e \<noteq> None"
  by (auto simp: denied_entry_is_existing_dir_def entry_dir_def existing_dir_def Let_def split: option.splits)

lemma dir_entry_key: "denied_dir_inode (libc_major h) (libc_minor h) (fs_metadata h) e = Inr (entry_dir h e)"
  by (auto simp: denied_dir_inode_def entry_dir_def existing_dir_def Let_def split: option.splits)

definition file_key :: "jg_inode_key \<Rightarrow> byte list \<Rightarrow> jg_dir_file_key" where
  "file_key k name = jg_inode_key.extend k \<lparr>dname = nul_pad 128 name\<rparr>"

lemma name_key_bytes:
  "name_key_bytes_checked s =
     (if length (trim s) < 128 then Inr (nul_pad 128 (trim s)) else Inl (Key_too_long (length (trim s))))"
  by (auto simp: name_key_bytes_checked_def Let_def jg_consts put_nul_pad)

lemma file_entry_key:
  "denied_file_parent_key h e =
     (case entry_file h e of
        None \<Rightarrow> Inr None
      | Some (k, name) \<Rightarrow>
          if length name < 128 then Inr (Some (file_key k name)) else Inl (Key_too_long (length name)))"
  by (auto simp: denied_file_parent_key_def entry_file_def existing_dir_iff existing_dir_def entry_leaf_def
      name_key_bytes file_key_def jg_inode_key.defs Let_def split: option.splits)

lemma basename_entry_key:
  "denied_basename_key h e = Inr (Some k) \<longleftrightarrow>
     entry_dir h e = None \<and> entry_file h e = None \<and> entry_leaf e \<noteq> [] \<and> length (entry_leaf e) < 128 \<and>
     k = nul_pad 128 (entry_leaf e)"
  by (auto simp: denied_basename_key_def existing_dir_iff file_entry_key name_key_checked_eq
      path_key_checked_eq entry_leaf_def split: sum.splits option.splits)

lemma set_trim: "set (trim s) \<subseteq> set s"
proof -
  have "set (trim_start s) \<subseteq> set s" for s
  proof (induction s rule: trim_start.induct)
    case (1 s)
    show ?case
    proof (cases "s = [] \<or> ws_prefix s = 0")
      case True
      then show ?thesis by (subst trim_start.simps) simp
    next
      case False
      then have "trim_start s = trim_start (drop (ws_prefix s) s)" by (subst trim_start.simps) simp
      with 1 False show ?thesis using set_drop_subset [of "ws_prefix s" s] by auto
    qed
  qed
  moreover have "set (trim_end s) \<subseteq> set s" for s
    using trim_end_take [of s] set_take_subset by metis
  ultimately show ?thesis unfolding trim_def by blast
qed

lemma set_trim_end_matches: "set (trim_end_matches c s) \<subseteq> set s"
  using set_dropWhileD by (fastforce simp: trim_end_matches_def)

lemma set_split_on: "p \<in> set (split_on c s) \<Longrightarrow> set p \<subseteq> set s"
proof (induction c s arbitrary: p rule: split_on.induct)
  case (2 c b s)
  then show ?case by (fastforce split: if_splits list.splits)
qed simp

lemma set_file_name: "file_name p = Some name \<Longrightarrow> set name \<subseteq> set p"
  by (drule file_name_piece) (rule set_split_on)

lemma set_leaf: "set (filesystem_policy_leaf e) \<subseteq> set e"
proof -
  let ?t = "trim_end_matches slash (trim e)"
  have "set ?t \<subseteq> set e" using set_trim_end_matches set_trim by blast
  moreover have "set (filesystem_policy_leaf e) \<subseteq> set ?t"
    using set_file_name [of ?t] by (auto simp: filesystem_policy_leaf_def Let_def split: option.splits)
  ultimately show ?thesis by blast
qed

lemma nul_free_subset: "nul_free s \<Longrightarrow> set t \<subseteq> set s \<Longrightarrow> nul_free t"
  by (auto simp: nul_free_def)

lemma nul_free_leaf: "nul_free e \<Longrightarrow> nul_free (entry_leaf e)"
  unfolding entry_leaf_def using set_trim set_leaf by (blast intro: nul_free_subset)

lemma nul_free_file:
  assumes "nul_free e" "entry_file h e = Some (k, name)"
  shows "nul_free name"
proof -
  have "nul_free (trim_end_matches slash (trim e))"
    using assms(1) set_trim set_trim_end_matches by (blast intro: nul_free_subset)
  with assms(2) show ?thesis
    by (auto simp: entry_file_def Let_def nul_free_leaf split: if_splits option.splits)
qed

lemma file_key_inj:
  "nul_free a \<Longrightarrow> nul_free b \<Longrightarrow> length a < 128 \<Longrightarrow> length b < 128 \<Longrightarrow>
   file_key k a = file_key k' b \<longleftrightarrow> k = k' \<and> a = b"
  by (auto simp: file_key_def jg_inode_key.defs nul_pad_inj)

text \<open>The three maps together refuse what the entries stand for.\<close>

lemma path_refused_keys:
  assumes "list_all nul_free entries" "nul_free name" "length name < 128"
  shows "path_refused h entries k name \<longleftrightarrow>
    has_key (denied_dir_inode (libc_major h) (libc_minor h) (fs_metadata h)) entries k \<or>
    has_key (denied_file_parent_key h) entries (file_key k name) \<or>
    has_key (denied_basename_key h) entries (nul_pad 128 name)"
proof -
  have one: "list_ex (target_hits k name) (entry_targets h e) \<longleftrightarrow>
      denied_dir_inode (libc_major h) (libc_minor h) (fs_metadata h) e = Inr (Some k) \<or>
      denied_file_parent_key h e = Inr (Some (file_key k name)) \<or>
      denied_basename_key h e = Inr (Some (nul_pad 128 name))" if "nul_free e" for e
  proof -
    have "denied_file_parent_key h e = Inr (Some (file_key k name)) \<longleftrightarrow> entry_file h e = Some (k, name)"
      using assms(2,3) nul_free_file [OF that] file_key_inj [OF _ assms(2) _ assms(3)]
      by (fastforce simp: file_entry_key split: option.splits if_splits)
    moreover have "denied_basename_key h e = Inr (Some (nul_pad 128 name)) \<longleftrightarrow>
        entry_dir h e = None \<and> entry_file h e = None \<and> entry_leaf e \<noteq> [] \<and> entry_leaf e = name"
      using assms(2,3) nul_free_leaf [OF that] by (auto simp: basename_entry_key nul_pad_inj)
    ultimately show ?thesis
      by (auto simp: entry_targets_def dir_entry_key split: option.splits)
  qed
  show ?thesis
    using assms(1) one by (auto simp: path_refused_def has_key_def list_ex_iff list_all_iff)
qed

section \<open>The maps after the start\<close>

text \<open>Strings of a policy come from JSON, where a NUL is possible; a key with a NUL inside is compared with
  NUL-terminated names.\<close>

definition nul_free_policy :: "host \<Rightarrow> PolicyConfig \<Rightarrow> byte list \<Rightarrow> bool" where
  "nul_free_policy h policy sock \<longleftrightarrow>
     list_all nul_free (sock # allowed_unix_sockets (network_policy policy) @
       immune_exec_path_candidates h @ allowed_programs policy @ denied_writes policy @ denied_unlinks policy)"

lemma key4: "length os = 4 \<Longrightarrow> has_key (Inr \<circ> ipv4_policy_key) es (le_word os) \<longleftrightarrow> listed4 es os"
  by (auto simp: has_key_def listed4_def list_ex_iff ipv4_policy_key_def Let_def
      dest: parse_ipv4_length le_word_inj4)

lemma key6: "has_key (Inr \<circ> ipv6_policy_key) es os \<longleftrightarrow> listed6 es os"
  by (simp add: has_key_def listed6_def list_ex_iff)

lemma key_path:
  assumes "list_all nul_free es" "nul_free s" "length s < 128"
  shows "has_key path_key_checked es (nul_pad 128 s) \<longleftrightarrow> listed_path es s"
proof -
  have "list_all (\<lambda>e. nul_free (trim e)) es"
    using assms(1) set_trim by (auto simp: list_all_iff intro: nul_free_subset)
  with assms(2,3) show ?thesis by (simp add: has_key_def listed_path_def path_entry_iff)
qed

lemma flag_set_map: "flag_set mo P \<Longrightarrow> mo \<noteq> None \<Longrightarrow> map_flag (map_or_empty mo) k \<longleftrightarrow> P k"
  by (auto simp: flag_set_def map_or_empty_def)

lemma control_value_bits:
  assumes "m 0 = Some (control_value safe dd udd)"
  shows "jg_audit_only_enabled m = safe" "jg_connect_default_deny_enabled m = dd"
    "jg_unix_default_deny_enabled m = udd"
  using assms
  by (cases safe; cases dd; cases udd;
      simp add: control_value_def jg_audit_only_enabled_def jg_connect_default_deny_enabled_def
        jg_unix_default_deny_enabled_def control_bit_def JG_CONTROL_AUDIT_ONLY_def
        JG_CONTROL_CONNECT_DEFAULT_DENY_def JG_CONTROL_UNIX_DEFAULT_DENY_def Let_def)+

lemma scope_key: "m 0 = Some w \<Longrightarrow> jg_in_governed_scope env m = jg_in_governed_scope env [0 \<mapsto> w]"
  by (simp add: jg_in_governed_scope_def JG_SCOPE_KEY_def)

locale started_kernel = aya_maps api for api +
  fixes h :: host and policy :: PolicyConfig and sock :: "byte list" and w :: u64
    and xs :: "LoadedLsmObject list"
  assumes installed: "ebpf_load api = installed_objects"
    and started: "start_lsm_verdict_loop h api policy sock = Verdict_loop xs"
    and scope: "resolve_governed_scope h = Inr w"
    and nul_free_entries: "nul_free_policy h policy sock"
begin

lemma objects: "map entry_of xs = lsm_object_table" "list_all (policy_loaded h policy sock) xs"
  "list_all (shaped api) xs"
  using start_outcome [OF aya_maps_axioms, of h policy sock] start_shaped [OF started] started
  by (simp_all add: list_all_iff)

lemma object_at:
  assumes "i < 10" "object_maps ! i = (name, rq, defs)"
  shows "object_path (xs ! i) = object_file name" "policy_loaded h policy sock (xs ! i)"
    "present (xs ! i) = declared (compiled_object rq defs)"
proof -
  have len: "length xs = 10"
    using arg_cong [OF objects(1), of length] by (simp add: lsm_object_table_def)
  have "map (fst \<circ> snd) lsm_object_table = map (object_file \<circ> fst) object_maps"
    by (simp add: lsm_object_table_def object_maps_def)
  then have "map object_path xs = map (object_file \<circ> fst) object_maps"
    using arg_cong [OF objects(1), of "map (fst \<circ> snd)"] by (simp add: entry_of_def comp_def)
  then have "map object_path xs ! i = map (object_file \<circ> fst) object_maps ! i" by simp
  moreover have "length object_maps = 10" by (simp add: object_maps_def)
  ultimately show path: "object_path (xs ! i) = object_file name" using assms len by simp
  show "policy_loaded h policy sock (xs ! i)" using objects(2) assms(1) len by (simp add: list_all_length)
  have "(name, rq, defs) \<in> set object_maps"
    using assms \<open>length object_maps = 10\<close> by (metis nth_mem)
  then have "ebpf_load api (object_path (xs ! i)) = Some (compiled_object rq defs)"
    by (simp add: path installed installed_object)
  then show "present (xs ! i) = declared (compiled_object rq defs)"
    using objects(3) assms(1) len by (auto simp: list_all_length shaped_def)
qed

lemma controls_at:
  assumes "i < 10"
  shows "jg_in_governed_scope env (map_or_empty (o_governed_scope (xs ! i))) = jg_in_governed_scope env [0 \<mapsto> w]"
    "jg_audit_only_enabled (map_or_empty (o_runtime_controls (xs ! i))) = jinnguard_safe_mode_enabled h"
    "jg_connect_default_deny_enabled (map_or_empty (o_runtime_controls (xs ! i))) = default_deny (network_policy policy)"
    "jg_unix_default_deny_enabled (map_or_empty (o_runtime_controls (xs ! i))) = unix_default_deny (network_policy policy)"
proof -
  obtain name rq defs where e: "object_maps ! i = (name, rq, defs)" by (metis prod.exhaust)
  have "(name, rq, defs) \<in> set object_maps" using assms e by (metis nth_mem object_maps_length)
  then have "''runtime_controls'' \<in> fst ` set defs" "''governed_scope'' \<in> fst ` set defs"
    using control_maps_declared by (auto simp: list_all_iff)
  then have "o_runtime_controls (xs ! i) \<noteq> None" "o_governed_scope (xs ! i) \<noteq> None"
    using object_at(3) [OF assms e] by (simp_all add: present_def declared_def compiled_object_def declared_slot_def)
  then obtain cm sm where m: "o_runtime_controls (xs ! i) = Some cm" "o_governed_scope (xs ! i) = Some sm" by auto
  have l: "policy_loaded h policy sock (xs ! i)" by (rule object_at(2) [OF assms e])
  have c: "cm 0 = Some (control_value (jinnguard_safe_mode_enabled h) (default_deny (network_policy policy))
      (unix_default_deny (network_policy policy)))"
    using l m by (simp add: policy_loaded_def)
  have s: "sm 0 = Some w" using l m scope by (auto simp: policy_loaded_def split: option.splits)
  show "jg_in_governed_scope env (map_or_empty (o_governed_scope (xs ! i))) = jg_in_governed_scope env [0 \<mapsto> w]"
    using scope_key [of sm w, OF s] m by (simp add: map_or_empty_def)
  show "jg_audit_only_enabled (map_or_empty (o_runtime_controls (xs ! i))) = jinnguard_safe_mode_enabled h"
    "jg_connect_default_deny_enabled (map_or_empty (o_runtime_controls (xs ! i))) = default_deny (network_policy policy)"
    "jg_unix_default_deny_enabled (map_or_empty (o_runtime_controls (xs ! i))) = unix_default_deny (network_policy policy)"
    using control_value_bits [of cm, OF c] m by (simp_all add: map_or_empty_def)
qed

end

section \<open>One call\<close>

lemma started_maps [simp]:
  "governed_scope (exec_maps_of x) = map_or_empty (o_governed_scope x)"
  "runtime_controls (exec_maps_of x) = map_or_empty (o_runtime_controls x)"
  "allowed_exec_paths (exec_maps_of x) = map_or_empty (o_allowed_exec_paths x)"
  "governed_scope (inode_maps_of x) = map_or_empty (o_governed_scope x)"
  "runtime_controls (inode_maps_of x) = map_or_empty (o_runtime_controls x)"
  "denied_basenames (inode_maps_of x) = map_or_empty (o_denied_basenames x)"
  "denied_dir_inodes (inode_maps_of x) = map_or_empty (o_denied_dir_inodes x)"
  "denied_files_in_dir (inode_maps_of x) = map_or_empty (o_denied_files_in_dir x)"
  "governed_scope (egress_maps_of x) = map_or_empty (o_governed_scope x)"
  "runtime_controls (egress_maps_of x) = map_or_empty (o_runtime_controls x)"
  "ipv4_denylist (egress_maps_of x) = map_or_empty (o_ipv4_denylist x)"
  "ipv4_allowlist (egress_maps_of x) = map_or_empty (o_ipv4_allowlist x)"
  "ipv6_denylist (egress_maps_of x) = map_or_empty (o_ipv6_denylist x)"
  "ipv6_allowlist (egress_maps_of x) = map_or_empty (o_ipv6_allowlist x)"
  "governed_scope (connect_maps_of x) = map_or_empty (o_governed_scope x)"
  "runtime_controls (connect_maps_of x) = map_or_empty (o_runtime_controls x)"
  "ipv4_denylist (connect_maps_of x) = map_or_empty (o_ipv4_denylist x)"
  "ipv4_allowlist (connect_maps_of x) = map_or_empty (o_ipv4_allowlist x)"
  "ipv6_denylist (connect_maps_of x) = map_or_empty (o_ipv6_denylist x)"
  "ipv6_allowlist (connect_maps_of x) = map_or_empty (o_ipv6_allowlist x)"
  "unix_denylist (connect_maps_of x) = map_or_empty (o_unix_denylist x)"
  "unix_allowlist (connect_maps_of x) = map_or_empty (o_unix_allowlist x)"
  "governed_scope (ctl_maps_of x) = map_or_empty (o_governed_scope x)"
  "runtime_controls (ctl_maps_of x) = map_or_empty (o_runtime_controls x)"
  by (simp_all add: exec_maps_of_def inode_maps_of_def egress_maps_of_def connect_maps_of_def ctl_maps_of_def
      ctl_maps.defs exec_maps.defs inode_maps.defs egress_maps.defs connect_maps.defs)

lemma listed_names [simp]:
  "nul_free (exec_name mem bprm)" "length (exec_name mem bprm) < 128"
  "nul_free (entry_name mem dentry)" "length (entry_name mem dentry) < 128"
  "nul_free (sun_path_of mem a)" "length (sun_path_of mem a) < 128"
proof -
  have "length (name_str mem p 108) < 108" for p by (simp add: length_name_str)
  then show "length (sun_path_of mem a) < 128" by (rule less_trans) simp
qed (simp_all add: exec_name_def entry_name_def length_name_str Let_def)

context started_kernel
begin

lemma nul_free_lists:
  "list_all nul_free (immune_exec_path_candidates h @ allowed_programs policy)"
  "list_all nul_free (sock # allowed_unix_sockets (network_policy policy))"
  "list_all nul_free (denied_writes policy)" "list_all nul_free (denied_unlinks policy)"
  using nul_free_entries by (auto simp: nul_free_policy_def)

lemma nul_free_control_sockets: "list_all nul_free ORCHESTRATOR_CONTROL_SOCKETS"
  using orchestrator_entries by (simp add: list_all_iff)

lemma control_sockets_listed: "listed_path ORCHESTRATOR_CONTROL_SOCKETS p \<longleftrightarrow> p \<in> set ORCHESTRATOR_CONTROL_SOCKETS"
proof -
  have "trim ` set ORCHESTRATOR_CONTROL_SOCKETS = set ORCHESTRATOR_CONTROL_SOCKETS"
    "[] \<notin> set ORCHESTRATOR_CONTROL_SOCKETS"
    using orchestrator_entries by (force simp: list_all_iff)+
  then show ?thesis by (auto simp: listed_path_def)
qed

lemma exec_flag:
  "map_flag (map_or_empty (o_allowed_exec_paths (xs ! 2))) (nul_pad 128 (exec_name mem bprm)) \<longleftrightarrow>
     listed_path (immune_exec_path_candidates h @ allowed_programs policy) (exec_name mem bprm)"
proof -
  have at: "object_maps ! 2 = (''jg_bprm_check_security'', True, exec_map_defs)" by (simp add: object_maps_def)
  have some: "o_allowed_exec_paths (xs ! 2) \<noteq> None"
    using object_at(3) [OF _ at]
    by (simp add: present_def declared_def compiled_object_def declared_slot_def exec_map_defs_def)
  have filled: "flag_set (o_allowed_exec_paths (xs ! 2))
      (has_key path_key_checked (immune_exec_path_candidates h @ allowed_programs policy))"
    using object_at(2) [OF _ at] by (simp add: policy_loaded_def)
  show ?thesis
    by (simp only: flag_set_map [OF filled some] key_path [OF nul_free_lists(1) listed_names(1,2)])
qed

lemma egress_flags:
  assumes "object_maps ! i = (name, rq, defs)" "i < 10"
    "{''ipv4_denylist'', ''ipv4_allowlist'', ''ipv6_denylist'', ''ipv6_allowlist''} \<subseteq> fst ` set defs"
  shows "length os = 4 \<Longrightarrow> map_flag (map_or_empty (o_ipv4_denylist (xs ! i))) (le_word os) \<longleftrightarrow> listed4 (denied_ips (network_policy policy)) os"
    "length os = 4 \<Longrightarrow> map_flag (map_or_empty (o_ipv4_allowlist (xs ! i))) (le_word os) \<longleftrightarrow> listed4 (allowed_ips (network_policy policy)) os"
    "map_flag (map_or_empty (o_ipv6_denylist (xs ! i))) os \<longleftrightarrow> listed6 (denied_ips (network_policy policy)) os"
    "map_flag (map_or_empty (o_ipv6_allowlist (xs ! i))) os \<longleftrightarrow> listed6 (allowed_ips (network_policy policy)) os"
proof -
  have some: "o_ipv4_denylist (xs ! i) \<noteq> None" "o_ipv4_allowlist (xs ! i) \<noteq> None"
    "o_ipv6_denylist (xs ! i) \<noteq> None" "o_ipv6_allowlist (xs ! i) \<noteq> None"
    using object_at(3) [OF assms(2,1)] assms(3)
    by (simp_all add: present_def declared_def compiled_object_def declared_slot_def)
  have "egress_loaded policy sock (xs ! i)"
    using object_at(2) [OF assms(2,1)] by (simp add: policy_loaded_def)
  then have filled:
    "flag_set (o_ipv4_denylist (xs ! i)) (has_key (Inr \<circ> ipv4_policy_key) (denied_ips (network_policy policy)))"
    "flag_set (o_ipv4_allowlist (xs ! i)) (has_key (Inr \<circ> ipv4_policy_key) (allowed_ips (network_policy policy)))"
    "flag_set (o_ipv6_denylist (xs ! i)) (has_key (Inr \<circ> ipv6_policy_key) (denied_ips (network_policy policy)))"
    "flag_set (o_ipv6_allowlist (xs ! i)) (has_key (Inr \<circ> ipv6_policy_key) (allowed_ips (network_policy policy)))"
    by (simp_all add: egress_loaded_def Let_def)
  show "length os = 4 \<Longrightarrow> map_flag (map_or_empty (o_ipv4_denylist (xs ! i))) (le_word os) \<longleftrightarrow> listed4 (denied_ips (network_policy policy)) os"
    by (simp only: flag_set_map [OF filled(1) some(1)] key4)
  show "length os = 4 \<Longrightarrow> map_flag (map_or_empty (o_ipv4_allowlist (xs ! i))) (le_word os) \<longleftrightarrow> listed4 (allowed_ips (network_policy policy)) os"
    by (simp only: flag_set_map [OF filled(2) some(2)] key4)
  show "map_flag (map_or_empty (o_ipv6_denylist (xs ! i))) os \<longleftrightarrow> listed6 (denied_ips (network_policy policy)) os"
    by (simp only: flag_set_map [OF filled(3) some(3)] key6)
  show "map_flag (map_or_empty (o_ipv6_allowlist (xs ! i))) os \<longleftrightarrow> listed6 (allowed_ips (network_policy policy)) os"
    by (simp only: flag_set_map [OF filled(4) some(4)] key6)
qed

lemma unix_flags:
  assumes "nul_free p" "length p < 128"
  shows "map_flag (map_or_empty (o_unix_denylist (xs ! 0))) (nul_pad 128 p) \<longleftrightarrow> p \<in> set ORCHESTRATOR_CONTROL_SOCKETS"
    "map_flag (map_or_empty (o_unix_allowlist (xs ! 0))) (nul_pad 128 p) \<longleftrightarrow>
       listed_path (sock # allowed_unix_sockets (network_policy policy)) p"
proof -
  have at: "object_maps ! 0 = (''jg_socket_connect'', True, connect_map_defs)" by (simp add: object_maps_def)
  have some: "o_unix_denylist (xs ! 0) \<noteq> None" "o_unix_allowlist (xs ! 0) \<noteq> None"
    using object_at(3) [OF _ at]
    by (simp_all add: present_def declared_def compiled_object_def declared_slot_def connect_map_defs_def)
  have "egress_loaded policy sock (xs ! 0)"
    using object_at(2) [OF _ at] by (simp add: policy_loaded_def)
  then have filled: "flag_set (o_unix_denylist (xs ! 0)) (has_key path_key_checked ORCHESTRATOR_CONTROL_SOCKETS)"
    "flag_set (o_unix_allowlist (xs ! 0)) (has_key path_key_checked (sock # allowed_unix_sockets (network_policy policy)))"
    by (simp_all add: egress_loaded_def Let_def)
  show "map_flag (map_or_empty (o_unix_denylist (xs ! 0))) (nul_pad 128 p) \<longleftrightarrow> p \<in> set ORCHESTRATOR_CONTROL_SOCKETS"
    by (simp only: flag_set_map [OF filled(1) some(1)] key_path [OF nul_free_control_sockets assms] control_sockets_listed)
  show "map_flag (map_or_empty (o_unix_allowlist (xs ! 0))) (nul_pad 128 p) \<longleftrightarrow>
       listed_path (sock # allowed_unix_sockets (network_policy policy)) p"
    by (simp only: flag_set_map [OF filled(2) some(2)] key_path [OF nul_free_lists(2) assms])
qed

end

context started_kernel
begin

lemma denied_lists:
  "denied_paths_for_object policy (object_file ''jg_inode_create'') = denied_writes policy"
  "denied_paths_for_object policy (object_file ''jg_inode_unlink'') = denied_unlinks policy"
proof -
  have "str_contains (object_file ''jg_inode_create'') (byte_string ''jg_inode_create'')"
    "\<not> str_contains (object_file ''jg_inode_unlink'') (byte_string ''jg_inode_create'')"
    "str_contains (object_file ''jg_inode_unlink'') (byte_string ''jg_inode_unlink'')"
    by code_simp+
  then show "denied_paths_for_object policy (object_file ''jg_inode_create'') = denied_writes policy"
    "denied_paths_for_object policy (object_file ''jg_inode_unlink'') = denied_unlinks policy"
    by (simp_all add: denied_paths_for_object_def denied_writes_def denied_unlinks_def)
qed

lemma inode_flags:
  assumes "object_maps ! i = (prog, rq, defs)" "i < 10"
    "{''denied_basenames'', ''denied_dir_inodes'', ''denied_files_in_dir''} \<subseteq> fst ` set defs"
    "denied_paths_for_object policy (object_file prog) = entries" "list_all nul_free entries"
    "nul_free name" "length name < 128" "dir \<noteq> 0"
  shows "inode_policy (inode_maps_of (xs ! i)) dir k name \<longleftrightarrow> path_refused h entries k name"
proof -
  have some: "o_denied_basenames (xs ! i) \<noteq> None" "o_denied_dir_inodes (xs ! i) \<noteq> None"
    "o_denied_files_in_dir (xs ! i) \<noteq> None"
    using object_at(3) [OF assms(2,1)] assms(3)
    by (simp_all add: present_def declared_def compiled_object_def declared_slot_def)
  have "paths_loaded h policy (xs ! i)" "object_path (xs ! i) = object_file prog"
    using object_at(1,2) [OF assms(2,1)] by (simp_all add: policy_loaded_def)
  then have filled: "flag_set (o_denied_basenames (xs ! i)) (has_key (denied_basename_key h) entries)"
    "flag_set (o_denied_dir_inodes (xs ! i))
       (has_key (denied_dir_inode (libc_major h) (libc_minor h) (fs_metadata h)) entries)"
    "flag_set (o_denied_files_in_dir (xs ! i)) (has_key (denied_file_parent_key h) entries)"
    using assms(4) by (simp_all add: paths_loaded_def Let_def)
  show ?thesis
    using assms(8)
    by (simp add: inode_policy_def path_refused_keys [OF assms(5-7)] flag_set_map [OF filled(1) some(1)]
        flag_set_map [OF filled(2) some(2)] flag_set_map [OF filled(3) some(3)] file_key_def)
qed

lemma call_exec:
  assumes "probe_helpers env mem"
  shows "fst (jg_bprm_check_security env (exec_maps_of (xs ! 2)) bprm rb) =
    reference_monitor h policy sock w env mem (Bprm_check bprm)"
  using probe_helpers.exec_key_exact [OF assms, of bprm]
  by (simp add: bprm_eq reference_monitor_def controls_at exec_flag JG_EPERM_def)

lemma call_connect:
  assumes "probe_helpers env mem"
  shows "fst (jg_socket_connect env (connect_maps_of (xs ! 0)) (s, a, n) rb) =
    reference_monitor h policy sock w env mem (Socket_connect s a n)"
proof -
  have at: "object_maps ! 0 = (''jg_socket_connect'', True, connect_map_defs)" by (simp add: object_maps_def)
  have maps: "{''ipv4_denylist'', ''ipv4_allowlist'', ''ipv6_denylist'', ''ipv6_allowlist''} \<subseteq> fst ` set connect_map_defs"
    by (simp add: connect_map_defs_def)
  have "connect_policy (connect_maps_of (xs ! 0)) mem a \<longleftrightarrow>
      refused_inet (network_policy policy) mem a \<or>
      family_of mem a = 1 \<and> refused_unix (network_policy policy) sock (sun_path_of mem a)"
    using egress_flags [OF at _ maps] unix_flags [OF listed_names(5,6)]
    by (auto simp: connect_policy_def Let_def connect_v4.denied_iff connect_v6.denied_iff connect_unix.denied_iff
        controls_at refused_inet_def refused4_def refused6_def refused_unix_def loopback_octets ipv6_is_loopback_iff)
  then show ?thesis
    using probe_helpers.connect_case_exact [OF assms, of "connect_maps_of (xs ! 0)" a]
      probe_helpers.socket_type_exact [OF assms, of s]
    by (auto simp: connect_eq reference_monitor_def controls_at JG_EPERM_def connect_policy_def Let_def)
qed

end

text \<open>The LSM framework passes no null pointers to the inode hooks.\<close>

fun wf_call :: "lsm_call \<Rightarrow> bool" where
  "wf_call (Inode_create dir dentry mode) \<longleftrightarrow> dir \<noteq> 0 \<and> dentry \<noteq> 0"
| "wf_call (Inode_unlink dir dentry) \<longleftrightarrow> dir \<noteq> 0 \<and> dentry \<noteq> 0"
| "wf_call _ \<longleftrightarrow> True"

context started_kernel
begin

lemma call_sendmsg:
  assumes "probe_helpers env mem"
  shows "fst (jg_socket_sendmsg env (egress_maps_of (xs ! 1)) (s, msg, n) rb) =
    reference_monitor h policy sock w env mem (Socket_sendmsg s msg n)"
proof -
  have at: "object_maps ! 1 = (''jg_socket_sendmsg'', True, sendmsg_map_defs)" by (simp add: object_maps_def)
  have maps: "{''ipv4_denylist'', ''ipv4_allowlist'', ''ipv6_denylist'', ''ipv6_allowlist''} \<subseteq> fst ` set sendmsg_map_defs"
    by (simp add: sendmsg_map_defs_def)
  define x where "x = xs ! 1"
  have "(1 :: nat) < 10" by simp
  note controls = controls_at [OF this, folded x_def]
  have policy: "sendmsg_policy (egress_maps_of x) mem a \<longleftrightarrow> refused_inet (network_policy policy) mem a" for a
    using egress_flags [OF at _ maps, folded x_def] controls
    by (auto simp: sendmsg_policy_def Let_def sendmsg_v4.denied_iff sendmsg_v6.denied_iff
        refused_inet_def refused4_def refused6_def loopback_octets ipv6_is_loopback_iff)
  have other: "family_of mem a \<notin> {2, 10} \<Longrightarrow> \<not> refused_inet (network_policy policy) mem a" for a
    by (auto simp: refused_inet_def)
  have "fst (jg_socket_sendmsg env (egress_maps_of x) (s, msg, n) rb) =
      reference_monitor h policy sock w env mem (Socket_sendmsg s msg n)"
    using probe_helpers.sendmsg_case_exact [OF assms, of "egress_maps_of x" "msg_name_of mem msg"]
      probe_helpers.socket_type_exact [OF assms, of s] probe_helpers.msg_address_exact [OF assms, of msg]
      other [of "msg_name_of mem msg"]
    by (auto simp: sendmsg_eq reference_monitor_def JG_EPERM_def policy controls)
  then show ?thesis by (simp only: x_def)
qed

lemma call_create:
  assumes "probe_helpers env mem" "dentry \<noteq> 0" "dir \<noteq> 0"
  shows "fst (jg_inode_create env (inode_maps_of (xs ! 3)) (dir, dentry, mode) rb) =
    reference_monitor h policy sock w env mem (Inode_create dir dentry mode)"
proof -
  have at: "object_maps ! 3 = (''jg_inode_create'', True, create_map_defs)" by (simp add: object_maps_def)
  have "inode_policy (inode_maps_of (xs ! 3)) dir k (entry_name mem dentry) \<longleftrightarrow>
      path_refused h (denied_writes policy) k (entry_name mem dentry)" for k
    by (rule inode_flags [OF at _ _ denied_lists(1) nul_free_lists(3) listed_names(3,4) assms(3)])
      (simp_all add: create_map_defs_def)
  then show ?thesis
    using probe_helpers.inode_denied_exact [OF assms(1,2), of "inode_maps_of (xs ! 3)" dir]
    by (auto simp: inode_create_eq reference_monitor_def controls_at JG_EPERM_def)
qed

lemma call_unlink:
  assumes "probe_helpers env mem" "dentry \<noteq> 0" "dir \<noteq> 0"
  shows "fst (jg_inode_unlink env (inode_maps_of (xs ! 4)) (dir, dentry) rb) =
    reference_monitor h policy sock w env mem (Inode_unlink dir dentry)"
proof -
  have at: "object_maps ! 4 = (''jg_inode_unlink'', True, unlink_map_defs)" by (simp add: object_maps_def)
  have "inode_policy (inode_maps_of (xs ! 4)) dir k (entry_name mem dentry) \<longleftrightarrow>
      path_refused h (denied_unlinks policy) k (entry_name mem dentry)" for k
    by (rule inode_flags [OF at _ _ denied_lists(2) nul_free_lists(4) listed_names(3,4) assms(3)])
      (simp_all add: unlink_map_defs_def)
  then show ?thesis
    using probe_helpers.inode_denied_exact [OF assms(1,2), of "inode_maps_of (xs ! 4)" dir]
    by (auto simp: inode_unlink_eq reference_monitor_def controls_at JG_EPERM_def)
qed

lemma call_capable:
  assumes "probe_helpers env mem"
  shows "jg_capable env (ctl_maps_of (xs ! 5)) (cred, ns, cap, opts) =
    reference_monitor h policy sock w env mem (Capable cred ns cap opts)"
proof -
  have "jg_cap_is_denylisted cap \<longleftrightarrow> cap \<in> {16, 17, 19, 21, 22, 27}"
    by (auto simp: jg_cap_is_denylisted_def JG_CAP_SYS_MODULE_def JG_CAP_SYS_RAWIO_def
        JG_CAP_SYS_PTRACE_def JG_CAP_SYS_ADMIN_def JG_CAP_SYS_BOOT_def JG_CAP_MKNOD_def)
  then show ?thesis
    by (auto simp: jg_capable_def reference_monitor_def probe_helpers.core_field_exact [OF assms] controls_at
        JG_EPERM_def Let_def)
qed

lemma call_file_open:
  assumes "probe_helpers env mem"
  shows "jg_file_open env (ctl_maps_of (xs ! 9)) file =
    reference_monitor h policy sock w env mem (File_open file)"
proof -
  let ?inode = "le_word (mem_field mem file struct_file [''f_inode'']) :: addr"
  have "jg_file_open env m file = (if ?inode \<noteq> 0 \<and>
      le_word (mem_field mem ?inode struct_inode [''i_rdev'']) = (0xA000E8 :: u32)
    then jg_governed_floor_deny env m else 0)" for m :: ctl_maps
    using kvm_rdev_iff [of "le_word (mem_field mem ?inode struct_inode [''i_rdev''])"]
    by (auto simp: jg_file_open_def probe_helpers.core_field_exact [OF assms] Let_def)
  then show ?thesis
    by (auto simp: reference_monitor_def jg_governed_floor_deny_def controls_at JG_EPERM_def Let_def)
qed

lemma one_call:
  assumes "probe_helpers env mem" "wf_call c"
  shows "fst (call_hook env c (kernel_of xs rb)) = reference_monitor h policy sock w env mem c"
  using assms(2)
  by (cases c)
    (auto simp: kernel_of_def ringless_def call_exec [OF assms(1)] call_connect [OF assms(1)]
      call_sendmsg [OF assms(1), unfolded One_nat_def] call_create [OF assms(1)] call_unlink [OF assms(1)] call_capable [OF assms(1)]
      call_file_open [OF assms(1)] jg_sb_mount_def jg_sb_pivotroot_def jg_move_mount_def
      jg_governed_floor_deny_def controls_at JG_EPERM_def reference_monitor_def [of _ _ _ _ _ _ "Sb_mount _ _ _ _ _"]
      reference_monitor_def [of _ _ _ _ _ _ "Sb_pivotroot _ _"] reference_monitor_def [of _ _ _ _ _ _ "Move_mount _ _"])

lemma kernel_of_requests: "(kernel_of xs rb)\<lparr>k_requests := rb'\<rparr> = kernel_of xs rb'"
  by (simp add: kernel_of_def)

lemma all_calls:
  "list_all (\<lambda>(env, mem, c). probe_helpers env mem \<and> wf_call c) cs \<Longrightarrow>
   fst (run_calls (map (\<lambda>(env, mem, c). (env, c)) cs) (kernel_of xs rb)) =
     map (\<lambda>(env, mem, c). reference_monitor h policy sock w env mem c) cs"
proof (induction cs arbitrary: rb)
  case (Cons call cs)
  obtain env mem c where call: "call = (env, mem, c)" by (metis prod.exhaust)
  obtain r rb' where hook: "call_hook env c (kernel_of xs rb) = (r, rb')" by force
  have "r = reference_monitor h policy sock w env mem c"
    using one_call [of env mem c rb] Cons.prems hook call by simp
  with Cons.IH [of rb'] Cons.prems hook call show ?case
    by (simp add: dispatch_def kernel_of_requests case_prod_beta Let_def)
qed simp

end

section \<open>Properties\<close>

text \<open>C1: when the daemon has started on the installed objects, over any host and any policy whose
  strings have no NUL, the ten hooks answer every sequence of calls, from any tasks in any state of
  memory, exactly as the reference monitor: a call is refused if and only if the task is in the
  configured scope, safe mode is off, and the policy's own strings refuse it or it cannot be
  recorded.\<close>

theorem kernel_refines_monitor:
  assumes "aya_maps api" "ebpf_load api = installed_objects"
    and "start_lsm_verdict_loop h api policy sock = Verdict_loop xs"
    and "resolve_governed_scope h = Inr w" "nul_free_policy h policy sock"
    and "list_all (\<lambda>(env, mem, c). probe_helpers env mem \<and> wf_call c) cs"
  shows "fst (run_calls (map (\<lambda>(env, mem, c). (env, c)) cs) (kernel_of xs rb)) =
    map (\<lambda>(env, mem, c). reference_monitor h policy sock w env mem c) cs"
  using started_kernel.all_calls [OF started_kernel.intro [OF assms(1) started_kernel_axioms.intro [OF assms(2-5)]] assms(6)] .

definition bare_objects :: "LoadedLsmObject list" where
  "bare_objects =
     (case start_lsm_verdict_loop bare_host kernel_aya sample_lsm_policy daemon_socket_file of
        Verdict_loop xs \<Rightarrow> xs | _ \<Rightarrow> [])"

lemma bare_started:
  "start_lsm_verdict_loop bare_host kernel_aya sample_lsm_policy daemon_socket_file = Verdict_loop bare_objects"
  using sample_starts by (auto simp: bare_objects_def)

lemma sample_nul_free: "nul_free_policy bare_host sample_lsm_policy daemon_socket_file"
proof -
  have "list_all nul_free IMMUNE_EXACT_PATHS" "nul_free daemon_socket_file" by code_simp+
  then show ?thesis
    by (simp add: nul_free_policy_def list_all_iff bare_candidates(1) allowed_programs_def denied_writes_def
        denied_unlinks_def node_values_def sample_lsm_policy_def)
qed

lemma kernel_aya_load [simp]: "ebpf_load kernel_aya = installed_objects"
  by (simp add: kernel_aya_def)

interpretation bare_start: started_kernel kernel_aya bare_host sample_lsm_policy daemon_socket_file 0 bare_objects
  by unfold_locales (simp_all add: bare_started bare_scope sample_nul_free)

lemma bare_armed: "\<not> jinnguard_safe_mode_enabled bare_host" "jg_in_governed_scope env [0 \<mapsto> 0]"
proof -
  have "truthy (byte_string ''1'')" by code_simp
  moreover have "utf8_valid (byte_string ''1'')" by code_simp
  ultimately show "\<not> jinnguard_safe_mode_enabled bare_host"
    by (simp add: jinnguard_safe_mode_enabled_def enterprise_kernel_telemetry_required_def env_flag_enabled_def
        env_flag_value_def env_string_def bare_host_def)
qed (simp add: jg_in_governed_scope_def JG_SCOPE_KEY_def JG_SCOPE_GLOBAL_def)

theorem kernel_refines_monitor_witness:
  "fst (run_calls [(with_memory inet_mem quiet_env, Socket_connect 0x1000 0x2000 16),
      (with_memory inet_mem quiet_env, Sb_pivotroot 0 0)]
     (kernel_of bare_objects \<lparr>rb_records = [], rb_open = 0\<rparr>)) = [- JG_EPERM, - JG_EPERM]"
proof -
  have "parse_ipv4 (hd (split_on 0x3A (byte_string ''10.0.0.1''))) = Some [10, 0, 0, 1]"
    "trim (byte_string ''10.0.0.1'') = byte_string ''10.0.0.1''" "byte_string ''10.0.0.1'' \<noteq> []"
    by code_simp+
  then have "listed4 [byte_string ''10.0.0.1''] [10, 0, 0, 1]" by (simp add: listed4_def)
  then have "refused_inet (network_policy sample_lsm_policy) inet_mem 0x2000"
    by (simp add: refused_inet_def refused4_def sample_lsm_policy_def inet_mem_fields inet_words)
  then show ?thesis
    using kernel_refines_monitor [OF kernel_maps.aya_maps_axioms _ bare_started bare_scope sample_nul_free,
        of "[(with_memory inet_mem quiet_env, inet_mem, Socket_connect 0x1000 0x2000 16),
          (with_memory inet_mem quiet_env, inet_mem, Sb_pivotroot 0 0)]"]
      nofault.probe_helpers_axioms [of inet_mem quiet_env]
    by (simp add: reference_monitor_def bare_armed inet_mem_fields inet_words)
qed

text \<open>A denied path whose last name is not empty never gets lost between the three maps: the daemon
  keys it by its bare name exactly when neither the path is a directory nor its parent resolves to
  one, and otherwise keys it precisely.\<close>

theorem denied_entry_lands:
  assumes "length e < 128" "entry_leaf e \<noteq> []"
  shows "denied_basename_key h e = Inr (Some (nul_pad 128 (entry_leaf e))) \<longleftrightarrow>
    denied_dir_inode (libc_major h) (libc_minor h) (fs_metadata h) e = Inr None \<and>
    denied_file_parent_key h e = Inr None"
proof -
  have "length (entry_leaf e) < 128"
    using assms(1) length_leaf [of e] length_trim [of "filesystem_policy_leaf e"] by (simp add: entry_leaf_def)
  then show ?thesis
    using assms(2) by (auto simp: basename_entry_key dir_entry_key file_entry_key split: option.splits)
qed

theorem denied_entry_lands_witness:
  "denied_basename_key bare_host (byte_string ''/srv/secret.txt'') =
     Inr (Some (nul_pad 128 (byte_string ''secret.txt'')))"
proof -
  have e: "entry_leaf (byte_string ''/srv/secret.txt'') = byte_string ''secret.txt''" "byte_string ''secret.txt'' \<noteq> []"
    "length (byte_string ''/srv/secret.txt'') < 128"
    by code_simp+
  have "existing_dir bare_host p = None" for p by (simp add: existing_dir_def bare_host_def)
  then have "entry_dir bare_host p = None" "entry_file bare_host p = None" for p
    by (simp_all add: entry_dir_def entry_file_def Let_def split: option.splits)
  then show ?thesis
    using denied_entry_lands [of "byte_string ''/srv/secret.txt''" bare_host] e
    by (simp add: dir_entry_key file_entry_key)
qed

lemma fold_keeps:
  "(\<And>y cs. p \<in> set cs \<Longrightarrow> p \<in> set (f y cs)) \<Longrightarrow> p \<in> set cs \<Longrightarrow> p \<in> set (fold f ys cs)"
  by (induction ys arbitrary: cs) auto

lemma immune_path_listed: "p \<in> set IMMUNE_EXACT_PATHS \<Longrightarrow> p \<in> set (immune_exec_path_candidates h)"
proof -
  have keep: "p \<in> set cs \<Longrightarrow> p \<in> set (insert_immune_path_candidate h q cs)" for p q cs
    by (auto simp: insert_immune_path_candidate_def Let_def split: option.splits)
  have "p \<in> set (fold (insert_immune_path_candidate h) ps cs)" if "p \<in> set ps" for p ps cs
    using that
  proof (induction ps arbitrary: cs)
    case (Cons q ps)
    have "q \<in> set (insert_immune_path_candidate h q cs)"
      by (auto simp: insert_immune_path_candidate_def Let_def split: option.splits)
    then have "q \<in> set (fold (insert_immune_path_candidate h) ps (insert_immune_path_candidate h q cs))"
      using fold_keeps [of q "insert_immune_path_candidate h"] keep by blast
    with Cons show ?case by auto
  qed simp
  moreover have "p \<in> set cs \<Longrightarrow> p \<in> set (collect_path_candidates h cs)" for p cs
    by (auto simp: collect_path_candidates_def Let_def intro!: fold_keeps keep split: option.splits)
  moreover have "p \<in> set cs \<Longrightarrow> p \<in> set (collect_systemd_prefix_candidates h cs)" for p cs
    by (auto simp: collect_systemd_prefix_candidates_def intro!: fold_keeps keep split: option.splits)
  ultimately show "p \<in> set IMMUNE_EXACT_PATHS \<Longrightarrow> ?thesis"
    by (simp add: immune_exec_path_candidates_def Let_def)
qed

definition bin_sh_mem :: kmem where
  "bin_sh_mem = mem_of [(0x1060, [0, 0x20, 0, 0, 0, 0, 0, 0]), (0x2000, byte_string ''/bin/sh'' @ [0])]"

lemma bin_sh_name: "exec_name bin_sh_mem 0x1000 = byte_string ''/bin/sh''"
  by (simp add: exec_name_def mem_field_def field_addrs bin_sh_mem_def) code_simp

text \<open>Whatever allowlist the policy has, the programs that the daemon counts as immune, shells among
  them, stay executable for every governed task while the ring buffer has room.\<close>

theorem immune_programs_run:
  assumes "aya_maps api" "ebpf_load api = installed_objects"
    and "start_lsm_verdict_loop h api policy sock = Verdict_loop xs"
    and "resolve_governed_scope h = Inr w" "nul_free_policy h policy sock"
    and "probe_helpers env mem" "exec_name mem bprm \<in> set IMMUNE_EXACT_PATHS"
    and "ringbuf_reserve env request_size \<noteq> None"
  shows "fst (dispatch env (Bprm_check bprm) (kernel_of xs rb)) = 0"
proof -
  note kernel = started_kernel.intro [OF assms(1) started_kernel_axioms.intro [OF assms(2-5)]]
  have "list_all (\<lambda>p. trim p = p \<and> p \<noteq> []) IMMUNE_EXACT_PATHS" by code_simp
  then have "trim (exec_name mem bprm) = exec_name mem bprm" "exec_name mem bprm \<noteq> []"
    using assms(7) by (auto simp: list_all_iff)
  then have "listed_path (immune_exec_path_candidates h @ allowed_programs policy) (exec_name mem bprm)"
    using immune_path_listed [OF assms(7), of h] by (force simp: listed_path_def)
  then show ?thesis
    using started_kernel.one_call [OF kernel assms(6), of "Bprm_check bprm" rb] assms(8)
    by (auto simp: dispatch_def case_prod_beta Let_def reference_monitor_def)
qed

theorem immune_programs_run_witness:
  "fst (dispatch (with_memory bin_sh_mem quiet_env) (Bprm_check 0x1000)
     (kernel_of bare_objects \<lparr>rb_records = [], rb_open = 0\<rparr>)) = 0"
proof -
  have "byte_string ''/bin/sh'' \<in> set IMMUNE_EXACT_PATHS" by (simp add: IMMUNE_EXACT_PATHS_def)
  then show ?thesis
    by (intro immune_programs_run [OF kernel_maps.aya_maps_axioms _ bare_started bare_scope sample_nul_free
          nofault.probe_helpers_axioms])
      (simp_all add: bin_sh_name)
qed

end
