(* ===== verification/Lsm_Requests.thy ===== *)
theory Lsm_Requests
  imports Lsm_Daemon Shell_Commands "HOL-Library.AList"
begin

text \<open>
  What user space adds to a polled request, from \<^verbatim>\<open>ts_cli/src/ebpf_monitor.rs\<close>: the text of its
  resource, the terminal and the executable of its process, and the path of a file operation, with
  the cache that remembers where files were created. The files of \<^verbatim>\<open>/proc\<close>, the file system and the
  clock are the argument \<open>process_view\<close>, what the daemon reads at one moment. The theorem of the
  cache says which creation a cached path comes from.
\<close>

section \<open>Strings\<close>

text \<open>\<^verbatim>\<open>String::from_utf8_lossy\<close>: the length of the sequence at the front, and whether it is a
  character; what is not becomes U+FFFD.\<close>

definition utf8_chunk :: "byte list \<Rightarrow> nat \<times> bool" where
  "utf8_chunk s =
     (let byte = \<lambda>i. if i < length s then s ! i else 0;
          a = byte 0
      in if a < 0x80 then (1, True)
         else if 0xC2 \<le> a \<and> a \<le> 0xDF then (if cont (byte 1) then (2, True) else (1, False))
         else if 0xE0 \<le> a \<and> a \<le> 0xEF
         then (if \<not> second3 a (byte 1) then (1, False) else if cont (byte 2) then (3, True) else (2, False))
         else if 0xF0 \<le> a \<and> a \<le> 0xF4
         then (if \<not> second4 a (byte 1) then (1, False) else if \<not> cont (byte 2) then (2, False)
               else if cont (byte 3) then (4, True) else (3, False))
         else (1, False))"

lemma utf8_chunk_pos: "0 < fst (utf8_chunk s)"
  by (simp add: utf8_chunk_def Let_def)

function from_utf8_lossy :: "byte list \<Rightarrow> byte list" where
  "from_utf8_lossy s =
     (if s = [] then []
      else (if snd (utf8_chunk s) then take (fst (utf8_chunk s)) s else [0xEF, 0xBF, 0xBD]) @
           from_utf8_lossy (drop (fst (utf8_chunk s)) s))"
  by pat_completeness auto
termination
  by (relation "measure length") (simp_all add: utf8_chunk_pos)

declare from_utf8_lossy.simps [simp del]

text \<open>\<^verbatim>\<open>str::rsplit_once\<close> at a string, and \<^verbatim>\<open>str::parse\<close> of integers.\<close>

fun rsplit_at :: "byte list \<Rightarrow> byte list \<Rightarrow> (byte list \<times> byte list) option" where
  "rsplit_at pat [] = None"
| "rsplit_at pat (b # s) =
     (case rsplit_at pat s of
        Some (l, r) \<Rightarrow> Some (b # l, r)
      | None \<Rightarrow> map_option (\<lambda>r. ([], r)) (strip_prefix (b # s) pat))"

definition parse_u32 :: "byte list \<Rightarrow> u32 option" where
  "parse_u32 s =
     (let ds = if starts_with s [0x2B] then tl s else s
      in if ds \<noteq> [] \<and> list_all digit ds \<and> decimal ds < 2 ^ 32 then Some (of_nat (decimal ds)) else None)"

definition parse_i64 :: "byte list \<Rightarrow> int option" where
  "parse_i64 s =
     (let negative = starts_with s [0x2D];
          ds = if negative \<or> starts_with s [0x2B] then tl s else s;
          n = (if negative then - int (decimal ds) else int (decimal ds))
      in if ds \<noteq> [] \<and> list_all digit ds \<and> - (2 ^ 63) \<le> n \<and> n < 2 ^ 63 then Some n else None)"

definition integer_string :: "int \<Rightarrow> byte list" where
  "integer_string n = (if n < 0 then 0x2D # decimal_string (nat (- n)) else decimal_string (nat n))"

section \<open>Requests\<close>

text \<open>The string that \<^verbatim>\<open>format_resource\<close> gives.\<close>

fun resource_text :: "resource \<Rightarrow> byte list" where
  "resource_text (Text s) = s"
| "resource_text (Endpoint4 octets port) = format_ipv4 octets @ 0x3A # decimal_string port"
| "resource_text (Endpoint6 octets port) = 0x5B # format_ipv6 octets @ 0x5D # 0x3A # decimal_string port"
| "resource_text (Family f) = byte_string ''family:'' @ decimal_string (unat f)"

record lsm_request = LsmRequest +
  q_tty :: "byte list option"
  q_is_interactive :: bool
  q_process_path :: "byte list option"
  q_resolved_path :: "byte list option"

abbreviation q_resource :: "lsm_request \<Rightarrow> byte list" where
  "q_resource req \<equiv> resource_text (l_resource req)"

definition effective_path :: "lsm_request \<Rightarrow> byte list" where
  "effective_path req = (case q_resolved_path req of Some p \<Rightarrow> p | None \<Rightarrow> q_resource req)"

section \<open>The process behind a request\<close>

record process_view =
  proc_stat :: "u32 \<Rightarrow> byte list option"
  proc_exe :: "u32 \<Rightarrow> byte list option"
  proc_cwd :: "u32 \<Rightarrow> byte list option"
  proc_cmdline :: "u32 \<Rightarrow> byte list option"
  view_canonicalize :: "byte list \<Rightarrow> byte list option"
  view_exists :: "byte list \<Rightarrow> bool"
  view_home :: "byte list option list option"
  clock_ms :: u64

text \<open>The fields of \<^verbatim>\<open>/proc/<pid>/stat\<close> after the name of the command.\<close>

definition stat_fields :: "process_view \<Rightarrow> u32 \<Rightarrow> byte list list option" where
  "stat_fields view process =
     (case proc_stat view process of
        None \<Rightarrow> None
      | Some stat \<Rightarrow>
          if utf8_valid stat then map_option (\<lambda>(comm, rest). split_whitespace rest) (rsplit_at (byte_string '') '') stat)
          else None)"

definition process_tty :: "process_view \<Rightarrow> u32 \<Rightarrow> byte list option" where
  "process_tty view process =
     (case stat_fields view process of
        None \<Rightarrow> None
      | Some fs \<Rightarrow>
          if length fs \<le> 4 then None
          else (case parse_i64 (fs ! 4) of
                  None \<Rightarrow> None
                | Some tty_nr \<Rightarrow>
                    if tty_nr = 0 then None else Some (byte_string ''tty:'' @ integer_string tty_nr)))"

definition process_parent_pid :: "process_view \<Rightarrow> u32 \<Rightarrow> u32 option" where
  "process_parent_pid view process =
     (case stat_fields view process of
        None \<Rightarrow> None
      | Some fs \<Rightarrow> if length fs \<le> 1 then None else parse_u32 (fs ! 1))"

definition process_exe_path :: "process_view \<Rightarrow> u32 \<Rightarrow> byte list option" where
  "process_exe_path view process = map_option from_utf8_lossy (proc_exe view process)"

section \<open>The path of a file operation\<close>

definition path_leaf :: "byte list \<Rightarrow> byte list" where
  "path_leaf path = (case file_name path of None \<Rightarrow> path | Some name \<Rightarrow> name)"

definition canonical_or_original_path :: "process_view \<Rightarrow> byte list \<Rightarrow> byte list" where
  "canonical_or_original_path view path =
     from_utf8_lossy (case view_canonicalize view path of None \<Rightarrow> path | Some c \<Rightarrow> c)"

definition path_from_cwd :: "process_view \<Rightarrow> u32 \<Rightarrow> byte list \<Rightarrow> byte list option" where
  "path_from_cwd view process raw_path =
     map_option (\<lambda>cwd. canonical_or_original_path view (path_join cwd raw_path)) (proc_cwd view process)"

fun path_from_args :: "process_view \<Rightarrow> u32 \<Rightarrow> byte list \<Rightarrow> byte list list \<Rightarrow> byte list option" where
  "path_from_args view process raw_leaf [] = None"
| "path_from_args view process raw_leaf (arg # args) =
     (if \<not> utf8_valid arg \<or> path_leaf arg \<noteq> raw_leaf then path_from_args view process raw_leaf args
      else if starts_with arg [slash] then Some (canonical_or_original_path view arg)
      else case path_from_cwd view process arg of
             Some path \<Rightarrow> Some path
           | None \<Rightarrow> path_from_args view process raw_leaf args)"

definition path_from_cmdline :: "process_view \<Rightarrow> u32 \<Rightarrow> byte list \<Rightarrow> byte list option" where
  "path_from_cmdline view process raw_path =
     (case proc_cmdline view process of
        None \<Rightarrow> None
      | Some cmdline \<Rightarrow>
          path_from_args view process (path_leaf raw_path) (filter (\<lambda>arg. arg \<noteq> []) (split_on 0 cmdline)))"

definition existing_test_zone_path :: "process_view \<Rightarrow> byte list \<Rightarrow> byte list option" where
  "existing_test_zone_path view raw_path =
     (let leaf = path_leaf raw_path
      in if leaf = [] then None
         else case find (view_exists view)
                (map (\<lambda>base. path_join (byte_string base) leaf) [''/tmp/jinnguard-test'', ''/var/tmp/jinnguard-test'']) of
                Some candidate \<Rightarrow> Some (canonical_or_original_path view candidate)
              | None \<Rightarrow>
                  (case view_home view of
                     None \<Rightarrow> None
                   | Some entries \<Rightarrow>
                       map_option (canonical_or_original_path view)
                         (find (view_exists view)
                           (map (\<lambda>e. path_join (path_join (the e) (byte_string ''jinnguard-test'')) leaf)
                             (take 256 (filter (\<lambda>e. e \<noteq> None) entries))))))"

definition normalize_lsm_resource_path :: "process_view \<Rightarrow> u32 \<Rightarrow> byte list \<Rightarrow> byte list" where
  "normalize_lsm_resource_path view process raw_path =
     (if raw_path = [] then []
      else if starts_with raw_path [slash] then raw_path
      else case path_from_cmdline view process raw_path of
             Some path \<Rightarrow> path
           | None \<Rightarrow>
               (case existing_test_zone_path view raw_path of
                  Some path \<Rightarrow> path
                | None \<Rightarrow>
                    (case path_from_cwd view process raw_path of Some path \<Rightarrow> path | None \<Rightarrow> raw_path)))"

text \<open>The end of \<^verbatim>\<open>try_from\<close>: \<^verbatim>\<open>resolve_path\<close> and \<^verbatim>\<open>populate_origin\<close>.\<close>

definition resolve_path :: "process_view \<Rightarrow> lsm_request \<Rightarrow> lsm_request" where
  "resolve_path view req =
     (if l_req_type req \<in> {InodeCreate, InodeUnlink}
      then req\<lparr>q_resolved_path := Some (normalize_lsm_resource_path view (l_pid req) (q_resource req))\<rparr>
      else req)"

definition populate_origin :: "process_view \<Rightarrow> lsm_request \<Rightarrow> lsm_request" where
  "populate_origin view req =
     req\<lparr>q_tty := process_tty view (l_pid req), q_is_interactive := process_tty view (l_pid req) \<noteq> None,
         q_process_path := process_exe_path view (l_pid req)\<rparr>"

definition complete_request :: "process_view \<Rightarrow> LsmRequest \<Rightarrow> lsm_request" where
  "complete_request view req =
     populate_origin view (resolve_path view
       \<lparr>l_cookie = l_cookie req, l_pid = l_pid req, l_ppid = l_ppid req, l_req_type = l_req_type req,
        l_source_program = l_source_program req, l_family = l_family req, l_resource = l_resource req,
        l_payload_preview = l_payload_preview req, q_tty = None, q_is_interactive = False,
        q_process_path = None, q_resolved_path = None\<rparr>)"

section \<open>The cache of created files\<close>

definition LSM_PATH_CACHE_TTL_MS :: nat where "LSM_PATH_CACHE_TTL_MS = 30000"
definition LSM_PATH_CACHE_MAX_ENTRIES :: nat where "LSM_PATH_CACHE_MAX_ENTRIES = 4096"

record CachedPath =
  absolute_path :: "byte list"
  timestamp_ms :: u64

text \<open>The hash map is an association list with distinct keys.\<close>

type_synonym path_cache = "(byte list \<times> CachedPath) list"

definition fresh_at :: "u64 \<Rightarrow> CachedPath \<Rightarrow> bool" where
  "fresh_at now_ms entry \<longleftrightarrow> unat now_ms - unat (timestamp_ms entry) \<le> LSM_PATH_CACHE_TTL_MS"

definition cleanup_expired_entries :: "path_cache \<Rightarrow> u64 \<Rightarrow> path_cache" where
  "cleanup_expired_entries entries now_ms = filter (\<lambda>(k, entry). fresh_at now_ms entry) entries"

definition path_is_scoped_enforcement_zone :: "byte list \<Rightarrow> bool" where
  "path_is_scoped_enforcement_zone path =
     (let path = trim path
      in path \<noteq> [] \<and>
         (starts_with path (byte_string ''/tmp/jinnguard-test/'') \<or>
          starts_with path (byte_string ''/var/tmp/jinnguard-test/'') \<or> home_jinnguard_test_path path))"

definition cache_if_scoped :: "process_view \<Rightarrow> byte list \<Rightarrow> byte list \<Rightarrow> path_cache \<Rightarrow> path_cache" where
  "cache_if_scoped view raw_path abs_path entries =
     (if \<not> path_is_scoped_enforcement_zone abs_path \<or> path_leaf raw_path = [] then entries
      else
        let now = clock_ms view;
            entries = cleanup_expired_entries entries now;
            entries = if length entries \<ge> LSM_PATH_CACHE_MAX_ENTRIES then [] else entries
        in AList.update (path_leaf raw_path) \<lparr>absolute_path = abs_path, timestamp_ms = now\<rparr> entries)"

definition resolve_cached :: "process_view \<Rightarrow> byte list \<Rightarrow> path_cache \<Rightarrow> byte list option \<times> path_cache" where
  "resolve_cached view raw_path entries =
     (if path_leaf raw_path = [] then (None, entries)
      else
        let entries = cleanup_expired_entries entries (clock_ms view)
        in (map_option absolute_path (map_of entries (path_leaf raw_path)), entries))"

definition resolve_request :: "process_view \<Rightarrow> lsm_request \<Rightarrow> path_cache \<Rightarrow> lsm_request \<times> path_cache" where
  "resolve_request view req entries =
     (case l_req_type req of
        InodeCreate \<Rightarrow>
          let normalized = normalize_lsm_resource_path view (l_pid req) (q_resource req)
          in (req\<lparr>q_resolved_path := Some normalized\<rparr>, cache_if_scoped view (q_resource req) normalized entries)
      | InodeUnlink \<Rightarrow>
          let (cached, entries) =
                if \<not> starts_with (q_resource req) [slash] then resolve_cached view (q_resource req) entries
                else (None, entries)
          in (case cached of
                Some path \<Rightarrow> (req\<lparr>q_resolved_path := Some path\<rparr>, entries)
              | None \<Rightarrow>
                  (req\<lparr>q_resolved_path := Some (normalize_lsm_resource_path view (l_pid req) (q_resource req))\<rparr>,
                   entries))
      | _ \<Rightarrow> (req, entries))"

section \<open>What the cache remembers\<close>

text \<open>The specification is a map that never forgets: for each leaf, the latest creation of a file with
  that leaf in an enforcement zone. The cache is a part of it.\<close>

definition creation :: "process_view \<Rightarrow> lsm_request \<Rightarrow> (byte list \<times> CachedPath) option" where
  "creation view req =
     (let path = normalize_lsm_resource_path view (l_pid req) (q_resource req);
          leaf = path_leaf (q_resource req)
      in if l_req_type req = InodeCreate \<and> path_is_scoped_enforcement_zone path \<and> leaf \<noteq> []
         then Some (leaf, \<lparr>absolute_path = path, timestamp_ms = clock_ms view\<rparr>) else None)"

definition record_creation ::
    "process_view \<times> lsm_request \<Rightarrow> (byte list \<rightharpoonup> CachedPath) \<Rightarrow> (byte list \<rightharpoonup> CachedPath)" where
  "record_creation call m =
     (case creation (fst call) (snd call) of None \<Rightarrow> m | Some (leaf, entry) \<Rightarrow> m(leaf \<mapsto> entry))"

definition creations :: "(process_view \<times> lsm_request) list \<Rightarrow> (byte list \<rightharpoonup> CachedPath)" where
  "creations calls = fold record_creation calls Map.empty"

definition cache_after :: "(process_view \<times> lsm_request) list \<Rightarrow> path_cache" where
  "cache_after calls = fold (\<lambda>(view, req) entries. snd (resolve_request view req entries)) calls []"

definition remembers :: "path_cache \<Rightarrow> (byte list \<rightharpoonup> CachedPath) \<Rightarrow> bool" where
  "remembers entries m \<longleftrightarrow> distinct (map fst entries) \<and> length entries \<le> LSM_PATH_CACHE_MAX_ENTRIES \<and>
     map_of entries \<subseteq>\<^sub>m m"

lemma map_of_filter_sub: "distinct (map fst xs) \<Longrightarrow> map_of (filter P xs) \<subseteq>\<^sub>m map_of xs"
  by (induction xs) (auto simp: map_le_def split: if_splits, metis domI fst_conv map_of_SomeD option.exhaust rev_image_eqI)

lemma distinct_filter_keys: "distinct (map fst xs) \<Longrightarrow> distinct (map fst (filter P xs))"
  by (induction xs) auto

lemma remembers_cleanup: "remembers entries m \<Longrightarrow> remembers (cleanup_expired_entries entries now) m"
  unfolding remembers_def cleanup_expired_entries_def
  using map_of_filter_sub [of entries] map_le_trans distinct_filter_keys length_filter_le le_trans by blast

lemma remembers_update:
  assumes "remembers entries m" "length entries < LSM_PATH_CACHE_MAX_ENTRIES"
  shows "remembers (AList.update k v entries) (m(k \<mapsto> v))"
proof -
  have "length (AList.update k v entries) \<le> Suc (length entries)" by (induction entries) auto
  then show ?thesis
    using assms by (auto simp: remembers_def distinct_update update_conv' intro: map_le_upd)
qed

lemma cache_if_scoped_remembers:
  assumes "remembers entries m" "l_req_type req = InodeCreate"
  shows "remembers (cache_if_scoped view (q_resource req)
      (normalize_lsm_resource_path view (l_pid req) (q_resource req)) entries) (record_creation (view, req) m)"
proof -
  let ?es = "cleanup_expired_entries entries (clock_ms view)"
  have "remembers ?es m" using assms(1) by (rule remembers_cleanup)
  moreover have "remembers [] m" by (simp add: remembers_def)
  moreover have "remembers (if LSM_PATH_CACHE_MAX_ENTRIES \<le> length ?es then [] else ?es) m \<and>
      length (if LSM_PATH_CACHE_MAX_ENTRIES \<le> length ?es then [] else ?es) < LSM_PATH_CACHE_MAX_ENTRIES"
    using calculation by (simp add: LSM_PATH_CACHE_MAX_ENTRIES_def)
  ultimately show ?thesis
    using assms remembers_update by (simp add: cache_if_scoped_def record_creation_def creation_def Let_def)
qed

lemma resolve_request_remembers:
  assumes "remembers entries m"
  shows "remembers (snd (resolve_request view req entries)) (record_creation (view, req) m)"
proof -
  have "remembers (snd (resolve_cached view raw entries)) m" for raw
    using assms by (simp add: resolve_cached_def Let_def remembers_cleanup)
  moreover have "l_req_type req \<noteq> InodeCreate \<Longrightarrow> record_creation (view, req) m = m"
    by (simp add: record_creation_def creation_def)
  moreover have "snd (resolve_request view req entries) = entries \<or>
      (\<exists>raw. snd (resolve_request view req entries) = snd (resolve_cached view raw entries))"
    if "l_req_type req \<noteq> InodeCreate"
    using that by (cases "l_req_type req") (auto simp: resolve_request_def Let_def case_prod_beta split: option.splits)
  ultimately have "remembers (snd (resolve_request view req entries)) (record_creation (view, req) m)"
    if "l_req_type req \<noteq> InodeCreate"
    using that assms by metis
  moreover have "remembers (snd (resolve_request view req entries)) (record_creation (view, req) m)"
    if "l_req_type req = InodeCreate"
    using that cache_if_scoped_remembers [OF assms] by (simp add: resolve_request_def Let_def)
  ultimately show ?thesis by blast
qed

lemma cache_after_remembers: "remembers (cache_after calls) (creations calls)"
proof (induction calls rule: rev_induct)
  case Nil
  then show ?case by (simp add: cache_after_def creations_def remembers_def)
next
  case (snoc call calls)
  then show ?case
    using resolve_request_remembers [of "cache_after calls" "creations calls" "fst call" "snd call"]
    by (simp add: cache_after_def creations_def case_prod_beta)
qed

lemma creations_scoped: "creations calls leaf = Some e \<Longrightarrow> path_is_scoped_enforcement_zone (absolute_path e)"
  by (induction calls rule: rev_induct)
    (auto simp: creations_def record_creation_def creation_def Let_def split: option.splits if_splits prod.splits)

text \<open>C19: whatever requests the daemon has handled, a path that the cache gives for a deletion is the path of
  the latest creation with the same leaf, in an enforcement zone and at most 30 seconds old on the
  daemon's clock; and the cache never holds more than 4096 paths.\<close>

theorem cached_path_is_latest_creation:
  assumes "resolve_cached view raw (cache_after calls) = (Some path, entries)"
  shows "\<exists>e. creations calls (path_leaf raw) = Some e \<and> absolute_path e = path \<and> fresh_at (clock_ms view) e \<and>
    path_is_scoped_enforcement_zone path \<and> length entries \<le> LSM_PATH_CACHE_MAX_ENTRIES"
proof -
  define es where "es = cleanup_expired_entries (cache_after calls) (clock_ms view)"
  have "path_leaf raw \<noteq> []" using assms by (cases "path_leaf raw = []") (simp_all add: resolve_cached_def)
  then have "map_option absolute_path (map_of es (path_leaf raw)) = Some path" "entries = es"
    using assms by (auto simp: resolve_cached_def es_def [symmetric])
  then obtain e where e: "map_of es (path_leaf raw) = Some e" "absolute_path e = path" "entries = es" by blast
  have sub: "remembers es (creations calls)" unfolding es_def by (rule remembers_cleanup [OF cache_after_remembers])
  with e(1) have latest: "creations calls (path_leaf raw) = Some e"
    by (metis domI map_le_def remembers_def)
  moreover have "fresh_at (clock_ms view) e"
    using map_of_SomeD [OF e(1)] by (simp add: es_def cleanup_expired_entries_def)
  moreover have "path_is_scoped_enforcement_zone path" using creations_scoped [OF latest] e(2) by simp
  moreover have "length entries \<le> LSM_PATH_CACHE_MAX_ENTRIES" using sub e(3) by (simp add: remembers_def)
  ultimately show ?thesis using e(2) by blast
qed

text \<open>A host without \<^verbatim>\<open>/proc\<close>, and a creation of \<^verbatim>\<open>/tmp/jinnguard-test/a\<close>.\<close>

definition blind_view :: "u64 \<Rightarrow> process_view" where
  "blind_view now = \<lparr>proc_stat = (\<lambda>_. None), proc_exe = (\<lambda>_. None), proc_cwd = (\<lambda>_. None),
     proc_cmdline = (\<lambda>_. None), view_canonicalize = (\<lambda>_. None), view_exists = (\<lambda>_. False),
     view_home = None, clock_ms = now\<rparr>"

definition file_request :: "LsmRequestType \<Rightarrow> byte list \<Rightarrow> lsm_request" where
  "file_request rt path =
     \<lparr>l_cookie = 1, l_pid = 7, l_ppid = 1, l_req_type = rt, l_source_program = 4, l_family = 0,
      l_resource = Text path, l_payload_preview = [], q_tty = None, q_is_interactive = False,
      q_process_path = None, q_resolved_path = None\<rparr>"

definition zone_file :: "byte list" where "zone_file = byte_string ''/tmp/jinnguard-test/a''"

theorem cached_path_is_latest_creation_witness:
  "creations [(blind_view 1000, file_request InodeCreate zone_file)] (byte_string ''a'') =
     Some \<lparr>absolute_path = zone_file, timestamp_ms = 1000\<rparr>"
proof -
  have leaf: "path_leaf zone_file = byte_string ''a''" "path_leaf (byte_string ''a'') = byte_string ''a''" by code_simp+
  have facts: "byte_string ''a'' \<noteq> []" "zone_file \<noteq> []" "starts_with zone_file [slash]"
    "path_is_scoped_enforcement_zone zone_file" by code_simp+
  let ?calls = "[(blind_view 1000, file_request InodeCreate zone_file)]"
  have "cache_after ?calls = [(byte_string ''a'', \<lparr>absolute_path = zone_file, timestamp_ms = 1000\<rparr>)]"
    using facts leaf
    by (simp add: cache_after_def resolve_request_def file_request_def cache_if_scoped_def blind_view_def
        normalize_lsm_resource_path_def cleanup_expired_entries_def LSM_PATH_CACHE_MAX_ENTRIES_def)
  then have "resolve_cached (blind_view 2000) (byte_string ''a'') (cache_after ?calls) =
      (Some zone_file, [(byte_string ''a'', \<lparr>absolute_path = zone_file, timestamp_ms = 1000\<rparr>)])"
    using leaf facts
    by (simp add: resolve_cached_def cleanup_expired_entries_def fresh_at_def blind_view_def LSM_PATH_CACHE_TTL_MS_def)
  from cached_path_is_latest_creation [OF this] leaf show ?thesis
    using facts
    by (auto simp: creations_def record_creation_def creation_def file_request_def blind_view_def
        normalize_lsm_resource_path_def)
qed

end
