(* ===== verification/Lsm_Verdicts.thy ===== *)
theory Lsm_Verdicts
  imports Lsm_Requests
begin

text \<open>
  The verdict that user space computes for a polled request: \<^verbatim>\<open>lsm_policy_verdict\<close> and what it calls in
  \<^verbatim>\<open>ts_cli/src/main.rs\<close>, with the intent tracking and the reputation of
  \<^verbatim>\<open>ts_cli/src/explainability.rs\<close>, and the alerts for connects to orchestrator sockets. The hash of an
  identity, whose algorithm the standard library leaves open, is the argument \<open>hash\<close>. Log lines, the
  trust score that only they show, and the copy of the reputations on disk are left out.
\<close>

section \<open>Intents\<close>

datatype IntentSignal =
  FileWrite_signal | FileDelete_signal | Exec_signal | NetworkAccess_signal | Unknown_signal

datatype IntentRiskLevel = Low_risk | Medium_risk | High_risk

datatype DenyReason =
  ProtectedSystemPath | PolicyViolation | UnknownAgent | ExecNotAllowed | WriteNotAllowed | ScopeViolation

record AgentIdentity =
  id_process_path :: "byte list option"
  lineage_hash :: u64

type_synonym identity_hash = "byte list option \<Rightarrow> u32 \<Rightarrow> u64"

record LsmPipelineObservation =
  obs_intent :: IntentSignal
  obs_pattern :: "string option"
  obs_risk :: IntentRiskLevel
  obs_identity :: AgentIdentity

text \<open>The three global maps of the module.\<close>

record intent_state =
  process_intents :: "u32 \<rightharpoonup> IntentSignal list"
  process_risk_count :: "u32 \<rightharpoonup> u32"
  agent_reputation :: "AgentIdentity \<rightharpoonup> u32"

definition MAX_INTENT_SIGNALS_PER_PID :: nat where "MAX_INTENT_SIGNALS_PER_PID = 10"
definition EXEC_WRITE_EXFIL_PATTERN :: string where "EXEC_WRITE_EXFIL_PATTERN = ''EXEC_WRITE_EXFIL''"
definition ESCALATION_THRESHOLD :: u32 where "ESCALATION_THRESHOLD = 3"

definition explain_deny :: "lsm_request \<Rightarrow> DenyReason \<Rightarrow> Verdict" where
  "explain_deny req reason = Deny"

definition classify_intent :: "lsm_request \<Rightarrow> IntentSignal" where
  "classify_intent req =
     (case l_req_type req of
        Execve \<Rightarrow> Exec_signal
      | InodeCreate \<Rightarrow> FileWrite_signal
      | InodeUnlink \<Rightarrow> FileDelete_signal
      | Connect \<Rightarrow> NetworkAccess_signal
      | SendMsg \<Rightarrow> NetworkAccess_signal)"

definition classify_intent_risk :: "string option \<Rightarrow> IntentRiskLevel" where
  "classify_intent_risk pattern =
     (if pattern = Some EXEC_WRITE_EXFIL_PATTERN then High_risk else Low_risk)"

text \<open>The last window of three signals.\<close>

definition has_exec_write_exfil_pattern :: "IntentSignal list \<Rightarrow> bool" where
  "has_exec_write_exfil_pattern signals \<longleftrightarrow>
     3 \<le> length signals \<and>
     drop (length signals - 3) signals = [Exec_signal, FileWrite_signal, NetworkAccess_signal]"

definition saturating_inc :: "u32 \<Rightarrow> u32" where
  "saturating_inc n = (if n = - 1 then n else n + 1)"

definition or_zero :: "u32 option \<Rightarrow> u32" where
  "or_zero n = (case n of None \<Rightarrow> 0 | Some n \<Rightarrow> n)"

definition compute_agent_identity :: "identity_hash \<Rightarrow> process_view \<Rightarrow> lsm_request \<Rightarrow> AgentIdentity" where
  "compute_agent_identity hash view req =
     \<lparr>id_process_path = q_process_path req,
      lineage_hash = hash (q_process_path req) (or_zero (process_parent_pid view (l_pid req)))\<rparr>"

definition increment_high_risk_count :: "u32 \<Rightarrow> intent_state \<Rightarrow> intent_state" where
  "increment_high_risk_count process st =
     st\<lparr>process_risk_count := (process_risk_count st)
          (process \<mapsto> saturating_inc (or_zero (process_risk_count st process)))\<rparr>"

definition increment_agent_reputation ::
    "identity_hash \<Rightarrow> process_view \<Rightarrow> lsm_request \<Rightarrow> intent_state \<Rightarrow> intent_state" where
  "increment_agent_reputation hash view req st =
     (let identity = compute_agent_identity hash view req
      in st\<lparr>agent_reputation := (agent_reputation st)
              (identity \<mapsto> saturating_inc (or_zero (agent_reputation st identity)))\<rparr>)"

definition is_agent_escalated :: "intent_state \<Rightarrow> AgentIdentity \<Rightarrow> bool" where
  "is_agent_escalated st identity =
     (case agent_reputation st identity of None \<Rightarrow> False | Some score \<Rightarrow> score \<ge> ESCALATION_THRESHOLD)"

definition push_signal :: "IntentSignal \<Rightarrow> IntentSignal list option \<Rightarrow> IntentSignal list" where
  "push_signal signal known =
     (let signals = (case known of None \<Rightarrow> [] | Some s \<Rightarrow> s) @ [signal]
      in if length signals > MAX_INTENT_SIGNALS_PER_PID
         then drop (length signals - MAX_INTENT_SIGNALS_PER_PID) signals else signals)"

definition record_intent ::
    "identity_hash \<Rightarrow> process_view \<Rightarrow> lsm_request \<Rightarrow> IntentSignal \<Rightarrow> intent_state \<Rightarrow>
     (string option \<times> IntentRiskLevel) \<times> intent_state" where
  "record_intent hash view req signal st =
     (let signals = push_signal signal (process_intents st (l_pid req));
          st = st\<lparr>process_intents := (process_intents st)(l_pid req \<mapsto> signals)\<rparr>;
          pattern = (if has_exec_write_exfil_pattern signals then Some EXEC_WRITE_EXFIL_PATTERN else None);
          risk = classify_intent_risk pattern;
          st = (if risk = High_risk
                then increment_agent_reputation hash view req (increment_high_risk_count (l_pid req) st)
                else st)
      in ((pattern, risk), st))"

definition observe_lsm_request ::
    "identity_hash \<Rightarrow> process_view \<Rightarrow> lsm_request \<Rightarrow> bool \<Rightarrow> intent_state \<Rightarrow>
     LsmPipelineObservation \<times> intent_state" where
  "observe_lsm_request hash view req track_state st =
     (let intent = classify_intent req;
          ((pattern, risk), st) =
            (if track_state then record_intent hash view req intent st
             else ((None, classify_intent_risk None), st))
      in (\<lparr>obs_intent = intent, obs_pattern = pattern, obs_risk = risk,
           obs_identity = compute_agent_identity hash view req\<rparr>, st))"

section \<open>Gates\<close>

definition trusted_prefixes :: "byte list list" where
  "trusted_prefixes = map byte_string
     [''/usr/bin/cargo'', ''/usr/bin/rustc'', ''/usr/bin/bash'', ''/bin/bash'', ''/bin/sh'', ''/usr/bin/dash'',
      ''/bin/dash'', ''/usr/bin/env'', ''/usr/bin/patch'', ''/bin/patch'']"

definition is_trusted_process :: "lsm_request \<Rightarrow> bool" where
  "is_trusted_process req =
     (let path = (case q_process_path req of None \<Rightarrow> [] | Some p \<Rightarrow> p)
      in list_ex (starts_with path) trusted_prefixes)"

definition lsm_origin_gate_verdict :: "byte list list \<Rightarrow> lsm_request \<Rightarrow> Verdict option" where
  "lsm_origin_gate_verdict scope_prefixes req =
     (let resource_path = effective_path req
      in if is_protected_system_path resource_path then Some (explain_deny req ProtectedSystemPath)
         else if is_trusted_process req then Some Allow
         else if q_is_interactive req then Some Allow
         else if \<not> path_is_governed scope_prefixes resource_path then Some Allow
         else None)"

definition lsm_intent_response_verdict ::
    "identity_hash \<Rightarrow> process_view \<Rightarrow> byte list list \<Rightarrow> intent_state \<Rightarrow> lsm_request \<Rightarrow> IntentRiskLevel \<Rightarrow>
     Verdict option" where
  "lsm_intent_response_verdict hash view scope_prefixes st req risk =
     (if risk = High_risk \<and> path_is_governed scope_prefixes (effective_path req) \<and>
         is_agent_escalated st (compute_agent_identity hash view req)
      then Some (explain_deny req PolicyViolation) else None)"

section \<open>Policies of the request types\<close>

definition network_resource_ip :: "byte list \<Rightarrow> byte list" where
  "network_resource_ip resource =
     (case strip_prefix resource [0x5B] of
        Some rest \<Rightarrow> hd (split_on 0x5D rest)
      | None \<Rightarrow> (case rsplit_once 0x3A resource of Some (ip, _) \<Rightarrow> ip | None \<Rightarrow> resource))"

definition matches_network_entry :: "byte list \<Rightarrow> byte list \<Rightarrow> byte list list \<Rightarrow> bool" where
  "matches_network_entry resource ip entries =
     list_ex (\<lambda>entry.
       let entry = trim entry
       in entry \<noteq> [] \<and> (resource = entry \<or> ip = entry \<or> starts_with resource entry \<or> starts_with ip entry)) entries"

definition lsm_network_verdict :: "lsm_request \<Rightarrow> NetworkPolicy \<Rightarrow> Verdict" where
  "lsm_network_verdict req policy =
     (let resource = effective_path req
      in if l_family req = AF_UNIX
         then (if unix_default_deny policy \<and> \<not> list_ex (\<lambda>allowed. resource = allowed) (allowed_unix_sockets policy)
               then explain_deny req PolicyViolation else Allow)
         else
           let resource_ip = network_resource_ip resource
           in if matches_network_entry resource resource_ip (denied_ips policy)
              then explain_deny req PolicyViolation
              else if default_deny policy \<and> \<not> matches_network_entry resource resource_ip (allowed_ips policy)
              then explain_deny req PolicyViolation
              else Allow)"

definition path_matches_any :: "byte list \<Rightarrow> byte list list \<Rightarrow> bool" where
  "path_matches_any path patterns =
     list_ex (\<lambda>pattern.
       let pattern = trim pattern
       in pattern \<noteq> [] \<and> (path = pattern \<or> starts_with path (trim_end_matches slash pattern))) patterns"

definition lsm_exec_verdict :: "byte list list \<Rightarrow> lsm_request \<Rightarrow> PolicyConfig \<Rightarrow> Verdict" where
  "lsm_exec_verdict scope_prefixes req policy =
     (let path = effective_path req
      in case lsm_origin_gate_verdict scope_prefixes req of
           Some verdict \<Rightarrow> verdict
         | None \<Rightarrow>
             if path_is_immune path then Allow
             else
               let has_allowlist = list_ex (\<lambda>node. allowed_executables node \<noteq> []) (node_values policy)
               in if has_allowlist \<and>
                     \<not> list_ex (\<lambda>node. path_matches_any path (allowed_executables node)) (node_values policy)
                  then explain_deny req PolicyViolation else Allow)"

definition lsm_path_denylist_verdict ::
    "lsm_request \<Rightarrow> PolicyConfig \<Rightarrow> DenyReason \<Rightarrow> (AgentNodePolicy \<Rightarrow> byte list list) \<Rightarrow> Verdict" where
  "lsm_path_denylist_verdict req policy reason denylist =
     (if list_ex (\<lambda>node. path_matches_any (effective_path req) (denylist node)) (node_values policy)
      then explain_deny req reason else Allow)"

section \<open>The verdict\<close>

text \<open>The last match of \<^verbatim>\<open>lsm_policy_verdict\<close>, and the whole function.\<close>

definition request_type_verdict :: "byte list list \<Rightarrow> PolicyConfig \<Rightarrow> lsm_request \<Rightarrow> Verdict" where
  "request_type_verdict scope_prefixes policy req =
     (case l_req_type req of
        Connect \<Rightarrow> lsm_network_verdict req (network_policy policy)
      | SendMsg \<Rightarrow> lsm_network_verdict req (network_policy policy)
      | Execve \<Rightarrow> lsm_exec_verdict scope_prefixes req policy
      | InodeCreate \<Rightarrow> lsm_path_denylist_verdict req policy WriteNotAllowed denied_write_paths
      | InodeUnlink \<Rightarrow> lsm_path_denylist_verdict req policy WriteNotAllowed denied_unlink_paths)"

definition lsm_policy_verdict ::
    "identity_hash \<Rightarrow> byte list list \<Rightarrow> process_view \<Rightarrow> PolicyConfig \<Rightarrow> bool \<Rightarrow> lsm_request \<Rightarrow> intent_state \<Rightarrow>
     Verdict \<times> intent_state" where
  "lsm_policy_verdict hash scope_prefixes view policy safe_mode req st =
     (let origin_verdict = (if safe_mode then None else lsm_origin_gate_verdict scope_prefixes req);
          (observation, st) = observe_lsm_request hash view req (safe_mode \<or> origin_verdict = None) st
      in if safe_mode then (Allow, st)
         else case origin_verdict of
           Some verdict \<Rightarrow> (verdict, st)
         | None \<Rightarrow>
             (case lsm_intent_response_verdict hash view scope_prefixes st req (obs_risk observation) of
                Some verdict \<Rightarrow> (verdict, st)
              | None \<Rightarrow> (request_type_verdict scope_prefixes policy req, st)))"

section \<open>Alerts\<close>

text \<open>The list of \<^verbatim>\<open>main.rs\<close>, with the label of each socket.\<close>

definition ORCHESTRATOR_LABELS :: "(byte list \<times> string) list" where
  "ORCHESTRATOR_LABELS = map (\<lambda>(socket, label). (byte_string socket, label)) [
     (''/run/docker.sock'', ''docker''),
     (''/var/run/docker.sock'', ''docker''),
     (''/run/containerd/containerd.sock'', ''containerd''),
     (''/var/run/containerd/containerd.sock'', ''containerd''),
     (''/run/podman/podman.sock'', ''podman''),
     (''/var/run/podman/podman.sock'', ''podman''),
     (''/run/crio/crio.sock'', ''crio''),
     (''/var/run/crio/crio.sock'', ''crio''),
     (''/run/libvirt/libvirt-sock'', ''libvirt''),
     (''/var/run/libvirt/libvirt-sock'', ''libvirt''),
     (''/run/libvirt/libvirt-sock-ro'', ''libvirt''),
     (''/var/run/libvirt/libvirt-sock-ro'', ''libvirt''),
     (''/run/dbus/system_bus_socket'', ''dbus''),
     (''/var/run/dbus/system_bus_socket'', ''dbus''),
     (''/run/systemd/private'', ''systemd''),
     (''/var/run/systemd/private'', ''systemd'')]"

definition orchestrator_control_socket :: "byte list \<Rightarrow> string option" where
  "orchestrator_control_socket path = map_option snd (find (\<lambda>(socket, label). socket = path) ORCHESTRATOR_LABELS)"

record DeputyConnectAlert =
  orchestrator :: string
  al_socket :: "byte list"
  al_denied :: bool
  al_pid :: u32
  al_process :: "byte list option"

definition classify_deputy_connect :: "lsm_request \<Rightarrow> Verdict \<Rightarrow> DeputyConnectAlert option" where
  "classify_deputy_connect req verdict =
     (if l_req_type req \<noteq> Connect then None
      else if l_family req \<noteq> AF_UNIX then None
      else case orchestrator_control_socket (effective_path req) of
             None \<Rightarrow> None
           | Some orch \<Rightarrow>
               Some \<lparr>orchestrator = orch, al_socket = effective_path req, al_denied = (verdict = Deny),
                     al_pid = l_pid req, al_process = q_process_path req\<rparr>)"

section \<open>Which requests are refused\<close>

text \<open>The pattern completes when a network access follows an execution and a file creation of the same
  process.\<close>

definition completes_exfil :: "intent_state \<Rightarrow> lsm_request \<Rightarrow> bool" where
  "completes_exfil st req \<longleftrightarrow>
     l_req_type req \<in> {Connect, SendMsg} \<and>
     (case process_intents st (l_pid req) of
        None \<Rightarrow> False
      | Some signals \<Rightarrow> \<exists>before. signals = before @ [Exec_signal, FileWrite_signal])"

lemma last_three: "3 \<le> length xs \<and> drop (length xs - 3) xs = [a, b, c] \<longleftrightarrow> (\<exists>ys. xs = ys @ [a, b, c])"
proof
  assume "3 \<le> length xs \<and> drop (length xs - 3) xs = [a, b, c]"
  then show "\<exists>ys. xs = ys @ [a, b, c]" by (metis append_take_drop_id)
qed auto

lemma push_signal_end:
  "(\<exists>ys. push_signal s known = ys @ [a, b, c]) \<longleftrightarrow>
     (\<exists>ys. (case known of None \<Rightarrow> [] | Some s \<Rightarrow> s) @ [s] = ys @ [a, b, c])"
proof -
  define xs where "xs = (case known of None \<Rightarrow> [] | Some s \<Rightarrow> s) @ [s]"
  have "(\<exists>ys. drop n xs = ys @ [a, b, c]) \<longleftrightarrow> (\<exists>ys. xs = ys @ [a, b, c])"
    if n: "n + 10 = length xs" for n
  proof
    assume "\<exists>ys. drop n xs = ys @ [a, b, c]"
    then obtain ys where "drop n xs = ys @ [a, b, c]" by blast
    then have "xs = (take n xs @ ys) @ [a, b, c]" by (metis append.assoc append_take_drop_id)
    then show "\<exists>ys. xs = ys @ [a, b, c]" by blast
  next
    assume "\<exists>ys. xs = ys @ [a, b, c]"
    then obtain ys where "xs = ys @ [a, b, c]" by blast
    with n have "drop n xs = drop n ys @ [a, b, c]" by simp
    then show "\<exists>ys. drop n xs = ys @ [a, b, c]" by blast
  qed
  moreover have "push_signal s known = (if length xs > 10 then drop (length xs - 10) xs else xs)"
    unfolding push_signal_def xs_def [symmetric] MAX_INTENT_SIGNALS_PER_PID_def by (simp only: Let_def)
  ultimately show ?thesis unfolding xs_def [symmetric] by auto
qed

lemma pattern_completes:
  "has_exec_write_exfil_pattern (push_signal (classify_intent req) (process_intents st (l_pid req))) \<longleftrightarrow>
     completes_exfil st req"
  unfolding has_exec_write_exfil_pattern_def last_three push_signal_end completes_exfil_def
  by (cases "l_req_type req"; cases "process_intents st (l_pid req)") (simp_all add: classify_intent_def)

text \<open>The state after a request that is tracked, and the verdict of a tracked request.\<close>

definition tracked_state ::
    "identity_hash \<Rightarrow> process_view \<Rightarrow> lsm_request \<Rightarrow> intent_state \<Rightarrow> intent_state" where
  "tracked_state hash view req st = snd (record_intent hash view req (classify_intent req) st)"

lemma observe_tracked:
  "observe_lsm_request hash view req True st =
     (\<lparr>obs_intent = classify_intent req,
       obs_pattern = (if completes_exfil st req then Some EXEC_WRITE_EXFIL_PATTERN else None),
       obs_risk = (if completes_exfil st req then High_risk else Low_risk),
       obs_identity = compute_agent_identity hash view req\<rparr>, tracked_state hash view req st)"
  by (simp add: observe_lsm_request_def tracked_state_def record_intent_def pattern_completes
      classify_intent_risk_def Let_def)

lemma observe_untracked: "snd (observe_lsm_request hash view req False st) = st"
  by (simp add: observe_lsm_request_def)

lemma tracked_reputation:
  "agent_reputation (tracked_state hash view req st) =
     (if completes_exfil st req
      then let i = compute_agent_identity hash view req
           in (agent_reputation st)(i \<mapsto> saturating_inc (or_zero (agent_reputation st i)))
      else agent_reputation st)"
  by (simp add: tracked_state_def record_intent_def pattern_completes classify_intent_risk_def
      increment_agent_reputation_def increment_high_risk_count_def Let_def)

lemma tracked_intents:
  "process_intents (tracked_state hash view req st) =
     (process_intents st)(l_pid req \<mapsto> push_signal (classify_intent req) (process_intents st (l_pid req)))"
  by (simp add: tracked_state_def record_intent_def increment_agent_reputation_def increment_high_risk_count_def Let_def)

lemma saturated_escalated: "saturating_inc n \<ge> ESCALATION_THRESHOLD \<longleftrightarrow> n \<ge> 2"
proof -
  have "unat (n + 1) = Suc (unat n)" if "n \<noteq> - 1"
  proof -
    have "1 + n \<noteq> 0" using that eq_neg_iff_add_eq_0 [of n 1] by (simp only: add.commute not_False_eq_True)
    then show ?thesis using unatSuc [of n] by (simp add: add.commute)
  qed
  then show ?thesis
    by (cases "n = - 1", simp add: saturating_inc_def, simp add: saturating_inc_def ESCALATION_THRESHOLD_def word_le_nat_alt)
qed

text \<open>What user space refuses, stated without the order of the gates.\<close>

definition user_refuses ::
    "identity_hash \<Rightarrow> byte list list \<Rightarrow> process_view \<Rightarrow> PolicyConfig \<Rightarrow> lsm_request \<Rightarrow> intent_state \<Rightarrow> bool" where
  "user_refuses hash scope view policy req st \<longleftrightarrow>
     (let path = effective_path req
      in is_protected_system_path path \<or>
         \<not> is_trusted_process req \<and> \<not> q_is_interactive req \<and> path_is_governed scope path \<and>
         (completes_exfil st req \<and>
            or_zero (agent_reputation st (compute_agent_identity hash view req)) \<ge> 2 \<or>
          (case l_req_type req of
             Execve \<Rightarrow> \<not> path_is_immune path \<and>
               list_ex (\<lambda>node. allowed_executables node \<noteq> []) (node_values policy) \<and>
               \<not> list_ex (\<lambda>node. path_matches_any path (allowed_executables node)) (node_values policy)
           | InodeCreate \<Rightarrow> list_ex (\<lambda>node. path_matches_any path (denied_write_paths node)) (node_values policy)
           | InodeUnlink \<Rightarrow> list_ex (\<lambda>node. path_matches_any path (denied_unlink_paths node)) (node_values policy)
           | _ \<Rightarrow> lsm_network_verdict req (network_policy policy) = Deny)))"

lemma verdict_unfold:
  "lsm_policy_verdict hash scope view policy safe_mode req st =
     (if safe_mode then (Allow, tracked_state hash view req st)
      else if is_protected_system_path (effective_path req) then (Deny, st)
      else if is_trusted_process req \<or> q_is_interactive req \<or> \<not> path_is_governed scope (effective_path req)
      then (Allow, st)
      else (if user_refuses hash scope view policy req st then Deny else Allow, tracked_state hash view req st))"
proof -
  let ?st = "tracked_state hash view req st" and ?i = "compute_agent_identity hash view req"
  have "completes_exfil st req \<Longrightarrow> is_agent_escalated ?st ?i \<longleftrightarrow> 2 \<le> or_zero (agent_reputation st ?i)"
    by (simp add: is_agent_escalated_def tracked_reputation saturated_escalated Let_def)
  moreover have "lsm_network_verdict req (network_policy policy) \<in> {Allow, Deny}"
    by (simp add: lsm_network_verdict_def explain_deny_def Let_def)
  ultimately show ?thesis
    by (cases "l_req_type req")
      (auto simp: lsm_policy_verdict_def observe_tracked observe_untracked case_prod_beta user_refuses_def
        lsm_origin_gate_verdict_def lsm_intent_response_verdict_def request_type_verdict_def explain_deny_def
        lsm_exec_verdict_def lsm_path_denylist_verdict_def Let_def)
qed

section \<open>Network endpoints\<close>

lemma trim_plain_head:
  assumes "plain_byte b"
  shows "\<exists>t. trim (b # s) = b # t"
proof -
  have start: "trim_start (b # s) = b # s" using assms by (simp add: trim_start.simps [of "b # s"] ws_prefix_plain)
  obtain n where n: "trim (b # s) = take n (b # s)"
    using trim_end_take [of "b # s"] by (auto simp: trim_def start)
  have "ws_suffix (rev (take 0 (b # s))) = 0" by simp
  have "trim_back (rev s @ [b]) \<noteq> []"
  proof -
    have "trim_back (u @ [b]) \<noteq> []" for u
    proof (induction "length u" arbitrary: u rule: less_induct)
      case less
      define k where "k = ws_suffix (u @ [b])"
      have k: "k \<le> length u"
        using assms by (cases u rule: ws_suffix.cases)
          (auto simp: k_def plain_byte_def wide_ws_def split: if_splits list.splits)
      show ?case
      proof (cases "k = 0")
        case True
        then show ?thesis by (simp add: trim_back.simps [of "u @ [b]"] k_def)
      next
        case False
        with k have "trim_back (drop k u @ [b]) \<noteq> []" by (intro less) auto
        with k False show ?thesis by (simp add: trim_back.simps [of "u @ [b]"] k_def [symmetric])
      qed
    qed
    then show ?thesis .
  qed
  then have "trim (b # s) \<noteq> []" by (simp add: trim_def start trim_end_def)
  with n show ?thesis by (cases n) auto
qed

lemma ungoverned_head:
  assumes "plain_byte b" "b \<noteq> slash"
  shows "\<not> is_protected_system_path (b # s)" "\<not> path_is_governed (set_governed_scope_prefixes raw) (b # s)"
proof -
  obtain t where t: "trim (b # s) = b # t" using trim_plain_head [OF assms(1)] by blast
  have "\<not> starts_with (b # t) (byte_string (CHR ''/'' # rest))" for rest
    using assms(2) by (simp add: starts_with_Cons byte_string_def)
  then show protected: "\<not> is_protected_system_path (b # s)"
    by (simp add: is_protected_system_path_def t)
  have "\<not> is_path_in_test_scope (b # s)"
    using test_scope_prefix [of "b # s"] assms(2) by (auto simp: t starts_with_Cons byte_string_def)
  moreover have "\<not> path_matches_governed_prefix (set_governed_scope_prefixes raw) (b # s)"
  proof -
    have "\<not> under prefix (b # t)" if "starts_with prefix [slash]" for prefix
      using that assms(2) by (auto simp: under_def starts_with_Cons)
    then show ?thesis
      using installed_prefixes [of raw] by (auto simp: path_matches_governed_prefix_def t list_ex_iff list_all_iff proper_prefix_dir_def)
  qed
  ultimately show "\<not> path_is_governed (set_governed_scope_prefixes raw) (b # s)"
    by (simp add: path_is_governed_def)
qed

definition is_text :: "resource \<Rightarrow> bool" where
  "is_text r \<longleftrightarrow> (\<exists>s. r = Text s)"

lemma endpoint_head:
  assumes "\<not> is_text r"
  shows "\<exists>b s. resource_text r = b # s \<and> plain_byte b \<and> b \<noteq> slash"
proof (cases r)
  case (Endpoint4 octets port)
  show ?thesis
  proof (cases octets)
    case (Cons o1 os)
    obtain d ds where d: "decimal_string (unat o1) = d # ds" "digit d"
      using decimal_string_digits [of "unat o1"] decimal_string_ne [of "unat o1"]
      by (cases "decimal_string (unat o1)") auto
    have "\<exists>s. join_with 0x2E ((d # ds) # xs) = d # s" for xs by (cases xs) auto
    with Cons d obtain s where "format_ipv4 octets = d # s" by (auto simp: format_ipv4_def)
    moreover have "plain_byte d \<and> d \<noteq> slash"
      using d(2) by (auto simp: digit_def plain_byte_def ascii_ws_def word_le_nat_alt word_less_nat_alt)
    ultimately show ?thesis using Endpoint4 by auto
  qed (simp add: Endpoint4 format_ipv4_def plain_byte_def ascii_ws_def)
qed (use assms in \<open>simp_all add: is_text_def byte_string_def plain_byte_def ascii_ws_def\<close>)

lemma resource_kind:
  assumes "try_from raw = Inr r" "l_req_type r \<in> {Connect, SendMsg}"
  shows "is_text (l_resource r) \<longleftrightarrow> l_family r = AF_UNIX"
  using assms
  by (cases "nul_terminated_string (r_dest raw)")
    (auto simp: try_from_def format_resource_def is_text_def AF_UNIX_def AF_INET_def AF_INET6_def
      split: sum.splits if_splits)

lemma complete_request_network:
  assumes "l_req_type r \<in> {Connect, SendMsg}"
  shows "effective_path (complete_request view r) = resource_text (l_resource r)"
    "l_req_type (complete_request view r) = l_req_type r" "l_family (complete_request view r) = l_family r"
    "l_resource (complete_request view r) = l_resource r" "l_pid (complete_request view r) = l_pid r"
    "resolve_request view' (complete_request view r) entries = (complete_request view r, entries)"
  using assms by (auto simp: complete_request_def resolve_path_def populate_origin_def effective_path_def resolve_request_def)

lemma endpoint_allowed:
  assumes "\<not> is_text (l_resource q)" "q_resolved_path q = None"
  shows "lsm_policy_verdict hash (set_governed_scope_prefixes configured) view policy safe_mode q st =
    (Allow, if safe_mode then tracked_state hash view q st else st)"
proof -
  obtain b s where "q_resource q = b # s" "plain_byte b" "b \<noteq> slash"
    using endpoint_head [OF assms(1)] by blast
  then show ?thesis
    using ungoverned_head(1) [of b s] ungoverned_head(2) [where b = b and s = s and raw = configured] assms(2)
    by (simp add: verdict_unfold effective_path_def)
qed

section \<open>Properties\<close>

text \<open>C16: the verdict of user space is never unknown, and refuses exactly outside safe mode the resources
  under a protected directory, and, for a process that is neither trusted nor interactive and a resource
  in the enforcement scope, what completes the exfiltration pattern for an identity with two such
  patterns before, or what the policy of the request type refuses.\<close>

theorem user_verdict_decision:
  "fst (lsm_policy_verdict hash scope view policy safe_mode req st) =
     (if \<not> safe_mode \<and> user_refuses hash scope view policy req st then Deny else Allow)"
  by (auto simp: verdict_unfold) (auto simp: user_refuses_def Let_def)

text \<open>C17: whatever the policy, user space answers a connect or a message to an address that is not a UNIX
  address with Allow, and outside safe mode it does not count the access as an intent: the resource is an
  address, never a path in the enforcement scope, so the gate before the network policy lets it through.\<close>

theorem endpoints_always_allowed:
  assumes "try_from raw = Inr r" "l_req_type r \<in> {Connect, SendMsg}" "l_family r \<noteq> AF_UNIX"
  shows "lsm_policy_verdict hash (set_governed_scope_prefixes configured) view policy safe_mode
      (complete_request view' r) st =
    (Allow, if safe_mode then tracked_state hash view (complete_request view' r) st else st)"
proof (rule endpoint_allowed)
  show "\<not> is_text (l_resource (complete_request view' r))"
    using resource_kind [OF assms(1,2)] assms(3) by (simp add: complete_request_network [OF assms(2)])
  show "q_resolved_path (complete_request view' r) = None"
    using assms(2) by (auto simp: complete_request_def resolve_path_def populate_origin_def)
qed

text \<open>A connect to 10.0.0.1, and a policy that denies this address and every other.\<close>

definition inet_raw :: RawLsmRequest where
  "inet_raw = \<lparr>r_cookie = 1, r_pid = 7, r_req_type = 0, r_family = 2, r_resource_path = [],
     r_pad_after_resource = [], r_dest = [10, 0, 0, 1, 0, 80], r_payload_preview = [], r_source_program = 1,
     r_ppid = 1\<rparr>"

definition inet_request :: LsmRequest where
  "inet_request = \<lparr>l_cookie = 1, l_pid = 7, l_ppid = 1, l_req_type = Connect, l_source_program = 1, l_family = 2,
     l_resource = Endpoint4 [10, 0, 0, 1] 80, l_payload_preview = []\<rparr>"

definition strict_policy :: PolicyConfig where
  "strict_policy = \<lparr>upper_safety_boundary = Fin 95, minimum_trust_score = Fin 5, agent_nodes = [],
     deny_anonymous_agents = True, allow_anonymous_override = False,
     network_policy = \<lparr>default_deny = True, allowed_ips = [], denied_ips = [byte_string ''10.0.0.1''],
       allowed_unix_sockets = [], unix_default_deny = True\<rparr>,
     runtime_policy = \<lparr>deny_root_peers = False, runtime_peer_uids = [], require_brokered_execution = False,
       require_sandbox_namespace = False\<rparr>,
     fleet_policy_min_version = 0, accept_cross_machine_lineage = False, canary_resources = []\<rparr>"

definition no_intents :: intent_state where
  "no_intents = \<lparr>process_intents = Map.empty, process_risk_count = Map.empty, agent_reputation = Map.empty\<rparr>"

lemma inet_raw_decoded: "try_from inet_raw = Inr inet_request"
  by (simp add: inet_raw_def inet_request_def try_from_def req_type_of_def format_resource_def AF_INET_def
      from_be_bytes_def)

theorem endpoints_always_allowed_witness:
  "fst (lsm_policy_verdict (\<lambda>_ _. 0) [byte_string ''/srv''] (blind_view 1000) strict_policy False
      (complete_request (blind_view 1000) inet_request) no_intents) = Allow"
proof -
  have "set_governed_scope_prefixes [byte_string ''/srv''] = [byte_string ''/srv'']" by code_simp
  then show ?thesis
    using endpoints_always_allowed [OF inet_raw_decoded,
        where hash = "\<lambda>_ _. 0" and configured = "[byte_string ''/srv'']" and view = "blind_view 1000"
          and policy = strict_policy and safe_mode = False and view' = "blind_view 1000" and st = no_intents]
    by (simp add: inet_request_def AF_UNIX_def)
qed

definition track_all ::
    "identity_hash \<Rightarrow> byte list list \<Rightarrow> (process_view \<times> PolicyConfig \<times> lsm_request) list \<Rightarrow> intent_state \<Rightarrow> intent_state" where
  "track_all hash scope calls st =
     fold (\<lambda>(view, policy, req) st. snd (lsm_policy_verdict hash scope view policy False req st)) calls st"

lemma untracked_keeps:
  assumes "\<not> completes_exfil st req"
  shows "agent_reputation (snd (lsm_policy_verdict hash scope view policy safe_mode req st)) = agent_reputation st"
    "process_risk_count (snd (lsm_policy_verdict hash scope view policy safe_mode req st)) = process_risk_count st"
  using assms
  by (auto simp: verdict_unfold tracked_state_def record_intent_def pattern_completes classify_intent_risk_def Let_def)

lemma address_access_keeps:
  assumes "l_req_type req \<in> {Connect, SendMsg} \<Longrightarrow> \<not> is_text (l_resource req) \<and> q_resolved_path req = None"
  shows "agent_reputation (snd (lsm_policy_verdict hash (set_governed_scope_prefixes configured) view policy False req st)) =
      agent_reputation st \<and>
    process_risk_count (snd (lsm_policy_verdict hash (set_governed_scope_prefixes configured) view policy False req st)) =
      process_risk_count st"
proof (cases "l_req_type req \<in> {Connect, SendMsg}")
  case True
  with assms show ?thesis by (simp add: endpoint_allowed)
next
  case False
  then have "\<not> completes_exfil st req" by (simp add: completes_exfil_def)
  then show ?thesis using untracked_keeps by blast
qed

text \<open>The exfiltration pattern is an execution, a file creation and a network access, but outside safe
  mode no sequence of requests whose network accesses all go to addresses that are not UNIX addresses
  raises a risk count or a reputation: exfiltration over the network is not seen.\<close>

theorem ip_exfiltration_unseen:
  assumes "list_all (\<lambda>(view, policy, req). l_req_type req \<in> {Connect, SendMsg} \<longrightarrow>
      \<not> is_text (l_resource req) \<and> q_resolved_path req = None) calls"
  shows "agent_reputation (track_all hash (set_governed_scope_prefixes configured) calls st) = agent_reputation st \<and>
    process_risk_count (track_all hash (set_governed_scope_prefixes configured) calls st) = process_risk_count st"
  using assms
proof (induction calls rule: rev_induct)
  case (snoc call calls)
  then show ?case
    using address_access_keeps [of "snd (snd call)"]
    by (cases call) (auto simp: track_all_def)
qed (simp add: track_all_def)

text \<open>An execution and a file creation in the test zone, and then the connect.\<close>

definition exfil_calls :: "(process_view \<times> PolicyConfig \<times> lsm_request) list" where
  "exfil_calls = map (\<lambda>req. (blind_view 1000, strict_policy, req))
     [file_request Execve zone_file, file_request InodeCreate zone_file,
      complete_request (blind_view 1000) inet_request]"

theorem ip_exfiltration_unseen_witness:
  "agent_reputation (track_all (\<lambda>_ _. 0) (set_governed_scope_prefixes []) exfil_calls no_intents) = Map.empty"
proof -
  have "list_all (\<lambda>(view, policy, req). l_req_type req \<in> {Connect, SendMsg} \<longrightarrow>
      \<not> is_text (l_resource req) \<and> q_resolved_path req = None) exfil_calls"
    by (simp add: exfil_calls_def file_request_def complete_request_def resolve_path_def populate_origin_def
        inet_request_def is_text_def)
  from ip_exfiltration_unseen [OF this, of "\<lambda>_ _. 0" "[]" no_intents] show ?thesis by (simp add: no_intents_def)
qed

lemma find_None_map: "find P xs = None \<longleftrightarrow> (\<forall>x\<in>set xs. \<not> P x)"
  by (induction xs) auto

lemma orchestrator_lists_agree: "set (map fst ORCHESTRATOR_LABELS) = set ORCHESTRATOR_CONTROL_SOCKETS"
  by (simp add: ORCHESTRATOR_LABELS_def ORCHESTRATOR_CONTROL_SOCKETS_def)

lemma orchestrator_listed: "orchestrator_control_socket path \<noteq> None \<longleftrightarrow> path \<in> set ORCHESTRATOR_CONTROL_SOCKETS"
  unfolding orchestrator_lists_agree [symmetric] orchestrator_control_socket_def
  using find_None_map [of "\<lambda>(sock, label). sock = path" ORCHESTRATOR_LABELS] by force

text \<open>The alerts of user space are about the sockets on the denylist of the kernel: a request raises an
  alert exactly when it is a connect to a UNIX address whose path is on the list that the daemon loads
  into the kernel.\<close>

theorem deputy_alert_iff:
  "(case classify_deputy_connect req v of
      None \<Rightarrow> \<not> (l_req_type req = Connect \<and> l_family req = AF_UNIX \<and>
                 effective_path req \<in> set ORCHESTRATOR_CONTROL_SOCKETS)
    | Some a \<Rightarrow> l_req_type req = Connect \<and> l_family req = AF_UNIX \<and>
        effective_path req \<in> set ORCHESTRATOR_CONTROL_SOCKETS \<and>
        al_socket a = effective_path req \<and> al_pid a = l_pid req \<and> (al_denied a \<longleftrightarrow> v = Deny))"
  using orchestrator_listed [of "effective_path req"]
  by (auto simp: classify_deputy_connect_def split: option.splits)

text \<open>The user-space allowlist of executables is a list of prefixes, where the kernel compares whole
  names: every extension of an allowlisted path is allowed, unless it is in a protected directory.\<close>

theorem exec_extension_allowed:
  assumes "node \<in> set (node_values policy)" "p \<in> set (allowed_executables node)" "trim p \<noteq> []"
    and "effective_path req = trim_end_matches slash (trim p) @ extension"
    and "\<not> is_protected_system_path (effective_path req)"
  shows "lsm_exec_verdict scope req policy = Allow"
proof -
  have "path_matches_any (effective_path req) (allowed_executables node)"
    using assms(2-4) by (auto simp: path_matches_any_def list_ex_iff Let_def)
  then have "list_ex (\<lambda>node. path_matches_any (effective_path req) (allowed_executables node)) (node_values policy)"
    using assms(1) by (auto simp: list_ex_iff)
  then show ?thesis
    using assms(5) by (simp add: lsm_exec_verdict_def lsm_origin_gate_verdict_def Let_def)
qed

definition tool_policy :: PolicyConfig where
  "tool_policy = strict_policy\<lparr>agent_nodes := [(byte_string ''n'',
     \<lparr>node_id = byte_string ''n'', privilege_tier = 1, max_sequence_quota = 9, node_peer_uids = [],
      allowed_intents = [], allowed_executables = [byte_string ''/opt/tool''], denied_write_paths = [],
      denied_unlink_paths = [], denied_dns_domains = [], node_invariants = []\<rparr>)]\<rparr>"

theorem exec_extension_allowed_witness:
  "lsm_exec_verdict [byte_string ''/opt''] (file_request Execve (byte_string ''/opt/tool-of-another'')) tool_policy = Allow"
proof -
  have "trim (byte_string ''/opt/tool'') \<noteq> []"
    "byte_string ''/opt/tool-of-another'' =
       trim_end_matches slash (trim (byte_string ''/opt/tool'')) @ byte_string ''-of-another''"
    "\<not> is_protected_system_path (byte_string ''/opt/tool-of-another'')"
    by code_simp+
  then show ?thesis
    by (intro exec_extension_allowed [where p = "byte_string ''/opt/tool''" and
          node = "hd (node_values tool_policy)" and extension = "byte_string ''-of-another''"])
      (simp_all add: tool_policy_def node_values_def file_request_def effective_path_def)
qed

end
