(* ===== verification/Verdict_Loop.thy ===== *)
theory Verdict_Loop
  imports Lsm_Verdicts
begin

text \<open>
  The loop of the daemon over polled requests, \<^verbatim>\<open>run_lsm_verdict_loop\<close> of \<^verbatim>\<open>ts_cli/src/main.rs\<close>: path,
  verdict, alert, counters, telemetry and the write back into the verdict map of the object that issued the
  request. The telemetry is filed under the oldest known ancestor of the process, and a connection of
  the request pipeline takes what is filed under its peer. The theorems say that every polled request is
  answered once, and where its telemetry goes.
\<close>

section \<open>Telemetry\<close>

record KernelTelemetryEvent =
  event_type :: string
  ev_resource :: "byte list"
  ev_denied :: bool
  ev_ppid :: u32

record TelemetryStoreData =
  tel_events :: "u32 \<rightharpoonup> KernelTelemetryEvent list"
  ppid_map :: "u32 \<rightharpoonup> u32"

text \<open>The loop of \<^verbatim>\<open>root_pid\<close>, which stops after 33 steps.\<close>

function root_pid_from :: "(u32 \<rightharpoonup> u32) \<Rightarrow> nat \<Rightarrow> u32 \<Rightarrow> u32" where
  "root_pid_from parents depth process =
     (case parents process of
        None \<Rightarrow> process
      | Some parent \<Rightarrow>
          if parent = 0 \<or> depth > 32 then process else root_pid_from parents (depth + 1) parent)"
  by pat_completeness auto
termination
  by (relation "measure (\<lambda>(parents, depth, process). 33 - depth)") auto

declare root_pid_from.simps [simp del]

definition root_pid :: "TelemetryStoreData \<Rightarrow> u32 \<Rightarrow> u32" where
  "root_pid store process = root_pid_from (ppid_map store) 0 process"

text \<open>The name that \<^verbatim>\<open>{:?}\<close> prints.\<close>

fun debug_req_type :: "LsmRequestType \<Rightarrow> string" where
  "debug_req_type Connect = ''Connect''"
| "debug_req_type SendMsg = ''SendMsg''"
| "debug_req_type Execve = ''Execve''"
| "debug_req_type InodeCreate = ''InodeCreate''"
| "debug_req_type InodeUnlink = ''InodeUnlink''"

definition file_event :: "lsm_request \<Rightarrow> bool \<Rightarrow> TelemetryStoreData \<Rightarrow> TelemetryStoreData" where
  "file_event req denied store =
     (let store = (if l_ppid req \<noteq> 0 then store\<lparr>ppid_map := (ppid_map store)(l_pid req \<mapsto> l_ppid req)\<rparr> else store);
          root = root_pid store (l_pid req);
          known = (case tel_events store root of None \<Rightarrow> [] | Some es \<Rightarrow> es);
          event = \<lparr>event_type = debug_req_type (l_req_type req), ev_resource = effective_path req,
                   ev_denied = denied, ev_ppid = l_ppid req\<rparr>
      in store\<lparr>tel_events := (tel_events store)(root \<mapsto> known @ [event])\<rparr>)"

text \<open>What a connection takes for its peer.\<close>

definition drain_peer_events :: "u32 \<Rightarrow> TelemetryStoreData \<Rightarrow> KernelTelemetryEvent list \<times> TelemetryStoreData" where
  "drain_peer_events peer store =
     (case tel_events store peer of None \<Rightarrow> [] | Some es \<Rightarrow> es,
      store\<lparr>tel_events := (tel_events store)(peer := None)\<rparr>)"

section \<open>Counters\<close>

record kernel_metrics =
  kernel_events_total :: u64
  kernel_deny_total :: u64
  kernel_allow_total :: u64
  deputy_attempts :: "string \<rightharpoonup> u64"

definition record_kernel_decision :: "bool \<Rightarrow> kernel_metrics \<Rightarrow> kernel_metrics" where
  "record_kernel_decision denied mt =
     (let mt = mt\<lparr>kernel_events_total := kernel_events_total mt + 1\<rparr>
      in if denied then mt\<lparr>kernel_deny_total := kernel_deny_total mt + 1\<rparr>
         else mt\<lparr>kernel_allow_total := kernel_allow_total mt + 1\<rparr>)"

definition record_orchestrator_socket_attempt :: "string \<Rightarrow> bool \<Rightarrow> kernel_metrics \<Rightarrow> kernel_metrics" where
  "record_orchestrator_socket_attempt orch denied mt =
     (let key = orch @ ''|'' @ (if denied then ''deny'' else ''allow'');
          n = (case deputy_attempts mt key of None \<Rightarrow> 0 | Some n \<Rightarrow> n)
      in mt\<lparr>deputy_attempts := (deputy_attempts mt)(key \<mapsto> n + 1)\<rparr>)"

section \<open>The loop\<close>

record verdict_loop =
  vl_monitor :: monitor
  vl_cache :: path_cache
  vl_intents :: intent_state
  vl_store :: TelemetryStoreData
  vl_metrics :: kernel_metrics

type_synonym verdict_insert =
  "(u64 \<rightharpoonup> VerdictPayload) \<Rightarrow> u64 \<Rightarrow> VerdictPayload \<Rightarrow> daemon_error + (u64 \<rightharpoonup> VerdictPayload)"

text \<open>The body of the inner loop. A verdict that cannot be written is only logged.\<close>

definition handle_request ::
    "verdict_insert \<Rightarrow> identity_hash \<Rightarrow> byte list list \<Rightarrow> bool \<Rightarrow> process_view \<times> PolicyConfig \<Rightarrow> lsm_request \<Rightarrow>
     verdict_loop \<Rightarrow> verdict_loop" where
  "handle_request ins hash scope safe_mode seen req vl =
     (let (view, policy) = seen;
          (req, cache) = resolve_request view req (vl_cache vl);
          (v, intents) = lsm_policy_verdict hash scope view policy safe_mode req (vl_intents vl);
          denied = (v = Deny);
          metrics = record_kernel_decision denied (vl_metrics vl);
          metrics = (case classify_deputy_connect req v of
                       None \<Rightarrow> metrics
                     | Some a \<Rightarrow> record_orchestrator_socket_attempt (orchestrator a) (al_denied a) metrics);
          store = file_event req denied (vl_store vl);
          (_, mon) = send_verdict ins (l_cookie req) v (vl_monitor vl)
      in \<lparr>vl_monitor = mon, vl_cache = cache, vl_intents = intents, vl_store = store, vl_metrics = metrics\<rparr>)"

text \<open>One turn of the outer loop: everything that is waiting is polled, and the requests are handled in
  this order, each at its own view of the system and with the policy of that moment. The processes
  behind the requests are read while they are polled, at the views \<open>at_poll\<close>.\<close>

fun handle_all ::
    "verdict_insert \<Rightarrow> identity_hash \<Rightarrow> byte list list \<Rightarrow> bool \<Rightarrow> (nat \<Rightarrow> process_view \<times> PolicyConfig) \<Rightarrow> nat \<Rightarrow>
     lsm_request list \<Rightarrow> verdict_loop \<Rightarrow> verdict_loop" where
  "handle_all ins hash scope safe_mode seen i [] vl = vl"
| "handle_all ins hash scope safe_mode seen i (req # reqs) vl =
     handle_all ins hash scope safe_mode seen (i + 1) reqs (handle_request ins hash scope safe_mode (seen i) req vl)"

definition verdict_round ::
    "verdict_insert \<Rightarrow> identity_hash \<Rightarrow> byte list list \<Rightarrow> bool \<Rightarrow> (nat \<Rightarrow> process_view) \<Rightarrow>
     (nat \<Rightarrow> process_view \<times> PolicyConfig) \<Rightarrow> verdict_loop \<Rightarrow> verdict_loop" where
  "verdict_round ins hash scope safe_mode at_poll seen vl =
     (let (reqs, mon) = poll_requests (vl_monitor vl);
          reqs = map (\<lambda>(i, req). complete_request (at_poll i) req) (enumerate 0 reqs)
      in handle_all ins hash scope safe_mode seen 0 reqs (vl\<lparr>vl_monitor := mon\<rparr>))"

section \<open>Answers\<close>

text \<open>The verdict maps of the objects are LRU maps of a fixed capacity: an insertion stores the value and
  may push out other entries, and it pushes out none as long as the map has room.\<close>

locale verdict_map_api =
  fixes ins :: verdict_insert and capacity :: nat
  assumes ins_stores:
      "\<exists>vm'. ins vm ck p = Inr vm' \<and> vm' ck = Some p \<and> (\<forall>k. k \<noteq> ck \<longrightarrow> vm' k = vm k \<or> vm' k = None)"
    and ins_room: "finite (dom vm) \<Longrightarrow> card (dom vm) < capacity \<Longrightarrow> ins vm ck p = Inr (vm(ck \<mapsto> p))"

definition room :: "nat \<Rightarrow> monitor \<Rightarrow> nat \<Rightarrow> nat \<Rightarrow> bool" where
  "room capacity mon i n \<longleftrightarrow>
     finite (dom (verdict_maps mon ! i)) \<and> card (dom (verdict_maps mon ! i)) + n \<le> capacity"

lemma resolve_request_keeps:
  "l_cookie (fst (resolve_request view req entries)) = l_cookie req"
  "l_pid (fst (resolve_request view req entries)) = l_pid req"
  "l_ppid (fst (resolve_request view req entries)) = l_ppid req"
  by (cases "l_req_type req"; simp add: resolve_request_def Let_def case_prod_beta split: option.splits)+

lemma complete_request_keeps [simp]:
  "l_cookie (complete_request view r) = l_cookie r"
  "l_pid (complete_request view r) = l_pid r" "l_ppid (complete_request view r) = l_ppid r"
  by (simp_all add: complete_request_def resolve_path_def populate_origin_def)

text \<open>The request as it is judged, and its verdict.\<close>

definition judged :: "process_view \<times> PolicyConfig \<Rightarrow> lsm_request \<Rightarrow> verdict_loop \<Rightarrow> lsm_request" where
  "judged seen req vl = fst (resolve_request (fst seen) req (vl_cache vl))"

definition verdict_of ::
    "identity_hash \<Rightarrow> byte list list \<Rightarrow> bool \<Rightarrow> process_view \<times> PolicyConfig \<Rightarrow> lsm_request \<Rightarrow> verdict_loop \<Rightarrow> Verdict" where
  "verdict_of hash scope safe_mode seen req vl =
     fst (lsm_policy_verdict hash scope (fst seen) (snd seen) safe_mode (judged seen req vl) (vl_intents vl))"

lemma handle_request_parts:
  "vl_monitor (handle_request ins hash scope safe_mode seen req vl) =
     snd (send_verdict ins (l_cookie req) (verdict_of hash scope safe_mode seen req vl) (vl_monitor vl))"
  "vl_store (handle_request ins hash scope safe_mode seen req vl) =
     file_event (judged seen req vl) (verdict_of hash scope safe_mode seen req vl = Deny) (vl_store vl)"
  by (simp_all add: handle_request_def verdict_of_def judged_def case_prod_beta resolve_request_keeps Let_def)

lemma verdict_of_cases: "verdict_of hash scope safe_mode seen req vl \<in> {Allow, Deny}"
  by (simp add: verdict_of_def verdict_unfold)

text \<open>The route of the cookie is used up, and object \<open>i\<close> has an answer for it, or may have lost it.\<close>

definition answered :: "monitor \<Rightarrow> u64 \<Rightarrow> nat \<Rightarrow> bool" where
  "answered mon ck i \<longleftrightarrow> pending_routes mon ck = None \<and>
     (\<exists>v\<in>{Allow, Deny}. (verdict_maps mon ! i) ck = Some \<lparr>vp_cookie = ck, vp_verdict = verdict_as_u32 v\<rparr>)"

definition answered_or_evicted :: "monitor \<Rightarrow> u64 \<Rightarrow> nat \<Rightarrow> bool" where
  "answered_or_evicted mon ck i \<longleftrightarrow>
     answered mon ck i \<or> pending_routes mon ck = None \<and> (verdict_maps mon ! i) ck = None"

lemma answered_kept: "answered mon ck i \<Longrightarrow> answered_or_evicted mon ck i"
  by (simp add: answered_or_evicted_def)

definition to_answer :: "monitor \<Rightarrow> u64 \<Rightarrow> nat \<Rightarrow> bool" where
  "to_answer mon ck i \<longleftrightarrow> pending_routes mon ck = Some i \<and> i < length (verdict_maps mon)"

context verdict_map_api
begin

lemma send_verdict_map:
  "verdict_maps (snd (send_verdict ins ck v mon)) ! j = verdict_maps mon ! j \<or>
   (\<exists>p. ins (verdict_maps mon ! j) ck p = Inr (verdict_maps (snd (send_verdict ins ck v mon)) ! j))"
proof (cases "\<exists>i < length (verdict_maps mon). pending_routes mon ck = Some i")
  case True
  then obtain i where i: "i < length (verdict_maps mon)" "pending_routes mon ck = Some i" by blast
  obtain vm' where vm': "ins (verdict_maps mon ! i) ck \<lparr>vp_cookie = ck, vp_verdict = verdict_as_u32 v\<rparr> = Inr vm'"
    using ins_stores by blast
  then have "verdict_maps (snd (send_verdict ins ck v mon)) = (verdict_maps mon)[i := vm']"
    using i by (simp add: send_verdict_def Let_def)
  with vm' i(1) show ?thesis by (cases "i = j") auto
next
  case False
  then show ?thesis by (auto simp: send_verdict_def Let_def split: option.splits)
qed

lemma send_verdict_other:
  assumes "k \<noteq> ck"
  shows "pending_routes (snd (send_verdict ins ck v mon)) k = pending_routes mon k"
    "(verdict_maps (snd (send_verdict ins ck v mon)) ! j) k \<in> {(verdict_maps mon ! j) k, None}"
    "length (verdict_maps (snd (send_verdict ins ck v mon))) = length (verdict_maps mon)"
proof -
  have "ins vm ck p = Inr vm' \<Longrightarrow> vm' k = vm k \<or> vm' k = None" for vm p vm'
    using ins_stores [of vm ck p] assms by auto
  with send_verdict_map [of ck v mon j]
  show "(verdict_maps (snd (send_verdict ins ck v mon)) ! j) k \<in> {(verdict_maps mon ! j) k, None}"
    by (elim disjE exE) simp_all
qed (use assms in \<open>auto simp: send_verdict_def Let_def split: option.splits sum.splits\<close>)

lemma send_verdict_room:
  assumes "room capacity mon j (Suc n)"
  shows "room capacity (snd (send_verdict ins ck v mon)) j n"
    "k \<noteq> ck \<Longrightarrow> (verdict_maps (snd (send_verdict ins ck v mon)) ! j) k = (verdict_maps mon ! j) k"
proof -
  have fin: "finite (dom (verdict_maps mon ! j))" and less: "card (dom (verdict_maps mon ! j)) < capacity"
    and size: "card (dom (verdict_maps mon ! j)) + Suc n \<le> capacity"
    using assms by (auto simp: room_def)
  have ins: "ins (verdict_maps mon ! j) ck p = Inr ((verdict_maps mon ! j)(ck \<mapsto> p))" for p
    using ins_room [OF fin less] .
  define m m' where "m = verdict_maps mon ! j" and "m' = verdict_maps (snd (send_verdict ins ck v mon)) ! j"
  have "m' = m \<or> (\<exists>p. m' = m(ck \<mapsto> p))"
    using send_verdict_map [of ck v mon j] ins [folded m_def]
    unfolding m_def [symmetric] m'_def [symmetric] by (metis sum.inject(2))
  then have "dom m' \<subseteq> insert ck (dom m)" and "k \<noteq> ck \<Longrightarrow> m' k = m k" by auto
  then have sub: "dom (verdict_maps (snd (send_verdict ins ck v mon)) ! j) \<subseteq> insert ck (dom (verdict_maps mon ! j))"
    and same: "k \<noteq> ck \<Longrightarrow> (verdict_maps (snd (send_verdict ins ck v mon)) ! j) k = (verdict_maps mon ! j) k"
    unfolding m_def m'_def by blast+
  from sub have "card (dom (verdict_maps (snd (send_verdict ins ck v mon)) ! j)) \<le> card (insert ck (dom (verdict_maps mon ! j)))"
    and "finite (dom (verdict_maps (snd (send_verdict ins ck v mon)) ! j))"
    using fin by (auto intro: card_mono finite_subset)
  moreover have "card (insert ck (dom (verdict_maps mon ! j))) \<le> Suc (card (dom (verdict_maps mon ! j)))"
    by (rule card_insert_le_m1) auto
  ultimately show "room capacity (snd (send_verdict ins ck v mon)) j n"
    using size by (auto simp: room_def)
  show "k \<noteq> ck \<Longrightarrow> (verdict_maps (snd (send_verdict ins ck v mon)) ! j) k = (verdict_maps mon ! j) k"
    by (rule same)
qed

lemma send_verdict_answers:
  assumes "to_answer mon ck i" "v \<in> {Allow, Deny}"
  shows "answered (snd (send_verdict ins ck v mon)) ck i"
proof -
  obtain vm' where "ins (verdict_maps mon ! i) ck \<lparr>vp_cookie = ck, vp_verdict = verdict_as_u32 v\<rparr> = Inr vm'"
    "vm' ck = Some \<lparr>vp_cookie = ck, vp_verdict = verdict_as_u32 v\<rparr>"
    using ins_stores by blast
  with assms show ?thesis by (auto simp: send_verdict_def to_answer_def answered_def Let_def)
qed

text \<open>One request: it answers its own cookie if a route is left, and does nothing if none is; the other
  cookies keep their routes.\<close>

lemma handle_request_step:
  fixes req hash scope safe_mode seen vl
  defines "mon' \<equiv> vl_monitor (handle_request ins hash scope safe_mode seen req vl)"
  shows "to_answer (vl_monitor vl) ck i \<Longrightarrow> l_cookie req \<noteq> ck \<Longrightarrow> to_answer mon' ck i"
    "to_answer (vl_monitor vl) ck i \<Longrightarrow> l_cookie req = ck \<Longrightarrow> answered mon' ck i"
    "answered_or_evicted (vl_monitor vl) ck i \<Longrightarrow> answered_or_evicted mon' ck i"
    "answered (vl_monitor vl) ck i \<Longrightarrow> room capacity (vl_monitor vl) i (Suc n) \<Longrightarrow> answered mon' ck i"
    "room capacity (vl_monitor vl) j (Suc n) \<Longrightarrow> room capacity mon' j n"
proof -
  define v where "v = verdict_of hash scope safe_mode seen req vl"
  have mon': "mon' = snd (send_verdict ins (l_cookie req) v (vl_monitor vl))"
    by (simp add: mon'_def handle_request_parts v_def)
  have same: "mon' = vl_monitor vl" if "pending_routes (vl_monitor vl) (l_cookie req) = None"
    using that by (simp add: mon' send_verdict_def)
  note other = send_verdict_other [where ck = "l_cookie req" and v = v and mon = "vl_monitor vl" and k = ck, folded mon']
  note with_room = send_verdict_room [where ck = "l_cookie req" and v = v and mon = "vl_monitor vl", folded mon']
  show "to_answer (vl_monitor vl) ck i \<Longrightarrow> l_cookie req \<noteq> ck \<Longrightarrow> to_answer mon' ck i"
    using other(1,3) by (auto simp: to_answer_def)
  show "to_answer (vl_monitor vl) ck i \<Longrightarrow> l_cookie req = ck \<Longrightarrow> answered mon' ck i"
    using send_verdict_answers [of "vl_monitor vl" ck i v] verdict_of_cases mon' by (simp add: v_def)
  show "answered_or_evicted (vl_monitor vl) ck i \<Longrightarrow> answered_or_evicted mon' ck i"
    using same other(1) other(2) [where j = i]
    by (cases "l_cookie req = ck") (auto simp: answered_or_evicted_def answered_def)
  show "answered (vl_monitor vl) ck i \<Longrightarrow> room capacity (vl_monitor vl) i (Suc n) \<Longrightarrow> answered mon' ck i"
    using same other(1) with_room(2) [where j = i and n = n and k = ck]
    by (cases "l_cookie req = ck") (auto simp: answered_def)
  show "room capacity (vl_monitor vl) j (Suc n) \<Longrightarrow> room capacity mon' j n"
    by (rule with_room(1))
qed

lemma handle_all_keeps:
  "answered_or_evicted (vl_monitor vl) ck i \<Longrightarrow>
     answered_or_evicted (vl_monitor (handle_all ins hash scope safe_mode seen n reqs vl)) ck i"
  "answered (vl_monitor vl) ck i \<Longrightarrow> room capacity (vl_monitor vl) i (length reqs) \<Longrightarrow>
     answered (vl_monitor (handle_all ins hash scope safe_mode seen n reqs vl)) ck i"
  by (induction reqs arbitrary: n vl)
    (simp_all add: handle_request_step(3), metis handle_request_step(4,5))

lemma handle_all_answers:
  assumes "to_answer (vl_monitor vl) ck i" "ck \<in> l_cookie ` set reqs"
  shows "answered_or_evicted (vl_monitor (handle_all ins hash scope safe_mode seen n reqs vl)) ck i"
    "room capacity (vl_monitor vl) i (length reqs) \<Longrightarrow>
       answered (vl_monitor (handle_all ins hash scope safe_mode seen n reqs vl)) ck i"
  using assms
proof (induction reqs arbitrary: n vl)
  case (Cons req reqs)
  note step = handle_request_step [where req = req]
  {
    case (1 n vl)
    let ?vl = "handle_request ins hash scope safe_mode (seen n) req vl"
    have "answered_or_evicted (vl_monitor (handle_all ins hash scope safe_mode seen (Suc n) reqs ?vl)) ck i"
    proof (cases "l_cookie req = ck")
      case True
      with 1 show ?thesis by (intro handle_all_keeps(1) answered_kept step(2)) auto
    next
      case False
      with 1 show ?thesis by (intro Cons.IH(1) step(1)) auto
    qed
    then show ?case by simp
  next
    case (2 n vl)
    let ?vl = "handle_request ins hash scope safe_mode (seen n) req vl"
    from 2 have left: "room capacity (vl_monitor ?vl) i (length reqs)" by (intro step(5)) simp
    have "answered (vl_monitor (handle_all ins hash scope safe_mode seen (Suc n) reqs ?vl)) ck i"
    proof (cases "l_cookie req = ck")
      case True
      with 2 show ?thesis by (intro handle_all_keeps(2) step(2) left) auto
    next
      case False
      with 2 show ?thesis by (intro Cons.IH(2) step(1) left) auto
    qed
    then show ?case by simp
  }
qed simp_all

end

text \<open>An LRU map of the declared capacity, which makes room by giving up its smallest cookie.\<close>

definition verdict_map_insert :: verdict_insert where
  "verdict_map_insert vm ck p =
     (let others = dom vm - {ck}
      in Inr ((if card others < 8192 then vm else vm(Min others := None))(ck \<mapsto> p)))"

interpretation verdict_maps: verdict_map_api verdict_map_insert 8192
proof
  fix vm :: "u64 \<rightharpoonup> VerdictPayload" and ck p
  show "\<exists>vm'. verdict_map_insert vm ck p = Inr vm' \<and> vm' ck = Some p \<and> (\<forall>k. k \<noteq> ck \<longrightarrow> vm' k = vm k \<or> vm' k = None)"
    by (auto simp: verdict_map_insert_def Let_def)
  assume "finite (dom vm)" "card (dom vm) < 8192"
  then have "card (dom vm - {ck}) < 8192" using card_Diff1_le [of "dom vm" ck] by linarith
  then show "verdict_map_insert vm ck p = Inr (vm(ck \<mapsto> p))" by (simp add: verdict_map_insert_def)
qed

lemma deliveries_set:
  "d \<in> set (deliveries rs) \<longleftrightarrow> (\<exists>r\<in>set rs. \<exists>res. resource_view r = Inr res \<and> d = request_view r res)"
  by (induction rs) (auto split: sum.splits)

lemma request_view_cookie [simp]: "l_cookie (request_view r res) = cookie r"
  by (simp add: request_view_def)

lemma length_deliveries: "length (deliveries rs) \<le> length rs"
  by (induction rs) (auto split: sum.splits)

definition waiting :: "jg_request list \<Rightarrow> monitor \<Rightarrow> bool" where
  "waiting rs mon \<longleftrightarrow> ring mon = map encode_request rs \<and> list_all (\<lambda>r. wf_request r \<and> (\<exists>src. issued_by r src)) rs \<and>
     program_routes mon = load_routes lsm_objects \<and> length (verdict_maps mon) = length lsm_objects"

text \<open>The route of a cookie that only one program has used leads to this program's object.\<close>

lemma poll_loop_shared_route:
  assumes "\<forall>q\<in>set rs. wf_request q \<and> (\<exists>src. issued_by q src)"
    and "\<forall>q\<in>set rs. cookie q = ck \<longrightarrow> issued_by q src"
    and "pending ck = Some (object_index src) \<or> (\<exists>r\<in>set rs. readable r \<and> cookie r = ck)"
  shows "fst (poll_loop (load_routes lsm_objects) (map encode_request rs) pending) ck = Some (object_index src)"
  using assms
proof (induction rs arbitrary: pending)
  case (Cons q rs)
  let ?p = "fst (poll_one (load_routes lsm_objects) (encode_request q) pending)"
  obtain qsrc where q: "wf_request q" "issued_by q qsrc" "cookie q = ck \<Longrightarrow> issued_by q src"
    using Cons.prems(1,2) by auto
  have "?p ck = Some (object_index src) \<or> (\<exists>r\<in>set rs. readable r \<and> cookie r = ck)"
  proof (cases "cookie q = ck")
    case True
    with Cons.prems(3) poll_one_encoded [OF q(1) q(3) [OF True], of pending] show ?thesis
      by (auto simp: readable_def split: sum.splits)
  next
    case False
    with Cons.prems(3) poll_one_encoded [OF q(1,2), of pending] show ?thesis
      by (auto split: sum.splits)
  qed
  with Cons.IH [of ?p] Cons.prems(1,2) show ?case by (simp add: split_beta Let_def)
qed simp

lemma poll_routes:
  assumes "waiting rs mon"
  shows "fst (poll_requests mon) = deliveries rs"
    "\<forall>q\<in>set rs. cookie q = cookie r \<longrightarrow> issued_by q src \<Longrightarrow> r \<in> set rs \<Longrightarrow> readable r \<Longrightarrow>
       pending_routes (snd (poll_requests mon)) (cookie r) = Some (object_index src)"
    "verdict_maps (snd (poll_requests mon)) = verdict_maps mon"
proof -
  have good: "\<forall>r\<in>set rs. wf_request r \<and> (\<exists>src. issued_by r src)"
    using assms by (simp add: waiting_def list_all_iff)
  show "fst (poll_requests mon) = deliveries rs"
    using assms poll_loop_encoded [OF good] by (simp add: waiting_def poll_requests_def case_prod_beta)
  show "pending_routes (snd (poll_requests mon)) (cookie r) = Some (object_index src)"
    if "\<forall>q\<in>set rs. cookie q = cookie r \<longrightarrow> issued_by q src" "r \<in> set rs" "readable r"
    using assms that poll_loop_shared_route [OF good that(1)]
    by (auto simp: waiting_def poll_requests_def case_prod_beta)
qed (simp add: poll_requests_def case_prod_beta)

lemma object_index_bound: "object_index src < length lsm_objects"
  by (cases src) (simp_all add: lsm_objects_def)

lemma completed_cookies:
  "map l_cookie (map (\<lambda>(i, req). complete_request (at_poll i) req) (enumerate n reqs)) = map l_cookie reqs"
  by (induction reqs arbitrary: n) simp_all

section \<open>Where telemetry goes\<close>

definition file_all :: "(lsm_request \<times> bool) list \<Rightarrow> TelemetryStoreData \<Rightarrow> TelemetryStoreData" where
  "file_all filed store = fold (\<lambda>(req, denied). file_event req denied) filed store"

text \<open>A process tree: the parent of a process is nearer to the root, and no process is deeper than the
  walk.\<close>

definition process_tree :: "(u32 \<Rightarrow> u32) \<Rightarrow> (u32 \<Rightarrow> nat) \<Rightarrow> bool" where
  "process_tree parent rank \<longleftrightarrow> (\<forall>q. rank q \<le> 33 \<and> (parent q \<noteq> 0 \<longrightarrow> rank (parent q) < rank q))"

definition parents_known :: "(u32 \<Rightarrow> u32) \<Rightarrow> TelemetryStoreData \<Rightarrow> bool" where
  "parents_known parent store \<longleftrightarrow> (\<forall>q x. ppid_map store q = Some x \<longrightarrow> x = parent q)"

lemma root_has_no_parent:
  assumes "process_tree parent rank" "parents_known parent store" "rank q + depth \<le> 33"
    and "ppid_map store p = Some x" "x \<noteq> 0"
  shows "root_pid_from (ppid_map store) depth q \<noteq> p"
  using assms(3)
proof (induction "rank q" arbitrary: q depth rule: less_induct)
  case less
  show ?case
  proof (cases "ppid_map store q")
    case None
    with assms(4) show ?thesis by (auto simp: root_pid_from.simps [of _ _ q])
  next
    case (Some y)
    then have y: "y = parent q" using assms(2) by (simp add: parents_known_def)
    show ?thesis
    proof (cases "y = 0")
      case True
      with Some assms(4,5) show ?thesis by (auto simp: root_pid_from.simps [of _ _ q])
    next
      case False
      then have "rank y < rank q" using assms(1) y by (simp add: process_tree_def)
      with less False Some show ?thesis by (simp add: root_pid_from.simps [of _ _ q])
    qed
  qed
qed

lemma file_event_parents:
  assumes "parents_known parent store" "l_ppid req = parent (l_pid req)"
  shows "parents_known parent (file_event req denied store)"
    "ppid_map (file_event req denied store) =
       (if l_ppid req \<noteq> 0 then (ppid_map store)(l_pid req \<mapsto> l_ppid req) else ppid_map store)"
  using assms by (auto simp: file_event_def parents_known_def Let_def)

lemma file_event_elsewhere:
  assumes "process_tree parent rank" "parents_known parent store" "l_ppid req = parent (l_pid req)"
    and "parent p \<noteq> 0" "ppid_map store p = Some (parent p) \<or> l_pid req = p"
  shows "tel_events (file_event req denied store) p = tel_events store p \<and>
    ppid_map (file_event req denied store) p = Some (parent p)"
proof -
  let ?store = "store\<lparr>ppid_map := (if l_ppid req \<noteq> 0 then (ppid_map store)(l_pid req \<mapsto> l_ppid req) else ppid_map store)\<rparr>"
  have known: "parents_known parent ?store" "ppid_map ?store p = Some (parent p)"
    using assms(2-5) by (auto simp: parents_known_def)
  have "rank (l_pid req) + 0 \<le> 33" using assms(1) by (simp add: process_tree_def)
  from root_has_no_parent [OF assms(1) known(1) this known(2) assms(4)]
  have "root_pid ?store (l_pid req) \<noteq> p" by (simp add: root_pid_def)
  with known(2) show ?thesis by (auto simp: file_event_def Let_def)
qed

lemma file_all_elsewhere:
  assumes "process_tree parent rank" "parent p \<noteq> 0"
  shows "list_all (\<lambda>(req, denied). l_ppid req = parent (l_pid req)) filed \<Longrightarrow> parents_known parent store \<Longrightarrow>
    ppid_map store p = Some (parent p) \<Longrightarrow> tel_events (file_all filed store) p = tel_events store p"
proof (induction filed arbitrary: store)
  case (Cons e filed)
  obtain req denied where e: "e = (req, denied)" by force
  have "tel_events (file_event req denied store) p = tel_events store p \<and>
      ppid_map (file_event req denied store) p = Some (parent p)"
    using Cons.prems e by (intro file_event_elsewhere [OF assms(1) _ _ assms(2)]) auto
  moreover have "parents_known parent (file_event req denied store)"
    using Cons.prems e by (intro file_event_parents(1)) auto
  ultimately show ?case
    using Cons.IH [of "file_event req denied store"] Cons.prems(1) by (simp add: e file_all_def)
qed (simp add: file_all_def)

section \<open>Properties\<close>

text \<open>C15: every request that waits in the ring buffer and that user space can read is decided in the next
  round, as long as no other program's request waiting with it has the same cookie: its route is used up, and
  the verdict map of the object that issued it holds Allow or Deny for its cookie, unless the map has evicted
  the entry again. Nothing is evicted when the map has room for as many entries as there are requests.\<close>

theorem polled_requests_answered:
  assumes "verdict_map_api ins capacity" "waiting rs (vl_monitor vl)" "r \<in> set rs" "readable r"
    and "\<forall>q\<in>set rs. cookie q = cookie r \<longrightarrow> issued_by q src"
  shows "(let mon = vl_monitor (verdict_round ins hash scope safe_mode at_poll seen vl); i = object_index src
      in answered_or_evicted mon (cookie r) i \<and>
         (room capacity (vl_monitor vl) i (length rs) \<longrightarrow> answered mon (cookie r) i))"
proof -
  define reqs where "reqs = map (\<lambda>(i, req). complete_request (at_poll i) req) (enumerate 0 (deliveries rs))"
  let ?vl = "vl\<lparr>vl_monitor := snd (poll_requests (vl_monitor vl))\<rparr>" and ?i = "object_index src"
  have cookies: "map l_cookie reqs = map l_cookie (deliveries rs)"
    unfolding reqs_def by (rule completed_cookies)
  have "to_answer (vl_monitor ?vl) (cookie r) ?i"
    using poll_routes(2,3) [OF assms(2)] assms(2-5) object_index_bound [of src]
    by (simp add: to_answer_def waiting_def)
  moreover obtain res where "resource_view r = Inr res" using assms(4) by (auto simp: readable_def)
  with assms(3) have "cookie r \<in> set (map l_cookie reqs)"
    unfolding cookies by (force simp: deliveries_set)
  then have "cookie r \<in> l_cookie ` set reqs" by simp
  moreover have "length reqs \<le> length rs" by (simp add: reqs_def length_deliveries)
  then have "room capacity (vl_monitor vl) ?i (length rs) \<longrightarrow> room capacity (vl_monitor ?vl) ?i (length reqs)"
    by (simp add: room_def poll_routes(3) [OF assms(2)])
  ultimately show ?thesis
    using verdict_map_api.handle_all_answers [OF assms(1), of ?vl "cookie r" ?i reqs]
    by (simp add: verdict_round_def case_prod_beta poll_routes(1) [OF assms(2)] reqs_def Let_def)
qed

text \<open>In a process tree, once a process whose parent is known issues a request, no event is filed under
  it any more, neither its own nor those of its descendants: they go to its oldest known ancestor. So a
  connection gets for its peer only what was filed before the peer's first request.\<close>

theorem own_telemetry_lost:
  assumes "process_tree parent rank" "parents_known parent store" "parent (l_pid first) \<noteq> 0"
    and "list_all (\<lambda>(req, denied). l_ppid req = parent (l_pid req)) ((first, denied) # later)"
  shows "fst (drain_peer_events (l_pid first) (file_all ((first, denied) # later) store)) =
    fst (drain_peer_events (l_pid first) store)"
proof -
  have "l_ppid first = parent (l_pid first)" using assms(4) by simp
  note one = file_event_elsewhere [OF assms(1,2) this assms(3), of denied]
  have "tel_events (file_all later (file_event first denied store)) (l_pid first) =
      tel_events (file_event first denied store) (l_pid first)"
    using assms(2,4) one by (intro file_all_elsewhere [OF assms(1,3)] file_event_parents(1)) auto
  then show ?thesis using one by (simp add: drain_peer_events_def file_all_def)
qed

text \<open>An agent with process id 7 below process 1 connects to 10.0.0.1.\<close>

definition no_telemetry :: TelemetryStoreData where
  "no_telemetry = \<lparr>tel_events = Map.empty, ppid_map = Map.empty\<rparr>"

theorem own_telemetry_lost_witness:
  "fst (drain_peer_events 7 (file_all [(complete_request (blind_view 1000) inet_request, True)] no_telemetry)) = []"
proof -
  let ?parent = "\<lambda>q :: u32. if q = 7 then 1 else 0 :: u32" and ?rank = "\<lambda>q :: u32. if q = 7 then 1 else 0 :: nat"
  have "process_tree ?parent ?rank" "parents_known ?parent no_telemetry"
    by (simp_all add: process_tree_def parents_known_def no_telemetry_def)
  then show ?thesis
    using own_telemetry_lost [of ?parent ?rank no_telemetry "complete_request (blind_view 1000) inet_request" True "[]"]
    by (simp add: inet_request_def drain_peer_events_def no_telemetry_def)
qed

definition idle_loop :: "jg_request list \<Rightarrow> verdict_loop" where
  "idle_loop rs =
     \<lparr>vl_monitor = \<lparr>ring = map encode_request rs, verdict_maps = replicate (length lsm_objects) Map.empty,
        program_routes = load_routes lsm_objects, pending_routes = Map.empty\<rparr>,
      vl_cache = [], vl_intents = no_intents, vl_store = no_telemetry,
      vl_metrics = \<lparr>kernel_events_total = 0, kernel_deny_total = 0, kernel_allow_total = 0,
        deputy_attempts = Map.empty\<rparr>\<rparr>"

theorem polled_requests_answered_witness:
  "answered (vl_monitor (verdict_round verdict_map_insert (\<lambda>_ _. 0) [] False (\<lambda>_. blind_view 1000)
      (\<lambda>_. (blind_view 1000, strict_policy)) (idle_loop [base_request quiet_env REQ_EXECVE JG_SRC_BPRM_CHECK_SECURITY])))
    (cookie (base_request quiet_env REQ_EXECVE JG_SRC_BPRM_CHECK_SECURITY)) 2"
proof -
  let ?r = "base_request quiet_env REQ_EXECVE JG_SRC_BPRM_CHECK_SECURITY"
  have r: "wf_request ?r" by simp
  have "issued_by ?r JG_SRC_BPRM_CHECK_SECURITY" "readable ?r"
    by (simp_all add: issued_by_def readable_def resource_view_def base_request_def zeroed_request_def c_str_def jg_consts)
  note known = this
  have "waiting [?r] (vl_monitor (idle_loop [?r]))"
    using r known(1) by (auto simp: waiting_def idle_loop_def)
  moreover have "room 8192 (vl_monitor (idle_loop [?r])) 2 1" by (simp add: room_def idle_loop_def lsm_objects_def)
  ultimately show ?thesis
    using polled_requests_answered [OF verdict_maps.verdict_map_api_axioms, of "[?r]" "idle_loop [?r]" ?r
      JG_SRC_BPRM_CHECK_SECURITY "\<lambda>_ _. 0" "[]" False "\<lambda>_. blind_view 1000" "\<lambda>_. (blind_view 1000, strict_policy)"]
      known by (simp add: Let_def)
qed

end
