(* ===== verification/Telemetry.thy ===== *)
theory Telemetry
  imports Kernel_Fields
begin

text \<open>
  The telemetry probes \<^verbatim>\<open>bpf/jg_execve.bpf.c\<close>, \<^verbatim>\<open>bpf/jg_openat.bpf.c\<close> and
  \<^verbatim>\<open>bpf/jg_cap_capable.bpf.c\<close> with the packed event of \<^verbatim>\<open>bpf/jg_events.h\<close>. They observe
  system calls and never deny. The ring buffer memory they write to is not cleared, so the part of
  the resource that no helper writes holds whatever the buffer held.
\<close>

section \<open>Events\<close>

definition JG_PROBE_EXECVE :: u8 where "JG_PROBE_EXECVE = 0"
definition JG_PROBE_OPENAT :: u8 where "JG_PROBE_OPENAT = 1"
definition JG_PROBE_CONNECT :: u8 where "JG_PROBE_CONNECT = 2"
definition JG_PROBE_CAPABLE :: u8 where "JG_PROBE_CAPABLE = 3"
definition JG_RESOURCE_LEN :: nat where "JG_RESOURCE_LEN = 128"

definition struct_jg_event :: ctype where
  "struct_jg_event = CStruct True 0 [
     fld ''probe_id'' (CInt C_uchar),
     fld ''pid'' (CInt C_uint),
     fld ''resource'' (CArr (CInt C_uchar) JG_RESOURCE_LEN),
     fld ''denied'' (CInt C_uchar)]"

record jg_event =
  probe_id :: u8
  ev_pid :: u32
  resource :: "byte list"
  denied :: u8

lemma struct_jg_event_layout [layout]:
  "ct_size struct_jg_event = 134" "ct_align struct_jg_event = 1"
  by (simp_all add: struct_jg_event_def JG_RESOURCE_LEN_def placement layout cong: layout_cong)

section \<open>The probes\<close>

definition events_map_def :: bpf_map_def where
  "events_map_def = ringbuf_map (2 ^ 22) False"

text \<open>\<^verbatim>\<open>BPF_CORE_READ(ctx, args[i])\<close>, an unsigned long.\<close>

definition sys_enter_arg :: "bpf_env \<Rightarrow> addr \<Rightarrow> nat \<Rightarrow> addr" where
  "sys_enter_arg env ctx i =
     le_word (probe_read_kernel env
       (field_addr ctx struct_trace_event_raw_sys_enter [''args''] + of_nat (8 * i)) (uninit env 8))"

text \<open>The event that a reservation hands out: its bytes, read as the packed structure.\<close>

definition event_of_bytes :: "byte list \<Rightarrow> jg_event" where
  "event_of_bytes raw =
     \<lparr>probe_id = le_word (window 0 1 raw), ev_pid = le_word (window 1 4 raw),
      resource = window 5 JG_RESOURCE_LEN raw, denied = le_word (window 133 1 raw)\<rparr>"

definition jg_execve :: "bpf_env \<Rightarrow> addr \<Rightarrow> jg_event ringbuf \<Rightarrow> int \<times> jg_event ringbuf" where
  "jg_execve env ctx rb =
     (let pid_tgid = get_current_pid_tgid env;
          pid = ucast (drop_bit 32 pid_tgid)
      in case ringbuf_reserve env (ct_size struct_jg_event) of
           None \<Rightarrow> (0, rb)
         | Some raw \<Rightarrow>
             let rb = rb_reserve rb;
                 e = (event_of_bytes raw)\<lparr>probe_id := JG_PROBE_EXECVE, ev_pid := pid, denied := 0\<rparr>;
                 filename = sys_enter_arg env ctx 0;
                 e = e\<lparr>resource := put 0 (fst (probe_read_user_str env filename (resource e))) (resource e)\<rparr>;
                 rb = rb_submit e rb
             in (0, rb))"

definition jg_openat :: "bpf_env \<Rightarrow> addr \<Rightarrow> jg_event ringbuf \<Rightarrow> int \<times> jg_event ringbuf" where
  "jg_openat env ctx rb =
     (let pid_tgid = get_current_pid_tgid env;
          pid = ucast (drop_bit 32 pid_tgid)
      in case ringbuf_reserve env (ct_size struct_jg_event) of
           None \<Rightarrow> (0, rb)
         | Some raw \<Rightarrow>
             let rb = rb_reserve rb;
                 e = (event_of_bytes raw)\<lparr>probe_id := JG_PROBE_OPENAT, ev_pid := pid, denied := 0\<rparr>;
                 filename = sys_enter_arg env ctx 1;
                 e = e\<lparr>resource := put 0 (fst (probe_read_user_str env filename (resource e))) (resource e)\<rparr>;
                 rb = rb_submit e rb
             in (0, rb))"

text \<open>The call of \<^verbatim>\<open>bpf_snprintf\<close> passes the buffer, its size, the format and the capability.\<close>

definition jg_cap_capable ::
    "bpf_env \<Rightarrow> addr \<times> addr \<times> int \<times> int \<Rightarrow> jg_event ringbuf \<Rightarrow> int \<times> jg_event ringbuf" where
  "jg_cap_capable env a rb = (case a of (cred, ns, cap, cap_opt) \<Rightarrow>
     let pid_tgid = get_current_pid_tgid env;
         pid = ucast (drop_bit 32 pid_tgid)
     in case ringbuf_reserve env (ct_size struct_jg_event) of
          None \<Rightarrow> (0, rb)
        | Some raw \<Rightarrow>
            let rb = rb_reserve rb;
                e = (event_of_bytes raw)\<lparr>probe_id := JG_PROBE_CAPABLE, ev_pid := pid, denied := 0\<rparr>;
                fmt = ''cap=%d'';
                e = e\<lparr>resource := put 0 (snprintf_helper env (resource e) fmt cap) (resource e)\<rparr>;
                rb = rb_submit e rb
            in (0, rb))"

section \<open>Contract of a probe\<close>

text \<open>A probe returns 0, submits an event exactly when it gets a reservation, and the event
  has its identifier, the process id of the task and no denial.\<close>

locale telemetry_probe =
  fixes probe :: "bpf_env \<Rightarrow> 'a \<Rightarrow> jg_event ringbuf \<Rightarrow> int \<times> jg_event ringbuf" and ident :: u8
  assumes probe_full: "ringbuf_reserve env 134 = None \<Longrightarrow> probe env a rb = (0, rb)"
    and probe_event: "ringbuf_reserve env 134 = Some raw \<Longrightarrow>
      \<exists>e. probe env a rb = (0, rb\<lparr>rb_records := rb_records rb @ [e]\<rparr>) \<and> probe_id e = ident \<and>
        ev_pid e = ucast (drop_bit 32 (get_current_pid_tgid env)) \<and> Telemetry.denied e = 0 \<and>
        length (resource e) = length (window 5 128 raw)"
begin

lemma probe_observes:
  "\<exists>es. probe env a rb = (0, rb\<lparr>rb_records := rb_records rb @ es\<rparr>) \<and>
     length es = (if ringbuf_reserve env 134 = None then 0 else 1) \<and>
     list_all (\<lambda>e. probe_id e = ident \<and> Telemetry.denied e = 0 \<and>
       ev_pid e = ucast (drop_bit 32 (get_current_pid_tgid env))) es"
proof (cases "ringbuf_reserve env 134")
  case None
  then show ?thesis by (intro exI [of _ "[]"]) (simp add: probe_full)
next
  case (Some raw)
  from probe_event [OF this, of a rb] obtain e where
    "probe env a rb = (0, rb\<lparr>rb_records := rb_records rb @ [e]\<rparr>)" "probe_id e = ident"
    "ev_pid e = ucast (drop_bit 32 (get_current_pid_tgid env))" "Telemetry.denied e = 0"
    by blast
  with Some show ?thesis by (intro exI [of _ "[e]"]) simp
qed

end

lemmas probe_simps =
  event_of_bytes_def JG_RESOURCE_LEN_def layout rb_submit_reserve Let_def

interpretation execve: telemetry_probe jg_execve JG_PROBE_EXECVE
  by unfold_locales (simp add: jg_execve_def probe_simps, simp add: jg_execve_def probe_simps,
      rule exI, rule conjI, rule refl, simp)

interpretation openat: telemetry_probe jg_openat JG_PROBE_OPENAT
  by unfold_locales (simp add: jg_openat_def probe_simps, simp add: jg_openat_def probe_simps,
      rule exI, rule conjI, rule refl, simp)

interpretation cap_capable: telemetry_probe jg_cap_capable JG_PROBE_CAPABLE
  by unfold_locales (simp add: jg_cap_capable_def probe_simps split: prod.splits,
      simp add: jg_cap_capable_def probe_simps split: prod.splits, clarify,
      rule exI, rule conjI, rule refl, simp)

section \<open>Properties\<close>

text \<open>The probes only observe. Each returns 0, appends one event when it gets a reservation and none
  otherwise, leaves no reservation open, and marks the event with its own identifier and the process
  id of the task; the \<^verbatim>\<open>denied\<close> byte is 0 in every event.\<close>

theorem probes_observe:
  "(\<exists>es. jg_execve env ctx rb = (0, rb\<lparr>rb_records := rb_records rb @ es\<rparr>) \<and>
     length es = (if ringbuf_reserve env 134 = None then 0 else 1) \<and>
     list_all (\<lambda>e. probe_id e = 0 \<and> denied e = 0 \<and>
       ev_pid e = ucast (drop_bit 32 (get_current_pid_tgid env))) es) \<and>
   (\<exists>es. jg_openat env ctx rb = (0, rb\<lparr>rb_records := rb_records rb @ es\<rparr>) \<and>
     length es = (if ringbuf_reserve env 134 = None then 0 else 1) \<and>
     list_all (\<lambda>e. probe_id e = 1 \<and> denied e = 0 \<and>
       ev_pid e = ucast (drop_bit 32 (get_current_pid_tgid env))) es) \<and>
   (\<exists>es. jg_cap_capable env args rb = (0, rb\<lparr>rb_records := rb_records rb @ es\<rparr>) \<and>
     length es = (if ringbuf_reserve env 134 = None then 0 else 1) \<and>
     list_all (\<lambda>e. probe_id e = 3 \<and> denied e = 0 \<and>
       ev_pid e = ucast (drop_bit 32 (get_current_pid_tgid env))) es)"
  using execve.probe_observes [of env ctx rb] openat.probe_observes [of env ctx rb]
    cap_capable.probe_observes [of env args rb]
  by (simp add: JG_PROBE_EXECVE_def JG_PROBE_OPENAT_def JG_PROBE_CAPABLE_def)

end
