(* ===== verification/Lsm_Hooks.thy ===== *)
theory Lsm_Hooks
  imports Governed_Floor
begin

text \<open>
  The hook table of the kernel, \<^verbatim>\<open>union security_list_options\<close> of \<^verbatim>\<open>vmlinux.h\<close>, with the kinds
  of the parameters of every hook and whether it returns an int, and the signatures of the ten LSM
  programs. Every program attaches to a hook of its own name that can refuse, and takes the
  parameters the kernel passes.
\<close>

section \<open>The hook table\<close>

text \<open>Kinds of parameters: pointers, the C integers, enumerations and other named types.\<close>

datatype c_param =
    P_ptr | P_int | P_uint | P_short | P_long | P_ulong | P_bool | P_enum string | P_typedef string

definition security_list_options_1 :: "(string \<times> bool \<times> c_param list) list" where
  "security_list_options_1 = [
     (''binder_set_context_mgr'', True, [P_ptr]),
     (''binder_transaction'', True, [P_ptr, P_ptr]),
     (''binder_transfer_binder'', True, [P_ptr, P_ptr]),
     (''binder_transfer_file'', True, [P_ptr, P_ptr, P_ptr]),
     (''ptrace_access_check'', True, [P_ptr, P_uint]),
     (''ptrace_traceme'', True, [P_ptr]),
     (''capget'', True, [P_ptr, P_ptr, P_ptr, P_ptr]),
     (''capset'', True, [P_ptr, P_ptr, P_ptr, P_ptr, P_ptr]),
     (''capable'', True, [P_ptr, P_ptr, P_int, P_uint]),
     (''quotactl'', True, [P_int, P_int, P_int, P_ptr]),
     (''quota_on'', True, [P_ptr]),
     (''syslog'', True, [P_int]),
     (''settime'', True, [P_ptr, P_ptr]),
     (''vm_enough_memory'', True, [P_ptr, P_long]),
     (''bprm_creds_for_exec'', True, [P_ptr]),
     (''bprm_creds_from_file'', True, [P_ptr, P_ptr]),
     (''bprm_check_security'', True, [P_ptr]),
     (''bprm_committing_creds'', False, [P_ptr]),
     (''bprm_committed_creds'', False, [P_ptr]),
     (''fs_context_submount'', True, [P_ptr, P_ptr]),
     (''fs_context_dup'', True, [P_ptr, P_ptr]),
     (''fs_context_parse_param'', True, [P_ptr, P_ptr]),
     (''sb_alloc_security'', True, [P_ptr]),
     (''sb_delete'', False, [P_ptr]),
     (''sb_free_security'', False, [P_ptr]),
     (''sb_free_mnt_opts'', False, [P_ptr]),
     (''sb_eat_lsm_opts'', True, [P_ptr, P_ptr]),
     (''sb_mnt_opts_compat'', True, [P_ptr, P_ptr]),
     (''sb_remount'', True, [P_ptr, P_ptr]),
     (''sb_kern_mount'', True, [P_ptr]),
     (''sb_show_options'', True, [P_ptr, P_ptr]),
     (''sb_statfs'', True, [P_ptr]),
     (''sb_mount'', True, [P_ptr, P_ptr, P_ptr, P_ulong, P_ptr]),
     (''sb_umount'', True, [P_ptr, P_int]),
     (''sb_pivotroot'', True, [P_ptr, P_ptr]),
     (''sb_set_mnt_opts'', True, [P_ptr, P_ptr, P_ulong, P_ptr]),
     (''sb_clone_mnt_opts'', True, [P_ptr, P_ptr, P_ulong, P_ptr]),
     (''move_mount'', True, [P_ptr, P_ptr]),
     (''dentry_init_security'', True, [P_ptr, P_int, P_ptr, P_ptr, P_ptr, P_ptr]),
     (''dentry_create_files_as'', True, [P_ptr, P_int, P_ptr, P_ptr, P_ptr]),
     (''path_unlink'', True, [P_ptr, P_ptr]),
     (''path_mkdir'', True, [P_ptr, P_ptr, P_typedef ''umode_t'']),
     (''path_rmdir'', True, [P_ptr, P_ptr]),
     (''path_mknod'', True, [P_ptr, P_ptr, P_typedef ''umode_t'', P_uint]),
     (''path_post_mknod'', False, [P_ptr, P_ptr]),
     (''path_truncate'', True, [P_ptr]),
     (''path_symlink'', True, [P_ptr, P_ptr, P_ptr]),
     (''path_link'', True, [P_ptr, P_ptr, P_ptr]),
     (''path_rename'', True, [P_ptr, P_ptr, P_ptr, P_ptr, P_uint]),
     (''path_chmod'', True, [P_ptr, P_typedef ''umode_t'']),
     (''path_chown'', True, [P_ptr, P_typedef ''kuid_t'', P_typedef ''kgid_t'']),
     (''path_chroot'', True, [P_ptr]),
     (''path_notify'', True, [P_ptr, P_typedef ''u64'', P_uint]),
     (''inode_alloc_security'', True, [P_ptr]),
     (''inode_free_security'', False, [P_ptr]),
     (''inode_free_security_rcu'', False, [P_ptr]),
     (''inode_init_security'', True, [P_ptr, P_ptr, P_ptr, P_ptr, P_ptr]),
     (''inode_init_security_anon'', True, [P_ptr, P_ptr, P_ptr]),
     (''inode_create'', True, [P_ptr, P_ptr, P_typedef ''umode_t'']),
     (''inode_post_create_tmpfile'', False, [P_ptr, P_ptr]),
     (''inode_link'', True, [P_ptr, P_ptr, P_ptr]),
     (''inode_unlink'', True, [P_ptr, P_ptr]),
     (''inode_symlink'', True, [P_ptr, P_ptr, P_ptr]),
     (''inode_mkdir'', True, [P_ptr, P_ptr, P_typedef ''umode_t'']),
     (''inode_rmdir'', True, [P_ptr, P_ptr]),
     (''inode_mknod'', True, [P_ptr, P_ptr, P_typedef ''umode_t'', P_typedef ''dev_t'']),
     (''inode_rename'', True, [P_ptr, P_ptr, P_ptr, P_ptr]),
     (''inode_readlink'', True, [P_ptr]),
     (''inode_follow_link'', True, [P_ptr, P_ptr, P_bool]),
     (''inode_permission'', True, [P_ptr, P_int]),
     (''inode_setattr'', True, [P_ptr, P_ptr, P_ptr]),
     (''inode_post_setattr'', False, [P_ptr, P_ptr, P_int]),
     (''inode_getattr'', True, [P_ptr]),
     (''inode_xattr_skipcap'', True, [P_ptr]),
     (''inode_setxattr'', True, [P_ptr, P_ptr, P_ptr, P_ptr, P_typedef ''size_t'', P_int]),
     (''inode_post_setxattr'', False, [P_ptr, P_ptr, P_ptr, P_typedef ''size_t'', P_int]),
     (''inode_getxattr'', True, [P_ptr, P_ptr]),
     (''inode_listxattr'', True, [P_ptr]),
     (''inode_removexattr'', True, [P_ptr, P_ptr, P_ptr]),
     (''inode_post_removexattr'', False, [P_ptr, P_ptr]),
     (''inode_set_acl'', True, [P_ptr, P_ptr, P_ptr, P_ptr]),
     (''inode_post_set_acl'', False, [P_ptr, P_ptr, P_ptr]),
     (''inode_get_acl'', True, [P_ptr, P_ptr, P_ptr]),
     (''inode_remove_acl'', True, [P_ptr, P_ptr, P_ptr]),
     (''inode_post_remove_acl'', False, [P_ptr, P_ptr, P_ptr]),
     (''inode_need_killpriv'', True, [P_ptr]),
     (''inode_killpriv'', True, [P_ptr, P_ptr]),
     (''inode_getsecurity'', True, [P_ptr, P_ptr, P_ptr, P_ptr, P_bool]),
     (''inode_setsecurity'', True, [P_ptr, P_ptr, P_ptr, P_typedef ''size_t'', P_int]),
     (''inode_listsecurity'', True, [P_ptr, P_ptr, P_typedef ''size_t'']),
     (''inode_getsecid'', False, [P_ptr, P_ptr]),
     (''inode_copy_up'', True, [P_ptr, P_ptr]),
     (''inode_copy_up_xattr'', True, [P_ptr, P_ptr]),
     (''inode_setintegrity'', True, [P_ptr, P_enum ''lsm_integrity_type'', P_ptr, P_typedef ''size_t'']),
     (''kernfs_init_security'', True, [P_ptr, P_ptr]),
     (''file_permission'', True, [P_ptr, P_int]),
     (''file_alloc_security'', True, [P_ptr]),
     (''file_release'', False, [P_ptr]),
     (''file_free_security'', False, [P_ptr]),
     (''file_ioctl'', True, [P_ptr, P_uint, P_ulong]),
     (''file_ioctl_compat'', True, [P_ptr, P_uint, P_ulong]),
     (''mmap_addr'', True, [P_ulong]),
     (''mmap_file'', True, [P_ptr, P_ulong, P_ulong, P_ulong]),
     (''file_mprotect'', True, [P_ptr, P_ulong, P_ulong]),
     (''file_lock'', True, [P_ptr, P_uint]),
     (''file_fcntl'', True, [P_ptr, P_uint, P_ulong]),
     (''file_set_fowner'', False, [P_ptr]),
     (''file_send_sigiotask'', True, [P_ptr, P_ptr, P_int]),
     (''file_receive'', True, [P_ptr]),
     (''file_open'', True, [P_ptr]),
     (''file_post_open'', True, [P_ptr, P_int]),
     (''file_truncate'', True, [P_ptr]),
     (''task_alloc'', True, [P_ptr, P_ulong]),
     (''task_free'', False, [P_ptr]),
     (''cred_alloc_blank'', True, [P_ptr, P_typedef ''gfp_t'']),
     (''cred_free'', False, [P_ptr]),
     (''cred_prepare'', True, [P_ptr, P_ptr, P_typedef ''gfp_t'']),
     (''cred_transfer'', False, [P_ptr, P_ptr]),
     (''cred_getsecid'', False, [P_ptr, P_ptr]),
     (''kernel_act_as'', True, [P_ptr, P_typedef ''u32'']),
     (''kernel_create_files_as'', True, [P_ptr, P_ptr]),
     (''kernel_module_request'', True, [P_ptr]),
     (''kernel_load_data'', True, [P_enum ''kernel_load_data_id'', P_bool]),
     (''kernel_post_load_data'', True, [P_ptr, P_typedef ''loff_t'', P_enum ''kernel_load_data_id'', P_ptr]),
     (''kernel_read_file'', True, [P_ptr, P_enum ''kernel_read_file_id'', P_bool]),
     (''kernel_post_read_file'', True, [P_ptr, P_ptr, P_typedef ''loff_t'', P_enum ''kernel_read_file_id'']),
     (''task_fix_setuid'', True, [P_ptr, P_ptr, P_int]),
     (''task_fix_setgid'', True, [P_ptr, P_ptr, P_int]),
     (''task_fix_setgroups'', True, [P_ptr, P_ptr]),
     (''task_setpgid'', True, [P_ptr, P_typedef ''pid_t'']),
     (''task_getpgid'', True, [P_ptr]),
     (''task_getsid'', True, [P_ptr])]"

definition security_list_options_2 :: "(string \<times> bool \<times> c_param list) list" where
  "security_list_options_2 = [
     (''current_getsecid_subj'', False, [P_ptr]),
     (''task_getsecid_obj'', False, [P_ptr, P_ptr]),
     (''task_setnice'', True, [P_ptr, P_int]),
     (''task_setioprio'', True, [P_ptr, P_int]),
     (''task_getioprio'', True, [P_ptr]),
     (''task_prlimit'', True, [P_ptr, P_ptr, P_uint]),
     (''task_setrlimit'', True, [P_ptr, P_uint, P_ptr]),
     (''task_setscheduler'', True, [P_ptr]),
     (''task_getscheduler'', True, [P_ptr]),
     (''task_movememory'', True, [P_ptr]),
     (''task_kill'', True, [P_ptr, P_ptr, P_int, P_ptr]),
     (''task_prctl'', True, [P_int, P_ulong, P_ulong, P_ulong, P_ulong]),
     (''task_to_inode'', False, [P_ptr, P_ptr]),
     (''userns_create'', True, [P_ptr]),
     (''ipc_permission'', True, [P_ptr, P_short]),
     (''ipc_getsecid'', False, [P_ptr, P_ptr]),
     (''msg_msg_alloc_security'', True, [P_ptr]),
     (''msg_msg_free_security'', False, [P_ptr]),
     (''msg_queue_alloc_security'', True, [P_ptr]),
     (''msg_queue_free_security'', False, [P_ptr]),
     (''msg_queue_associate'', True, [P_ptr, P_int]),
     (''msg_queue_msgctl'', True, [P_ptr, P_int]),
     (''msg_queue_msgsnd'', True, [P_ptr, P_ptr, P_int]),
     (''msg_queue_msgrcv'', True, [P_ptr, P_ptr, P_ptr, P_long, P_int]),
     (''shm_alloc_security'', True, [P_ptr]),
     (''shm_free_security'', False, [P_ptr]),
     (''shm_associate'', True, [P_ptr, P_int]),
     (''shm_shmctl'', True, [P_ptr, P_int]),
     (''shm_shmat'', True, [P_ptr, P_ptr, P_int]),
     (''sem_alloc_security'', True, [P_ptr]),
     (''sem_free_security'', False, [P_ptr]),
     (''sem_associate'', True, [P_ptr, P_int]),
     (''sem_semctl'', True, [P_ptr, P_int]),
     (''sem_semop'', True, [P_ptr, P_ptr, P_uint, P_int]),
     (''netlink_send'', True, [P_ptr, P_ptr]),
     (''d_instantiate'', False, [P_ptr, P_ptr]),
     (''getselfattr'', True, [P_uint, P_ptr, P_ptr, P_typedef ''u32'']),
     (''setselfattr'', True, [P_uint, P_ptr, P_typedef ''u32'', P_typedef ''u32'']),
     (''getprocattr'', True, [P_ptr, P_ptr, P_ptr]),
     (''setprocattr'', True, [P_ptr, P_ptr, P_typedef ''size_t'']),
     (''ismaclabel'', True, [P_ptr]),
     (''secid_to_secctx'', True, [P_typedef ''u32'', P_ptr, P_ptr]),
     (''secctx_to_secid'', True, [P_ptr, P_typedef ''u32'', P_ptr]),
     (''release_secctx'', False, [P_ptr, P_typedef ''u32'']),
     (''inode_invalidate_secctx'', False, [P_ptr]),
     (''inode_notifysecctx'', True, [P_ptr, P_ptr, P_typedef ''u32'']),
     (''inode_setsecctx'', True, [P_ptr, P_ptr, P_typedef ''u32'']),
     (''inode_getsecctx'', True, [P_ptr, P_ptr, P_ptr]),
     (''unix_stream_connect'', True, [P_ptr, P_ptr, P_ptr]),
     (''unix_may_send'', True, [P_ptr, P_ptr]),
     (''socket_create'', True, [P_int, P_int, P_int, P_int]),
     (''socket_post_create'', True, [P_ptr, P_int, P_int, P_int, P_int]),
     (''socket_socketpair'', True, [P_ptr, P_ptr]),
     (''socket_bind'', True, [P_ptr, P_ptr, P_int]),
     (''socket_connect'', True, [P_ptr, P_ptr, P_int]),
     (''socket_listen'', True, [P_ptr, P_int]),
     (''socket_accept'', True, [P_ptr, P_ptr]),
     (''socket_sendmsg'', True, [P_ptr, P_ptr, P_int]),
     (''socket_recvmsg'', True, [P_ptr, P_ptr, P_int, P_int]),
     (''socket_getsockname'', True, [P_ptr]),
     (''socket_getpeername'', True, [P_ptr]),
     (''socket_getsockopt'', True, [P_ptr, P_int, P_int]),
     (''socket_setsockopt'', True, [P_ptr, P_int, P_int]),
     (''socket_shutdown'', True, [P_ptr, P_int]),
     (''socket_sock_rcv_skb'', True, [P_ptr, P_ptr]),
     (''socket_getpeersec_stream'', True, [P_ptr, P_typedef ''sockptr_t'', P_typedef ''sockptr_t'', P_uint]),
     (''socket_getpeersec_dgram'', True, [P_ptr, P_ptr, P_ptr]),
     (''sk_alloc_security'', True, [P_ptr, P_int, P_typedef ''gfp_t'']),
     (''sk_free_security'', False, [P_ptr]),
     (''sk_clone_security'', False, [P_ptr, P_ptr]),
     (''sk_getsecid'', False, [P_ptr, P_ptr]),
     (''sock_graft'', False, [P_ptr, P_ptr]),
     (''inet_conn_request'', True, [P_ptr, P_ptr, P_ptr]),
     (''inet_csk_clone'', False, [P_ptr, P_ptr]),
     (''inet_conn_established'', False, [P_ptr, P_ptr]),
     (''secmark_relabel_packet'', True, [P_typedef ''u32'']),
     (''secmark_refcount_inc'', False, []),
     (''secmark_refcount_dec'', False, []),
     (''req_classify_flow'', False, [P_ptr, P_ptr]),
     (''tun_dev_alloc_security'', True, [P_ptr]),
     (''tun_dev_create'', True, []),
     (''tun_dev_attach_queue'', True, [P_ptr]),
     (''tun_dev_attach'', True, [P_ptr, P_ptr]),
     (''tun_dev_open'', True, [P_ptr]),
     (''sctp_assoc_request'', True, [P_ptr, P_ptr]),
     (''sctp_bind_connect'', True, [P_ptr, P_int, P_ptr, P_int]),
     (''sctp_sk_clone'', False, [P_ptr, P_ptr, P_ptr]),
     (''sctp_assoc_established'', True, [P_ptr, P_ptr]),
     (''mptcp_add_subflow'', True, [P_ptr, P_ptr]),
     (''xfrm_policy_alloc_security'', True, [P_ptr, P_ptr, P_typedef ''gfp_t'']),
     (''xfrm_policy_clone_security'', True, [P_ptr, P_ptr]),
     (''xfrm_policy_free_security'', False, [P_ptr]),
     (''xfrm_policy_delete_security'', True, [P_ptr]),
     (''xfrm_state_alloc'', True, [P_ptr, P_ptr]),
     (''xfrm_state_alloc_acquire'', True, [P_ptr, P_ptr, P_typedef ''u32'']),
     (''xfrm_state_free_security'', False, [P_ptr]),
     (''xfrm_state_delete_security'', True, [P_ptr]),
     (''xfrm_policy_lookup'', True, [P_ptr, P_typedef ''u32'']),
     (''xfrm_state_pol_flow_match'', True, [P_ptr, P_ptr, P_ptr]),
     (''xfrm_decode_session'', True, [P_ptr, P_ptr, P_int]),
     (''key_alloc'', True, [P_ptr, P_ptr, P_ulong]),
     (''key_permission'', True, [P_typedef ''key_ref_t'', P_ptr, P_enum ''key_need_perm'']),
     (''key_getsecurity'', True, [P_ptr, P_ptr]),
     (''key_post_create_or_update'', False, [P_ptr, P_ptr, P_ptr, P_typedef ''size_t'', P_ulong, P_bool]),
     (''audit_rule_init'', True, [P_typedef ''u32'', P_typedef ''u32'', P_ptr, P_ptr, P_typedef ''gfp_t'']),
     (''audit_rule_known'', True, [P_ptr]),
     (''audit_rule_match'', True, [P_typedef ''u32'', P_typedef ''u32'', P_typedef ''u32'', P_ptr]),
     (''audit_rule_free'', False, [P_ptr]),
     (''bpf'', True, [P_int, P_ptr, P_uint]),
     (''bpf_map'', True, [P_ptr, P_typedef ''fmode_t'']),
     (''bpf_prog'', True, [P_ptr]),
     (''bpf_map_create'', True, [P_ptr, P_ptr, P_ptr]),
     (''bpf_map_free'', False, [P_ptr]),
     (''bpf_prog_load'', True, [P_ptr, P_ptr, P_ptr]),
     (''bpf_prog_free'', False, [P_ptr]),
     (''bpf_token_create'', True, [P_ptr, P_ptr, P_ptr]),
     (''bpf_token_free'', False, [P_ptr]),
     (''bpf_token_cmd'', True, [P_ptr, P_enum ''bpf_cmd'']),
     (''bpf_token_capable'', True, [P_ptr, P_int]),
     (''locked_down'', True, [P_enum ''lockdown_reason'']),
     (''perf_event_open'', True, [P_ptr, P_int]),
     (''perf_event_alloc'', True, [P_ptr]),
     (''perf_event_read'', True, [P_ptr]),
     (''perf_event_write'', True, [P_ptr]),
     (''uring_override_creds'', True, [P_ptr]),
     (''uring_sqpoll'', True, []),
     (''uring_cmd'', True, [P_ptr]),
     (''initramfs_populated'', False, []),
     (''bdev_alloc_security'', True, [P_ptr]),
     (''bdev_free_security'', False, [P_ptr]),
     (''bdev_setintegrity'', True, [P_ptr, P_enum ''lsm_integrity_type'', P_ptr, P_typedef ''size_t''])]"

definition security_list_options :: "(string \<times> bool \<times> c_param list) list" where
  "security_list_options = security_list_options_1 @ security_list_options_2"

section \<open>The programs\<close>

text \<open>Section and parameters of each \<^verbatim>\<open>BPF_PROG\<close>.\<close>

definition lsm_programs :: "(string \<times> c_param list) list" where
  "lsm_programs = [
     (''bprm_check_security'', [P_ptr]),
     (''inode_create'', [P_ptr, P_ptr, P_typedef ''umode_t'']),
     (''inode_unlink'', [P_ptr, P_ptr]),
     (''socket_connect'', [P_ptr, P_ptr, P_int]),
     (''socket_sendmsg'', [P_ptr, P_ptr, P_int]),
     (''capable'', [P_ptr, P_ptr, P_int, P_uint]),
     (''sb_mount'', [P_ptr, P_ptr, P_ptr, P_ulong, P_ptr]),
     (''sb_pivotroot'', [P_ptr, P_ptr]),
     (''move_mount'', [P_ptr, P_ptr]),
     (''file_open'', [P_ptr])]"

lemma program_signatures:
  "list_all (\<lambda>(h, ps). (h, True, ps) \<in> set security_list_options) lsm_programs"
  by (simp add: lsm_programs_def security_list_options_def security_list_options_1_def
      security_list_options_2_def)

end
