(* ===== verification/Spec2Isabelle.thy ===== *)
theory Spec2Isabelle
  imports Decision_Pipeline Audit_Log Reference_Monitor Verdict_Loop Telemetry Bpf_Programs
begin

text \<open>
  A verification library for Jinn Guard: the BPF programs (\<^verbatim>\<open>src/bpf\<close>), the kernel interface of the daemon
  (\<^verbatim>\<open>src/ts_cli/src/ebpf_monitor.rs\<close>), its request pipeline (\<^verbatim>\<open>src/ts_cli/src/main.rs\<close>,
  \<^verbatim>\<open>governance.rs\<close>, \<^verbatim>\<open>system_immunity.rs\<close>) with its loop over kernel requests (also \<^verbatim>\<open>explainability.rs\<close>,
  \<^verbatim>\<open>metrics.rs\<close>) and the crates \<^verbatim>\<open>src/ts_wire\<close> and \<^verbatim>\<open>src/ts_checker\<close>.

  \<^bold>\<open>The program.\<close> Jinn Guard confines agents that run in a governed cgroup. Ten BPF programs are
  attached to LSM hooks: five of them (execve, file creation, file deletion, connect, sendmsg)
  look the operation up in policy maps, answer 0 or \<^verbatim>\<open>-EPERM\<close> and record a request in a ring buffer
  that all of them share; the other five (mount, pivot_root, move_mount, file_open, capable) are a
  floor that refuses without a record. Three more BPF programs are telemetry probes. A daemon in
  user space fills the policy maps before the programs are attached, polls the ring buffer, decodes
  the requests, decides them again in user space and writes verdicts back, which no hook reads; the
  telemetry of this loop is meant for the risk of the agents. Every object has its own control and policy maps; the ring
  buffer alone is shared. The daemon also serves a socket on which agents propose actions in signed
  packets: a packet passes a chain of gates (framing, signature, replay, identity, sequence, canaries,
  intents, runtime policy, quota), then a risk assessment, declarative invariants decided by Z3, a
  policy decision, an interpreter gate and a broker that may execute the action. Decisions are
  recorded in a hash-chained log, the personal data in them apart from the chain so that it can be erased.

  \<^bold>\<open>The theories.\<close>
  \<^item> \<open>Prelude\<close>: the word types, little-endian bytes, writing into and reading from a part of a
    buffer, C strings; the collections \<open>layout\<close> and \<open>hook_simps\<close>.
  \<^item> \<open>C_Layout\<close>: C types with the sizes, alignments and member offsets of the x86-64 ABI,
    bit-fields and packed records included.
  \<^item> \<open>Vmlinux_Types\<close>, \<open>Vmlinux_Task\<close>: the kernel types of \<^verbatim>\<open>bpf/vmlinux.h\<close> that the programs
    read, with every type they contain by value. \<open>Lsm_Hooks\<close>, \<open>Bpf_Programs\<close>: its hook table and
    its helper, program, attach and socket type numbers, with the programs of the
    repository checked against them.
  \<^item> \<open>Bpf_Runtime\<close>: the helper functions as the fields of \<open>bpf_env\<close>, an argument of every
    program; the contract of the read helpers over a partial memory as the locale \<open>probe_helpers\<close>;
    the ring buffer; map declarations. \<open>Kernel_Fields\<close>: offset, width and contents of every kernel
    field that is read.
  \<^item> \<open>Jg_Common\<close>: \<^verbatim>\<open>bpf/lsm/jg_common.h\<close> and \<^verbatim>\<open>bpf/common/maps.h\<close>. \<open>Jg_Paths\<close>: the correctness
    of its path routines.
  \<^item> \<open>Hook_Contract\<close>: the contract that all LSM hooks keep, as the locale \<open>lsm_hook\<close>, with its
    consequences for sequences of invocations. Every hook theory interprets it.
  \<^item> \<open>Governed_Floor\<close>: \<^verbatim>\<open>bpf/common/governed_floor.h\<close> and the five floor hooks. \<open>Bprm_Check\<close>,
    \<open>Inode_Hooks\<close>, \<open>Socket_Connect\<close>, \<open>Socket_Sendmsg\<close>: the five requesting hooks, each with its maps,
    a normal form, the contract and the decision in terms of kernel memory. The policy of one
    address family is the locale \<open>egress_policy\<close>, interpreted five times.
  \<^item> \<open>Telemetry\<close>: \<^verbatim>\<open>bpf/jg_events.h\<close> and the three probes, with the locale \<open>telemetry_probe\<close>.
  \<^item> \<open>Rust_Net\<close>: the IP address parsers and printers of the standard library, which undo each other.
  \<^item> \<open>Lsm_Daemon\<close>: decoding, routing, verdicts, map keys and map configuration of the daemon; aya's
    map insertion is an argument with the locales \<open>hash_map_api\<close> and \<open>bounded_map_api\<close>.
  \<^item> \<open>Jg_System\<close>: the ten hooks and the daemon as one step relation. \<open>Policy_Maps\<close>: which strings,
    addresses and directories a configured map stands for.
  \<^item> \<open>Daemon_Startup\<close>: loading the ten objects, filling their maps, attaching them, and the outcome of the
    start; the system is the record \<open>host\<close>, the crate the record \<open>aya\<close> with the locale \<open>aya_maps\<close>.
    \<open>Reference_Monitor\<close>: the abstract policy over strings and addresses, which the started kernel refines
    (locale \<open>started_kernel\<close>).
  \<^item> \<open>Lsm_Requests\<close>: what user space adds to a polled request, with the cache of created files.
    \<open>Lsm_Verdicts\<close>: the user-space verdict, intent tracking and alerts. \<open>Verdict_Loop\<close>: the loop over
    polled requests, its telemetry store and its counters (locale \<open>verdict_map_api\<close>).
  \<^item> \<open>Rust_Str\<close>, \<open>Rust_F64\<close>: the string functions and the floating-point numbers of Rust, with exact
    IEEE rounding, its error and its monotonicity.
  \<^item> \<open>Ts_Wire\<close>: framing, parsing and verification of packets. \<open>Ts_Checker\<close>: the nonce cache and the
    invariants as ground constraints for the solver.
  \<^item> \<open>Policy_Types\<close>: the policy, proposal, observation and lineage structures. \<open>Governed_Scope\<close>: path
    predicates and immunity. \<open>Admission\<close>: keys, secrets and the bounded replay cache.
  \<^item> \<open>Proposal_Gates\<close>: \<^verbatim>\<open>handle_client_connection\<close> from the bytes on the socket to the quota, and the
    critical sections of concurrent connections as a sequence of accesses. \<open>Risk_Assessment\<close>:
    classification, assessment, penalties, invariants and the policy decision. \<open>Shell_Commands\<close>: the
    interpreter gate. \<open>Execution_Broker\<close>: the hard rules and the decision of the broker.
    \<open>Decision_Pipeline\<close>: the rest of the handler, and the loop over the packets of a connection.
  \<^item> \<open>Audit_Log\<close>: the audit log of \<^verbatim>\<open>governance.rs\<close>: the hash chain in a file, its mirror in SQLite, the
    sealed personal data with its keys, pseudonyms and salt epochs, erasure and access. Chains of digests
    in general are the locale \<open>hash_chain\<close>.
  \<^item> this theory: the properties that lead from the policy to the decision.

  \<^bold>\<open>The model.\<close> A program is a function from its environment, its maps, its arguments and the ring
  buffer to its answer and the ring buffer; a hook's body is translated statement by statement, with
  its early returns. A map is a partial function, a looked-up flag is tested by \<open>map_flag\<close>. Character
  arrays are byte lists, pointers are 64-bit addresses, and an uninitialised variable holds
  whatever \<open>uninit\<close> gives. Loops of the source are recursive functions that count to the
  bound of the loop (128 characters, 12 dentries, 16 cgroup levels), so all programs are total and no
  fuel is needed; loops of the daemon whose end is not structural have a termination proof over a
  measure (the bytes left, the tokens left), and the one that returns from inside is a partial function
  that is shown to return (C37). The theorems about memory hold for all environments with
  \<open>probe_helpers env mem\<close>: a read that faults zeroes its destination, a string read copies up
  to the NUL and terminates what it cuts. \<open>with_memory\<close> is such an environment for any memory.

  Third-party code is an argument: the hash, hex and JSON functions of the wire crate (laws \<open>hex_crate\<close>,
  \<open>eq_crate\<close>, \<open>json_crate\<close>), Z3 (\<open>z3_sound\<close>: an answer other than unknown is right), the URL parser, the
  remote classifier, aya's calls (\<open>hash_map_api\<close>, \<open>aya_maps\<close>, and \<open>verdict_map_api\<close> for the LRU
  verdict maps, which may evict entries when they are full), the crates of the
  audit log (\<open>hex_lengths\<close>, \<open>hmac_lengths\<close>, \<open>pii_json_law\<close>, and \<open>serde_line\<close> of the entries), the hash of an identity, and what the daemon reads from the system
  (the records \<open>host\<close>, \<open>process_view\<close> and \<open>audit_env\<close>).

  \<^bold>\<open>What is shown.\<close> C1 is the refinement that spans kernel and daemon: after the start, the ten hooks answer
  any sequence of calls as the reference monitor over the strings of the policy. C2 and C29 are about
  the start: no hook is attached before the maps of all ten objects are filled, and exactly when the start
  succeeds. C3, C4, C26 and C40 characterise the answer of hooks on all branches. C5 goes
  from the configured UNIX lists to the decision, in all modes. C6 to C12 are about the running system: requests are not
  lost or reordered, no reservation leaks, only governed tasks of armed objects are refused, ungoverned tasks
  are invisible, verdicts have no influence, a full ring buffer fails closed, and refusals are recorded. C27
  compares the path walk with a path specified over memory alone, C30 is about the scope, C28 about the interface
  between kernel and user space. C15 to C19 are about the verdict loop: every request is answered, where its
  cookie tells it apart from those of other programs, the verdict is characterised, addresses are
  never refused in user space, a refused connect to an orchestrator is reported as allowed, and what the
  path cache remembers. C20 to C25 are about the audit log: when what is logged verifies, the last digest pins
  the log down, an entry that does not survive its line and lines lost at the end of the file as the two limits of the
  verification, and that erasure forgets and access returns what is held.
  C13 and C14 are the mediation theorems of the request pipeline: what an executed action and an admitted
  packet have passed. C31 to C33 are about the shared state of concurrent connections, the last one about a
  race in it, C34 to C36 about invariants and risk, C37 and C38 about shell commands, C39 about the
  enforcement scope. The other theorems are not numbered; many of them show further limits.

  \<^bold>\<open>Not modelled.\<close> The BPF verifier, the contents of the object files (what aya finds in them is the
  argument \<open>ebpf_load\<close>, with \<open>installed_objects\<close> for the maps that the sources declare) and the removal of
  stale pins; concurrent changes of a map during one invocation (every invocation sees one state of its
  maps); which entries an LRU map evicts; dropping privileges after the start; the copy of the reputations on disk, log
  lines and the texts of explanations; the calls of the audit log in the request handler and the signed
  manifests that can be attached to it; lineage storage, delegation tokens,
  fleet policies, gateway, the other metrics and the command line; the Python client, scripts and
  deployment files.
\<close>

section \<open>Keys of the hash maps\<close>

text \<open>The key structures of all hash maps have no padding, so that a key is determined by its
  fields; every map whose key is hashed is among these.\<close>

theorem hashed_keys_dense:
  "list_all (\<lambda>(nm, d). map_type d = BPF_MAP_TYPE_ARRAY \<or>
     (case map_key d of None \<Rightarrow> False | Some k \<Rightarrow> no_padding k))
     (connect_map_defs @ sendmsg_map_defs @ exec_map_defs @ create_map_defs @ unlink_map_defs @
      floor_map_defs @ capable_map_defs)"
  by (simp add: connect_map_defs_def sendmsg_map_defs_def exec_map_defs_def create_map_defs_def
      unlink_map_defs_def floor_map_defs_def capable_map_defs_def hash_map_def lru_hash_map_def
      array_map_def struct_jg_ipv6_key_def struct_jg_path_key_def struct_jg_inode_key_def
      struct_jg_dir_file_key_def jg_consts placement layout cong: layout_cong)

section \<open>From the policy to the decision\<close>

text \<open>C5: with the two UNIX lists that the daemon configures, a connect to a UNIX address is refused, in
  every mode, exactly when the task is governed, audit-only mode is off, the socket is a stream or datagram
  socket, and the ring buffer is full, or the path is one of the built-in orchestrator control sockets,
  or UNIX default-deny is on and the path is empty (so an abstract address) or none of the daemon's own socket
  and the sockets the policy allows, without the white space around them.\<close>

theorem orchestrator_sockets_denied:
  assumes "probe_helpers env mem" "hash_map_api ins"
    and "configure_unix_denylist ins Map.empty = Inr (unix_denylist m)"
    and "configure_unix_allowlist ins allowed daemon_socket Map.empty = Inr (unix_allowlist m)"
    and "list_all (\<lambda>e. nul_free (trim e)) (daemon_socket # allowed)"
    and "family_of mem address = 1"
  shows "fst (jg_socket_connect env m (sock, address, addrlen) rb) = - JG_EPERM \<longleftrightarrow>
    jg_in_governed_scope env (governed_scope m) \<and> \<not> jg_audit_only_enabled (runtime_controls m) \<and>
    sock_type_of mem sock \<in> {1, 2} \<and>
    (ringbuf_reserve env request_size = None \<or>
     sun_path_of mem address \<in> set ORCHESTRATOR_CONTROL_SOCKETS \<or>
     jg_unix_default_deny_enabled (runtime_controls m) \<and>
       (sun_path_of mem address = [] \<or> sun_path_of mem address \<notin> trim ` set (daemon_socket # allowed)))"
proof -
  have path: "nul_free (sun_path_of mem address)" "length (sun_path_of mem address) < 128"
    using length_name_str [of 108 mem "address + 2"] by simp_all
  have "connect_policy m mem address \<longleftrightarrow> sun_path_of mem address \<in> set ORCHESTRATOR_CONTROL_SOCKETS \<or>
      jg_unix_default_deny_enabled (runtime_controls m) \<and>
        (sun_path_of mem address = [] \<or> sun_path_of mem address \<notin> trim ` set (daemon_socket # allowed))"
    using unix_denylist_configured [OF assms(2,3) path] unix_allowlist_configured [OF assms(2,4) path assms(5)]
      assms(6) connect_unix.denied_iff [of m] by (auto simp: connect_policy_def Let_def)
  then show ?thesis
    using probe_helpers.connect_case_exact [OF assms(1), of m address]
      probe_helpers.socket_type_exact [OF assms(1), of sock] assms(6)
    by (auto simp: connect_eq JG_EPERM_def simp del: set_simps)
qed

text \<open>A stream socket at 0x1000 and the UNIX address \<^verbatim>\<open>/run/docker.sock\<close> at 0x2000.\<close>

definition docker_mem :: kmem where
  "docker_mem = mem_of [(0x1004, [1, 0]), (0x2000, [1, 0] @ byte_string ''/run/docker.sock'' @ [0])]"

lemma docker_mem_fields:
  "mem_field docker_mem 0x1000 struct_socket [''type''] = [1, 0]"
  "mem_field docker_mem 0x2000 struct_sockaddr [''sa_family''] = [1, 0]"
  unfolding mem_field_def field_addrs kernel_field_sizes by code_simp+

lemma docker_path: "name_str docker_mem 0x2002 108 = byte_string ''/run/docker.sock''"
  by code_simp

lemma unix_denylist_fits: "\<exists>m. configure_unix_denylist (bounded_insert 256) Map.empty = Inr m"
  unfolding configure_unix_denylist_def
proof (rule bounded.insert_entries_succeeds)
  show "\<forall>e\<in>set ORCHESTRATOR_CONTROL_SOCKETS. \<exists>k. path_key_checked e = Inr k"
    using orchestrator_entries by (auto simp: list_all_iff path_key_checked_eq)
qed (simp_all add: ORCHESTRATOR_CONTROL_SOCKETS_def)

lemma jinnguard_trim:
  "trim daemon_socket_file = daemon_socket_file" "nul_free daemon_socket_file" "daemon_socket_file \<noteq> []"
  "length daemon_socket_file < 128"
  by code_simp+

lemma unix_allowlist_fits:
  "configure_unix_allowlist (bounded_insert 256) [] daemon_socket_file Map.empty =
     Inr [nul_pad 128 daemon_socket_file \<mapsto> 1]"
  using jinnguard_trim by (simp add: configure_unix_allowlist_def path_key_checked_eq bounded_insert_def)

definition deputy_maps :: connect_maps where
  "deputy_maps = open_egress\<lparr>
     unix_denylist := projr (configure_unix_denylist (bounded_insert 256) Map.empty),
     unix_allowlist := projr (configure_unix_allowlist (bounded_insert 256) [] daemon_socket_file Map.empty)\<rparr>"

lemma deputy_maps_configured:
  "configure_unix_denylist (bounded_insert 256) Map.empty = Inr (unix_denylist deputy_maps)"
  "configure_unix_allowlist (bounded_insert 256) [] daemon_socket_file Map.empty = Inr (unix_allowlist deputy_maps)"
  using unix_denylist_fits unix_allowlist_fits by (auto simp: deputy_maps_def)

theorem orchestrator_sockets_denied_witness:
  "fst (jg_socket_connect (with_memory docker_mem quiet_env) deputy_maps (0x1000, 0x2000, 19)
      \<lparr>rb_records = [], rb_open = 0\<rparr>) = - JG_EPERM"
proof -
  have "byte_string ''/run/docker.sock'' \<in> set ORCHESTRATOR_CONTROL_SOCKETS"
    by (simp add: ORCHESTRATOR_CONTROL_SOCKETS_def)
  moreover have "governed_scope deputy_maps = Map.empty" "runtime_controls deputy_maps = Map.empty"
    by (simp_all add: deputy_maps_def)
  ultimately show ?thesis
    by (subst orchestrator_sockets_denied [OF nofault.probe_helpers_axioms
          bounded.hash_map_api_axioms deputy_maps_configured])
      (simp_all add: docker_mem_fields inet_words docker_path jinnguard_trim)
qed

text \<open>With the allowlist that the daemon configures from the immune and the allowed executables, and
  room in the ring buffer, a governed task outside audit-only mode may run a program exactly when its
  name, as the hook sees it, is one of the (trimmed) entries.\<close>

theorem exec_allowlist_enforced:
  assumes "probe_helpers env mem" "hash_map_api ins"
    and "configure_allowed_exec_paths ins immune allowed Map.empty = Inr (allowed_exec_paths m)"
    and "list_all (\<lambda>e. nul_free (trim e)) (immune @ allowed)"
    and "jg_in_governed_scope env (governed_scope m)" "\<not> jg_audit_only_enabled (runtime_controls m)"
    and "ringbuf_reserve env request_size \<noteq> None"
  shows "fst (jg_bprm_check_security env m bprm rb) = 0 \<longleftrightarrow>
    exec_name mem bprm \<noteq> [] \<and> exec_name mem bprm \<in> trim ` set (immune @ allowed)"
proof -
  have "map_flag (allowed_exec_paths m) (nul_pad 128 (exec_name mem bprm)) \<longleftrightarrow>
      exec_name mem bprm \<noteq> [] \<and> exec_name mem bprm \<in> trim ` set (immune @ allowed)"
    by (rule exec_paths_configured [OF assms(2,3) _ _ assms(4)]) (simp_all add: exec_name_def length_name_str)
  then show ?thesis
    using probe_helpers.exec_key_exact [OF assms(1), of bprm] assms(5-7) by (auto simp: bprm_eq)
qed

definition sh_maps :: exec_maps where
  "sh_maps = only_sh\<lparr>allowed_exec_paths :=
     projr (configure_allowed_exec_paths (bounded_insert 1024) [] [byte_string '' /sh''] Map.empty)\<rparr>"

lemma sh_maps_configured:
  "configure_allowed_exec_paths (bounded_insert 1024) [] [byte_string '' /sh''] Map.empty =
     Inr (allowed_exec_paths sh_maps)"
proof -
  have "trim (byte_string '' /sh'') = [0x2F, 0x73, 0x68]" by code_simp
  then show ?thesis
    by (simp add: sh_maps_def configure_allowed_exec_paths_def path_key_checked_eq bounded_insert_def)
qed

theorem exec_allowlist_enforced_witness:
  "fst (jg_bprm_check_security (with_memory sh_mem quiet_env) sh_maps 0x1000
      \<lparr>rb_records = [], rb_open = 0\<rparr>) = 0"
proof -
  have trim: "trim (byte_string '' /sh'') = [0x2F, 0x73, 0x68]" by code_simp
  have "governed_scope sh_maps = governed_scope only_sh" "runtime_controls sh_maps = runtime_controls only_sh"
    by (simp_all add: sh_maps_def)
  then show ?thesis
    by (subst exec_allowlist_enforced [OF nofault.probe_helpers_axioms bounded.hash_map_api_axioms
          sh_maps_configured])
      (simp_all add: trim sh_name)
qed

text \<open>With the IPv4 denylist that the daemon configures, and default-deny off, a governed task is
  refused to connect to an IPv4 address exactly when some entry of the policy, without surrounding
  white space and without a port, is that address in dotted decimal notation.\<close>

theorem ipv4_denylist_enforced:
  assumes "probe_helpers env mem" "hash_map_api ins"
    and "configure_ipv4_denylist ins entries Map.empty = Inr (ipv4_denylist m)"
    and "jg_in_governed_scope env (governed_scope m)" "\<not> jg_audit_only_enabled (runtime_controls m)"
    and "\<not> jg_connect_default_deny_enabled (runtime_controls m)" "ringbuf_reserve env request_size \<noteq> None"
    and "sock_type_of mem sock \<in> {1, 2}" "family_of mem address = 2"
  shows "fst (jg_socket_connect env m (sock, address, addrlen) rb) = - JG_EPERM \<longleftrightarrow>
    (\<exists>e\<in>set entries. trim e \<noteq> [] \<and>
       parse_ipv4 (hd (split_on 0x3A (trim e))) = Some (sin_addr_of mem address))"
proof -
  have "map_flag (ipv4_denylist m) (le_word (sin_addr_of mem address)) \<longleftrightarrow>
      (\<exists>e\<in>set entries. trim e \<noteq> [] \<and>
         parse_ipv4 (hd (split_on 0x3A (trim e))) = Some (sin_addr_of mem address))"
    by (rule ipv4_configured [OF assms(2,3)]) simp
  then show ?thesis
    using probe_helpers.connect_case_exact [OF assms(1), of m address]
      probe_helpers.socket_type_exact [OF assms(1), of sock] assms(4-9)
      connect_v4.allowlist_ignored_by_default [of m]
    by (auto simp: connect_eq connect_policy_def JG_EPERM_def Let_def)
qed

definition ip_maps :: connect_maps where
  "ip_maps = open_egress\<lparr>ipv4_denylist :=
     projr (configure_ipv4_denylist (bounded_insert 1024) [byte_string ''10.0.0.1:80''] Map.empty)\<rparr>"

lemma ip_entry:
  "trim (byte_string ''10.0.0.1:80'') = byte_string ''10.0.0.1:80''"
  "parse_ipv4 (hd (split_on 0x3A (byte_string ''10.0.0.1:80''))) = Some [10, 0, 0, 1]"
  "byte_string ''10.0.0.1:80'' \<noteq> []"
  by code_simp+

lemma ip_maps_configured:
  "configure_ipv4_denylist (bounded_insert 1024) [byte_string ''10.0.0.1:80''] Map.empty =
     Inr (ipv4_denylist ip_maps)"
  by (simp add: ip_maps_def configure_ipv4_denylist_def ipv4_policy_key_def ip_entry
      bounded_insert_def)

theorem ipv4_denylist_enforced_witness:
  "fst (jg_socket_connect (with_memory inet_mem quiet_env) ip_maps (0x1000, 0x2000, 16)
      \<lparr>rb_records = [], rb_open = 0\<rparr>) = - JG_EPERM"
proof -
  have "governed_scope ip_maps = Map.empty" "runtime_controls ip_maps = Map.empty"
    by (simp_all add: ip_maps_def)
  then show ?thesis
    by (subst ipv4_denylist_enforced [OF nofault.probe_helpers_axioms bounded.hash_map_api_axioms
          ip_maps_configured])
      (simp_all add: inet_mem_fields inet_words ip_entry)
qed

text \<open>When the daemon has configured a directory of the policy, and its \<^verbatim>\<open>stat\<close> data and the inode
  in the kernel are about the same directory (same inode number, and a device number with the major and
  minor number that the C library reports), then every governed creation of a regular file and
  every governed deletion in this directory is refused outside audit-only mode, whatever path leads
  to it.\<close>

theorem denied_directory_enforced:
  assumes "probe_helpers env mem" "hash_map_api ins"
    and "configure_denied_dir_inodes c_major c_minor metadata ins paths Map.empty = Inr (denied_dir_inodes m)"
    and "p \<in> set paths" "0x2F \<in> set (trim p)" "metadata (trim p) = Some md" "is_dir md"
    and "sb = le_word (mem_field mem dir struct_inode [''i_sb''])"
    and "d = le_word (mem_field mem sb struct_super_block [''s_dev''])"
    and "c_major (st_dev md) = drop_bit 20 (d :: u32)" "c_minor (st_dev md) = take_bit 20 d"
    and "st_ino md = le_word (mem_field mem dir struct_inode [''i_ino''])"
    and "dir \<noteq> 0" "dentry \<noteq> 0" "JG_S_ISREG mode"
    and "jg_in_governed_scope env (governed_scope m)" "\<not> jg_audit_only_enabled (runtime_controls m)"
  shows "fst (jg_inode_create env m (dir, dentry, mode) rb) = - JG_EPERM \<and>
    fst (jg_inode_unlink env m (dir, dentry) rb) = - JG_EPERM"
proof -
  have "dir_key_of mem dir = \<lparr>dev = kernel_dev_from_stat c_major c_minor (st_dev md), ino = st_ino md\<rparr>"
    using kernel_dev_agrees [of c_major "st_dev md" d c_minor, OF assms(10,11)] assms(8,9,12) by (simp add: dir_key_of_def Let_def)
  then have "map_flag (denied_dir_inodes m) (dir_key_of mem dir)"
    using dir_configured [OF assms(2-7)] by simp
  then have "inode_denied env m dir dentry"
    using probe_helpers.inode_denied_exact [OF assms(1,14), of m dir] assms(13)
    by (simp add: inode_policy_def)
  with assms(15-17) show ?thesis by (simp add: inode_create_eq inode_unlink_eq JG_EPERM_def)
qed

text \<open>The encoding of device numbers in \<^verbatim>\<open>st_dev\<close> by the C library: the minor number's low byte, then
  twelve bits of major number, then the rest of the minor number.\<close>

definition gnu_major :: "u64 \<Rightarrow> u32" where
  "gnu_major st = ucast (take_bit 12 (drop_bit 8 st))"

definition gnu_minor :: "u64 \<Rightarrow> u32" where
  "gnu_minor st = ucast (take_bit 8 st OR (drop_bit 12 st AND 0xFFF00))"

definition etc_metadata :: "byte list \<Rightarrow> file_metadata option" where
  "etc_metadata p =
     (if p = byte_string ''/etc'' then Some \<lparr>is_dir = True, st_dev = 0x801, st_ino = 5\<rparr> else None)"

definition etc_maps :: inode_maps where
  "etc_maps = dir5\<lparr>denied_dir_inodes := projr (configure_denied_dir_inodes gnu_major gnu_minor
     etc_metadata (bounded_insert 1024) [byte_string ''/etc''] Map.empty)\<rparr>"

lemma etc_trim: "trim (byte_string ''/etc'') = byte_string ''/etc''" "0x2F \<in> set (byte_string ''/etc'')"
  by code_simp+

lemma etc_maps_configured:
  "configure_denied_dir_inodes gnu_major gnu_minor etc_metadata (bounded_insert 1024)
     [byte_string ''/etc''] Map.empty = Inr (denied_dir_inodes etc_maps)"
  by (simp add: etc_maps_def configure_denied_dir_inodes_def denied_dir_inode_def etc_trim
      etc_metadata_def bounded_insert_def Let_def split: if_splits)

theorem denied_directory_enforced_witness:
  "fst (jg_inode_create (with_memory dir_mem quiet_env) etc_maps (0x1000, 0x4000, 0x81A4)
      \<lparr>rb_records = [], rb_open = 0\<rparr>) = - JG_EPERM"
proof -
  have words: "le_word [0, 0x30, 0, 0, 0, 0, 0, 0] = (0x3000 :: addr)"
    "le_word [1, 0, 0x80, 0] = (0x800001 :: u32)" "le_word [5, 0, 0, 0, 0, 0, 0, 0] = (5 :: u64)"
    by (simp_all add: le_word_def)
  have devs: "gnu_major 0x801 = 8" "gnu_minor 0x801 = 1"
    "drop_bit 20 (0x800001 :: u32) = 8" "take_bit 20 (0x800001 :: u32) = 1"
    by code_simp+
  have regular: "JG_S_ISREG 0x81A4" by (simp add: JG_S_ISREG_def S_IFMT_def S_IFREG_def)
  have ctl: "governed_scope etc_maps = governed_scope dir5" "runtime_controls etc_maps = runtime_controls dir5"
    by (simp_all add: etc_maps_def)
  show ?thesis
    by (rule denied_directory_enforced [OF nofault.probe_helpers_axioms
          bounded.hash_map_api_axioms etc_maps_configured, of "byte_string ''/etc''"
          "\<lparr>is_dir = True, st_dev = 0x801, st_ino = 5\<rparr>" "0x3000", THEN conjunct1])
      (simp_all add: etc_trim etc_metadata_def dir_mem_fields words devs(1,2) regular ctl,
        simp_all only: devs)
qed

text \<open>With the UNIX allowlist that the daemon configures, the control socket of Jinn Guard itself stays
  reachable in every mode, as long as it is not denylisted and the ring buffer has room.\<close>

theorem control_socket_reachable:
  assumes "probe_helpers env mem" "hash_map_api ins"
    and "configure_unix_allowlist ins allowed daemon_socket Map.empty = Inr (unix_allowlist m)"
    and "list_all (\<lambda>e. nul_free (trim e)) (daemon_socket # allowed)" "trim daemon_socket \<noteq> []"
    and "family_of mem address = 1" "sun_path_of mem address = trim daemon_socket"
    and "\<not> map_flag (unix_denylist m) (nul_pad 128 (trim daemon_socket))"
    and "ringbuf_reserve env request_size \<noteq> None"
  shows "fst (jg_socket_connect env m (sock, address, addrlen) rb) = 0"
proof -
  have "length (sun_path_of mem address) < 108" by (simp add: length_name_str)
  then have "map_flag (unix_allowlist m) (nul_pad 128 (trim daemon_socket))"
    using unix_allowlist_configured [OF assms(2,3) _ _ assms(4), of "trim daemon_socket"] assms(4,5,7)
    by simp
  then have "\<not> connect_policy m mem address"
    using assms(6-8) by (simp add: connect_policy_def connect_unix_denied_def Let_def)
  then show ?thesis
    using probe_helpers.connect_case_exact [OF assms(1), of m address] assms(9)
    by (auto simp: connect_eq)
qed

definition lockdown_maps :: connect_maps where
  "lockdown_maps = open_egress\<lparr>runtime_controls := [0 \<mapsto> 4], unix_allowlist :=
     projr (configure_unix_allowlist (bounded_insert 256) [] (byte_string ''/run/docker.sock'') Map.empty)\<rparr>"

lemma docker_trim:
  "trim (byte_string ''/run/docker.sock'') = byte_string ''/run/docker.sock''"
  "nul_free (byte_string ''/run/docker.sock'')" "byte_string ''/run/docker.sock'' \<noteq> []"
  "length (byte_string ''/run/docker.sock'') < 128"
  by code_simp+

lemma lockdown_maps_configured:
  "configure_unix_allowlist (bounded_insert 256) [] (byte_string ''/run/docker.sock'') Map.empty =
     Inr (unix_allowlist lockdown_maps)"
  using docker_trim
  by (simp add: lockdown_maps_def configure_unix_allowlist_def path_key_checked_eq bounded_insert_def)

theorem control_socket_reachable_witness:
  "fst (jg_socket_connect (with_memory docker_mem quiet_env) lockdown_maps (0x1000, 0x2000, 19)
      \<lparr>rb_records = [], rb_open = 0\<rparr>) = 0"
  by (rule control_socket_reachable [OF nofault.probe_helpers_axioms bounded.hash_map_api_axioms
        lockdown_maps_configured])
    (simp_all add: docker_trim docker_mem_fields inet_words docker_path lockdown_maps_def open_egress_def)

text \<open>Under UNIX default-deny, an abstract address (whose path starts with a NUL byte) is refused to
  every governed task outside audit-only mode: it reads as the empty path, which the configured
  allowlist never contains.\<close>

theorem abstract_sockets_denied:
  assumes "probe_helpers env mem" "hash_map_api ins"
    and "configure_unix_allowlist ins allowed daemon_socket Map.empty = Inr (unix_allowlist m)"
    and "list_all (\<lambda>e. nul_free (trim e)) (daemon_socket # allowed)"
    and "jg_in_governed_scope env (governed_scope m)" "\<not> jg_audit_only_enabled (runtime_controls m)"
    and "jg_unix_default_deny_enabled (runtime_controls m)" "sock_type_of mem sock \<in> {1, 2}"
    and "family_of mem address = 1" "mem (address + 2) = Some 0"
  shows "fst (jg_socket_connect env m (sock, address, addrlen) rb) = - JG_EPERM"
proof -
  have "str_at mem (address + 2) 108 = Some []" using assms(10) by (simp add: str_at_nul)
  then have path: "sun_path_of mem address = []" by (simp add: name_str_def)
  have "\<not> map_flag (unix_allowlist m) (nul_pad 128 [])"
    using unix_allowlist_configured [OF assms(2,3) _ _ assms(4), of "[]"] by simp
  then have "connect_policy m mem address"
    using assms(7,9) path by (simp add: connect_policy_def connect_unix_denied_def Let_def)
  then show ?thesis
    using probe_helpers.connect_case_exact [OF assms(1), of m address]
      probe_helpers.socket_type_exact [OF assms(1), of sock] assms(5,6,8,9)
    by (auto simp: connect_eq JG_EPERM_def)
qed

definition abstract_mem :: kmem where
  "abstract_mem = mem_of [(0x1004, [1, 0]), (0x2000, [1, 0, 0, 0x78])]"

theorem abstract_sockets_denied_witness:
  "fst (jg_socket_connect (with_memory abstract_mem quiet_env) lockdown_maps (0x1000, 0x2000, 4)
      \<lparr>rb_records = [], rb_open = 0\<rparr>) = - JG_EPERM"
proof -
  have fields: "mem_field abstract_mem 0x1000 struct_socket [''type''] = [1, 0]"
    "mem_field abstract_mem 0x2000 struct_sockaddr [''sa_family''] = [1, 0]"
    unfolding mem_field_def field_addrs kernel_field_sizes by code_simp+
  have nul: "abstract_mem (0x2000 + 2) = Some 0" by code_simp
  have "jg_unix_default_deny_enabled [0 \<mapsto> 4]" "\<not> jg_audit_only_enabled [0 \<mapsto> 4]"
    by (simp_all add: jg_unix_default_deny_enabled_def jg_audit_only_enabled_def control_bit_def
        JG_CONTROL_UNIX_DEFAULT_DENY_def JG_CONTROL_AUDIT_ONLY_def)
  moreover have "governed_scope lockdown_maps = Map.empty" "runtime_controls lockdown_maps = [0 \<mapsto> 4]"
    by (simp_all add: lockdown_maps_def)
  ultimately show ?thesis
    by (intro abstract_sockets_denied [OF nofault.probe_helpers_axioms bounded.hash_map_api_axioms
          lockdown_maps_configured])
      (simp_all add: docker_trim fields inet_words nul [simplified])
qed

section \<open>From the decision to the report\<close>

lemma orchestrator_paths_plain:
  "list_all (\<lambda>p. utf8_valid p \<and> nul_free p \<and> \<not> is_protected_system_path p) ORCHESTRATOR_CONTROL_SOCKETS"
  by code_simp

lemma orchestrator_connect_refused:
  assumes "probe_helpers env mem" "hash_map_api ins"
    and "configure_unix_denylist ins Map.empty = Inr (unix_denylist m)"
    and "jg_in_governed_scope env (governed_scope m)" "\<not> jg_audit_only_enabled (runtime_controls m)"
    and "ringbuf_reserve env request_size \<noteq> None"
    and "sock_type_of mem sock \<in> {1, 2}" "family_of mem address = 1"
    and "sun_path_of mem address \<in> set ORCHESTRATOR_CONTROL_SOCKETS"
  shows "jg_socket_connect env m (sock, address, addrlen) rb =
    (- JG_EPERM, rb\<lparr>rb_records := rb_records rb @
       [(base_request env REQ_CONNECT JG_SRC_SOCKET_CONNECT)
          \<lparr>family := 1, dest := nul_pad 108 (sun_path_of mem address)\<rparr>]\<rparr>)"
proof -
  have "length (sun_path_of mem address) < 108" by (simp add: length_name_str)
  then have "map_flag (unix_denylist m) (nul_pad 128 (sun_path_of mem address))"
    using assms(9) by (subst unix_denylist_configured [OF assms(2,3)]) simp_all
  then have "connect_policy m mem address"
    using assms(8) by (simp add: connect_policy_def connect_unix_denied_def Let_def)
  then show ?thesis
    using probe_helpers.connect_case_exact [OF assms(1), of m address]
      probe_helpers.socket_type_exact [OF assms(1), of sock] assms(4-8)
    by (auto simp: connect_eq JG_EPERM_def dest_of_def)
qed

lemma deputy_request_read:
  assumes "sun_path_of mem address \<in> set ORCHESTRATOR_CONTROL_SOCKETS"
    and q_def: "q = (base_request env REQ_CONNECT JG_SRC_SOCKET_CONNECT)
      \<lparr>family := 1, dest := nul_pad 108 (sun_path_of mem address)\<rparr>"
  shows "try_from (raw_of_bytes (encode_request q)) = Inr (request_view q (Text (sun_path_of mem address)))"
proof -
  have path: "utf8_valid (sun_path_of mem address)" "nul_free (sun_path_of mem address)"
    using assms(1) orchestrator_paths_plain by (auto simp: list_all_iff)
  have "length (nul_pad 108 (sun_path_of mem address)) = 108"
    by (simp add: length_nul_pad length_name_str less_imp_le)
  then have "wf_request q"
    using wf_base_request [of env REQ_CONNECT JG_SRC_SOCKET_CONNECT] by (simp add: q_def wf_request_def jg_consts)
  then show ?thesis
    using path by (simp add: decode_encoded resource_view_def q_def base_request_def c_str_nul_pad Let_def)
qed

text \<open>C18: a connect of a governed task, over a stream or datagram socket, to an orchestrator control socket
  that the kernel refuses by its denylist, with audit-only mode off and room in the ring buffer, is
  reported as allowed: unless the socket's path lies in the governed scope of user space, the polled request is
  decided again without the denylist, answered Allow, and the alert is raised with \<open>denied\<close> unset, whatever
  the policy, the UNIX default-deny included, and the mode. (A refusal for want of room in the ring
  buffer is not reported at all.)\<close>

theorem refused_deputy_reported_allowed:
  assumes "probe_helpers env mem" "hash_map_api ins"
    and "configure_unix_denylist ins Map.empty = Inr (unix_denylist m)"
    and "jg_in_governed_scope env (governed_scope m)" "\<not> jg_audit_only_enabled (runtime_controls m)"
    and "ringbuf_reserve env request_size \<noteq> None"
    and "sock_type_of mem sock \<in> {1, 2}" "family_of mem address = 1"
    and "sun_path_of mem address \<in> set ORCHESTRATOR_CONTROL_SOCKETS"
    and "\<not> path_is_governed scope (sun_path_of mem address)"
  shows "\<exists>q r a. jg_socket_connect env m (sock, address, addrlen) rb = (- JG_EPERM, rb\<lparr>rb_records := rb_records rb @ [q]\<rparr>) \<and>
    try_from (raw_of_bytes (encode_request q)) = Inr r \<and>
    fst (lsm_policy_verdict hash scope view policy safe_mode (complete_request view' r) st) = Verdict.Allow \<and>
    classify_deputy_connect (complete_request view' r)
      (fst (lsm_policy_verdict hash scope view policy safe_mode (complete_request view' r) st)) = Some a \<and>
    al_socket a = sun_path_of mem address \<and> \<not> al_denied a"
proof -
  define q where "q = (base_request env REQ_CONNECT JG_SRC_SOCKET_CONNECT)
    \<lparr>family := 1, dest := nul_pad 108 (sun_path_of mem address)\<rparr>"
  let ?r = "request_view q (Text (sun_path_of mem address))"
  let ?req = "complete_request view' ?r"
  let ?v = "fst (lsm_policy_verdict hash scope view policy safe_mode ?req st)"
  have r: "l_req_type ?r = Connect" "l_family ?r = 1" "l_resource ?r = Text (sun_path_of mem address)"
    by (simp_all add: request_view_def q_def base_request_def)
  then have req: "effective_path ?req = sun_path_of mem address" "l_req_type ?req = Connect" "l_family ?req = AF_UNIX"
    using complete_request_network [of ?r view'] by (simp_all add: AF_UNIX_def)
  have v: "?v = Verdict.Allow"
    using assms(9,10) orchestrator_paths_plain by (auto simp: verdict_unfold req list_all_iff)
  obtain orch where "orchestrator_control_socket (sun_path_of mem address) = Some orch"
    using assms(9) orchestrator_listed [of "sun_path_of mem address"] by auto
  then have "\<exists>a. classify_deputy_connect ?req ?v = Some a \<and> al_socket a = sun_path_of mem address \<and> \<not> al_denied a"
    by (simp add: classify_deputy_connect_def req v)
  then show ?thesis
    using orchestrator_connect_refused [OF assms(1-9), of addrlen rb] deputy_request_read [OF assms(9) q_def] v
    unfolding q_def [symmetric] by blast
qed

theorem refused_deputy_reported_allowed_witness:
  "\<exists>r. fst (jg_socket_connect (with_memory docker_mem quiet_env) deputy_maps (0x1000, 0x2000, 19)
        \<lparr>rb_records = [], rb_open = 0\<rparr>) = - JG_EPERM \<and>
     map_option al_denied (classify_deputy_connect (complete_request (blind_view 1000) r)
       (fst (lsm_policy_verdict (\<lambda>_ _. 0) [] (blind_view 1000) strict_policy False (complete_request (blind_view 1000) r)
          no_intents))) = Some False"
proof -
  have docker: "byte_string ''/run/docker.sock'' \<in> set ORCHESTRATOR_CONTROL_SOCKETS"
    by (simp add: ORCHESTRATOR_CONTROL_SOCKETS_def)
  have "\<not> path_is_governed [] (byte_string ''/run/docker.sock'')" by code_simp
  moreover have "governed_scope deputy_maps = Map.empty" "runtime_controls deputy_maps = Map.empty"
    by (simp_all add: deputy_maps_def)
  ultimately have "\<exists>q r a. jg_socket_connect (with_memory docker_mem quiet_env) deputy_maps (0x1000, 0x2000, 19)
        \<lparr>rb_records = [], rb_open = 0\<rparr> = (- JG_EPERM, \<lparr>rb_records = [], rb_open = 0\<rparr>\<lparr>rb_records :=
          rb_records \<lparr>rb_records = [], rb_open = 0\<rparr> @ [q]\<rparr>) \<and>
      try_from (raw_of_bytes (encode_request q)) = Inr r \<and>
      fst (lsm_policy_verdict (\<lambda>_ _. 0) [] (blind_view 1000) strict_policy False (complete_request (blind_view 1000) r)
        no_intents) = Verdict.Allow \<and>
      classify_deputy_connect (complete_request (blind_view 1000) r)
        (fst (lsm_policy_verdict (\<lambda>_ _. 0) [] (blind_view 1000) strict_policy False (complete_request (blind_view 1000) r)
          no_intents)) = Some a \<and>
      al_socket a = sun_path_of docker_mem 0x2000 \<and> \<not> al_denied a"
    using docker
    by (intro refused_deputy_reported_allowed [OF nofault.probe_helpers_axioms
          bounded.hash_map_api_axioms deputy_maps_configured(1)])
      (simp_all add: docker_mem_fields inet_words docker_path)
  then show ?thesis by auto
qed

end
